(* ===== verification/Prelude.thy ===== *)
theory Prelude
  imports Complex_Main "HOL-Library.Word"
begin

text \<open>
  Shared vocabulary of the development: the machine integer types of the C sources, the
  collections of rewrite rules the component proofs use, and generic facts on lists (C arrays
  are lists updated by index), on sums over arrays and on finding in lists.

  A memory access that C leaves undefined (an index outside the array) is an explicit
  \<open>None\<close> in the model, never an unspecified value: \<open>rd_at\<close> and \<open>wr_at\<close> are the
  checked accesses.
\<close>

unbundle bit_operations_syntax

type_synonym u8 = "8 word"
type_synonym u16 = "16 word"
type_synonym u32 = "32 word"

named_theorems fp_eval \<open>evaluation of floating-point operations on concrete values\<close>
named_theorems frame \<open>fields an operation leaves alone\<close>
named_theorems enc \<open>bit fields of encoded instruction words\<close>

section \<open>Checked array accesses\<close>

definition rd_at :: "'a list \<Rightarrow> int \<Rightarrow> 'a option" where
  "rd_at xs i = (if 0 \<le> i \<and> i < int (length xs) then Some (xs ! nat i) else None)"

definition wr_at :: "'a list \<Rightarrow> int \<Rightarrow> 'a \<Rightarrow> 'a list option" where
  "wr_at xs i v = (if 0 \<le> i \<and> i < int (length xs) then Some (xs[nat i := v]) else None)"

lemma rd_at_Some [simp]: "0 \<le> i \<Longrightarrow> i < int (length xs) \<Longrightarrow> rd_at xs i = Some (xs ! nat i)"
  by (simp add: rd_at_def)

lemma rd_at_None [simp]: "i < 0 \<or> int (length xs) \<le> i \<Longrightarrow> rd_at xs i = None"
  by (auto simp: rd_at_def)

lemma wr_at_Some [simp]: "0 \<le> i \<Longrightarrow> i < int (length xs) \<Longrightarrow> wr_at xs i v = Some (xs[nat i := v])"
  by (simp add: wr_at_def)

lemma wr_at_None [simp]: "i < 0 \<or> int (length xs) \<le> i \<Longrightarrow> wr_at xs i v = None"
  by (auto simp: wr_at_def)

lemma rd_at_uint [simp]: "unat w < length xs \<Longrightarrow> rd_at xs (uint w) = Some (xs ! unat w)"
proof -
  assume "unat w < length xs"
  then have "int (unat w) < int (length xs)" by (rule of_nat_less_iff[THEN iffD2])
  then show ?thesis by (simp add: rd_at_def)
qed

lemma rd_at_SomeD: "rd_at xs i = Some x \<Longrightarrow> 0 \<le> i \<and> i < int (length xs) \<and> x = xs ! nat i"
  by (auto simp: rd_at_def split: if_splits)

lemma wr_at_SomeD:
  "wr_at xs i v = Some ys \<Longrightarrow> 0 \<le> i \<and> i < int (length xs) \<and> ys = xs[nat i := v]"
  by (auto simp: wr_at_def split: if_splits)

lemma wr_at_length: "wr_at xs i v = Some ys \<Longrightarrow> length ys = length xs"
  by (auto dest: wr_at_SomeD)

section \<open>Sums over arrays\<close>

lemma sum_list_update_real:
  fixes xs :: "real list"
  shows "i < length xs \<Longrightarrow> sum_list (xs[i := v]) = sum_list xs - xs ! i + v"
  by (induction xs arbitrary: i) (auto simp: nth_Cons split: nat.splits)

lemma sum_list_abs_bound:
  fixes xs :: "real list"
  shows "(\<forall>x\<in>set xs. \<bar>x\<bar> \<le> B) \<Longrightarrow> \<bar>sum_list xs\<bar> \<le> real (length xs) * B"
proof (induction xs)
  case (Cons x xs)
  then have "\<bar>sum_list xs\<bar> \<le> real (length xs) * B" and "\<bar>x\<bar> \<le> B" by auto
  moreover have "\<bar>x + sum_list xs\<bar> \<le> \<bar>x\<bar> + \<bar>sum_list xs\<bar>" by (rule abs_triangle_ineq)
  ultimately show ?case by (simp add: algebra_simps)
qed simp

section \<open>Searching a range of integers\<close>

lemma find_upto_least:
  assumes mono: "\<And>i j :: int. i \<le> j \<Longrightarrow> P i \<Longrightarrow> P j"
    and "lo \<le> hi" and "P hi"
  obtains e where "find P [lo..hi] = Some e" "lo \<le> e" "e \<le> hi" "P e"
    "\<And>i. lo \<le> i \<Longrightarrow> i < e \<Longrightarrow> \<not> P i"
proof -
  have "find P [lo..hi] \<noteq> None"
    using assms(2,3) unfolding find_None_iff by auto
  then obtain e where e: "find P [lo..hi] = Some e" by blast
  then obtain k where k: "k < length [lo..hi]" "P ([lo..hi] ! k)" "e = [lo..hi] ! k"
      "\<And>j. j < k \<Longrightarrow> \<not> P ([lo..hi] ! j)"
    by (auto simp: find_Some_iff)
  have nth: "j < length [lo..hi] \<Longrightarrow> [lo..hi] ! j = lo + int j" for j
    by simp
  have "\<not> P i" if "lo \<le> i" "i < e" for i
  proof -
    have "nat (i - lo) < k" using that k(1,3) nth[of k] by auto
    with k(4)[of "nat (i - lo)"] k(1) nth[of "nat (i - lo)"] that show ?thesis by auto
  qed
  moreover have "lo \<le> e" "e \<le> hi" using k(1,3) nth[of k] by auto
  ultimately show thesis using that e k(2,3) by auto
qed

section \<open>Machine integers\<close>

lemma sint_small: "unat (x :: u32) < 2 ^ 31 \<Longrightarrow> sint x = int (unat x)"
proof -
  assume "unat x < 2 ^ 31"
  then have "int (unat x) < int (2 ^ 31)" by (rule of_nat_less_iff[THEN iffD2])
  then have b: "uint x < 2 ^ 31" by simp
  have "sint x = signed_take_bit 31 (uint x)" by (simp add: sint_uint)
  also have "\<dots> = uint x"
    by (rule signed_take_bit_int_eq_self) (use b in \<open>auto intro: order_trans[OF _ uint_ge_0]\<close>)
  finally show ?thesis by simp
qed

section \<open>Running a partial step function over a list of inputs\<close>

fun run_opt :: "('m \<Rightarrow> 'a \<Rightarrow> 'm option) \<Rightarrow> 'm \<Rightarrow> 'a list \<Rightarrow> 'm option" where
  "run_opt step m [] = Some m"
| "run_opt step m (x # xs) = (case step m x of None \<Rightarrow> None | Some m' \<Rightarrow> run_opt step m' xs)"

lemma run_opt_append:
  "run_opt step m (xs @ ys) = Option.bind (run_opt step m xs) (\<lambda>m'. run_opt step m' ys)"
  by (induction xs arbitrary: m) (auto split: option.splits)

text \<open>
  A step that always succeeds from a state satisfying an invariant indexed by the number of
  steps done: so does the whole run.
\<close>

lemma run_opt_invariant:
  assumes step: "\<And>m x n. P n m \<Longrightarrow> x \<in> set xs \<Longrightarrow> n < k + length xs \<Longrightarrow> \<exists>m'. step m x = Some m' \<and> P (Suc n) m'"
    and "P k m"
  shows "\<exists>m'. run_opt step m xs = Some m' \<and> P (k + length xs) m'"
  using assms
proof (induction xs arbitrary: m k)
  case (Cons x xs)
  obtain m1 where m1: "step m x = Some m1" "P (Suc k) m1"
    using Cons.prems(1)[OF Cons.prems(2), of x] by auto
  have "\<exists>m'. run_opt step m1 xs = Some m' \<and> P (Suc k + length xs) m'"
    by (rule Cons.IH) (use Cons.prems(1) m1(2) in auto)
  with m1(1) show ?case by auto
qed auto

text \<open>A counted loop: the invariant is indexed by the counter.\<close>

lemma run_opt_upt:
  assumes "\<And>k s. k < n \<Longrightarrow> P k s \<Longrightarrow> \<exists>s'. step s k = Some s' \<and> P (Suc k) s'" and "P 0 s"
  shows "\<exists>s'. run_opt step s [0..<n] = Some s' \<and> P n s'"
  using assms
proof (induction n)
  case (Suc n)
  then obtain s1 where s1: "run_opt step s [0..<n] = Some s1" "P n s1" by auto
  from Suc.prems(1)[OF lessI s1(2)] obtain s2 where "step s1 n = Some s2" "P (Suc n) s2" by blast
  with s1(1) show ?case by (auto simp: run_opt_append)
qed simp

text \<open>A counter that is reset at \<open>c\<close> is the remainder.\<close>

lemma counter_reset: "0 < c \<Longrightarrow> c \<le> k mod c + 1 \<Longrightarrow> Suc k mod c = 0 \<and> Suc k div c = Suc (k div c) \<and> Suc k = c * Suc (k div c)"
proof -
  assume c: "0 < c" "c \<le> k mod c + 1"
  then have "Suc (k mod c) = c" using mod_less_divisor[of c k] by linarith
  moreover have "c * (k div c) + k mod c = k" by (rule mult_div_mod_eq)
  ultimately have e: "Suc k = c * Suc (k div c)" unfolding mult_Suc_right by linarith
  then have "Suc k mod c = 0" "Suc k div c = Suc (k div c)" using c(1) by (simp_all only: e nonzero_mult_div_cancel_left) simp_all
  with e show ?thesis by blast
qed

lemma counter_runs: "\<not> c \<le> k mod c + 1 \<Longrightarrow> Suc k mod c = k mod c + 1 \<and> Suc k div c = k div c"
  by (simp add: mod_Suc div_Suc)

end
