(* ===== verification/Fp.thy ===== *)
theory Fp
  imports Prelude
begin

text \<open>
  Floating-point arithmetic as the C sources use it (\<open>float\<close> and \<open>double\<close> of the ARM
  hard-float target, IEEE 754 binary32 and binary64, round to nearest even, no contraction).

  A value is NaN, an infinity with its sign, the negative zero, or a finite real. An operation
  computes the exact real result and hands it to a rounding function \<open>rd\<close>, the parameter
  through which the C standard's freedom enters; \<open>ieee\<close> is the rounding of the target and
  \<open>exact\<close> the identity, the abstract specification against which the numeric code is read.
  The locale \<open>rounding\<close> states what the components rely on, and is interpreted on both.
\<close>

section \<open>Values and formats\<close>

datatype fmt = SGL | DBL

fun fprec :: "fmt \<Rightarrow> nat" where
  "fprec SGL = 24"
| "fprec DBL = 53"

fun qmin :: "fmt \<Rightarrow> int" where
  "qmin SGL = -149"
| "qmin DBL = -1074"

fun qmax :: "fmt \<Rightarrow> int" where
  "qmax SGL = 104"
| "qmax DBL = 971"

datatype fp = FNaN | FInf bool | FNegZero | FFin real

type_synonym rnd = "fmt \<Rightarrow> real \<Rightarrow> fp"

fun valof :: "fp \<Rightarrow> real" where
  "valof (FFin r) = r"
| "valof _ = 0"

fun fsign :: "fp \<Rightarrow> bool" where
  "fsign FNaN = False"
| "fsign (FInf s) = s"
| "fsign FNegZero = True"
| "fsign (FFin r) = (r < 0)"

fun is_fin :: "fp \<Rightarrow> bool" where
  "is_fin FNaN = False"
| "is_fin (FInf s) = False"
| "is_fin FNegZero = True"
| "is_fin (FFin r) = True"

definition signed_zero :: "bool \<Rightarrow> fp \<Rightarrow> fp" where
  "signed_zero s v = (if s \<and> v = FFin 0 then FNegZero else v)"

section \<open>Rounding\<close>

text \<open>Round to the nearest integer, ties to even.\<close>

definition rhe :: "real \<Rightarrow> int" where
  "rhe x = (let k = \<lfloor>x\<rfloor>; d = x - of_int k in
     if d < 1/2 then k else if 1/2 < d then k + 1 else if even k then k else k + 1)"

text \<open>The exponent of the last place: the least one whose binade holds the number.\<close>

definition quantum :: "fmt \<Rightarrow> real \<Rightarrow> int option" where
  "quantum f x = find (\<lambda>e. \<bar>x\<bar> < 2 powi (int (fprec f) + e)) [qmin f..qmax f]"

definition ieee :: rnd where
  "ieee f x = (case quantum f x of
      None \<Rightarrow> FInf (x < 0)
    | Some e \<Rightarrow> (let m = rhe (x / 2 powi e) in
        if \<bar>m\<bar> = 2 ^ fprec f \<and> e = qmax f then FInf (x < 0)
        else FFin (of_int m * 2 powi e)))"

definition exact :: rnd where
  "exact f x = FFin x"

section \<open>Operations\<close>

fun fneg :: "fp \<Rightarrow> fp" where
  "fneg FNaN = FNaN"
| "fneg (FInf s) = FInf (\<not> s)"
| "fneg FNegZero = FFin 0"
| "fneg (FFin r) = (if r = 0 then FNegZero else FFin (- r))"

fun fadd :: "rnd \<Rightarrow> fmt \<Rightarrow> fp \<Rightarrow> fp \<Rightarrow> fp" where
  "fadd rd f FNaN b = FNaN"
| "fadd rd f a FNaN = FNaN"
| "fadd rd f (FInf s) (FInf t) = (if s = t then FInf s else FNaN)"
| "fadd rd f (FInf s) b = FInf s"
| "fadd rd f a (FInf t) = FInf t"
| "fadd rd f FNegZero FNegZero = FNegZero"
| "fadd rd f a b = rd f (valof a + valof b)"

definition fsub :: "rnd \<Rightarrow> fmt \<Rightarrow> fp \<Rightarrow> fp \<Rightarrow> fp" where
  "fsub rd f a b = fadd rd f a (fneg b)"

definition fmul :: "rnd \<Rightarrow> fmt \<Rightarrow> fp \<Rightarrow> fp \<Rightarrow> fp" where
  "fmul rd f a b = (let s = (fsign a \<noteq> fsign b) in
     if a = FNaN \<or> b = FNaN then FNaN
     else if is_fin a \<and> is_fin b then signed_zero s (rd f (valof a * valof b))
     else if is_fin a \<and> valof a = 0 \<or> is_fin b \<and> valof b = 0 then FNaN
     else FInf s)"

definition fdiv :: "rnd \<Rightarrow> fmt \<Rightarrow> fp \<Rightarrow> fp \<Rightarrow> fp" where
  "fdiv rd f a b = (let s = (fsign a \<noteq> fsign b) in
     if a = FNaN \<or> b = FNaN then FNaN
     else if \<not> is_fin a then (if is_fin b then FInf s else FNaN)
     else if \<not> is_fin b then signed_zero s (FFin 0)
     else if valof b = 0 then (if valof a = 0 then FNaN else FInf s)
     else signed_zero s (rd f (valof a / valof b)))"

fun fsqrt :: "rnd \<Rightarrow> fmt \<Rightarrow> fp \<Rightarrow> fp" where
  "fsqrt rd f FNaN = FNaN"
| "fsqrt rd f (FInf s) = (if s then FNaN else FInf False)"
| "fsqrt rd f FNegZero = FNegZero"
| "fsqrt rd f (FFin r) = (if r < 0 then FNaN else rd f (sqrt r))"

text \<open>Conversion between formats, from integers, and of decimal constants.\<close>

fun fcvt :: "rnd \<Rightarrow> fmt \<Rightarrow> fp \<Rightarrow> fp" where
  "fcvt rd f (FFin r) = signed_zero (r < 0) (rd f r)"
| "fcvt rd f a = a"

definition f_of_int :: "rnd \<Rightarrow> fmt \<Rightarrow> int \<Rightarrow> fp" where
  "f_of_int rd f n = rd f (of_int n)"

definition fconst :: "rnd \<Rightarrow> fmt \<Rightarrow> real \<Rightarrow> fp" where
  "fconst rd f r = rd f r"

fun ffloor :: "fp \<Rightarrow> fp" where
  "ffloor (FFin r) = FFin (of_int \<lfloor>r\<rfloor>)"
| "ffloor a = a"

text \<open>The comparisons of C: every one of them is false on NaN, except \<open>!=\<close>.\<close>

fun flt :: "fp \<Rightarrow> fp \<Rightarrow> bool" where
  "flt FNaN b = False"
| "flt a FNaN = False"
| "flt (FInf s) (FInf t) = (s \<and> \<not> t)"
| "flt (FInf s) b = s"
| "flt a (FInf t) = (\<not> t)"
| "flt a b = (valof a < valof b)"

definition feq :: "fp \<Rightarrow> fp \<Rightarrow> bool" where
  "feq a b = (a \<noteq> FNaN \<and> b \<noteq> FNaN \<and>
     (if is_fin a \<and> is_fin b then valof a = valof b else a = b))"

definition fle :: "fp \<Rightarrow> fp \<Rightarrow> bool" where
  "fle a b = (flt a b \<or> feq a b)"

definition fgt :: "fp \<Rightarrow> fp \<Rightarrow> bool" where
  "fgt a b = flt b a"

lemma fgt_irrefl: "\<not> fgt a a"
  by (cases a) (auto simp: fgt_def)

abbreviation fzero :: fp where
  "fzero \<equiv> FFin 0"

section \<open>Facts about rounding to nearest even\<close>

lemma rhe_of_int [simp]: "rhe (of_int n) = n"
  by (simp add: rhe_def)

lemma rhe_err: "\<bar>of_int (rhe x) - x\<bar> \<le> 1/2"
proof -
  have "of_int \<lfloor>x\<rfloor> \<le> x" "x < of_int \<lfloor>x\<rfloor> + 1" by linarith+
  then show ?thesis unfolding rhe_def Let_def by (auto simp: abs_le_iff)
qed

lemma rhe_mono: "x \<le> y \<Longrightarrow> rhe x \<le> rhe y"
proof -
  assume "x \<le> y"
  then have k: "\<lfloor>x\<rfloor> \<le> \<lfloor>y\<rfloor>" by (rule floor_mono)
  show ?thesis
  proof (cases "\<lfloor>x\<rfloor> = \<lfloor>y\<rfloor>")
    case True
    with \<open>x \<le> y\<close> show ?thesis by (auto simp: rhe_def Let_def)
  next
    case False
    with k have "\<lfloor>x\<rfloor> + 1 \<le> \<lfloor>y\<rfloor>" by simp
    moreover have "rhe x \<le> \<lfloor>x\<rfloor> + 1" by (auto simp: rhe_def Let_def)
    moreover have "\<lfloor>y\<rfloor> \<le> rhe y" by (auto simp: rhe_def Let_def)
    ultimately show ?thesis by linarith
  qed
qed

lemma rhe_nonneg: "0 \<le> x \<Longrightarrow> 0 \<le> rhe x"
  using rhe_mono[of 0 x] rhe_of_int[of 0] by simp

lemma rhe_nonpos: "x \<le> 0 \<Longrightarrow> rhe x \<le> 0"
  using rhe_mono[of x 0] rhe_of_int[of 0] by simp

lemma rhe_bound: "\<bar>x\<bar> \<le> of_int n \<Longrightarrow> \<bar>rhe x\<bar> \<le> n"
proof -
  assume "\<bar>x\<bar> \<le> of_int n"
  then have "x \<le> of_int n" "of_int (- n) \<le> x" by auto
  then have "rhe x \<le> rhe (of_int n)" and "rhe (of_int (- n)) \<le> rhe x"
    by (blast intro: rhe_mono)+
  then show ?thesis unfolding rhe_of_int by linarith
qed

text \<open>
  The numbers of a format: multiples of a power of two with at most \<open>fprec\<close> significant bits.
\<close>

definition repr :: "fmt \<Rightarrow> real \<Rightarrow> bool" where
  "repr f x = (\<exists>m e. x = of_int m * 2 powi e \<and> \<bar>m\<bar> < 2 ^ fprec f \<and> qmin f \<le> e \<and> e \<le> qmax f)"

definition fmax :: "fmt \<Rightarrow> real" where
  "fmax f = (2 ^ fprec f - 1) * 2 powi qmax f"

lemma q_le [simp]: "qmin f \<le> qmax f"
  by (cases f) auto

lemma powi_add2: "(2::real) powi (a + b) = 2 powi a * 2 powi b"
  by (simp add: power_int_add)

lemma powi_nat2: "(2::real) powi int n = 2 ^ n"
  by simp

lemma powi_mono2: "a \<le> b \<Longrightarrow> (2::real) powi a \<le> 2 powi b"
  by (intro power_int_increasing) auto

lemma quantum_cases:
  assumes "\<bar>x\<bar> < 2 powi (int (fprec f) + qmax f)"
  obtains e where "quantum f x = Some e" "qmin f \<le> e" "e \<le> qmax f"
    "\<bar>x\<bar> < 2 powi (int (fprec f) + e)"
    "e = qmin f \<or> 2 powi (int (fprec f) + e - 1) \<le> \<bar>x\<bar>"
    "\<And>i. qmin f \<le> i \<Longrightarrow> i < e \<Longrightarrow> 2 powi (int (fprec f) + i) \<le> \<bar>x\<bar>"
proof -
  let ?P = "\<lambda>e. \<bar>x\<bar> < 2 powi (int (fprec f) + e)"
  have mono: "?P j" if "i \<le> j" "?P i" for i j
    using that powi_mono2[of "int (fprec f) + i" "int (fprec f) + j"] by linarith
  obtain e where e: "find ?P [qmin f..qmax f] = Some e" "qmin f \<le> e" "e \<le> qmax f" "?P e"
      "\<And>i. qmin f \<le> i \<Longrightarrow> i < e \<Longrightarrow> \<not> ?P i"
    using find_upto_least[of ?P "qmin f" "qmax f"] mono q_le assms by blast
  have "e = qmin f \<or> 2 powi (int (fprec f) + e - 1) \<le> \<bar>x\<bar>"
    using e(5)[of "e - 1"] e(2) by (cases "e = qmin f") (auto simp: algebra_simps)
  then show thesis using that e by (force simp: quantum_def not_less)
qed

lemma repr_quotient:
  fixes x :: real
  assumes "x = of_int m * 2 powi e'" and "e \<le> e'"
  shows "\<exists>k::int. x / 2 powi e = of_int k"
proof -
  have "x / 2 powi e = of_int m * 2 powi (e' - e)"
    using assms(1) by (simp add: power_int_diff)
  also have "\<dots> = of_int (m * 2 ^ nat (e' - e))"
    using assms(2) by (simp add: power_int_def)
  finally show ?thesis by blast
qed

text \<open>A sum of numbers of the format that stays in the subnormal or first binade is exact.\<close>

lemma ieee_grid:
  assumes x: "x = of_int m * 2 powi e'" and "qmin f \<le> e'" "e' \<le> qmax f" and "\<bar>m\<bar> < 2 ^ fprec f"
  shows "ieee f x = FFin x"
proof -
  have "\<bar>x\<bar> = of_int \<bar>m\<bar> * 2 powi e'" using x by (simp add: abs_mult)
  also have "\<dots> < 2 ^ fprec f * 2 powi e'"
    using assms(4) by (intro mult_strict_right_mono) (simp_all del: of_int_abs)
  finally have lt: "\<bar>x\<bar> < 2 powi (int (fprec f) + e')" by (simp add: powi_add2)
  also have "\<dots> \<le> 2 powi (int (fprec f) + qmax f)" using assms by (intro powi_mono2) auto
  finally have "\<bar>x\<bar> < 2 powi (int (fprec f) + qmax f)" .
  then obtain e where e: "quantum f x = Some e" "qmin f \<le> e" "e \<le> qmax f"
      "\<bar>x\<bar> < 2 powi (int (fprec f) + e)"
      "\<And>i. qmin f \<le> i \<Longrightarrow> i < e \<Longrightarrow> 2 powi (int (fprec f) + i) \<le> \<bar>x\<bar>"
    by (elim quantum_cases) blast
  have "e \<le> e'" using e(5)[of e'] lt assms(2) by force
  with x obtain k :: int where k: "x / 2 powi e = of_int k" using repr_quotient by blast
  have "\<bar>x\<bar> / 2 powi e < 2 ^ fprec f"
    using e(4) by (simp add: powi_add2 divide_less_eq)
  then have "\<bar>x / 2 powi e\<bar> < 2 ^ fprec f" by (simp add: abs_divide)
  then have "\<bar>k\<bar> < 2 ^ fprec f" unfolding k by (simp flip: of_int_abs of_int_power_less_of_int_cancel_iff)
  then have "\<bar>rhe (x / 2 powi e)\<bar> \<noteq> 2 ^ fprec f" unfolding k by simp
  moreover have "of_int (rhe (x / 2 powi e)) * 2 powi e = x"
    unfolding k rhe_of_int by (simp flip: k)
  ultimately show ?thesis using e(1) by (simp add: ieee_def)
qed

lemma ieee_repr: "repr f x \<Longrightarrow> ieee f x = FFin x"
  by (auto simp: repr_def intro: ieee_grid)

lemma repr_0 [simp]: "repr f 0"
  unfolding repr_def by (rule exI[of _ 0], rule exI[of _ "qmin f"]) simp

lemma repr_int: "\<bar>n\<bar> < 2 ^ fprec f \<Longrightarrow> repr f (of_int n)"
  unfolding repr_def by (rule exI[of _ n], rule exI[of _ 0]) (cases f; simp)

lemma repr_grid: "repr f x \<Longrightarrow> \<exists>k::int. x = of_int k * 2 powi qmin f"
proof -
  assume "repr f x"
  then obtain m e where x: "x = of_int m * 2 powi e" "qmin f \<le> e" by (auto simp: repr_def)
  then obtain k :: int where "x / 2 powi qmin f = of_int k" using repr_quotient by blast
  then have "x = of_int k * 2 powi qmin f" by (simp add: field_simps)
  then show ?thesis by blast
qed

lemma powi_Suc2: "(2::real) powi (e + 1) = 2 * 2 powi e"
  by (simp add: powi_add2)

text \<open>The rounded value: it is a number of the format, half a unit in the last place away.\<close>

lemma ieee_round:
  assumes "\<bar>x\<bar> \<le> fmax f"
  obtains r e where "ieee f x = FFin r" "repr f r" "\<bar>r - x\<bar> \<le> 2 powi e / 2" "quantum f x = Some e"
    "r = of_int (rhe (x / 2 powi e)) * 2 powi e" "qmin f \<le> e"
    "e = qmin f \<or> 2 powi (int (fprec f) + e - 1) \<le> \<bar>x\<bar>"
proof -
  have "fmax f < 2 powi (int (fprec f) + qmax f)"
    by (simp add: fmax_def powi_add2 algebra_simps)
  with assms have "\<bar>x\<bar> < 2 powi (int (fprec f) + qmax f)" by linarith
  then obtain e where e: "quantum f x = Some e" "qmin f \<le> e" "e \<le> qmax f"
      "\<bar>x\<bar> < 2 powi (int (fprec f) + e)"
      "e = qmin f \<or> 2 powi (int (fprec f) + e - 1) \<le> \<bar>x\<bar>"
    by (elim quantum_cases) blast
  define m where "m = rhe (x / 2 powi e)"
  have "\<bar>x / 2 powi e\<bar> \<le> of_int (2 ^ fprec f)"
    using e(4) by (simp add: abs_divide powi_add2 divide_le_eq)
  then have m: "\<bar>m\<bar> \<le> 2 ^ fprec f" unfolding m_def by (rule rhe_bound)
  have top: "\<bar>m\<bar> < 2 ^ fprec f" if "e = qmax f"
  proof -
    have "\<bar>x / 2 powi e\<bar> \<le> of_int (2 ^ fprec f - 1)"
      using assms that by (simp add: abs_divide fmax_def divide_le_eq)
    then have "\<bar>m\<bar> \<le> 2 ^ fprec f - 1" unfolding m_def by (rule rhe_bound)
    then show ?thesis by simp
  qed
  have r: "ieee f x = FFin (of_int m * 2 powi e)"
    using e(1) top by (force simp: ieee_def m_def Let_def)
  have "\<bar>of_int m - x / 2 powi e\<bar> \<le> 1/2" unfolding m_def by (rule rhe_err)
  then have "\<bar>of_int m - x / 2 powi e\<bar> * 2 powi e \<le> 1/2 * 2 powi e"
    by (intro mult_right_mono) auto
  also have "\<bar>of_int m - x / 2 powi e\<bar> * 2 powi e = \<bar>(of_int m - x / 2 powi e) * 2 powi e\<bar>"
    by (simp add: abs_mult)
  finally have err: "\<bar>of_int m * 2 powi e - x\<bar> \<le> 2 powi e / 2"
    by (simp add: left_diff_distrib)
  have "repr f (of_int m * 2 powi e)"
  proof (cases "\<bar>m\<bar> < 2 ^ fprec f")
    case True
    with e(2,3) show ?thesis by (auto simp: repr_def)
  next
    case False
    with m have am: "\<bar>m\<bar> = 2 ^ fprec f" by simp
    with top e(3) have "e + 1 \<le> qmax f" by force
    have "even (2 ^ fprec f :: int)" by (cases f) simp_all
    then have "even m" unfolding am[symmetric] by simp
    then obtain h where h: "m = 2 * h" by blast
    have "2 * \<bar>h\<bar> = 2 ^ fprec f" using am unfolding h by (simp add: abs_mult)
    moreover have "(0::int) < 2 ^ fprec f" by simp
    ultimately have "\<bar>h\<bar> < 2 ^ fprec f" by linarith
    moreover have "of_int m * 2 powi e = (of_int h * 2 powi (e + 1) :: real)"
      unfolding h powi_Suc2 by simp
    ultimately show ?thesis using e(2) \<open>e + 1 \<le> qmax f\<close> unfolding repr_def by force
  qed
  with that r err e show thesis unfolding m_def by blast
qed

text \<open>
  A value on the grid of the smallest number (every sum of numbers of the format is one)
  rounds with a relative error of at most half a unit, subnormal results included.
\<close>

lemma ieee_sum_err:
  assumes "\<bar>x\<bar> \<le> fmax f" and "\<exists>k::int. x = of_int k * 2 powi qmin f"
  shows "\<exists>r. ieee f x = FFin r \<and> repr f r \<and> \<bar>r - x\<bar> \<le> 2 powi (- int (fprec f)) * \<bar>x\<bar>"
proof -
  obtain r e where r: "ieee f x = FFin r" "repr f r" "\<bar>r - x\<bar> \<le> 2 powi e / 2"
      "r = of_int (rhe (x / 2 powi e)) * 2 powi e"
      "e = qmin f \<or> 2 powi (int (fprec f) + e - 1) \<le> \<bar>x\<bar>"
    using ieee_round[OF assms(1)] by metis
  show ?thesis
  proof (cases "e = qmin f")
    case True
    from assms(2) obtain k :: int where "x / 2 powi e = of_int k" unfolding True by auto
    then have "r = x" using r(4) by (metis nonzero_divide_eq_eq power_int_eq_0_iff rhe_of_int zero_neq_numeral)
    with r show ?thesis by auto
  next
    case False
    with r(5) have "2 powi (int (fprec f) + e - 1) \<le> \<bar>x\<bar>" by simp
    then have "2 powi (- int (fprec f)) * 2 powi (int (fprec f) + (e - 1)) \<le> 2 powi (- int (fprec f)) * \<bar>x\<bar>"
      by (intro mult_left_mono) (auto simp: algebra_simps)
    moreover have "2 powi (- int (fprec f)) * 2 powi (int (fprec f) + (e - 1)) = 2 powi e / (2::real)"
      by (simp add: power_int_add power_int_minus power_int_diff)
    ultimately show ?thesis using r by fastforce
  qed
qed

lemma ieee_nonneg:
  assumes "0 \<le> x"
  shows "ieee f x = FInf False \<or> (\<exists>r\<ge>0. ieee f x = FFin r)"
proof (cases "quantum f x")
  case (Some e)
  have "0 \<le> rhe (x / 2 powi e)" using assms by (intro rhe_nonneg) simp
  with Some assms show ?thesis by (auto simp: ieee_def Let_def)
qed (use assms in \<open>auto simp: ieee_def\<close>)

lemma ieee_pos:
  assumes "2 powi qmin f \<le> x"
  shows "ieee f x = FInf False \<or> (\<exists>r>0. ieee f x = FFin r)"
proof (cases "quantum f x")
  case None
  with assms show ?thesis by (auto simp: ieee_def not_less intro: order_trans[rotated] zero_le_power_int)
next
  case (Some e)
  have x0: "0 < x" using assms zero_less_power_int[of "2::real" "qmin f"] by linarith
  have ge: "\<bar>x\<bar> < 2 powi (int (fprec f) + e)" and
    least: "\<And>i. qmin f \<le> i \<Longrightarrow> i < e \<Longrightarrow> 2 powi (int (fprec f) + i) \<le> \<bar>x\<bar>" and qe: "qmin f \<le> e"
  proof -
    have "e \<in> set [qmin f..qmax f]" "\<bar>x\<bar> < 2 powi (int (fprec f) + e)"
      using Some unfolding quantum_def find_Some_iff by (metis nth_mem)+
    then have "\<bar>x\<bar> < 2 powi (int (fprec f) + qmax f)"
      using powi_mono2[of "int (fprec f) + e" "int (fprec f) + qmax f"] by simp
    then show "\<bar>x\<bar> < 2 powi (int (fprec f) + e)" "qmin f \<le> e"
      "\<And>i. qmin f \<le> i \<Longrightarrow> i < e \<Longrightarrow> 2 powi (int (fprec f) + i) \<le> \<bar>x\<bar>"
      using Some by (elim quantum_cases; force)+
  qed
  have "2 powi e \<le> x"
  proof (cases "e = qmin f")
    case False
    with least[of "e - 1"] qe x0 have "2 powi (int (fprec f) + (e - 1)) \<le> x" by simp
    moreover have "(2::real) powi e \<le> 2 powi (int (fprec f) + (e - 1))"
      by (rule powi_mono2) (cases f; simp)
    ultimately show ?thesis by linarith
  qed (use assms in simp)
  then have "1 \<le> x / 2 powi e" by (simp add: le_divide_eq)
  then have "1 \<le> rhe (x / 2 powi e)" using rhe_mono[of 1] rhe_of_int[of 1] by fastforce
  with Some x0 show ?thesis by (auto simp: ieee_def Let_def)
qed

section \<open>What the components rely on\<close>

text \<open>
  The interface of a rounding function: it never invents a NaN or a negative zero, keeps zero
  and small integers, keeps the sign of non-negative numbers, and does not flush a number at
  or above the smallest positive one.
\<close>

locale rounding =
  fixes rd :: rnd
  assumes rd_not_nan: "rd f x \<noteq> FNaN"
    and rd_not_negz: "rd f x \<noteq> FNegZero"
    and rd_int: "\<bar>n\<bar> < 2 ^ 24 \<Longrightarrow> rd f (of_int n) = FFin (of_int n)"
    and rd_nonneg: "0 \<le> x \<Longrightarrow> rd f x = FInf False \<or> (\<exists>r\<ge>0. rd f x = FFin r)"
    and rd_pos: "2 powi qmin f \<le> x \<Longrightarrow> rd f x = FInf False \<or> (\<exists>r>0. rd f x = FFin r)"
begin

lemma rd_0: "rd f 0 = FFin 0"
  using rd_int[of 0] by simp

lemma rd_1: "rd f 1 = FFin 1"
  using rd_int[of 1] by simp

lemma fsquare_nonneg: "fmul rd f a a = FNaN \<or> \<not> flt (fmul rd f a a) fzero"
proof (cases a)
  case (FFin r)
  then show ?thesis using rd_nonneg[of "r * r" f] by (auto simp: fmul_def signed_zero_def)
qed (auto simp: fmul_def signed_zero_def rd_0)

lemma fsqrt_pos: "flt fzero x \<Longrightarrow> 2 powi (2 * qmin f) \<le> valof x \<or> \<not> is_fin x \<Longrightarrow> flt fzero (fsqrt rd f x)"
proof (cases x)
  case (FFin r)
  assume "flt fzero x" and "2 powi (2 * qmin f) \<le> valof x \<or> \<not> is_fin x"
  with FFin have "2 powi (2 * qmin f) \<le> r" "0 < r" by auto
  then have "sqrt (2 powi (2 * qmin f)) \<le> sqrt r" by simp
  moreover have "sqrt (2 powi (2 * qmin f)) = 2 powi qmin f"
    by (simp add: power_int_mult real_sqrt_abs power_int_mult mult.commute[of 2])
  ultimately show ?thesis using rd_pos[of f "sqrt r"] FFin \<open>0 < r\<close> by auto
qed auto

end

lemma ieee_not_nan: "ieee f x \<noteq> FNaN" "ieee f x \<noteq> FNegZero"
  by (auto simp: ieee_def Let_def split: option.splits)

interpretation ieee: rounding ieee
proof unfold_locales
  fix f x and n :: int
  show "\<bar>n\<bar> < 2 ^ 24 \<Longrightarrow> ieee f (of_int n) = FFin (of_int n)"
    by (intro ieee_repr repr_int) (cases f; simp)
qed (rule ieee_not_nan ieee_nonneg ieee_pos; assumption?)+

interpretation exact: rounding exact
proof unfold_locales
  fix f and x :: real
  assume "2 powi qmin f \<le> x"
  moreover have "(0::real) < 2 powi qmin f" by simp
  ultimately have "0 < x" by linarith
  then show "exact f x = FInf False \<or> (\<exists>r>0. exact f x = FFin r)" by (simp add: exact_def)
qed (auto simp: exact_def)

section \<open>Exact arithmetic on finite values\<close>

text \<open>On finite values the operations with \<open>exact\<close> rounding are those of the reals.\<close>

lemma exact_fadd [fp_eval]:
  "is_fin a \<Longrightarrow> is_fin b \<Longrightarrow> is_fin (fadd exact f a b)"
  "is_fin a \<Longrightarrow> is_fin b \<Longrightarrow> valof (fadd exact f a b) = valof a + valof b"
  by (cases a; cases b; simp add: exact_def)+

lemma exact_fsub [fp_eval]:
  "is_fin a \<Longrightarrow> is_fin b \<Longrightarrow> is_fin (fsub exact f a b)"
  "is_fin a \<Longrightarrow> is_fin b \<Longrightarrow> valof (fsub exact f a b) = valof a - valof b"
  by (cases a; cases b; simp add: fsub_def exact_def)+

lemma exact_fmul [fp_eval]:
  "is_fin a \<Longrightarrow> is_fin b \<Longrightarrow> is_fin (fmul exact f a b)"
  "is_fin a \<Longrightarrow> is_fin b \<Longrightarrow> valof (fmul exact f a b) = valof a * valof b"
  by (auto simp: fmul_def exact_def signed_zero_def Let_def)

lemma exact_fdiv [fp_eval]:
  "is_fin a \<Longrightarrow> is_fin b \<Longrightarrow> valof b \<noteq> 0 \<Longrightarrow> is_fin (fdiv exact f a b)"
  "is_fin a \<Longrightarrow> is_fin b \<Longrightarrow> valof b \<noteq> 0 \<Longrightarrow> valof (fdiv exact f a b) = valof a / valof b"
  by (auto simp: fdiv_def exact_def signed_zero_def Let_def)

lemma exact_fsqrt [fp_eval]:
  "is_fin a \<Longrightarrow> 0 \<le> valof a \<Longrightarrow> is_fin (fsqrt exact f a)"
  "is_fin a \<Longrightarrow> 0 \<le> valof a \<Longrightarrow> valof (fsqrt exact f a) = sqrt (valof a)"
  by (cases a; simp add: exact_def)+

lemma exact_fcvt [fp_eval]:
  "is_fin a \<Longrightarrow> is_fin (fcvt exact f a)" "valof (fcvt exact f a) = valof a"
  by (cases a; auto simp: exact_def signed_zero_def)+

lemma exact_ffloor [fp_eval]:
  "is_fin a \<Longrightarrow> is_fin (ffloor a)" "is_fin a \<Longrightarrow> valof (ffloor a) = of_int \<lfloor>valof a\<rfloor>"
  by (cases a; simp)+

lemma exact_f_of_int [fp_eval]: "f_of_int exact f n = FFin (of_int n)" "fconst exact f r = FFin r"
  by (simp_all add: f_of_int_def fconst_def exact_def)

end
