(* ===== verification/MAF.thy ===== *)
theory MAF
  imports Fp
begin

text \<open>
  The moving average filter (\<open>MAF.c\<close>, \<open>MAF.h\<close>): a ring buffer of the last \<open>Length\<close> samples
  with a running sum. The buffer's storage belongs to the filter (every caller passes a block
  of its own), so \<open>tBuffer\<close> holds the array itself; an index outside it is undefined
  behaviour, the outer \<open>None\<close>. A NULL pointer is \<open>None\<close> in the pointer-taking entry points.

  The client contract is the locale \<open>sliding_window\<close>; the rounding of the running sum is
  analysed in the locale \<open>summing\<close>.
\<close>

record tBuffer =
  Data :: "fp list"
  Length :: int

record tMAF =
  MeanValue :: fp
  Accumulator :: fp
  Head :: int
  Threshold_Enabled :: int
  Threshold_Value :: fp
  Min :: fp
  Buffer :: tBuffer

section \<open>Operations\<close>

fun zero_from :: "fp list \<Rightarrow> int \<Rightarrow> nat \<Rightarrow> fp list option" where
  "zero_from data i 0 = Some data"
| "zero_from data i (Suc n) =
     (case wr_at data i fzero of None \<Rightarrow> None | Some data' \<Rightarrow> zero_from data' (i + 1) n)"

definition maf_init :: "tBuffer \<Rightarrow> int \<Rightarrow> fp \<Rightarrow> fp \<Rightarrow> tMAF option" where
  "maf_init buffer threshold cmp mn =
     (case zero_from (Data buffer) 0 (nat (Length buffer)) of
        None \<Rightarrow> None
      | Some data \<Rightarrow> Some \<lparr>MeanValue = fzero, Accumulator = fzero, Head = 0,
          Threshold_Enabled = threshold, Threshold_Value = cmp, Min = mn,
          Buffer = \<lparr>Data = data, Length = Length buffer\<rparr>\<rparr>)"

definition MovingAverageFilter_Init ::
  "tMAF option \<Rightarrow> tBuffer option \<Rightarrow> int \<Rightarrow> fp \<Rightarrow> fp \<Rightarrow> tMAF option option" where
  "MovingAverageFilter_Init me buffer threshold cmp mn =
     (case (me, buffer) of
        (Some m, Some b) \<Rightarrow> map_option Some (maf_init b threshold cmp mn)
      | _ \<Rightarrow> Some me)"

definition maf_update :: "rnd \<Rightarrow> tMAF \<Rightarrow> fp \<Rightarrow> tMAF option" where
  "maf_update rd me inputData =
     (let head = Head me in
      case rd_at (Data (Buffer me)) head of
        None \<Rightarrow> None
      | Some lastValue \<Rightarrow>
          let acc1 = fsub rd DBL (Accumulator me) lastValue;
              acc2 = fadd rd DBL acc1 inputData;
              data = (Data (Buffer me))[nat head := inputData];
              head1 = head + 1;
              head2 = (if Length (Buffer me) \<le> head1 then 0 else head1);
              mean = fdiv rd DBL acc2 (f_of_int rd DBL (Length (Buffer me)));
              mean' = (if Threshold_Enabled me = 1 \<and> fle mean (Threshold_Value me) then Min me else mean)
          in Some (me\<lparr>Accumulator := acc2, Head := head2, MeanValue := mean',
                      Buffer := (Buffer me)\<lparr>Data := data\<rparr>\<rparr>))"

definition MovingAverageFilter_Update :: "rnd \<Rightarrow> tMAF option \<Rightarrow> fp \<Rightarrow> (tMAF option \<times> fp) option" where
  "MovingAverageFilter_Update rd me inputData =
     (case me of
        None \<Rightarrow> Some (None, fzero)
      | Some m \<Rightarrow> (case maf_update rd m inputData of
          None \<Rightarrow> None
        | Some m' \<Rightarrow> Some (Some m', MeanValue m')))"

section \<open>Invariant and abstraction\<close>

definition maf_ok :: "tMAF \<Rightarrow> bool" where
  "maf_ok m \<longleftrightarrow> Length (Buffer m) = int (length (Data (Buffer m))) \<and> 0 \<le> Head m \<and> Head m < Length (Buffer m)"

text \<open>The window of samples the filter averages, oldest first.\<close>

definition maf_window :: "tMAF \<Rightarrow> fp list" where
  "maf_window m = (let h = nat (Head m); d = Data (Buffer m) in drop h d @ take h d)"

lemma zero_from_replicate:
  assumes "n + k = length data"
  shows "zero_from (replicate n fzero @ drop n data) (int n) k = Some (replicate (length data) fzero)"
  using assms
proof (induction k arbitrary: n)
  case (Suc k)
  have n: "n < length data" using Suc.prems by simp
  have "(replicate n fzero @ drop n data)[n := fzero] = replicate (Suc n) fzero @ drop (Suc n) data"
    using n by (simp add: list_update_append Cons_nth_drop_Suc[symmetric] replicate_app_Cons_same)
  with Suc.IH[of "Suc n"] Suc.prems n show ?case by (simp add: add.commute)
qed simp

lemma maf_init_zero:
  assumes "Length b = int (length (Data b))"
  shows "maf_init b t c mn = Some \<lparr>MeanValue = fzero, Accumulator = fzero, Head = 0,
          Threshold_Enabled = t, Threshold_Value = c, Min = mn,
          Buffer = \<lparr>Data = replicate (length (Data b)) fzero, Length = Length b\<rparr>\<rparr>"
  using zero_from_replicate[of 0 "length (Data b)" "Data b"] assms by (simp add: maf_init_def)

lemma maf_update_ok:
  assumes "maf_ok m"
  obtains m' where "maf_update rd m x = Some m'" "maf_ok m'"
    "maf_window m' = tl (maf_window m) @ [x]"
    "Length (Buffer m') = Length (Buffer m)"
    "Data (Buffer m') = (Data (Buffer m))[nat (Head m) := x]"
    "Accumulator m' = fadd rd DBL (fsub rd DBL (Accumulator m) (Data (Buffer m) ! nat (Head m))) x"
    "Threshold_Enabled m' = Threshold_Enabled m" "Threshold_Value m' = Threshold_Value m" "Min m' = Min m"
proof -
  let ?d = "Data (Buffer m)" and ?h = "nat (Head m)"
  have h: "?h < length ?d" and rd: "rd_at ?d (Head m) = Some (?d ! ?h)"
    using assms by (auto simp: maf_ok_def)
  obtain m' where m': "maf_update rd m x = Some m'" using rd by (simp add: maf_update_def Let_def)
  have hd': "Head m' = (if Length (Buffer m) \<le> Head m + 1 then 0 else Head m + 1)"
    and d': "Data (Buffer m') = ?d[?h := x]" and l': "Length (Buffer m') = Length (Buffer m)"
    and rest: "Accumulator m' = fadd rd DBL (fsub rd DBL (Accumulator m) (?d ! ?h)) x"
      "Threshold_Enabled m' = Threshold_Enabled m" "Threshold_Value m' = Threshold_Value m" "Min m' = Min m"
    using m' rd by (auto simp: maf_update_def Let_def)
  have "maf_ok m'" using assms hd' d' l' by (auto simp: maf_ok_def)
  moreover have "maf_window m' = tl (maf_window m) @ [x]"
  proof (cases "Suc ?h < length ?d")
    case True
    then have "nat (Head m') = Suc ?h" using assms hd' by (auto simp: maf_ok_def nat_add_distrib)
    moreover have "take (Suc ?h) (?d[?h := x]) = take ?h ?d @ [x]"
      using h by (simp add: take_Suc_conv_app_nth)
    moreover have "drop (Suc ?h) (?d[?h := x]) = drop (Suc ?h) ?d" by simp
    moreover have "tl (drop ?h ?d @ take ?h ?d) = drop (Suc ?h) ?d @ take ?h ?d"
      using h by (simp flip: Cons_nth_drop_Suc)
    ultimately show ?thesis using d' by (simp add: maf_window_def Let_def del: take_Suc)
  next
    case False
    then have l: "length ?d = Suc ?h" using h by simp
    then have "Head m' = 0" using assms hd' by (auto simp: maf_ok_def)
    moreover have "?d[?h := x] = take ?h ?d @ [x]" using l by (simp add: upd_conv_take_nth_drop)
    moreover have "tl (drop ?h ?d @ take ?h ?d) = take ?h ?d" using l by (simp add: Cons_nth_drop_Suc[symmetric] h)
    ultimately show ?thesis using d' by (simp add: maf_window_def Let_def)
  qed
  ultimately show thesis using that m' d' l' rest by blast
qed

section \<open>The sliding window contract\<close>

locale sliding_window =
  fixes upd :: "'m \<Rightarrow> 'a \<Rightarrow> 'm option"
    and win :: "'m \<Rightarrow> 'a list"
    and inv :: "'m \<Rightarrow> bool"
  assumes upd_slides: "inv m \<Longrightarrow> \<exists>m'. upd m x = Some m' \<and> inv m' \<and> win m' = tl (win m) @ [x]"
    and win_nonempty: "inv m \<Longrightarrow> win m \<noteq> []"
begin

lemma run_slides:
  "inv m \<Longrightarrow> \<exists>m'. run_opt upd m xs = Some m' \<and> inv m' \<and> win m' = drop (length xs) (win m @ xs)"
proof (induction xs arbitrary: m)
  case (Cons x xs)
  from upd_slides[OF Cons.prems, of x] obtain m1
    where m1: "upd m x = Some m1" "inv m1" "win m1 = tl (win m) @ [x]" by blast
  from Cons.IH[OF m1(2)] obtain m2
    where m2: "run_opt upd m1 xs = Some m2" "inv m2" "win m2 = drop (length xs) (win m1 @ xs)" by blast
  have "drop (length (x # xs)) (win m @ x # xs) = drop (length xs) (tl (win m) @ x # xs)"
    using win_nonempty[OF Cons.prems] by (cases "win m") auto
  with m1 m2 show ?case by auto
qed auto

lemma run_full:
  assumes "inv m" and "length (win m) \<le> length xs"
  shows "\<exists>m'. run_opt upd m xs = Some m' \<and> inv m' \<and> win m' = drop (length xs - length (win m)) xs"
  using run_slides[OF assms(1), of xs] assms(2) by auto

end

lemma maf_window_nonempty: "maf_ok m \<Longrightarrow> maf_window m \<noteq> []"
  by (auto simp: maf_ok_def maf_window_def Let_def)

interpretation maf: sliding_window "maf_update rd" maf_window maf_ok for rd
  by unfold_locales (metis maf_update_ok, rule maf_window_nonempty)

section \<open>The running sum\<close>

text \<open>The sum of the samples in the buffer, as real numbers.\<close>

definition wsum :: "tMAF \<Rightarrow> real" where
  "wsum m = sum_list (map valof (Data (Buffer m)))"

lemma wsum_update:
  assumes "i < length (Data (Buffer m))" "Data (Buffer m') = (Data (Buffer m))[i := x]"
  shows "wsum m' = wsum m - valof (Data (Buffer m) ! i) + valof x"
  using assms sum_list_update_real[of i "map valof (Data (Buffer m))" "valof x"]
  by (simp add: wsum_def map_update)

lemma wsum_bound:
  assumes "\<forall>a\<in>set (Data (Buffer m)). \<bar>valof a\<bar> \<le> M"
  shows "\<bar>wsum m\<bar> \<le> real (length (Data (Buffer m))) * M"
  using sum_list_abs_bound[of "map valof (Data (Buffer m))" M] assms by (simp add: wsum_def)

text \<open>
  What the analysis of the running sum relies on: a set of representable values closed under
  negation, and sums that round with a relative error of at most \<open>u\<close> up to a bound \<open>B\<close>.
\<close>

locale summing =
  fixes rd :: rnd and ok :: "real \<Rightarrow> bool" and u :: real and B :: real
  assumes ok_0: "ok 0"
    and ok_minus: "ok x \<Longrightarrow> ok (- x)"
    and u_nonneg: "0 \<le> u"
    and sum_err: "ok x \<Longrightarrow> ok y \<Longrightarrow> \<bar>x + y\<bar> \<le> B \<Longrightarrow>
      \<exists>r. rd DBL (x + y) = FFin r \<and> ok r \<and> \<bar>r - (x + y)\<bar> \<le> u * \<bar>x + y\<bar>"
begin

definition good :: "fp \<Rightarrow> bool" where
  "good a \<longleftrightarrow> is_fin a \<and> ok (valof a)"

lemma good_zero: "good fzero"
  by (simp add: good_def ok_0)

lemma good_fneg: "good a \<Longrightarrow> good (fneg a) \<and> valof (fneg a) = - valof a"
  by (cases a) (auto simp: good_def ok_0 ok_minus)

lemma fadd_err:
  assumes "good a" "good b" "\<bar>valof a + valof b\<bar> \<le> B"
  shows "good (fadd rd DBL a b) \<and>
    \<bar>valof (fadd rd DBL a b) - (valof a + valof b)\<bar> \<le> u * \<bar>valof a + valof b\<bar>"
proof (cases "a = FNegZero \<and> b = FNegZero")
  case True
  then show ?thesis using assms by simp
next
  case False
  then have "fadd rd DBL a b = rd DBL (valof a + valof b)"
    using assms(1,2) by (cases a; cases b) (auto simp: good_def)
  with sum_err[of "valof a" "valof b"] assms show ?thesis by (auto simp: good_def)
qed

lemma fsub_err:
  assumes "good a" "good b" "\<bar>valof a - valof b\<bar> \<le> B"
  shows "good (fsub rd DBL a b) \<and>
    \<bar>valof (fsub rd DBL a b) - (valof a - valof b)\<bar> \<le> u * \<bar>valof a - valof b\<bar>"
  using fadd_err[of a "fneg b"] good_fneg[of b] assms by (simp add: fsub_def)

text \<open>After \<open>n\<close> updates with samples of magnitude at most \<open>M\<close> the running sum is off by at most \<open>n * d\<close>.\<close>

definition tracks :: "nat \<Rightarrow> real \<Rightarrow> real \<Rightarrow> nat \<Rightarrow> tMAF \<Rightarrow> bool" where
  "tracks N M d n m \<longleftrightarrow> maf_ok m \<and> length (Data (Buffer m)) = N \<and>
     (\<forall>a\<in>set (Data (Buffer m)). good a \<and> \<bar>valof a\<bar> \<le> M) \<and>
     good (Accumulator m) \<and> \<bar>valof (Accumulator m) - wsum m\<bar> \<le> real n * d"

lemma tracks_step:
  assumes tr: "tracks N M d n m" and x: "good x" "\<bar>valof x\<bar> \<le> M"
    and C: "C = (real N + 2) * M" "C \<le> B" and d: "d = 2 * (u * C)"
    and small: "real (Suc n) * d \<le> M"
  shows "\<exists>m'. maf_update rd m x = Some m' \<and> tracks N M d (Suc n) m'"
proof -
  let ?old = "Data (Buffer m) ! nat (Head m)" and ?h = "nat (Head m)"
  have ok: "maf_ok m" and len: "length (Data (Buffer m)) = N" and acc: "good (Accumulator m)"
    and dat: "\<forall>a\<in>set (Data (Buffer m)). good a \<and> \<bar>valof a\<bar> \<le> M"
    and e: "\<bar>valof (Accumulator m) - wsum m\<bar> \<le> real n * d"
    using tr by (auto simp: tracks_def)
  have h: "?h < length (Data (Buffer m))" using ok by (auto simp: maf_ok_def)
  then have old: "good ?old" "\<bar>valof ?old\<bar> \<le> M" using dat by auto
  obtain m' where m': "maf_update rd m x = Some m'" "maf_ok m'"
      "Data (Buffer m') = (Data (Buffer m))[?h := x]"
      "Accumulator m' = fadd rd DBL (fsub rd DBL (Accumulator m) ?old) x"
    using maf_update_ok[OF ok] by metis
  have M0: "0 \<le> M" using x(2) by linarith
  then have C0: "0 \<le> C" unfolding C(1) by simp
  have uC0: "0 \<le> u * C" using u_nonneg C0 by (rule mult_nonneg_nonneg)
  have snd: "real (Suc n) * d = real n * d + d" by (simp add: algebra_simps)
  have nd: "real n * d + d \<le> M" using small snd by linarith
  have S: "\<bar>wsum m\<bar> \<le> real N * M" using wsum_bound[of m M] dat len by auto
  have S': "\<bar>wsum m'\<bar> \<le> real N * M"
    using wsum_bound[of m' M] dat len x(2) m'(3) by (auto dest!: set_update_subset_insert[THEN subsetD])
  have CM: "C = real N * M + 2 * M" by (simp add: C(1) algebra_simps)
  let ?a1 = "fsub rd DBL (Accumulator m) ?old"
  have b1: "\<bar>valof (Accumulator m) - valof ?old\<bar> \<le> C"
    using e S old(2) nd uC0 d CM by linarith
  then have r1: "good ?a1" "\<bar>valof ?a1 - (valof (Accumulator m) - valof ?old)\<bar> \<le> u * C"
    using fsub_err[OF acc old(1)] C(2) mult_left_mono[OF b1 u_nonneg] by linarith+
  have w': "wsum m' = wsum m - valof ?old + valof x" using wsum_update[OF h m'(3)] .
  have b2: "\<bar>valof ?a1 + valof x\<bar> \<le> C"
    using r1(2) e S' w' nd d uC0 CM M0 by linarith
  then have r2: "good (Accumulator m')" "\<bar>valof (Accumulator m') - (valof ?a1 + valof x)\<bar> \<le> u * C"
    using fadd_err[OF r1(1) x(1)] C(2) mult_left_mono[OF b2 u_nonneg] unfolding m'(4) by linarith+
  have "\<bar>valof (Accumulator m') - wsum m'\<bar> \<le> real (Suc n) * d"
    using r2(2) r1(2) e w' snd d by linarith
  moreover have "\<forall>a\<in>set (Data (Buffer m')). good a \<and> \<bar>valof a\<bar> \<le> M"
    using dat x m'(3) by (auto dest!: set_update_subset_insert[THEN subsetD])
  ultimately show ?thesis using m' r2(1) len by (auto simp: tracks_def)
qed

lemma tracks_run:
  assumes "tracks N M d 0 m" and "\<forall>x\<in>set xs. good x \<and> \<bar>valof x\<bar> \<le> M"
    and C: "C = (real N + 2) * M" "C \<le> B" and d: "d = 2 * (u * C)" and M: "0 \<le> M"
    and small: "real (length xs) * d \<le> M"
  shows "\<exists>m'. run_opt (maf_update rd) m xs = Some m' \<and> tracks N M d (length xs) m'"
proof -
  have "0 \<le> d" unfolding d C using u_nonneg M by simp
  then have "real (Suc n) * d \<le> M" if "n < length xs" for n
    using that small mult_right_mono[of "real (Suc n)" "real (length xs)" d] by linarith
  then have "\<exists>m'. run_opt (maf_update rd) m xs = Some m' \<and> tracks N M d (0 + length xs) m'"
    by (intro run_opt_invariant[where P = "tracks N M d"]) (use assms tracks_step in auto)
  then show ?thesis by simp
qed

end

lemma ieee_minus_repr: "repr f x \<Longrightarrow> repr f (- x)"
  unfolding repr_def by (metis abs_minus_cancel minus_mult_left of_int_minus)

lemma repr_sum_grid:
  assumes "repr f x" "repr f y"
  shows "\<exists>k::int. x + y = of_int k * 2 powi qmin f"
proof -
  from assms obtain i j :: int where "x = of_int i * 2 powi qmin f" "y = of_int j * 2 powi qmin f"
    using repr_grid by metis
  then have "x + y = of_int (i + j) * 2 powi qmin f" by (simp add: distrib_right)
  then show ?thesis by blast
qed

interpretation dbl: summing ieee "repr DBL" "1 / 2 ^ 53" "fmax DBL"
proof unfold_locales
  fix x y assume "repr DBL x" "repr DBL y" "\<bar>x + y\<bar> \<le> fmax DBL"
  moreover have "(2::real) powi (- int (fprec DBL)) = 1 / 2 ^ 53"
    by (simp add: power_int_def power_one_over)
  ultimately show "\<exists>r. ieee DBL (x + y) = FFin r \<and> repr DBL r \<and> \<bar>r - (x + y)\<bar> \<le> 1 / 2 ^ 53 * \<bar>x + y\<bar>"
    using ieee_sum_err[OF _ repr_sum_grid, of x y DBL] by metis
qed (auto simp: ieee_minus_repr)

section \<open>Properties\<close>

lemma wsum_window: "maf_ok m \<Longrightarrow> wsum m = sum_list (map valof (maf_window m))"
proof -
  have "sum_list (map valof (Data (Buffer m))) =
      sum_list (map valof (take (nat (Head m)) (Data (Buffer m)))) + sum_list (map valof (drop (nat (Head m)) (Data (Buffer m))))"
    by (metis append_take_drop_id map_append sum_list_append)
  then show ?thesis by (simp add: wsum_def maf_window_def Let_def)
qed

definition dbl_sample :: "real \<Rightarrow> fp \<Rightarrow> bool" where
  "dbl_sample M a \<longleftrightarrow> is_fin a \<and> repr DBL (valof a) \<and> \<bar>valof a\<bar> \<le> M"

lemma maf_init_ok:
  assumes "Length b = int (length (Data b))" and "0 < Length b"
  obtains m where "maf_init b t c mn = Some m" "maf_ok m" "maf_window m = replicate (length (Data b)) fzero"
    "Length (Buffer m) = Length b" "Accumulator m = fzero" "wsum m = 0"
    "Data (Buffer m) = replicate (length (Data b)) fzero"
    "Threshold_Enabled m = t" "Threshold_Value m = c" "Min m = mn"
  using assms that by (auto simp: maf_init_zero maf_ok_def maf_window_def Let_def wsum_def sum_list_replicate)

lemma maf_update_mean:
  "maf_update rd m x = Some m' \<Longrightarrow> MeanValue m' =
     (let mean = fdiv rd DBL (Accumulator m') (f_of_int rd DBL (Length (Buffer m')))
      in if Threshold_Enabled m' = 1 \<and> fle mean (Threshold_Value m') then Min m' else mean)"
  by (auto simp: maf_update_def Let_def split: option.splits)

definition exact_sum :: "tMAF \<Rightarrow> bool" where
  "exact_sum m \<longleftrightarrow> maf_ok m \<and> list_all is_fin (Data (Buffer m)) \<and> Accumulator m = FFin (wsum m)"

lemma fadd_exact_FFin: "is_fin b \<Longrightarrow> fadd exact f (FFin a) b = FFin (a + valof b)"
  by (cases b) (auto simp: exact_def)

lemma fsub_exact_FFin: "is_fin b \<Longrightarrow> fsub exact f (FFin a) b = FFin (a - valof b)"
  by (cases b) (auto simp: fsub_def exact_def)

lemma exact_sum_step:
  assumes m: "exact_sum m" and x: "is_fin x"
  shows "\<exists>m'. maf_update exact m x = Some m' \<and> exact_sum m' \<and> Length (Buffer m') = Length (Buffer m) \<and>
    Threshold_Enabled m' = Threshold_Enabled m \<and> Threshold_Value m' = Threshold_Value m \<and> Min m' = Min m"
proof -
  have ok: "maf_ok m" and fin: "list_all is_fin (Data (Buffer m))" and acc: "Accumulator m = FFin (wsum m)"
    using m by (auto simp: exact_sum_def)
  obtain m' where m': "maf_update exact m x = Some m'" "maf_ok m'" "Length (Buffer m') = Length (Buffer m)"
      "Data (Buffer m') = (Data (Buffer m))[nat (Head m) := x]"
      "Accumulator m' = fadd exact DBL (fsub exact DBL (Accumulator m) (Data (Buffer m) ! nat (Head m))) x"
      "Threshold_Enabled m' = Threshold_Enabled m" "Threshold_Value m' = Threshold_Value m" "Min m' = Min m"
    using maf_update_ok[OF ok] by metis
  have h: "nat (Head m) < length (Data (Buffer m))" using ok by (auto simp: maf_ok_def)
  then have "is_fin (Data (Buffer m) ! nat (Head m))" using fin by (simp add: list_all_length)
  then have "Accumulator m' = FFin (wsum m')"
    using m'(5) x acc wsum_update[OF h m'(4)] by (simp add: fsub_exact_FFin fadd_exact_FFin)
  moreover have "list_all is_fin (Data (Buffer m'))"
    using m'(4) x fin by (auto simp: list_all_iff dest!: set_update_subset_insert[THEN subsetD])
  ultimately show ?thesis using m' by (auto simp: exact_sum_def)
qed

text \<open>
  C1. The moving average filter is a ring buffer of the last \<open>Length\<close> samples: from any
  filter \<open>MovingAverageFilter_Init\<close> sets up on a block of its declared length, every sequence of
  updates is free of out-of-range accesses, keeps the head index inside the buffer, and leaves
  as its window exactly the last \<open>Length\<close> values of the initial zeros followed by the samples.
\<close>

theorem maf_window_correct:
  assumes "Length b = int (length (Data b))" and "0 < Length b"
    and "maf_init b t c mn = Some m"
  shows "\<exists>m'. run_opt (maf_update rd) m xs = Some m' \<and> maf_ok m' \<and>
    Length (Buffer m') = Length b \<and>
    maf_window m' = drop (length xs) (replicate (length (Data b)) fzero @ xs)"
proof -
  from maf_init_ok[OF assms(1,2), of t c mn] assms(3)
  have m: "maf_ok m" "maf_window m = replicate (length (Data b)) fzero" by auto
  from maf.run_slides[OF m(1), of rd xs] obtain m' where m': "run_opt (maf_update rd) m xs = Some m'"
      "maf_ok m'" "maf_window m' = drop (length xs) (maf_window m @ xs)" by blast
  have "length (maf_window m') = length (Data (Buffer m'))"
    using m'(2) by (auto simp: maf_window_def Let_def maf_ok_def)
  with m' m(2) assms(1) show ?thesis by (auto simp: maf_ok_def)
qed

theorem maf_window_correct_witness:
  "\<exists>m'. run_opt (maf_update ieee) (the (maf_init \<lparr>Data = [FNaN, FNaN], Length = 2\<rparr> 0 fzero fzero))
      [FFin 1, FFin 2, FFin 3] = Some m' \<and> maf_ok m' \<and>
    Length (Buffer m') = 2 \<and> maf_window m' = [FFin 2, FFin 3]"
  using maf_window_correct[of "\<lparr>Data = [FNaN, FNaN], Length = 2\<rparr>" 0 fzero fzero
      "the (maf_init \<lparr>Data = [FNaN, FNaN], Length = 2\<rparr> 0 fzero fzero)" ieee "[FFin 1, FFin 2, FFin 3]"]
  by (simp add: maf_init_zero numeral_2_eq_2)

text \<open>
  C12. Rounding drift of the running sum. The filter never recomputes its sum: it subtracts the
  outgoing sample and adds the incoming one, in double precision, for as long as the meter
  runs. With samples of magnitude at most \<open>M\<close> and a window of \<open>N\<close>, after \<open>n\<close> updates with
  \<open>2 (N + 2) n \<le> 2^53\<close> the accumulator is finite and differs from the true sum of the window
  by at most \<open>2 (N + 2) n M / 2^53\<close>.
\<close>

theorem maf_drift:
  assumes b: "Length b = int (length (Data b))" "0 < Length b"
    and init: "maf_init b t c mn = Some m"
    and samples: "\<forall>x\<in>set xs. dbl_sample M x" and M: "0 \<le> M"
    and top: "(real (length (Data b)) + 2) * M \<le> fmax DBL"
    and few: "2 * (length (Data b) + 2) * length xs \<le> 2 ^ 53"
  shows "\<exists>m'. run_opt (maf_update ieee) m xs = Some m' \<and> is_fin (Accumulator m') \<and>
    \<bar>valof (Accumulator m') - sum_list (map valof (maf_window m'))\<bar>
      \<le> 2 * (real (length (Data b)) + 2) * real (length xs) * M / 2 ^ 53"
proof -
  let ?N = "length (Data b)" and ?C = "(real (length (Data b)) + 2) * M"
  let ?d = "2 * (1 / 2 ^ 53 * ?C)"
  from maf_init_ok[OF b, of t c mn] init have m: "maf_ok m" "Accumulator m = fzero" "wsum m = 0"
      "Data (Buffer m) = replicate ?N fzero" by auto
  then have start: "dbl.tracks ?N M ?d 0 m"
    using M by (auto simp: dbl.tracks_def dbl.good_zero)
  have good: "\<forall>x\<in>set xs. dbl.good x \<and> \<bar>valof x\<bar> \<le> M"
    using samples by (auto simp: dbl_sample_def dbl.good_def)
  have "real (2 * (?N + 2) * length xs) \<le> real (2 ^ 53)" using few by (simp only: of_nat_le_iff)
  then have "real (2 * (?N + 2) * length xs) / 2 ^ 53 * M \<le> 1 * M"
    using M by (intro mult_right_mono) simp_all
  then have small: "real (length xs) * ?d \<le> M" by (simp add: algebra_simps add_divide_distrib)
  obtain m' where m': "run_opt (maf_update ieee) m xs = Some m'" "dbl.tracks ?N M ?d (length xs) m'"
    using dbl.tracks_run[OF start good refl top refl M small] by blast
  then have "\<bar>valof (Accumulator m') - sum_list (map valof (maf_window m'))\<bar> \<le> real (length xs) * ?d"
    and "is_fin (Accumulator m')"
    by (auto simp: dbl.tracks_def dbl.good_def wsum_window)
  moreover have "real (length xs) * ?d = 2 * (real ?N + 2) * real (length xs) * M / 2 ^ 53" by simp
  ultimately show ?thesis using m'(1) by metis
qed

theorem maf_drift_witness:
  "\<exists>m'. run_opt (maf_update ieee) (the (maf_init \<lparr>Data = [FNaN], Length = 1\<rparr> 0 fzero fzero)) [FFin 1, FFin 1]
      = Some m' \<and> is_fin (Accumulator m') \<and>
    \<bar>valof (Accumulator m') - sum_list (map valof (maf_window m'))\<bar> \<le> 2 * (1 + 2) * 2 * 1 / 2 ^ 53"
proof -
  have one: "dbl_sample 1 (FFin 1)" using repr_int[of 1 DBL] by (simp add: dbl_sample_def)
  show ?thesis
    using maf_drift[of "\<lparr>Data = [FNaN], Length = 1\<rparr>" 0 fzero fzero
        "the (maf_init \<lparr>Data = [FNaN], Length = 1\<rparr> 0 fzero fzero)" "[FFin 1, FFin 1]" 1] one
    by (simp add: maf_init_zero fmax_def)
qed

text \<open>
  C13. In exact arithmetic the filter computes what its name says: the accumulator is the sum of
  the window, and the mean value is that sum divided by the length unless the threshold
  replaces a mean at or below it.
\<close>

theorem maf_mean_exact:
  assumes b: "Length b = int (length (Data b))" "0 < Length b"
    and init: "maf_init b t c mn = Some m"
    and samples: "list_all is_fin xs" and ne: "xs \<noteq> []"
  shows "\<exists>m'. run_opt (maf_update exact) m xs = Some m' \<and>
    (let avg = sum_list (map valof (maf_window m')) / of_int (Length b) in
      MeanValue m' = (if t = 1 \<and> fle (FFin avg) c then mn else FFin avg))"
proof -
  let ?P = "\<lambda>(n::nat) m'. exact_sum m' \<and> Length (Buffer m') = Length b \<and> Threshold_Enabled m' = t \<and>
      Threshold_Value m' = c \<and> Min m' = mn \<and> (0 < n \<longrightarrow> (\<exists>m0 x. maf_update exact m0 x = Some m'))"
  have "?P 0 m"
    using init b by (auto simp: maf_init_zero exact_sum_def maf_ok_def wsum_def sum_list_replicate list_all_iff)
  moreover have "\<exists>m2. maf_update exact m1 x = Some m2 \<and> ?P (Suc n) m2" if "?P n m1" "x \<in> set xs" for m1 x n
  proof -
    have x: "is_fin x" using that(2) samples by (simp add: list_all_iff)
    from exact_sum_step[OF _ x, of m1] that(1) obtain m2 where "maf_update exact m1 x = Some m2"
        "exact_sum m2" "Length (Buffer m2) = Length (Buffer m1)" "Threshold_Enabled m2 = Threshold_Enabled m1"
        "Threshold_Value m2 = Threshold_Value m1" "Min m2 = Min m1" by blast
    with that(1) show ?thesis by (intro exI[of _ m2]) auto
  qed
  ultimately have "\<exists>m'. run_opt (maf_update exact) m xs = Some m' \<and> ?P (0 + length xs) m'"
    by (intro run_opt_invariant[where P = ?P]) blast+
  then obtain m' where run: "run_opt (maf_update exact) m xs = Some m'" and P: "?P (0 + length xs) m'"
    by blast
  then obtain m0 x where last: "maf_update exact m0 x = Some m'" using ne by auto
  define avg where "avg = wsum m' / of_int (Length b)"
  have "fdiv exact DBL (Accumulator m') (f_of_int exact DBL (Length (Buffer m'))) = FFin avg"
    using P b(2) by (simp add: exact_sum_def fdiv_def f_of_int_def exact_def signed_zero_def avg_def)
  then have "MeanValue m' = (if t = 1 \<and> fle (FFin avg) c then mn else FFin avg)"
    using maf_update_mean[OF last] P by (simp add: Let_def)
  with run P show ?thesis by (auto simp: avg_def Let_def exact_sum_def wsum_window)
qed

theorem maf_mean_exact_witness:
  "\<exists>m'. run_opt (maf_update exact) (the (maf_init \<lparr>Data = [FNaN, FNaN], Length = 2\<rparr> 1 fzero (FFin 7)))
      [FFin 3, FFin 5] = Some m' \<and>
    (let avg = sum_list (map valof (maf_window m')) / 2 in
      MeanValue m' = (if fle (FFin avg) fzero then FFin 7 else FFin avg))"
  using maf_mean_exact[of "\<lparr>Data = [FNaN, FNaN], Length = 2\<rparr>" 1 fzero "FFin 7"
      "the (maf_init \<lparr>Data = [FNaN, FNaN], Length = 2\<rparr> 1 fzero (FFin 7))" "[FFin 3, FFin 5]"]
  by (simp add: maf_init_zero)

end
