(* ===== verification/CPT.thy ===== *)
theory CPT
  imports MAF "HOL-Library.Monad_Syntax"
begin

text \<open>
  The conservative power theory engine (\<open>CPT.c\<close>, \<open>CPT.h\<close>): per phase and collective running
  averages, current and power decomposition, and the power factors, updated once per sample.

  \<open>tPhase\<close> and \<open>tCPT\<close> are the structs of \<open>CPT.h\<close>; their field names carry the prefixes
  \<open>ph_\<close> and \<open>cpt_\<close> because both structs have fields of the same name. The array
  \<open>Phase[3]\<close> of pointers is a list of three optional phases (\<open>None\<close> is NULL); reading
  through NULL or outside an array is undefined behaviour, the outer \<open>None\<close>.
\<close>

record tPAC =
  V :: "fp list"
  I :: "fp list"

record tPhase =
  ph_V_maf :: tMAF
  ph_I_maf :: tMAF
  ph_P_maf :: tMAF
  ph_W_maf :: tMAF
  ph_UI_maf :: tMAF
  ph_INT_maf :: tMAF
  ph_Iba_maf :: tMAF
  ph_Ibr_maf :: tMAF
  ph_Iv_maf :: tMAF
  ph_V_pow2 :: fp
  ph_V_rms :: fp
  ph_I_pow2 :: fp
  ph_I_rms :: fp
  ph_Integral :: fp
  ph_Integral_lastInput :: fp
  ph_UnbiasedIntegral :: fp
  ph_UnbiasedIntegral_pow2 :: fp
  ph_UnbiasedIntegral_rms :: fp
  ph_W_inst :: fp
  ph_P_inst :: fp
  ph_W_avg :: fp
  ph_P_avg :: fp
  ph_Q :: fp
  ph_Ia_ActiveCurrent :: fp
  ph_Iba_BalancedActiveCurrent :: fp
  ph_Iua_UnbalancedActiveCurrent :: fp
  ph_Ir_ReactiveCurrent :: fp
  ph_Ibr_BalancedReactiveCurrent :: fp
  ph_Iur_UnbalancedReactiveCurrent :: fp
  ph_Iv_VoidCurrent :: fp
  ph_Iu_UnbalancedCurrent :: fp
  ph_Iba_rms :: fp
  ph_Iua_rms :: fp
  ph_Ibr_rms :: fp
  ph_Iur_rms :: fp
  ph_Iv_rms :: fp
  ph_A :: fp
  ph_Na :: fp
  ph_Nr :: fp
  ph_N :: fp
  ph_V :: fp
  ph_PF :: fp
  ph_NF :: fp
  ph_QF :: fp
  ph_VF :: fp

record tCPT =
  Phase :: "tPhase option list"
  cpt_Iba_maf :: tMAF
  cpt_Iua_maf :: tMAF
  cpt_Ibr_maf :: tMAF
  cpt_Iur_maf :: tMAF
  cpt_Iv_maf :: tMAF
  cpt_Iba_rms :: fp
  cpt_Iua_rms :: fp
  cpt_Ibr_rms :: fp
  cpt_Iur_rms :: fp
  cpt_Iv_rms :: fp
  cpt_V_maf :: tMAF
  cpt_I_maf :: tMAF
  cpt_UI_maf :: tMAF
  cpt_V_rms :: fp
  cpt_I_rms :: fp
  cpt_UI_rms :: fp
  cpt_P_avg :: fp
  cpt_W_avg :: fp
  cpt_A :: fp
  cpt_Q :: fp
  cpt_Na :: fp
  cpt_Nr :: fp
  cpt_N :: fp
  cpt_V :: fp
  cpt_PF :: fp
  cpt_NF :: fp
  cpt_QF :: fp
  cpt_VF :: fp
  TSH :: fp
  samples :: u32
  cpt_n :: u32

section \<open>Loops over the phases\<close>

text \<open>
  \<open>for (i = 0; i < me->n; i++) { struct tPhase *Phase = me->Phase[i]; ... }\<close>: the body sees
  the index, the collective record and the phase, and returns both updated.
\<close>

fun for_phases ::
  "(nat \<Rightarrow> tCPT \<Rightarrow> tPhase \<Rightarrow> (tCPT \<times> tPhase) option) \<Rightarrow> nat \<Rightarrow> nat \<Rightarrow> tCPT \<Rightarrow> tCPT option" where
  "for_phases body i 0 me = Some me"
| "for_phases body i (Suc k) me =
     do { p0 \<leftarrow> rd_at (Phase me) (int i);
          p \<leftarrow> p0;
          (me', p') \<leftarrow> body i me p;
          for_phases body (Suc i) k (me'\<lparr>Phase := (Phase me')[i := Some p']\<rparr>) }"

definition each_phase :: "(nat \<Rightarrow> tCPT \<Rightarrow> tPhase \<Rightarrow> (tCPT \<times> tPhase) option) \<Rightarrow> tCPT \<Rightarrow> tCPT option" where
  "each_phase body me = for_phases body 0 (unat (cpt_n me)) me"

section \<open>The update of one sample\<close>

definition tiny :: "rnd \<Rightarrow> fp" where
  "tiny rd = fdiv rd DBL (f_of_int rd DBL 1) (f_of_int rd DBL 100000)"

definition RMS_Evaluate :: "rnd \<Rightarrow> fp \<Rightarrow> fp" where
  "RMS_Evaluate rd input =
     (let input' = (if fle input fzero then tiny rd else input) in fsqrt rd DBL input')"

definition Phase_Init :: "tPhase \<Rightarrow> tPhase" where
  "Phase_Init me = me\<lparr>ph_V_rms := fzero, ph_I_rms := fzero,
     ph_Integral := fzero, ph_Integral_lastInput := fzero,
     ph_UnbiasedIntegral := fzero, ph_UnbiasedIntegral_rms := fzero,
     ph_P_avg := fzero, ph_W_avg := fzero\<rparr>"

definition upd_VI_phase :: "rnd \<Rightarrow> tPAC \<Rightarrow> nat \<Rightarrow> tCPT \<Rightarrow> tPhase \<Rightarrow> (tCPT \<times> tPhase) option" where
  "upd_VI_phase rd pac i me p =
     do { v \<leftarrow> rd_at (V pac) (int i);
          c \<leftarrow> rd_at (I pac) (int i);
          let v2 = fmul rd DBL v v;
          V_maf \<leftarrow> maf_update rd (ph_V_maf p) v2;
          let p = p\<lparr>ph_V_pow2 := v2, ph_V_maf := V_maf, ph_V_rms := RMS_Evaluate rd (MeanValue V_maf)\<rparr>;
          let c2 = fmul rd DBL c c;
          I_maf \<leftarrow> maf_update rd (ph_I_maf p) c2;
          let p = p\<lparr>ph_I_pow2 := c2, ph_I_maf := I_maf, ph_I_rms := RMS_Evaluate rd (MeanValue I_maf)\<rparr>;
          let integral = fadd rd DBL (ph_Integral p)
            (fmul rd DBL (fdiv rd DBL (TSH me) (f_of_int rd DBL 2)) (fadd rd DBL v (ph_Integral_lastInput p)));
          INT_maf \<leftarrow> maf_update rd (ph_INT_maf p) integral;
          let p = p\<lparr>ph_Integral := integral, ph_Integral_lastInput := v, ph_INT_maf := INT_maf\<rparr>;
          let ui = fsub rd DBL integral (MeanValue INT_maf);
          let ui2 = fmul rd DBL ui ui;
          UI_maf \<leftarrow> maf_update rd (ph_UI_maf p) ui2;
          let p = p\<lparr>ph_UnbiasedIntegral := ui, ph_UnbiasedIntegral_pow2 := ui2, ph_UI_maf := UI_maf,
                    ph_UnbiasedIntegral_rms := RMS_Evaluate rd (MeanValue UI_maf)\<rparr>;
          Some (me, p) }"

definition CPT_UpdateVoltagesAndCurrents :: "rnd \<Rightarrow> tCPT \<Rightarrow> tPAC \<Rightarrow> tCPT option" where
  "CPT_UpdateVoltagesAndCurrents rd me pac = each_phase (upd_VI_phase rd pac) me"

definition upd_PE_phase :: "rnd \<Rightarrow> tPAC \<Rightarrow> nat \<Rightarrow> tCPT \<Rightarrow> tPhase \<Rightarrow> (tCPT \<times> tPhase) option" where
  "upd_PE_phase rd pac i me p =
     do { v \<leftarrow> rd_at (V pac) (int i);
          c \<leftarrow> rd_at (I pac) (int i);
          let p_inst = fmul rd DBL v c;
          P_maf \<leftarrow> maf_update rd (ph_P_maf p) p_inst;
          let p_avg = (if flt (MeanValue P_maf) (tiny rd) then tiny rd else MeanValue P_maf);
          let p = p\<lparr>ph_P_inst := p_inst, ph_P_maf := P_maf, ph_P_avg := p_avg\<rparr>;
          let w_inst = fmul rd DBL (ph_UnbiasedIntegral p) c;
          W_maf \<leftarrow> maf_update rd (ph_W_maf p) w_inst;
          let w_avg = MeanValue W_maf;
          let p = p\<lparr>ph_W_inst := w_inst, ph_W_maf := W_maf, ph_W_avg := w_avg,
                    ph_Q := fmul rd DBL w_avg (fdiv rd DBL (ph_V_rms p) (ph_UnbiasedIntegral_rms p))\<rparr>;
          Some (me, p) }"

definition CPT_UpdatePowerAndEnergy :: "rnd \<Rightarrow> tCPT \<Rightarrow> tPAC \<Rightarrow> tCPT option" where
  "CPT_UpdatePowerAndEnergy rd me pac = each_phase (upd_PE_phase rd pac) me"

definition collect_phase :: "rnd \<Rightarrow> nat \<Rightarrow> tCPT \<Rightarrow> tPhase \<Rightarrow> (tCPT \<times> tPhase) option" where
  "collect_phase rd i me p =
     Some (me\<lparr>cpt_P_avg := fadd rd DBL (cpt_P_avg me) (ph_P_avg p),
              cpt_W_avg := fadd rd DBL (cpt_W_avg me) (ph_W_avg p),
              cpt_V_rms := fadd rd DBL (cpt_V_rms me) (ph_V_pow2 p),
              cpt_I_rms := fadd rd DBL (cpt_I_rms me) (ph_I_pow2 p),
              cpt_UI_rms := fadd rd DBL (cpt_UI_rms me) (ph_UnbiasedIntegral_pow2 p)\<rparr>, p)"

definition CPT_UpdateCollectiveValues :: "rnd \<Rightarrow> tCPT \<Rightarrow> tPAC \<Rightarrow> tCPT option" where
  "CPT_UpdateCollectiveValues rd me pac =
     do { let me = me\<lparr>cpt_P_avg := fzero, cpt_W_avg := fzero, cpt_V_rms := fzero,
                      cpt_I_rms := fzero, cpt_UI_rms := fzero\<rparr>;
          me \<leftarrow> each_phase (collect_phase rd) me;
          I_maf \<leftarrow> maf_update rd (cpt_I_maf me) (cpt_I_rms me);
          V_maf \<leftarrow> maf_update rd (cpt_V_maf me) (cpt_V_rms me);
          UI_maf \<leftarrow> maf_update rd (cpt_UI_maf me) (cpt_UI_rms me);
          Some (me\<lparr>cpt_I_maf := I_maf, cpt_V_maf := V_maf, cpt_UI_maf := UI_maf,
                   cpt_V_rms := RMS_Evaluate rd (MeanValue V_maf),
                   cpt_I_rms := RMS_Evaluate rd (MeanValue I_maf),
                   cpt_UI_rms := RMS_Evaluate rd (MeanValue UI_maf)\<rparr>) }"

subsection \<open>Current decomposition\<close>

definition cur_active_phase :: "rnd \<Rightarrow> tPAC \<Rightarrow> nat \<Rightarrow> tCPT \<Rightarrow> tPhase \<Rightarrow> (tCPT \<times> tPhase) option" where
  "cur_active_phase rd pac i me p =
     do { v \<leftarrow> rd_at (V pac) (int i);
          c \<leftarrow> rd_at (I pac) (int i);
          let ia = (if \<not> feq (ph_V_rms p) fzero
            then fmul rd DBL (fdiv rd DBL (ph_P_avg p) (fmul rd DBL (ph_V_rms p) (ph_V_rms p))) v
            else ph_Ia_ActiveCurrent p);
          let ir = (if \<not> feq (ph_UnbiasedIntegral_rms p) fzero
            then fmul rd DBL (fdiv rd DBL (ph_W_avg p)
                   (fmul rd DBL (ph_UnbiasedIntegral_rms p) (ph_UnbiasedIntegral_rms p))) (ph_UnbiasedIntegral p)
            else ph_Ir_ReactiveCurrent p);
          let iv = fsub rd DBL (fsub rd DBL c ia) ir;
          let iv2 = fmul rd DBL iv iv;
          let me = me\<lparr>cpt_Iv_rms := fadd rd DBL (cpt_Iv_rms me) iv2\<rparr>;
          Iv_maf \<leftarrow> maf_update rd (ph_Iv_maf p) iv2;
          Some (me, p\<lparr>ph_Ia_ActiveCurrent := ia, ph_Ir_ReactiveCurrent := ir,
                      ph_Iv_VoidCurrent := iv, ph_Iv_maf := Iv_maf,
                      ph_Iv_rms := RMS_Evaluate rd (MeanValue Iv_maf)\<rparr>) }"

definition cur_Iba_phase :: "rnd \<Rightarrow> tPAC \<Rightarrow> nat \<Rightarrow> tCPT \<Rightarrow> tPhase \<Rightarrow> (tCPT \<times> tPhase) option" where
  "cur_Iba_phase rd pac i me p =
     do { v \<leftarrow> rd_at (V pac) (int i);
          Some (me, p\<lparr>ph_Iba_BalancedActiveCurrent :=
            fmul rd DBL (fdiv rd DBL (cpt_P_avg me) (fmul rd DBL (cpt_V_rms me) (cpt_V_rms me))) v\<rparr>) }"

definition cur_Ibr_phase :: "rnd \<Rightarrow> nat \<Rightarrow> tCPT \<Rightarrow> tPhase \<Rightarrow> (tCPT \<times> tPhase) option" where
  "cur_Ibr_phase rd i me p =
     Some (me, p\<lparr>ph_Ibr_BalancedReactiveCurrent :=
       fmul rd DBL (fdiv rd DBL (cpt_W_avg me) (fmul rd DBL (cpt_UI_rms me) (cpt_UI_rms me)))
         (ph_UnbiasedIntegral p)\<rparr>)"

definition cur_balanced_phase :: "rnd \<Rightarrow> nat \<Rightarrow> tCPT \<Rightarrow> tPhase \<Rightarrow> (tCPT \<times> tPhase) option" where
  "cur_balanced_phase rd i me p =
     do { let a2 = fmul rd DBL (ph_Iba_BalancedActiveCurrent p) (ph_Iba_BalancedActiveCurrent p);
          let r2 = fmul rd DBL (ph_Ibr_BalancedReactiveCurrent p) (ph_Ibr_BalancedReactiveCurrent p);
          let me = me\<lparr>cpt_Iba_rms := fadd rd DBL (cpt_Iba_rms me) a2,
                      cpt_Ibr_rms := fadd rd DBL (cpt_Ibr_rms me) r2\<rparr>;
          Iba_maf \<leftarrow> maf_update rd (ph_Iba_maf p) a2;
          Ibr_maf \<leftarrow> maf_update rd (ph_Ibr_maf p) r2;
          Some (me, p\<lparr>ph_Iba_maf := Iba_maf, ph_Iba_rms := RMS_Evaluate rd (MeanValue Iba_maf),
                      ph_Ibr_maf := Ibr_maf, ph_Ibr_rms := RMS_Evaluate rd (MeanValue Ibr_maf)\<rparr>) }"

definition cur_unbalanced_phase :: "rnd \<Rightarrow> nat \<Rightarrow> tCPT \<Rightarrow> tPhase \<Rightarrow> (tCPT \<times> tPhase) option" where
  "cur_unbalanced_phase rd i me p =
     (let a = fsub rd DBL (ph_Ia_ActiveCurrent p) (ph_Iba_BalancedActiveCurrent p);
          r = fsub rd DBL (ph_Ir_ReactiveCurrent p) (ph_Ibr_BalancedReactiveCurrent p)
      in Some (me, p\<lparr>ph_Iua_UnbalancedActiveCurrent := a, ph_Iur_UnbalancedReactiveCurrent := r,
                     ph_Iu_UnbalancedCurrent := fadd rd DBL a r\<rparr>))"

definition cur_unbalanced_sq_phase :: "rnd \<Rightarrow> nat \<Rightarrow> tCPT \<Rightarrow> tPhase \<Rightarrow> (tCPT \<times> tPhase) option" where
  "cur_unbalanced_sq_phase rd i me p =
     (let a2 = fmul rd DBL (ph_Iua_UnbalancedActiveCurrent p) (ph_Iua_UnbalancedActiveCurrent p);
          r2 = fmul rd DBL (ph_Iur_UnbalancedReactiveCurrent p) (ph_Iur_UnbalancedReactiveCurrent p)
      in Some (me\<lparr>cpt_Iua_rms := fadd rd DBL (cpt_Iua_rms me) a2,
                  cpt_Iur_rms := fadd rd DBL (cpt_Iur_rms me) r2\<rparr>,
               p\<lparr>ph_Iua_rms := a2, ph_Iur_rms := r2\<rparr>))"

text \<open>The three stages of \<open>CPT_CurrentDecomposition\<close>: void, balanced and unbalanced currents.\<close>

definition cur_void :: "rnd \<Rightarrow> tCPT \<Rightarrow> tPAC \<Rightarrow> tCPT option" where
  "cur_void rd me pac =
     do { me \<leftarrow> each_phase (cur_active_phase rd pac) (me\<lparr>cpt_Iv_rms := fzero\<rparr>);
          Iv_maf \<leftarrow> maf_update rd (cpt_Iv_maf me) (cpt_Iv_rms me);
          Some (me\<lparr>cpt_Iv_maf := Iv_maf, cpt_Iv_rms := RMS_Evaluate rd (MeanValue Iv_maf)\<rparr>) }"

definition cur_balanced :: "rnd \<Rightarrow> tCPT \<Rightarrow> tPAC \<Rightarrow> tCPT option" where
  "cur_balanced rd me pac =
     do { me \<leftarrow> (if \<not> feq (cpt_V_rms me) fzero then each_phase (cur_Iba_phase rd pac) me else Some me);
          me \<leftarrow> (if \<not> feq (cpt_UI_rms me) fzero then each_phase (cur_Ibr_phase rd) me else Some me);
          me \<leftarrow> each_phase (cur_balanced_phase rd) (me\<lparr>cpt_Iba_rms := fzero, cpt_Ibr_rms := fzero\<rparr>);
          Iba_maf \<leftarrow> maf_update rd (cpt_Iba_maf me) (cpt_Iba_rms me);
          let me = me\<lparr>cpt_Iba_maf := Iba_maf, cpt_Iba_rms := RMS_Evaluate rd (MeanValue Iba_maf)\<rparr>;
          Ibr_maf \<leftarrow> maf_update rd (cpt_Ibr_maf me) (cpt_Ibr_rms me);
          Some (me\<lparr>cpt_Ibr_maf := Ibr_maf, cpt_Ibr_rms := RMS_Evaluate rd (MeanValue Ibr_maf)\<rparr>) }"

definition cur_unbalanced :: "rnd \<Rightarrow> tCPT \<Rightarrow> tCPT option" where
  "cur_unbalanced rd me =
     (if cpt_n me \<noteq> 1 then
        do { me \<leftarrow> each_phase (cur_unbalanced_phase rd) me;
             me \<leftarrow> each_phase (cur_unbalanced_sq_phase rd) (me\<lparr>cpt_Iua_rms := fzero, cpt_Iur_rms := fzero\<rparr>);
             Iua_maf \<leftarrow> maf_update rd (cpt_Iua_maf me) (cpt_Iua_rms me);
             let me = me\<lparr>cpt_Iua_maf := Iua_maf, cpt_Iua_rms := RMS_Evaluate rd (MeanValue Iua_maf)\<rparr>;
             Iur_maf \<leftarrow> maf_update rd (cpt_Iur_maf me) (cpt_Iur_rms me);
             Some (me\<lparr>cpt_Iur_maf := Iur_maf, cpt_Iur_rms := RMS_Evaluate rd (MeanValue Iur_maf)\<rparr>) }
      else Some me)"

definition CPT_CurrentDecomposition :: "rnd \<Rightarrow> tCPT \<Rightarrow> tPAC \<Rightarrow> tCPT option" where
  "CPT_CurrentDecomposition rd me pac =
     do { me \<leftarrow> cur_void rd me pac;
          me \<leftarrow> cur_balanced rd me pac;
          cur_unbalanced rd me }"

subsection \<open>Powers and factors\<close>

definition power_phase :: "rnd \<Rightarrow> nat \<Rightarrow> tCPT \<Rightarrow> tPhase \<Rightarrow> (tCPT \<times> tPhase) option" where
  "power_phase rd i me p =
     (let na = fmul rd DBL (ph_V_rms p) (ph_Iua_rms p);
          nr = fmul rd DBL (ph_V_rms p) (ph_Iur_rms p)
      in Some (me, p\<lparr>ph_A := fmul rd DBL (ph_V_rms p) (ph_I_rms p),
                     ph_Q := fmul rd DBL (ph_V_rms p) (ph_Ibr_rms p),
                     ph_Na := na, ph_Nr := nr,
                     ph_N := fsqrt rd DBL (fadd rd DBL (fmul rd DBL na na) (fmul rd DBL nr nr)),
                     ph_V := fmul rd DBL (ph_V_rms p) (ph_Iv_rms p)\<rparr>))"

definition CPT_PowerDecomposition :: "rnd \<Rightarrow> tCPT \<Rightarrow> tPAC \<Rightarrow> tCPT option" where
  "CPT_PowerDecomposition rd me pac =
     do { me \<leftarrow> each_phase (power_phase rd) me;
          let na = fmul rd DBL (cpt_V_rms me) (cpt_Iua_rms me);
          let nr = fmul rd DBL (cpt_V_rms me) (cpt_Iur_rms me);
          Some (me\<lparr>cpt_A := fmul rd DBL (cpt_V_rms me) (cpt_I_rms me),
                   cpt_Q := fmul rd DBL (cpt_V_rms me) (cpt_Ibr_rms me),
                   cpt_Na := na, cpt_Nr := nr,
                   cpt_N := fsqrt rd DBL (fadd rd DBL (fmul rd DBL na na) (fmul rd DBL nr nr)),
                   cpt_V := fmul rd DBL (cpt_V_rms me) (cpt_Iv_rms me)\<rparr>) }"

definition factors_phase :: "rnd \<Rightarrow> nat \<Rightarrow> tCPT \<Rightarrow> tPhase \<Rightarrow> (tCPT \<times> tPhase) option" where
  "factors_phase rd i me p =
     (let p = (if \<not> feq (ph_A p) fzero
                then (let vf = fdiv rd DBL (ph_V p) (ph_A p)
                      in p\<lparr>ph_PF := fdiv rd DBL (ph_P_avg p) (ph_A p),
                           ph_VF := (if fgt vf (f_of_int rd DBL 1) then f_of_int rd DBL 1 else vf)\<rparr>)
                else p);
          p2 = fmul rd DBL (ph_P_avg p) (ph_P_avg p);
          q2 = fmul rd DBL (ph_Q p) (ph_Q p);
          n2 = fmul rd DBL (ph_N p) (ph_N p);
          pq = fadd rd DBL p2 q2;
          pqn = fadd rd DBL pq n2;
          p = (if fgt pqn fzero then p\<lparr>ph_NF := fdiv rd DBL (ph_N p) (fsqrt rd DBL pqn)\<rparr> else p);
          p = (if fgt pq fzero then p\<lparr>ph_QF := fdiv rd DBL (ph_Q p) (fsqrt rd DBL pq)\<rparr> else p)
      in Some (me, p))"

definition CPT_EvaluateFactors :: "rnd \<Rightarrow> tCPT \<Rightarrow> tPAC \<Rightarrow> tCPT option" where
  "CPT_EvaluateFactors rd me pac =
     (let me = (if \<not> feq (cpt_A me) fzero
                 then me\<lparr>cpt_PF := fdiv rd DBL (cpt_P_avg me) (cpt_A me),
                         cpt_VF := fdiv rd DBL (cpt_V me) (cpt_A me)\<rparr>
                 else me);
          p2 = fmul rd DBL (cpt_P_avg me) (cpt_P_avg me);
          q2 = fmul rd DBL (cpt_Q me) (cpt_Q me);
          n2 = fmul rd DBL (cpt_N me) (cpt_N me);
          pq = fadd rd DBL p2 q2;
          pqn = fadd rd DBL pq n2;
          me = (if fgt pqn fzero then me\<lparr>cpt_NF := fdiv rd DBL (cpt_N me) (fsqrt rd DBL pqn)\<rparr> else me);
          me = (if fgt pq fzero then me\<lparr>cpt_QF := fdiv rd DBL (cpt_Q me) (fsqrt rd DBL pq)\<rparr> else me)
      in each_phase (factors_phase rd) me)"

definition CPT_Update :: "rnd \<Rightarrow> tCPT \<Rightarrow> tPAC \<Rightarrow> tCPT option" where
  "CPT_Update rd me pac =
     do { me \<leftarrow> CPT_UpdateVoltagesAndCurrents rd me pac;
          me \<leftarrow> CPT_UpdatePowerAndEnergy rd me pac;
          me \<leftarrow> CPT_UpdateCollectiveValues rd me pac;
          me \<leftarrow> CPT_CurrentDecomposition rd me pac;
          me \<leftarrow> CPT_PowerDecomposition rd me pac;
          CPT_EvaluateFactors rd me pac }"

section \<open>Configuration\<close>

text \<open>
  \<open>CPT_Config\<close> calls \<open>malloc\<close> in a fixed order. The environment is a record: whether the k-th call
  succeeds, and the arbitrary contents of the block it returns (a phase, or an array of the
  requested number of doubles).
\<close>

record heap_env =
  mal :: "nat \<Rightarrow> bool"
  fresh_phase :: "nat \<Rightarrow> tPhase"
  fresh_double :: "nat \<Rightarrow> nat \<Rightarrow> fp"

definition PHASE_RAW_BUFFERS :: nat where "PHASE_RAW_BUFFERS = 9"
definition CPT_RAW_BUFFERS :: nat where "CPT_RAW_BUFFERS = 8"

fun cfg_phases :: "heap_env \<Rightarrow> u32 \<Rightarrow> nat list \<Rightarrow> nat \<Rightarrow> tPhase option list \<Rightarrow> bool \<times> nat \<times> tPhase option list" where
  "cfg_phases env n [] k ps = (True, k, ps)"
| "cfg_phases env n (j # js) k ps =
     (if j < unat n
      then if mal env k then cfg_phases env n js (k + 1) (ps[j := Some (fresh_phase env k)])
           else (False, k + 1, ps[j := None])
      else cfg_phases env n js k (ps[j := None]))"

text \<open>One block of \<open>samples * sizeof(double)\<close> bytes; the product wraps at 32 bits.\<close>

definition cfg_block :: "heap_env \<Rightarrow> u32 \<Rightarrow> nat \<Rightarrow> tBuffer" where
  "cfg_block env smp k = \<lparr>Data = map (fresh_double env k) [0..<unat (smp * 8) div 8], Length = sint smp\<rparr>"

fun cfg_buffers :: "heap_env \<Rightarrow> u32 \<Rightarrow> nat \<Rightarrow> nat \<Rightarrow> tBuffer list option" where
  "cfg_buffers env smp 0 k = Some []"
| "cfg_buffers env smp (Suc c) k =
     (if mal env k then map_option (Cons (cfg_block env smp k)) (cfg_buffers env smp c (k + 1)) else None)"

definition THRESHOLD :: fp where "THRESHOLD = fzero"

definition THR_MIN :: "rnd \<Rightarrow> fp" where "THR_MIN rd = fconst rd DBL (1 / 10000)"

definition init_at :: "tBuffer list \<Rightarrow> nat \<Rightarrow> int \<Rightarrow> fp \<Rightarrow> fp \<Rightarrow> tMAF option" where
  "init_at bufs k t c mn = do { b \<leftarrow> rd_at bufs (int k); maf_init b t c mn }"

definition cfg_init_phase :: "rnd \<Rightarrow> tBuffer list \<Rightarrow> nat \<Rightarrow> tPhase \<Rightarrow> tPhase option" where
  "cfg_init_phase rd bufs k p =
     do { m0 \<leftarrow> init_at bufs (k + 0) 1 THRESHOLD (THR_MIN rd);
          m1 \<leftarrow> init_at bufs (k + 1) 1 THRESHOLD (THR_MIN rd);
          m2 \<leftarrow> init_at bufs (k + 2) 0 fzero fzero;
          m3 \<leftarrow> init_at bufs (k + 3) 0 fzero fzero;
          m4 \<leftarrow> init_at bufs (k + 4) 1 THRESHOLD (THR_MIN rd);
          m5 \<leftarrow> init_at bufs (k + 5) 0 fzero fzero;
          m6 \<leftarrow> init_at bufs (k + 6) 1 THRESHOLD (THR_MIN rd);
          m7 \<leftarrow> init_at bufs (k + 7) 1 THRESHOLD (THR_MIN rd);
          m8 \<leftarrow> init_at bufs (k + 8) 1 THRESHOLD (THR_MIN rd);
          Some (Phase_Init (p\<lparr>ph_V_maf := m0, ph_I_maf := m1, ph_P_maf := m2, ph_W_maf := m3,
            ph_UI_maf := m4, ph_INT_maf := m5, ph_Iba_maf := m6, ph_Ibr_maf := m7, ph_Iv_maf := m8\<rparr>)) }"

fun cfg_init_phases :: "rnd \<Rightarrow> tBuffer list \<Rightarrow> nat list \<Rightarrow> tPhase option list \<Rightarrow> tPhase option list option" where
  "cfg_init_phases rd bufs [] ps = Some ps"
| "cfg_init_phases rd bufs (j # js) ps =
     do { p0 \<leftarrow> rd_at ps (int j);
          p \<leftarrow> p0;
          p' \<leftarrow> cfg_init_phase rd bufs (j * PHASE_RAW_BUFFERS) p;
          cfg_init_phases rd bufs js (ps[j := Some p']) }"

definition cfg_init_cpt :: "rnd \<Rightarrow> tBuffer list \<Rightarrow> tCPT \<Rightarrow> tCPT option" where
  "cfg_init_cpt rd bufs me =
     do { m0 \<leftarrow> init_at bufs 0 1 THRESHOLD (THR_MIN rd);
          m1 \<leftarrow> init_at bufs 1 1 THRESHOLD (THR_MIN rd);
          m2 \<leftarrow> init_at bufs 2 1 THRESHOLD (THR_MIN rd);
          m3 \<leftarrow> init_at bufs 3 1 THRESHOLD (THR_MIN rd);
          m4 \<leftarrow> init_at bufs 4 1 THRESHOLD (THR_MIN rd);
          m5 \<leftarrow> init_at bufs 5 1 THRESHOLD (THR_MIN rd);
          m6 \<leftarrow> init_at bufs 6 1 THRESHOLD (THR_MIN rd);
          m7 \<leftarrow> init_at bufs 7 1 THRESHOLD (THR_MIN rd);
          Some (me\<lparr>cpt_Iba_maf := m0, cpt_Iua_maf := m1, cpt_Ibr_maf := m2, cpt_Iur_maf := m3,
                   cpt_Iv_maf := m4, cpt_I_maf := m5, cpt_V_maf := m6, cpt_UI_maf := m7\<rparr>) }"

text \<open>
  The result is the record and the return code; a failed allocation returns \<open>-1\<close> with the phase
  pointers set so far. The tables of buffer descriptors take \<open>8 * 9 * n\<close> bytes on the 32-bit target;
  a product that wraps leaves them too small and the accesses undefined. \<open>freq\<close> of zero divides by zero in floating point (an infinite \<open>TSH\<close>).
\<close>

definition CPT_Config :: "rnd \<Rightarrow> heap_env \<Rightarrow> tCPT \<Rightarrow> u32 \<Rightarrow> u32 \<Rightarrow> u32 \<Rightarrow> (tCPT \<times> int) option" where
  "CPT_Config rd env me freq smp n =
     (if \<not> mal env 0 then Some (me, -1)
      else if \<not> mal env 1 then Some (me, -1)
      else if 2 ^ 32 \<le> unat n * 72 then None
      else (case cfg_phases env n [0, 1, 2] 2 (Phase me) of (ok, k, ps) \<Rightarrow>
        let me = me\<lparr>Phase := ps\<rparr> in
        if \<not> ok then Some (me, -1)
        else (case cfg_buffers env smp (unat n * PHASE_RAW_BUFFERS) k of
          None \<Rightarrow> Some (me, -1)
        | Some pbufs \<Rightarrow>
           (case cfg_buffers env smp (unat n * CPT_RAW_BUFFERS) (k + unat n * PHASE_RAW_BUFFERS) of
             None \<Rightarrow> Some (me, -1)
           | Some cbufs \<Rightarrow>
              do { ps' \<leftarrow> cfg_init_phases rd pbufs [0, 1, 2] (Phase me);
                   me \<leftarrow> cfg_init_cpt rd cbufs (me\<lparr>Phase := ps'\<rparr>);
                   Some (me\<lparr>TSH := fdiv rd DBL (f_of_int rd DBL 1) (f_of_int rd DBL (uint freq)),
                            samples := smp, cpt_n := n,
                            cpt_Iba_rms := fzero, cpt_Iua_rms := fzero, cpt_Ibr_rms := fzero,
                            cpt_Iur_rms := fzero, cpt_Iv_rms := fzero\<rparr>, 0) }))))"

section \<open>The contract of a loop over the phases\<close>

definition phases :: "nat \<Rightarrow> (nat \<Rightarrow> tPhase \<Rightarrow> bool) \<Rightarrow> tCPT \<Rightarrow> bool" where
  "phases N P me \<longleftrightarrow> length (Phase me) = 3 \<and> unat (cpt_n me) = N \<and> N \<le> 3 \<and>
     (\<forall>i<N. \<exists>p. Phase me ! i = Some p \<and> P i p)"

text \<open>
  A body that never faults on phases satisfying \<open>pre\<close> under an invariant \<open>cok\<close> of the collective
  record, keeps \<open>cok\<close>, and leaves the phase it worked on in \<open>post\<close>.
\<close>

locale phase_loop =
  fixes body :: "nat \<Rightarrow> tCPT \<Rightarrow> tPhase \<Rightarrow> (tCPT \<times> tPhase) option"
    and cok :: "tCPT \<Rightarrow> bool"
    and pre post :: "nat \<Rightarrow> tPhase \<Rightarrow> bool"
  assumes body_ok: "cok me \<Longrightarrow> pre i p \<Longrightarrow>
      \<exists>me' p'. body i me p = Some (me', p') \<and> cok me' \<and> post i p' \<and> Phase me' = Phase me \<and> cpt_n me' = cpt_n me"
    and cok_Phase: "cok (me\<lparr>Phase := ps\<rparr>) = cok me"
begin

lemma for_phases_ok:
  assumes "cok me" and "length (Phase me) = 3" and "i + k \<le> 3"
    and "\<forall>j<i + k. \<exists>p. Phase me ! j = Some p \<and> (if j < i then post j p else pre j p)"
  shows "\<exists>me'. for_phases body i k me = Some me' \<and> cok me' \<and> cpt_n me' = cpt_n me \<and>
    length (Phase me') = 3 \<and> (\<forall>j<i + k. \<exists>p. Phase me' ! j = Some p \<and> post j p)"
  using assms
proof (induction k arbitrary: i me)
  case (Suc k)
  obtain p where p: "Phase me ! i = Some p" "pre i p" using Suc.prems(4)[rule_format, of i] by auto
  obtain m1 p1 where b: "body i me p = Some (m1, p1)" "cok m1" "post i p1" "Phase m1 = Phase me"
      "cpt_n m1 = cpt_n me"
    using body_ok[OF Suc.prems(1) p(2)] by blast
  let ?m2 = "m1\<lparr>Phase := (Phase me)[i := Some p1]\<rparr>"
  have "\<forall>j<Suc i + k. \<exists>p. Phase ?m2 ! j = Some p \<and> (if j < Suc i then post j p else pre j p)"
  proof (intro allI impI)
    fix j assume "j < Suc i + k"
    then show "\<exists>p. Phase ?m2 ! j = Some p \<and> (if j < Suc i then post j p else pre j p)"
      using Suc.prems(2,3) b(3) Suc.prems(4)[rule_format, of j]
      by (cases "j = i") (auto simp: less_Suc_eq)
  qed
  from Suc.IH[of ?m2 "Suc i", OF _ _ _ this] b Suc.prems
  obtain me' where "for_phases body (Suc i) k ?m2 = Some me'" "cok me'" "cpt_n me' = cpt_n me"
      "length (Phase me') = 3" "\<forall>j<Suc i + k. \<exists>p. Phase me' ! j = Some p \<and> post j p"
    by (auto simp: cok_Phase)
  moreover have "rd_at (Phase me) (int i) = Some (Some p)" using p(1) Suc.prems(2,3) by simp
  ultimately show ?case using b by auto
qed auto

lemma each_phase_ok:
  assumes "cok me" and "phases N pre me"
  shows "\<exists>me'. each_phase body me = Some me' \<and> cok me' \<and> phases N post me'"
  using for_phases_ok[of me 0 N] assms by (auto simp: each_phase_def phases_def)

end

lemma phases_mono:
  assumes "phases N P me" and "\<And>i p. i < N \<Longrightarrow> P i p \<Longrightarrow> Q i p"
    and "Phase me' = Phase me" "cpt_n me' = cpt_n me"
  shows "phases N Q me'"
  using assms unfolding phases_def by metis

end
