(* ===== verification/CPT_Safety.thy ===== *)
theory CPT_Safety
  imports CPT
begin

text \<open>
  The update of one sample never faults. The argument is made once, for an arithmetic with a set
  \<open>G\<close> of good values closed under the operations the engine uses and a set \<open>pos\<close> of safe
  divisors (locale \<open>closed_arith\<close>), and instantiated twice: with IEEE arithmetic and every value
  good, which gives memory safety, and with exact arithmetic and the finite values, which adds
  that no division by zero or square root of a negative number can occur.

  Each loop over the phases is an instance of the contract \<open>phase_loop\<close>, with the fields the loop
  establishes in its postcondition.
\<close>

locale closed_arith = rounding +
  fixes G pos :: "fp \<Rightarrow> bool"
  assumes G_add: "G a \<Longrightarrow> G b \<Longrightarrow> G (fadd rd DBL a b)"
    and G_sub: "G a \<Longrightarrow> G b \<Longrightarrow> G (fsub rd DBL a b)"
    and G_mul: "G a \<Longrightarrow> G b \<Longrightarrow> G (fmul rd DBL a b)"
    and G_div: "G a \<Longrightarrow> pos b \<Longrightarrow> G (fdiv rd DBL a b)"
    and pos_G: "pos b \<Longrightarrow> G b"
    and pos_mul: "pos a \<Longrightarrow> pos b \<Longrightarrow> pos (fmul rd DBL a b)"
    and pos_int: "0 < n \<Longrightarrow> pos (f_of_int rd DBL n)"
    and pos_rms: "G a \<Longrightarrow> pos (RMS_Evaluate rd a)"
    and pos_sqrt: "G a \<Longrightarrow> fgt a fzero \<Longrightarrow> pos (fsqrt rd DBL a)"
    and G_norm: "G a \<Longrightarrow> G b \<Longrightarrow> G (fsqrt rd DBL (fadd rd DBL (fmul rd DBL a a) (fmul rd DBL b b)))"
    and G_const: "G (fconst rd DBL r)"
    and pos_guard: "pos a \<Longrightarrow> \<not> feq a fzero \<or> (\<forall>b. G b)"
    and pos_fgt: "pos a \<Longrightarrow> fgt a fzero \<or> (\<forall>b. G b)"
    and pos_floor: "G a \<Longrightarrow> pos (if flt a (tiny rd) then tiny rd else a)"
    and pos_first: "pos a \<Longrightarrow> pos (fadd rd DBL fzero a)"
    and pos_add: "pos a \<Longrightarrow> pos b \<Longrightarrow> pos (fadd rd DBL a b)"
    and pos_square: "pos a \<Longrightarrow> G b \<Longrightarrow> pos (fadd rd DBL a (fmul rd DBL b b))"
begin

lemma G_int: "0 < n \<Longrightarrow> G (f_of_int rd DBL n)"
  by (rule pos_G[OF pos_int])

lemma G_zero: "G fzero"
  using G_const[of 0] rd_0[of DBL] by (simp add: fconst_def)

lemma G_tiny: "G (tiny rd)"
  unfolding tiny_def by (intro G_div G_int pos_int) simp_all

text \<open>The two denominators of the factors.\<close>

definition squares :: "fp \<Rightarrow> fp \<Rightarrow> fp" where
  "squares a b = fadd rd DBL (fmul rd DBL a a) (fmul rd DBL b b)"

definition factor_is :: "fp \<Rightarrow> fp \<Rightarrow> fp \<Rightarrow> bool" where
  "factor_is x d f \<longleftrightarrow> G f \<and> (fgt d fzero \<longrightarrow> fdiv rd DBL x (fsqrt rd DBL d) = f)"

lemma pos_squares: "pos a \<Longrightarrow> G b \<Longrightarrow> pos (squares a b)"
  unfolding squares_def by (intro pos_square pos_mul)

lemma factor_step:
  assumes "pos d" "G x" "f = (if fgt d fzero then fdiv rd DBL x (fsqrt rd DBL d) else f0)"
  shows "factor_is x d f"
proof (cases "fgt d fzero")
  case True
  then show ?thesis using G_div[OF assms(2) pos_sqrt[OF pos_G[OF assms(1)] True]] assms(3) by (simp add: factor_is_def)
next
  case False
  then show ?thesis using pos_fgt[OF assms(1)] by (simp add: factor_is_def)
qed

lemmas G_intros = G_add G_sub G_mul G_div G_int G_zero G_tiny G_norm pos_mul pos_int pos_rms

definition maf_G :: "tMAF \<Rightarrow> bool" where
  "maf_G m \<longleftrightarrow> maf_ok m \<and> list_all G (Data (Buffer m)) \<and> G (Accumulator m) \<and> G (Min m)"

lemma maf_step:
  assumes m: "maf_G m" and x: "G x"
  shows "\<exists>m'. maf_update rd m x = Some m' \<and> maf_G m' \<and> G (MeanValue m')"
proof -
  have ok: "maf_ok m" and dat: "list_all G (Data (Buffer m))" and acc: "G (Accumulator m)" and mn: "G (Min m)"
    using m by (auto simp: maf_G_def)
  obtain m' where m': "maf_update rd m x = Some m'" "maf_ok m'" "Length (Buffer m') = Length (Buffer m)"
      "Data (Buffer m') = (Data (Buffer m))[nat (Head m) := x]"
      "Accumulator m' = fadd rd DBL (fsub rd DBL (Accumulator m) (Data (Buffer m) ! nat (Head m))) x"
      "Min m' = Min m"
    using maf_update_ok[OF ok] by metis
  have h: "nat (Head m) < length (Data (Buffer m))" using ok by (auto simp: maf_ok_def)
  then have acc': "G (Accumulator m')"
    using m'(5) acc dat x by (auto intro!: G_intros simp: list_all_length)
  have "list_all G (Data (Buffer m'))"
    using m'(4) dat x by (auto simp: list_all_iff dest!: set_update_subset_insert[THEN subsetD])
  moreover have "G (MeanValue m')"
  proof -
    have "0 < Length (Buffer m')" using m'(2) by (auto simp: maf_ok_def)
    then have "G (fdiv rd DBL (Accumulator m') (f_of_int rd DBL (Length (Buffer m'))))"
      using acc' by (intro G_intros)
    then show ?thesis using maf_update_mean[OF m'(1)] mn m'(6) by (simp add: Let_def)
  qed
  ultimately show ?thesis using m' acc' mn by (auto simp: maf_G_def)
qed

definition pac_at :: "tPAC \<Rightarrow> nat \<Rightarrow> bool" where
  "pac_at pac i \<longleftrightarrow> i < length (V pac) \<and> i < length (I pac) \<and> G (V pac ! i) \<and> G (I pac ! i)"

definition mafs_G :: "tPhase \<Rightarrow> bool" where
  "mafs_G p \<longleftrightarrow> maf_G (ph_V_maf p) \<and> maf_G (ph_I_maf p) \<and> maf_G (ph_P_maf p) \<and> maf_G (ph_W_maf p) \<and>
     maf_G (ph_UI_maf p) \<and> maf_G (ph_INT_maf p) \<and> maf_G (ph_Iba_maf p) \<and> maf_G (ph_Ibr_maf p) \<and> maf_G (ph_Iv_maf p)"

text \<open>The state between two samples, and what each loop establishes.\<close>

definition P0 :: "tPhase \<Rightarrow> bool" where
  "P0 p \<longleftrightarrow> mafs_G p \<and> G (ph_Integral p) \<and> G (ph_Integral_lastInput p)"

definition P1 :: "tPhase \<Rightarrow> bool" where
  "P1 p \<longleftrightarrow> P0 p \<and> pos (ph_V_rms p) \<and> pos (ph_I_rms p) \<and> pos (ph_UnbiasedIntegral_rms p) \<and>
     G (ph_V_pow2 p) \<and> G (ph_I_pow2 p) \<and> G (ph_UnbiasedIntegral p) \<and> G (ph_UnbiasedIntegral_pow2 p)"

definition P2 :: "tPhase \<Rightarrow> bool" where
  "P2 p \<longleftrightarrow> P1 p \<and> pos (ph_P_avg p) \<and> G (ph_W_avg p) \<and> G (ph_P_inst p) \<and> G (ph_W_inst p)"

definition P3 :: "tPAC \<Rightarrow> nat \<Rightarrow> tPhase \<Rightarrow> bool" where
  "P3 pac i p \<longleftrightarrow> P2 p \<and> G (ph_Ia_ActiveCurrent p) \<and> G (ph_Ir_ReactiveCurrent p) \<and>
     G (ph_Iv_VoidCurrent p) \<and> pos (ph_Iv_rms p) \<and>
     fsub rd DBL (fsub rd DBL (I pac ! i) (ph_Ia_ActiveCurrent p)) (ph_Ir_ReactiveCurrent p) = ph_Iv_VoidCurrent p"

definition P4 :: "tPAC \<Rightarrow> nat \<Rightarrow> tPhase \<Rightarrow> bool" where
  "P4 pac i p \<longleftrightarrow> P3 pac i p \<and> G (ph_Iba_BalancedActiveCurrent p)"

definition P5 :: "tPAC \<Rightarrow> nat \<Rightarrow> tPhase \<Rightarrow> bool" where
  "P5 pac i p \<longleftrightarrow> P4 pac i p \<and> G (ph_Ibr_BalancedReactiveCurrent p)"

definition P6 :: "tPAC \<Rightarrow> nat \<Rightarrow> tPhase \<Rightarrow> bool" where
  "P6 pac i p \<longleftrightarrow> P5 pac i p \<and> pos (ph_Iba_rms p) \<and> pos (ph_Ibr_rms p)"

definition P7 :: "tPAC \<Rightarrow> nat \<Rightarrow> tPhase \<Rightarrow> bool" where
  "P7 pac i p \<longleftrightarrow> P6 pac i p \<and> G (ph_Iua_UnbalancedActiveCurrent p) \<and> G (ph_Iur_UnbalancedReactiveCurrent p) \<and>
     G (ph_Iu_UnbalancedCurrent p) \<and>
     fsub rd DBL (ph_Ia_ActiveCurrent p) (ph_Iba_BalancedActiveCurrent p) = ph_Iua_UnbalancedActiveCurrent p \<and>
     fsub rd DBL (ph_Ir_ReactiveCurrent p) (ph_Ibr_BalancedReactiveCurrent p) = ph_Iur_UnbalancedReactiveCurrent p \<and>
     fadd rd DBL (ph_Iua_UnbalancedActiveCurrent p) (ph_Iur_UnbalancedReactiveCurrent p) = ph_Iu_UnbalancedCurrent p"

definition P8 :: "tPAC \<Rightarrow> nat \<Rightarrow> tPhase \<Rightarrow> bool" where
  "P8 pac i p \<longleftrightarrow> P7 pac i p \<and> G (ph_Iua_rms p) \<and> G (ph_Iur_rms p)"

definition P9 :: "tPAC \<Rightarrow> nat \<Rightarrow> tPhase \<Rightarrow> bool" where
  "P9 pac i p \<longleftrightarrow> P8 pac i p \<and> pos (ph_A p) \<and> G (ph_Q p) \<and> G (ph_Na p) \<and> G (ph_Nr p) \<and> G (ph_N p) \<and> G (ph_V p) \<and>
     fmul rd DBL (ph_V_rms p) (ph_I_rms p) = ph_A p"

definition P10 :: "tPAC \<Rightarrow> nat \<Rightarrow> tPhase \<Rightarrow> bool" where
  "P10 pac i p \<longleftrightarrow> P9 pac i p \<and> G (ph_PF p) \<and> G (ph_VF p) \<and>
     factor_is (ph_Q p) (squares (ph_P_avg p) (ph_Q p)) (ph_QF p) \<and>
     factor_is (ph_N p) (fadd rd DBL (squares (ph_P_avg p) (ph_Q p)) (fmul rd DBL (ph_N p) (ph_N p))) (ph_NF p) \<and>
     (\<not> feq (ph_A p) fzero \<longrightarrow> fdiv rd DBL (ph_P_avg p) (ph_A p) = ph_PF p \<and> \<not> fgt (ph_VF p) (f_of_int rd DBL 1))"

definition C0 :: "tCPT \<Rightarrow> bool" where
  "C0 me \<longleftrightarrow> maf_G (cpt_Iba_maf me) \<and> maf_G (cpt_Iua_maf me) \<and> maf_G (cpt_Ibr_maf me) \<and> maf_G (cpt_Iur_maf me) \<and>
     maf_G (cpt_Iv_maf me) \<and> maf_G (cpt_V_maf me) \<and> maf_G (cpt_I_maf me) \<and> maf_G (cpt_UI_maf me) \<and> G (TSH me)"

definition C1 :: "tCPT \<Rightarrow> bool" where
  "C1 me \<longleftrightarrow> C0 me \<and> G (cpt_P_avg me) \<and> G (cpt_W_avg me) \<and> G (cpt_V_rms me) \<and> G (cpt_I_rms me) \<and> G (cpt_UI_rms me)"

definition C2 :: "tCPT \<Rightarrow> bool" where
  "C2 me \<longleftrightarrow> C1 me \<and> pos (cpt_V_rms me) \<and> pos (cpt_I_rms me) \<and> pos (cpt_UI_rms me) \<and> pos (cpt_P_avg me)"

lemmas P_defs = P0_def P1_def P2_def P3_def P4_def P5_def P6_def P7_def P8_def P9_def P10_def mafs_G_def

lemma vi_ok:
  assumes me: "C0 me" and pac: "pac_at pac i" and p: "P0 p"
  shows "\<exists>me' p'. upd_VI_phase rd pac i me p = Some (me', p') \<and> C0 me' \<and> P1 p' \<and>
    Phase me' = Phase me \<and> cpt_n me' = cpt_n me"
proof -
  let ?v = "V pac ! i" and ?c = "I pac ! i"
  have rd: "rd_at (V pac) (int i) = Some ?v" "rd_at (I pac) (int i) = Some ?c" and g: "G ?v" "G ?c"
    using pac by (auto simp: pac_at_def)
  let ?int = "fadd rd DBL (ph_Integral p) (fmul rd DBL (fdiv rd DBL (TSH me) (f_of_int rd DBL 2))
      (fadd rd DBL ?v (ph_Integral_lastInput p)))"
  have int: "G ?int" using me p g by (auto simp: C0_def P0_def intro!: G_intros)
  note mm = p[unfolded P0_def mafs_G_def]
  obtain m1 where m1: "maf_update rd (ph_V_maf p) (fmul rd DBL ?v ?v) = Some m1" "maf_G m1" "G (MeanValue m1)"
    using maf_step[OF _ G_mul[OF g(1) g(1)], of "ph_V_maf p"] mm by blast
  obtain m2 where m2: "maf_update rd (ph_I_maf p) (fmul rd DBL ?c ?c) = Some m2" "maf_G m2" "G (MeanValue m2)"
    using maf_step[OF _ G_mul[OF g(2) g(2)], of "ph_I_maf p"] mm by blast
  obtain m3 where m3: "maf_update rd (ph_INT_maf p) ?int = Some m3" "maf_G m3" "G (MeanValue m3)"
    using maf_step[OF _ int, of "ph_INT_maf p"] mm by blast
  let ?ui = "fsub rd DBL ?int (MeanValue m3)"
  have ui: "G ?ui" using int m3(3) by (rule G_sub)
  obtain m4 where m4: "maf_update rd (ph_UI_maf p) (fmul rd DBL ?ui ?ui) = Some m4" "maf_G m4" "G (MeanValue m4)"
    using maf_step[OF _ G_mul[OF ui ui], of "ph_UI_maf p"] mm by blast
  show ?thesis
    using rd m1 m2 m3 m4 me p g int ui
    by (auto simp: upd_VI_phase_def Let_def P1_def P0_def mafs_G_def G_intros)
qed

lemma pe_ok:
  assumes pac: "pac_at pac i" and p: "P1 p"
  shows "\<exists>p'. upd_PE_phase rd pac i me p = Some (me, p') \<and> P2 p'"
proof -
  let ?v = "V pac ! i" and ?c = "I pac ! i"
  have rd: "rd_at (V pac) (int i) = Some ?v" "rd_at (I pac) (int i) = Some ?c" and g: "G ?v" "G ?c"
    using pac by (auto simp: pac_at_def)
  note mm = p[unfolded P1_def P0_def mafs_G_def]
  obtain m1 where m1: "maf_update rd (ph_P_maf p) (fmul rd DBL ?v ?c) = Some m1" "maf_G m1" "G (MeanValue m1)"
    using maf_step[OF _ G_mul[OF g], of "ph_P_maf p"] mm by blast
  have ui: "G (ph_UnbiasedIntegral p)" using mm by blast
  obtain m2 where m2: "maf_update rd (ph_W_maf p) (fmul rd DBL (ph_UnbiasedIntegral p) ?c) = Some m2"
      "maf_G m2" "G (MeanValue m2)"
    using maf_step[OF _ G_mul[OF ui g(2)], of "ph_W_maf p"] mm by blast
  show ?thesis
    using rd m1 m2 mm ui g pos_floor[OF m1(3)] by (simp add: upd_PE_phase_def Let_def P2_def P1_def P0_def mafs_G_def G_mul)
qed

lemma collect_ok:
  assumes me: "C1 me" and p: "P2 p"
  shows "\<exists>me'. collect_phase rd i me p = Some (me', p) \<and> C1 me' \<and> Phase me' = Phase me \<and> cpt_n me' = cpt_n me"
  using me p by (simp add: collect_phase_def C1_def C0_def P2_def P1_def pos_G G_add)

lemma active_ok:
  assumes pac: "pac_at pac i" and p: "P2 p" and me: "C2 me" "G (cpt_Iv_rms me)"
  shows "\<exists>me' p'. cur_active_phase rd pac i me p = Some (me', p') \<and> (C2 me' \<and> G (cpt_Iv_rms me')) \<and> P3 pac i p' \<and>
    Phase me' = Phase me \<and> cpt_n me' = cpt_n me"
proof -
  let ?v = "V pac ! i" and ?c = "I pac ! i"
  have rd: "rd_at (V pac) (int i) = Some ?v" "rd_at (I pac) (int i) = Some ?c" and g: "G ?v" "G ?c"
    using pac by (auto simp: pac_at_def)
  note mm = p[unfolded P2_def P1_def P0_def mafs_G_def]
  let ?Ia = "if \<not> feq (ph_V_rms p) fzero
      then fmul rd DBL (fdiv rd DBL (ph_P_avg p) (fmul rd DBL (ph_V_rms p) (ph_V_rms p))) ?v else ph_Ia_ActiveCurrent p"
  let ?Ir = "if \<not> feq (ph_UnbiasedIntegral_rms p) fzero
      then fmul rd DBL (fdiv rd DBL (ph_W_avg p) (fmul rd DBL (ph_UnbiasedIntegral_rms p) (ph_UnbiasedIntegral_rms p)))
        (ph_UnbiasedIntegral p) else ph_Ir_ReactiveCurrent p"
  have Ia: "G ?Ia" using pos_guard[of "ph_V_rms p"] mm g by (auto intro!: G_intros intro: pos_G)
  have Ir: "G ?Ir" using pos_guard[of "ph_UnbiasedIntegral_rms p"] mm by (auto intro!: G_intros)
  let ?iv = "fsub rd DBL (fsub rd DBL ?c ?Ia) ?Ir"
  have iv: "G ?iv" using g(2) Ia Ir by (intro G_sub)
  obtain m1 where m1: "maf_update rd (ph_Iv_maf p) (fmul rd DBL ?iv ?iv) = Some m1" "maf_G m1" "G (MeanValue m1)"
    using maf_step[OF _ G_mul[OF iv iv], of "ph_Iv_maf p"] mm by blast
  have "cur_active_phase rd pac i me p = Some (me\<lparr>cpt_Iv_rms := fadd rd DBL (cpt_Iv_rms me) (fmul rd DBL ?iv ?iv)\<rparr>,
      p\<lparr>ph_Ia_ActiveCurrent := ?Ia, ph_Ir_ReactiveCurrent := ?Ir, ph_Iv_VoidCurrent := ?iv, ph_Iv_maf := m1,
        ph_Iv_rms := RMS_Evaluate rd (MeanValue m1)\<rparr>)"
    using rd m1(1) by (simp add: cur_active_phase_def Let_def cong: if_cong)
  then show ?thesis
    using m1 me mm Ia Ir iv
    by (simp add: P3_def P2_def P1_def P0_def mafs_G_def C2_def C1_def C0_def pos_rms G_add G_mul)
qed

definition D2 :: "tCPT \<Rightarrow> bool" where
  "D2 me \<longleftrightarrow> C2 me \<and> pos (cpt_Iv_rms me)"

definition D3 :: "tCPT \<Rightarrow> bool" where
  "D3 me \<longleftrightarrow> D2 me \<and> G (cpt_Iba_rms me) \<and> G (cpt_Ibr_rms me)"

definition D4 :: "tCPT \<Rightarrow> bool" where
  "D4 me \<longleftrightarrow> D3 me \<and> G (cpt_Iua_rms me) \<and> G (cpt_Iur_rms me)"

definition D5 :: "tCPT \<Rightarrow> bool" where
  "D5 me \<longleftrightarrow> D4 me \<and> pos (cpt_A me) \<and> G (cpt_Q me) \<and> G (cpt_Na me) \<and> G (cpt_Nr me) \<and> G (cpt_N me) \<and> G (cpt_V me)"

definition D6 :: "tCPT \<Rightarrow> bool" where
  "D6 me \<longleftrightarrow> D5 me \<and> G (cpt_PF me) \<and> G (cpt_VF me) \<and>
     factor_is (cpt_Q me) (squares (cpt_P_avg me) (cpt_Q me)) (cpt_QF me) \<and>
     factor_is (cpt_N me) (fadd rd DBL (squares (cpt_P_avg me) (cpt_Q me)) (fmul rd DBL (cpt_N me) (cpt_N me))) (cpt_NF me)"

lemmas C_defs = C0_def C1_def C2_def D2_def D3_def D4_def D5_def D6_def

lemma Iba_ok:
  assumes pac: "pac_at pac i" and p: "P3 pac i p" and me: "D2 me"
  shows "\<exists>p'. cur_Iba_phase rd pac i me p = Some (me, p') \<and> P4 pac i p'"
  using pac p me by (simp add: cur_Iba_phase_def pac_at_def P_defs C_defs G_intros)

lemma Ibr_ok:
  assumes p: "P4 pac i p" and me: "D2 me"
  shows "\<exists>p'. cur_Ibr_phase rd i me p = Some (me, p') \<and> P5 pac i p'"
  using p me by (simp add: cur_Ibr_phase_def P_defs C_defs G_intros)

lemma balanced_ok:
  assumes p: "P5 pac i p" and me: "D3 me"
  shows "\<exists>me' p'. cur_balanced_phase rd i me p = Some (me', p') \<and> D3 me' \<and> P6 pac i p' \<and>
    Phase me' = Phase me \<and> cpt_n me' = cpt_n me"
proof -
  note mm = p[unfolded P_defs]
  let ?a = "ph_Iba_BalancedActiveCurrent p" and ?r = "ph_Ibr_BalancedReactiveCurrent p"
  have g: "G ?a" "G ?r" using mm by blast+
  obtain m1 where m1: "maf_update rd (ph_Iba_maf p) (fmul rd DBL ?a ?a) = Some m1" "maf_G m1" "G (MeanValue m1)"
    using maf_step[OF _ G_mul[OF g(1) g(1)], of "ph_Iba_maf p"] mm by blast
  obtain m2 where m2: "maf_update rd (ph_Ibr_maf p) (fmul rd DBL ?r ?r) = Some m2" "maf_G m2" "G (MeanValue m2)"
    using maf_step[OF _ G_mul[OF g(2) g(2)], of "ph_Ibr_maf p"] mm by blast
  show ?thesis
    using m1 m2 me mm by (simp add: cur_balanced_phase_def Let_def P_defs C_defs G_intros)
qed

lemma unbalanced_ok:
  assumes p: "P6 pac i p"
  shows "\<exists>p'. cur_unbalanced_phase rd i me p = Some (me, p') \<and> P7 pac i p'"
  using p by (simp add: cur_unbalanced_phase_def Let_def P_defs G_intros)

lemma unbalanced_sq_ok:
  assumes p: "P7 pac i p" and me: "D4 me"
  shows "\<exists>me' p'. cur_unbalanced_sq_phase rd i me p = Some (me', p') \<and> D4 me' \<and> P8 pac i p' \<and>
    Phase me' = Phase me \<and> cpt_n me' = cpt_n me"
  using p me by (simp add: cur_unbalanced_sq_phase_def Let_def P_defs C_defs G_intros)

lemma power_ok:
  assumes p: "P8 pac i p"
  shows "\<exists>p'. power_phase rd i me p = Some (me, p') \<and> P9 pac i p'"
  using p by (simp add: power_phase_def Let_def P_defs G_intros pos_G[OF pos_rms] pos_G)

lemma factors_ok:
  assumes p: "P9 pac i p"
  shows "\<exists>p'. factors_phase rd i me p = Some (me, p') \<and> P10 pac i p'"
proof -
  note mm = p[unfolded P_defs]
  let ?vf = "fdiv rd DBL (ph_V p) (ph_A p)" and ?pq = "squares (ph_P_avg p) (ph_Q p)"
  let ?pqn = "fadd rd DBL ?pq (fmul rd DBL (ph_N p) (ph_N p))"
  have d: "pos ?pq" "pos ?pqn" using mm by (simp_all add: pos_squares pos_square)
  have f: "factor_is (ph_Q p) ?pq (if fgt ?pq fzero then fdiv rd DBL (ph_Q p) (fsqrt rd DBL ?pq) else ph_QF p)"
    "factor_is (ph_N p) ?pqn (if fgt ?pqn fzero then fdiv rd DBL (ph_N p) (fsqrt rd DBL ?pqn) else ph_NF p)"
    using mm by (blast intro: factor_step[OF d(1)] factor_step[OF d(2)])+
  have g: "G ?vf" "G (fdiv rd DBL (ph_P_avg p) (ph_A p))" "G (f_of_int rd DBL 1)" using mm by (simp_all add: G_intros pos_G)
  show ?thesis
    using mm g f pos_guard[of "ph_A p"] unfolding squares_def
    by (auto simp: factors_phase_def Let_def P_defs squares_def fgt_irrefl)
qed

end

sublocale closed_arith \<subseteq> vi: phase_loop "upd_VI_phase rd pac" C0 "\<lambda>i p. pac_at pac i \<and> P0 p" "\<lambda>i. P1" for pac
  by unfold_locales (metis vi_ok, simp add: C0_def)

sublocale closed_arith \<subseteq> pe: phase_loop "upd_PE_phase rd pac" C0 "\<lambda>i p. pac_at pac i \<and> P1 p" "\<lambda>i. P2" for pac
  by unfold_locales (metis pe_ok, simp add: C0_def)

sublocale closed_arith \<subseteq> col: phase_loop "collect_phase rd" C1 "\<lambda>i. P2" "\<lambda>i. P2"
  by unfold_locales (metis collect_ok, simp add: C1_def C0_def)

sublocale closed_arith \<subseteq> act: phase_loop "cur_active_phase rd pac" "\<lambda>me. C2 me \<and> G (cpt_Iv_rms me)"
    "\<lambda>i p. pac_at pac i \<and> P2 p" "P3 pac" for pac
  by unfold_locales (metis active_ok, simp add: C_defs)

sublocale closed_arith \<subseteq> iba: phase_loop "cur_Iba_phase rd pac" D2 "\<lambda>i p. pac_at pac i \<and> P3 pac i p" "P4 pac" for pac
  by unfold_locales (metis Iba_ok, simp add: C_defs)

sublocale closed_arith \<subseteq> ibr: phase_loop "cur_Ibr_phase rd" D2 "P4 pac" "P5 pac" for pac
  by unfold_locales (metis Ibr_ok, simp add: C_defs)

sublocale closed_arith \<subseteq> bal: phase_loop "cur_balanced_phase rd" D3 "P5 pac" "P6 pac" for pac
  by unfold_locales (metis balanced_ok, simp add: C_defs)

sublocale closed_arith \<subseteq> unb: phase_loop "cur_unbalanced_phase rd" D3 "P6 pac" "P7 pac" for pac
  by unfold_locales (metis unbalanced_ok, simp add: C_defs)

sublocale closed_arith \<subseteq> unsq: phase_loop "cur_unbalanced_sq_phase rd" D4 "P7 pac" "P8 pac" for pac
  by unfold_locales (metis unbalanced_sq_ok, simp add: C_defs)

sublocale closed_arith \<subseteq> pow: phase_loop "power_phase rd" D4 "P8 pac" "P9 pac" for pac
  by unfold_locales (metis power_ok, simp add: C_defs)

sublocale closed_arith \<subseteq> fac: phase_loop "factors_phase rd" D6 "P9 pac" "P10 pac" for pac
  by unfold_locales (metis factors_ok, simp add: C_defs)

context closed_arith
begin

definition ready :: "tCPT \<Rightarrow> bool" where
  "ready me \<longleftrightarrow> C0 me \<and> phases 3 (\<lambda>i. P0) me"

definition pac_G :: "tPAC \<Rightarrow> bool" where
  "pac_G pac \<longleftrightarrow> length (V pac) = 3 \<and> length (I pac) = 3 \<and> list_all G (V pac) \<and> list_all G (I pac)"

lemma pac_at_G: "pac_G pac \<Longrightarrow> i < 3 \<Longrightarrow> pac_at pac i"
  by (auto simp: pac_G_def pac_at_def list_all_length)

lemma pac_phases:
  assumes "pac_G pac" "phases 3 Q me" "Phase me' = Phase me" "cpt_n me' = cpt_n me"
  shows "phases 3 (\<lambda>i p. pac_at pac i \<and> Q i p) me'"
  using assms(2) by (rule phases_mono) (use assms in \<open>auto simp: pac_at_G\<close>)

lemma voltages_ok:
  assumes me: "ready me" and pac: "pac_G pac"
  shows "\<exists>me'. CPT_UpdateVoltagesAndCurrents rd me pac = Some me' \<and> C0 me' \<and> phases 3 (\<lambda>i. P1) me'"
  using vi.each_phase_ok[of me 3 pac] pac_phases[OF pac, of "\<lambda>i. P0" me me] me
  by (simp add: CPT_UpdateVoltagesAndCurrents_def ready_def)

lemma power_energy_ok:
  assumes me: "C0 me" "phases 3 (\<lambda>i. P1) me" and pac: "pac_G pac"
  shows "\<exists>me'. CPT_UpdatePowerAndEnergy rd me pac = Some me' \<and> C0 me' \<and> phases 3 (\<lambda>i. P2) me'"
  using pe.each_phase_ok[of me 3 pac] pac_phases[OF pac, of "\<lambda>i. P1" me me] me
  by (simp add: CPT_UpdatePowerAndEnergy_def)

text \<open>The sum of the active powers: unlike the other sums it must end up a safe divisor.\<close>

lemma collect_P_avg:
  assumes "each_phase (collect_phase rd) me = Some me'" "phases 3 (\<lambda>i. P2) me" "cpt_P_avg me = fzero"
  shows "pos (cpt_P_avg me')"
proof -
  obtain a b c where p: "Phase me = [Some a, Some b, Some c]" "pos (ph_P_avg a)" "pos (ph_P_avg b)" "pos (ph_P_avg c)"
    using assms(2) unfolding phases_def P2_def
    by (auto simp: numeral_3_eq_3 length_Suc_conv All_less_Suc2)
  have "cpt_P_avg me' = fadd rd DBL (fadd rd DBL (fadd rd DBL fzero (ph_P_avg a)) (ph_P_avg b)) (ph_P_avg c)"
    using assms p(1) by (auto simp: each_phase_def phases_def collect_phase_def numeral_3_eq_3)
  then show ?thesis using p by (simp add: pos_first pos_add)
qed

lemma collective_ok:
  assumes me: "C0 me" "phases 3 (\<lambda>i. P2) me"
  shows "\<exists>me'. CPT_UpdateCollectiveValues rd me pac = Some me' \<and> C2 me' \<and> phases 3 (\<lambda>i. P2) me'"
proof -
  let ?me0 = "me\<lparr>cpt_P_avg := fzero, cpt_W_avg := fzero, cpt_V_rms := fzero, cpt_I_rms := fzero, cpt_UI_rms := fzero\<rparr>"
  have "C1 ?me0" using me(1) by (simp add: C1_def C0_def G_zero)
  moreover have "phases 3 (\<lambda>i. P2) ?me0" using me(2) by (simp add: phases_def)
  ultimately obtain m1 where m1: "each_phase (collect_phase rd) ?me0 = Some m1" "C1 m1" "phases 3 (\<lambda>i. P2) m1"
    using col.each_phase_ok by blast
  have "phases 3 (\<lambda>i. P2) ?me0" using me(2) by (simp add: phases_def)
  then have pp: "pos (cpt_P_avg m1)" using collect_P_avg[OF m1(1)] by simp
  note mm = m1(2)[unfolded C1_def C0_def]
  obtain a where a: "maf_update rd (cpt_I_maf m1) (cpt_I_rms m1) = Some a" "maf_G a" "G (MeanValue a)"
    using maf_step mm by blast
  obtain b where b: "maf_update rd (cpt_V_maf m1) (cpt_V_rms m1) = Some b" "maf_G b" "G (MeanValue b)"
    using maf_step mm by blast
  obtain c where c: "maf_update rd (cpt_UI_maf m1) (cpt_UI_rms m1) = Some c" "maf_G c" "G (MeanValue c)"
    using maf_step mm by blast
  show ?thesis
    using m1(1,3) a b c mm pp
    by (simp add: CPT_UpdateCollectiveValues_def Let_def C_defs pos_rms pos_G phases_def)
qed

lemma void_ok:
  assumes me: "C2 me" "phases 3 (\<lambda>i. P2) me" and pac: "pac_G pac"
  shows "\<exists>me'. cur_void rd me pac = Some me' \<and> D2 me' \<and> phases 3 (P3 pac) me'"
proof -
  have "C2 (me\<lparr>cpt_Iv_rms := fzero\<rparr>) \<and> G fzero" using me(1) by (simp add: C_defs G_zero)
  then obtain m1 where m1: "each_phase (cur_active_phase rd pac) (me\<lparr>cpt_Iv_rms := fzero\<rparr>) = Some m1"
      "C2 m1" "G (cpt_Iv_rms m1)" "phases 3 (P3 pac) m1"
    using act.each_phase_ok[of "me\<lparr>cpt_Iv_rms := fzero\<rparr>" 3 pac]
      pac_phases[OF pac me(2), of "me\<lparr>cpt_Iv_rms := fzero\<rparr>"] by auto
  obtain a where a: "maf_update rd (cpt_Iv_maf m1) (cpt_Iv_rms m1) = Some a" "maf_G a" "G (MeanValue a)"
    using maf_step m1(2,3) unfolding C_defs by blast
  show ?thesis
    using m1 a by (simp add: cur_void_def C_defs pos_rms phases_def)
qed

lemma balanced_step_ok:
  assumes me: "D2 me" "phases 3 (P3 pac) me" and pac: "pac_G pac"
  shows "\<exists>me'. cur_balanced rd me pac = Some me' \<and> D3 me' \<and> phases 3 (P6 pac) me'"
proof -
  obtain m3 where m3: "(if \<not> feq (cpt_V_rms me) fzero then each_phase (cur_Iba_phase rd pac) me else Some me) = Some m3"
      "D2 m3" "phases 3 (P4 pac) m3"
  proof (cases "feq (cpt_V_rms me) fzero")
    case True
    then have "\<forall>b. G b" using pos_guard me(1) unfolding C_defs by blast
    then have "phases 3 (P4 pac) me" using me(2) by (simp add: phases_def P4_def)
    with that[of me] True me show ?thesis by simp
  next
    case False
    with iba.each_phase_ok[OF me(1) pac_phases[OF pac me(2) refl refl]] that show ?thesis by auto
  qed
  obtain m4 where m4: "(if \<not> feq (cpt_UI_rms m3) fzero then each_phase (cur_Ibr_phase rd) m3 else Some m3) = Some m4"
      "D2 m4" "phases 3 (P5 pac) m4"
  proof (cases "feq (cpt_UI_rms m3) fzero")
    case True
    then have "\<forall>b. G b" using pos_guard m3(2) unfolding C_defs by blast
    then have "phases 3 (P5 pac) m3" using m3(3) by (simp add: phases_def P5_def)
    with that[of m3] True m3 show ?thesis by simp
  next
    case False
    with ibr.each_phase_ok[OF m3(2,3)] that show ?thesis by auto
  qed
  let ?m4 = "m4\<lparr>cpt_Iba_rms := fzero, cpt_Ibr_rms := fzero\<rparr>"
  have "D3 ?m4" "phases 3 (P5 pac) ?m4" using m4(2,3) by (simp_all add: C_defs G_zero phases_def)
  then obtain m5 where m5: "each_phase (cur_balanced_phase rd) ?m4 = Some m5" "D3 m5" "phases 3 (P6 pac) m5"
    using bal.each_phase_ok by blast
  obtain b where b: "maf_update rd (cpt_Iba_maf m5) (cpt_Iba_rms m5) = Some b" "maf_G b" "G (MeanValue b)"
    using maf_step m5(2) unfolding C_defs by blast
  obtain c where c: "maf_update rd (cpt_Ibr_maf m5) (cpt_Ibr_rms m5) = Some c" "maf_G c" "G (MeanValue c)"
    using maf_step m5(2) unfolding C_defs by blast
  show ?thesis
    using m3(1) m4(1) m5 b c by (simp add: cur_balanced_def Let_def C_defs pos_rms pos_G phases_def)
qed

lemma unbalanced_step_ok:
  assumes me: "D3 me" "phases 3 (P6 pac) me"
  shows "\<exists>me'. cur_unbalanced rd me = Some me' \<and> D4 me' \<and> phases 3 (P8 pac) me'"
proof -
  obtain m1 where m1: "each_phase (cur_unbalanced_phase rd) me = Some m1" "D3 m1" "phases 3 (P7 pac) m1"
    using unb.each_phase_ok[OF me] by blast
  let ?m1 = "m1\<lparr>cpt_Iua_rms := fzero, cpt_Iur_rms := fzero\<rparr>"
  have "D4 ?m1" "phases 3 (P7 pac) ?m1" using m1(2,3) by (simp_all add: C_defs G_zero phases_def)
  then obtain m2 where m2: "each_phase (cur_unbalanced_sq_phase rd) ?m1 = Some m2" "D4 m2" "phases 3 (P8 pac) m2"
    using unsq.each_phase_ok by blast
  obtain b where b: "maf_update rd (cpt_Iua_maf m2) (cpt_Iua_rms m2) = Some b" "maf_G b" "G (MeanValue b)"
    using maf_step m2(2) unfolding C_defs by blast
  obtain c where c: "maf_update rd (cpt_Iur_maf m2) (cpt_Iur_rms m2) = Some c" "maf_G c" "G (MeanValue c)"
    using maf_step m2(2) unfolding C_defs by blast
  have "cpt_n me \<noteq> 1" using me(2) by (auto simp: phases_def)
  with m1(1) m2 b c show ?thesis
    by (simp add: cur_unbalanced_def Let_def C_defs pos_rms pos_G phases_def)
qed

lemma powers_ok:
  assumes me: "D4 me" "phases 3 (P8 pac) me"
  shows "\<exists>me'. CPT_PowerDecomposition rd me pac = Some me' \<and> D5 me' \<and> phases 3 (P9 pac) me'"
proof -
  obtain m1 where "each_phase (power_phase rd) me = Some m1" "D4 m1" "phases 3 (P9 pac) m1"
    using pow.each_phase_ok[OF me] by blast
  then show ?thesis by (simp add: CPT_PowerDecomposition_def Let_def C_defs phases_def G_intros pos_G)
qed

lemma factors_step_ok:
  assumes me: "D5 me" "phases 3 (P9 pac) me"
  shows "\<exists>me'. CPT_EvaluateFactors rd me pac = Some me' \<and> D6 me' \<and> phases 3 (P10 pac) me'"
proof -
  let ?pq = "squares (cpt_P_avg me) (cpt_Q me)"
  let ?pqn = "fadd rd DBL ?pq (fmul rd DBL (cpt_N me) (cpt_N me))"
  define m1 where "m1 = (if \<not> feq (cpt_A me) fzero
      then me\<lparr>cpt_PF := fdiv rd DBL (cpt_P_avg me) (cpt_A me), cpt_VF := fdiv rd DBL (cpt_V me) (cpt_A me)\<rparr> else me)"
  define m2 where "m2 = (if fgt ?pqn fzero then m1\<lparr>cpt_NF := fdiv rd DBL (cpt_N me) (fsqrt rd DBL ?pqn)\<rparr> else m1)"
  define m3 where "m3 = (if fgt ?pq fzero then m2\<lparr>cpt_QF := fdiv rd DBL (cpt_Q me) (fsqrt rd DBL ?pq)\<rparr> else m2)"
  have f1: "cpt_P_avg m1 = cpt_P_avg me \<and> cpt_Q m1 = cpt_Q me \<and> cpt_N m1 = cpt_N me \<and> Phase m1 = Phase me \<and> cpt_n m1 = cpt_n me"
    by (simp add: m1_def)
  have f2: "cpt_P_avg m2 = cpt_P_avg m1 \<and> cpt_Q m2 = cpt_Q m1 \<and> cpt_N m2 = cpt_N m1 \<and> Phase m2 = Phase m1 \<and>
      cpt_n m2 = cpt_n m1 \<and> cpt_PF m2 = cpt_PF m1 \<and> cpt_VF m2 = cpt_VF m1 \<and> D5 m2 = D5 m1 \<and>
      cpt_NF m2 = (if fgt ?pqn fzero then fdiv rd DBL (cpt_N me) (fsqrt rd DBL ?pqn) else cpt_NF m1)"
    by (simp add: m2_def C_defs)
  have f3: "cpt_P_avg m3 = cpt_P_avg m2 \<and> cpt_Q m3 = cpt_Q m2 \<and> cpt_N m3 = cpt_N m2 \<and> Phase m3 = Phase m2 \<and>
      cpt_n m3 = cpt_n m2 \<and> cpt_PF m3 = cpt_PF m2 \<and> cpt_VF m3 = cpt_VF m2 \<and> D5 m3 = D5 m2 \<and> cpt_NF m3 = cpt_NF m2 \<and>
      cpt_QF m3 = (if fgt ?pq fzero then fdiv rd DBL (cpt_Q me) (fsqrt rd DBL ?pq) else cpt_QF m2)"
    by (simp add: m3_def C_defs)
  have run: "CPT_EvaluateFactors rd me pac = each_phase (factors_phase rd) m3"
    unfolding CPT_EvaluateFactors_def Let_def m3_def m2_def squares_def using f1 by (simp add: m1_def)
  have g: "pos (cpt_P_avg me)" "pos (cpt_A me)" "G (cpt_Q me)" "G (cpt_N me)" "G (cpt_V me)"
    using me(1) by (simp_all add: C_defs)
  have d: "pos ?pq" "pos ?pqn" using g by (simp_all add: pos_squares pos_square)
  have "D5 m1 \<and> G (cpt_PF m1) \<and> G (cpt_VF m1)"
  proof (cases "feq (cpt_A me) fzero")
    case True
    then show ?thesis using pos_guard[OF g(2)] me(1) by (simp add: m1_def)
  next
    case False
    have "D5 (me\<lparr>cpt_PF := x, cpt_VF := y\<rparr>)" for x y using me(1) by (simp add: C_defs)
    then show ?thesis using False g by (simp add: m1_def G_div pos_G)
  qed
  moreover have "factor_is (cpt_Q me) ?pq (cpt_QF m3)" "factor_is (cpt_N me) ?pqn (cpt_NF m3)"
    using factor_step[OF d(1) g(3)] factor_step[OF d(2) g(4)] f2 f3 by auto
  ultimately have "D6 m3" unfolding D6_def using f1 f2 f3 by simp
  moreover have "phases 3 (P9 pac) m3" using me(2) f1 f2 f3 by (simp add: phases_def)
  ultimately show ?thesis unfolding run by (rule fac.each_phase_ok)
qed

theorem update_ok:
  assumes me: "ready me" and pac: "pac_G pac"
  shows "\<exists>me'. CPT_Update rd me pac = Some me' \<and> ready me' \<and> phases 3 (P10 pac) me' \<and> D6 me'"
proof -
  obtain m1 where m1: "CPT_UpdateVoltagesAndCurrents rd me pac = Some m1" "C0 m1" "phases 3 (\<lambda>i. P1) m1"
    using voltages_ok[OF me pac] by blast
  obtain m2 where m2: "CPT_UpdatePowerAndEnergy rd m1 pac = Some m2" "C0 m2" "phases 3 (\<lambda>i. P2) m2"
    using power_energy_ok[OF m1(2,3) pac] by blast
  obtain m3 where m3: "CPT_UpdateCollectiveValues rd m2 pac = Some m3" "C2 m3" "phases 3 (\<lambda>i. P2) m3"
    using collective_ok[OF m2(2,3)] by blast
  obtain m4 where m4: "cur_void rd m3 pac = Some m4" "D2 m4" "phases 3 (P3 pac) m4"
    using void_ok[OF m3(2,3) pac] by blast
  obtain m5 where m5: "cur_balanced rd m4 pac = Some m5" "D3 m5" "phases 3 (P6 pac) m5"
    using balanced_step_ok[OF m4(2,3) pac] by blast
  obtain m6 where m6: "cur_unbalanced rd m5 = Some m6" "D4 m6" "phases 3 (P8 pac) m6"
    using unbalanced_step_ok[OF m5(2,3)] by blast
  obtain m7 where m7: "CPT_PowerDecomposition rd m6 pac = Some m7" "D5 m7" "phases 3 (P9 pac) m7"
    using powers_ok[OF m6(2,3)] by blast
  obtain m8 where m8: "CPT_EvaluateFactors rd m7 pac = Some m8" "D6 m8" "phases 3 (P10 pac) m8"
    using factors_step_ok[OF m7(2,3)] by blast
  have "phases 3 (\<lambda>i. P0) m8" using m8(3) by (rule phases_mono) (auto simp: P_defs)
  moreover have "C0 m8" using m8(2) by (simp add: C_defs)
  ultimately show ?thesis
    using m1(1) m2(1) m3(1) m4(1) m5(1) m6(1) m7(1) m8
    by (simp add: CPT_Update_def CPT_CurrentDecomposition_def ready_def)
qed

lemma updates_ok:
  assumes "ready me" and "list_all pac_G pacs"
  shows "\<exists>me'. run_opt (CPT_Update rd) me pacs = Some me' \<and> ready me'"
proof -
  have "\<exists>me'. run_opt (CPT_Update rd) me pacs = Some me' \<and> (\<lambda>(n::nat) m. ready m) (0 + length pacs) me'"
    by (rule run_opt_invariant) (use assms update_ok in \<open>force simp: list_all_iff\<close>)+
  then show ?thesis by simp
qed

end

section \<open>Configuration establishes the invariant\<close>

lemma cfg_buffers_all:
  "(\<And>k. mal env k) \<Longrightarrow> cfg_buffers env smp c k = Some (map (cfg_block env smp) [k..<k + c])"
proof (induction c arbitrary: k)
  case (Suc c)
  have "[k..<k + Suc c] = k # [Suc k..<Suc k + c]" by (simp add: upt_conv_Cons)
  with Suc show ?case by simp
qed simp

lemma cfg_block_length:
  assumes "unat smp < 2 ^ 28"
  shows "Length (cfg_block env smp k) = int (length (Data (cfg_block env smp k)))"
    and "Length (cfg_block env smp k) = int (unat smp)"
proof -
  have "unat (smp * 8) = unat smp * 8" using assms by (simp add: unat_word_ariths)
  moreover have "sint smp = int (unat smp)"
    using assms by (intro sint_small) simp
  ultimately show "Length (cfg_block env smp k) = int (length (Data (cfg_block env smp k)))"
    "Length (cfg_block env smp k) = int (unat smp)"
    by (simp_all add: cfg_block_def)
qed

context closed_arith
begin

lemma init_at_ok:
  assumes "unat smp < 2 ^ 28" "0 < unat smp" "k < c" "G mn"
  shows "\<exists>m. init_at (map (cfg_block env smp) [j..<j + c]) k t th mn = Some m \<and> maf_G m"
proof -
  let ?b = "cfg_block env smp (j + k)"
  have l: "Length ?b = int (length (Data ?b))" "0 < Length ?b"
    using cfg_block_length[OF assms(1), of env "j + k"] assms(2) by linarith+
  have "init_at (map (cfg_block env smp) [j..<j + c]) k t th mn = maf_init ?b t th mn"
    using assms(3) by (simp add: init_at_def)
  moreover obtain m where "maf_init ?b t th mn = Some m" "maf_ok m" "Accumulator m = fzero"
      "Data (Buffer m) = replicate (length (Data ?b)) fzero" "Min m = mn"
    using maf_init_ok[OF l] by metis
  ultimately show ?thesis using assms(4) by (auto simp: maf_G_def list_all_iff G_zero)
qed

lemma init_phase_ok:
  assumes s: "unat smp < 2 ^ 28" "0 < unat smp" and k: "k + 9 \<le> c"
  shows "\<exists>p'. cfg_init_phase rd (map (cfg_block env smp) [j..<j + c]) k p = Some p' \<and> P0 p'"
proof -
  let ?bufs = "map (cfg_block env smp) [j..<j + c]"
  have thr: "\<exists>m. init_at ?bufs (k + i) t th (THR_MIN rd) = Some m \<and> maf_G m" if "i < 9" for i t th
    using that k by (intro init_at_ok[OF s]) (auto simp: THR_MIN_def G_const)
  have nul: "\<exists>m. init_at ?bufs (k + i) t th fzero = Some m \<and> maf_G m" if "i < 9" for i t th
    using that k by (intro init_at_ok[OF s]) (auto simp: G_zero)
  show ?thesis
    using thr[of 0 1 THRESHOLD] thr[of 1 1 THRESHOLD] nul[of 2 0 fzero] nul[of 3 0 fzero] thr[of 4 1 THRESHOLD]
      nul[of 5 0 fzero] thr[of 6 1 THRESHOLD] thr[of 7 1 THRESHOLD] thr[of 8 1 THRESHOLD]
    by (clarsimp simp: cfg_init_phase_def P0_def mafs_G_def Phase_Init_def G_zero)
qed

lemma init_cpt_ok:
  assumes s: "unat smp < 2 ^ 28" "0 < unat smp" and c: "8 \<le> c" and T: "G x"
  shows "\<exists>me'. cfg_init_cpt rd (map (cfg_block env smp) [j..<j + c]) me = Some me' \<and> C0 (me'\<lparr>TSH := x\<rparr>) \<and>
    Phase me' = Phase me"
proof -
  let ?bufs = "map (cfg_block env smp) [j..<j + c]"
  have thr: "\<exists>m. init_at ?bufs i 1 THRESHOLD (THR_MIN rd) = Some m \<and> maf_G m" if "i < 8" for i
    using that c by (intro init_at_ok[OF s]) (auto simp: THR_MIN_def G_const)
  show ?thesis
    using thr[of 0] thr[of 1] thr[of 2] thr[of 3] thr[of 4] thr[of 5] thr[of 6] thr[of 7] T
    by (clarsimp simp: cfg_init_cpt_def C0_def)
qed

lemma config_ready:
  assumes alloc: "\<And>k. mal env k" and three: "length (Phase me) = 3"
    and s: "unat smp < 2 ^ 28" "0 < unat smp" and freq: "0 < uint freq"
  shows "\<exists>me'. CPT_Config rd env me freq smp 3 = Some (me', 0) \<and> ready me'"
proof -
  obtain a b c where ps: "Phase me = [a, b, c]" using three by (auto simp: numeral_3_eq_3 length_Suc_conv)
  let ?pb = "map (cfg_block env smp) [5..<5 + 27]" and ?cb = "map (cfg_block env smp) [32..<32 + 24]"
  have ph: "\<exists>p'. cfg_init_phase rd ?pb k p = Some p' \<and> P0 p'" if "k \<le> 18" for k p
    using that by (intro init_phase_ok[OF s]) simp
  obtain p0 where p0: "cfg_init_phase rd ?pb 0 (fresh_phase env 2) = Some p0" "P0 p0" using ph[of 0] by auto
  obtain p1 where p1: "cfg_init_phase rd ?pb 9 (fresh_phase env 3) = Some p1" "P0 p1" using ph[of 9] by auto
  obtain p2 where p2: "cfg_init_phase rd ?pb 18 (fresh_phase env 4) = Some p2" "P0 p2" using ph[of 18] by auto
  let ?tsh = "fdiv rd DBL (f_of_int rd DBL 1) (f_of_int rd DBL (uint freq))"
  have T: "G ?tsh" using freq by (intro G_div G_int pos_int) auto
  let ?me = "me\<lparr>Phase := [Some p0, Some p1, Some p2]\<rparr>"
  obtain m where m: "cfg_init_cpt rd ?cb ?me = Some m" "C0 (m\<lparr>TSH := ?tsh\<rparr>)" "Phase m = [Some p0, Some p1, Some p2]"
    using init_cpt_ok[OF s _ T, of 24 env 32 ?me] by auto
  have "CPT_Config rd env me freq smp 3 = Some (m\<lparr>TSH := ?tsh, samples := smp, cpt_n := 3,
      cpt_Iba_rms := fzero, cpt_Iua_rms := fzero, cpt_Ibr_rms := fzero, cpt_Iur_rms := fzero, cpt_Iv_rms := fzero\<rparr>, 0)"
    using alloc ps p0(1) p1(1) p2(1) m(1)
    by (simp add: CPT_Config_def cfg_buffers_all PHASE_RAW_BUFFERS_def CPT_RAW_BUFFERS_def Let_def del: upt_rec_numeral)
  moreover have "\<forall>i<3. \<exists>p. [Some p0, Some p1, Some p2] ! i = Some p \<and> P0 p"
    using p0(2) p1(2) p2(2) by (simp add: numeral_3_eq_3 less_Suc_eq)
  ultimately show ?thesis
    using m(2,3) by (simp add: ready_def phases_def C0_def)
qed

end

interpretation ieee_all: closed_arith ieee "\<lambda>_. True" "\<lambda>_. True"
  by unfold_locales auto

lemma exact_rms: "is_fin a \<Longrightarrow> \<exists>r>0. RMS_Evaluate exact a = FFin r"
  by (cases a) (auto simp: RMS_Evaluate_def tiny_def fdiv_def f_of_int_def exact_def signed_zero_def
      fle_def feq_def)

lemma exact_tiny: "tiny exact = FFin (1 / 100000)"
  by (simp add: tiny_def fdiv_def f_of_int_def exact_def signed_zero_def)

lemma exact_floor:
  assumes "is_fin a"
  shows "\<exists>r>0. (if flt a (tiny exact) then tiny exact else a) = FFin r"
proof (cases "flt a (FFin (1 / 100000))")
  case True
  then show ?thesis by (intro exI[of _ "1 / 100000"]) (simp add: exact_tiny)
next
  case False
  then show ?thesis using assms by (cases a) (auto simp: exact_tiny intro!: exI[of _ "valof a"])
qed

interpretation exact_fin: closed_arith exact is_fin "\<lambda>b. \<exists>r>0. b = FFin r"
proof unfold_locales
  fix a b assume "is_fin a" "is_fin b"
  then show "is_fin (fsqrt exact DBL (fadd exact DBL (fmul exact DBL a a) (fmul exact DBL b b)))"
    by (cases a; cases b) (auto simp: fmul_def exact_def signed_zero_def not_less)
next
  fix a b assume "is_fin a" "is_fin b"
  then show "is_fin (fadd exact DBL a b)" "is_fin (fsub exact DBL a b)" "is_fin (fmul exact DBL a b)"
    by (cases a; cases b; simp add: fsub_def fmul_def exact_def signed_zero_def)+
qed (auto simp: fdiv_def fmul_def exact_def signed_zero_def f_of_int_def fconst_def exact_rms exact_floor feq_def fgt_def add_pos_nonneg
    split: if_splits elim!: is_fin.elims)

end
