(* ===== verification/CPT_Props.thy ===== *)
theory CPT_Props
  imports CPT_Safety
begin

text \<open>
  What the conservative power theory engine promises its caller: safety from configuration
  through any number of samples, the behaviour of \<open>CPT_Config\<close> when it cannot allocate or is
  asked for fewer than three phases, and the current decomposition in exact arithmetic.
\<close>

section \<open>Configuration\<close>

lemma cfg_buffers_None:
  "cfg_buffers env smp c k = None \<longleftrightarrow> (\<exists>j<c. \<not> mal env (k + j))"
proof (induction c arbitrary: k)
  case (Suc c)
  have "(\<exists>j<Suc c. \<not> mal env (k + j)) \<longleftrightarrow> \<not> mal env k \<or> (\<exists>j<c. \<not> mal env (Suc k + j))"
    by (auto simp: less_Suc_eq_0_disj)
  with Suc show ?case by simp
qed simp

lemma cfg_phases_three [unfolded One_nat_def]:
  "cfg_phases env 3 [0, 1, 2] 2 ps =
    (if \<not> mal env 2 then (False, 3, ps[0 := None])
     else if \<not> mal env 3 then (False, 4, ps[0 := Some (fresh_phase env 2), 1 := None])
     else if \<not> mal env 4 then (False, 5, ps[0 := Some (fresh_phase env 2), 1 := Some (fresh_phase env 3), 2 := None])
     else (True, 5, ps[0 := Some (fresh_phase env 2), 1 := Some (fresh_phase env 3), 2 := Some (fresh_phase env 4)]))"
  by simp

lemma cfg_alloc_fails:
  assumes "length (Phase me) = 3" and "k < 56" "\<not> mal env k"
  shows "\<exists>me'. CPT_Config rd env me freq smp 3 = Some (me', -1)"
proof -
  consider "k < 5" | "5 \<le> k" "k < 5 + 27" | "32 \<le> k" "k < 32 + 24" using assms(2) by linarith
  then show ?thesis
  proof cases
    case 1
    then have "k = 0 \<or> k = 1 \<or> k = 2 \<or> k = 3 \<or> k = 4" by linarith
    then show ?thesis using assms(1,3) by (auto simp: CPT_Config_def cfg_phases_three Let_def simp del: cfg_phases.simps)
  next
    case 2
    then have "\<exists>j<27. \<not> mal env (5 + j)" using assms(3) by (intro exI[of _ "k - 5"]) auto
    then have "cfg_buffers env smp 27 5 = None" by (simp only: cfg_buffers_None)
    then show ?thesis
      using assms(1) by (simp add: CPT_Config_def cfg_phases_three Let_def PHASE_RAW_BUFFERS_def del: cfg_phases.simps cfg_buffers.simps)
  next
    case 3
    then have "\<exists>j<24. \<not> mal env (32 + j)" using assms(3) by (intro exI[of _ "k - 32"]) auto
    then have "cfg_buffers env smp 24 32 = None" by (simp only: cfg_buffers_None)
    then show ?thesis
      using assms(1) by (simp add: CPT_Config_def cfg_phases_three Let_def PHASE_RAW_BUFFERS_def CPT_RAW_BUFFERS_def
          del: cfg_phases.simps cfg_buffers.simps split: option.splits)
  qed
qed

text \<open>With fewer than three phases the initialisation loop reads a phase that was never allocated.\<close>

lemma cfg_few_phases:
  assumes alloc: "\<And>k. mal env k" and "length (Phase me) = 3" and n: "unat n < 3"
  shows "CPT_Config rd env me freq smp n = None"
proof -
  obtain a b c where ps: "Phase me = [a, b, c]" using assms(2) by (auto simp: numeral_3_eq_3 length_Suc_conv)
  have nz: "unat n = 0 \<or> unat n = 1 \<or> unat n = 2" using n by linarith
  have "\<exists>ps'. cfg_phases env n [0, 1, 2] 2 (Phase me) = (True, unat n + 2, ps') \<and> length ps' = 3 \<and> ps' ! 2 = None"
    using nz alloc ps by auto
  then obtain ps' where ps': "cfg_phases env n [0, 1, 2] 2 (Phase me) = (True, unat n + 2, ps')"
    "length ps' = 3" "ps' ! 2 = None" by blast
  have upd: "(xs[j := v]) ! 2 = None" if "xs ! 2 = None" "j < 2" for xs :: "tPhase option list" and j v
    using that by simp
  have step: "cfg_init_phases rd bufs [0, 1, 2] ps' = None" for bufs
    using ps'(2,3) by (cases "cfg_init_phase rd bufs 0 (the (ps' ! 0))"; cases "ps' ! 0"; cases "ps' ! 1"; simp;
      cases "cfg_init_phase rd bufs PHASE_RAW_BUFFERS (the (ps' ! 1))"; simp)
  have "unat n * 72 < 2 ^ 32" using n by simp
  then show ?thesis
    using alloc ps'(1) step by (simp add: CPT_Config_def Let_def cfg_buffers_all del: cfg_phases.simps cfg_init_phases.simps)
qed

definition whole_env :: heap_env where
  "whole_env = \<lparr>mal = (\<lambda>_. True), fresh_phase = (\<lambda>_. undefined), fresh_double = (\<lambda>_ _. FNaN)\<rparr>"

definition blank_cpt :: tCPT where
  "blank_cpt = (undefined :: tCPT)\<lparr>Phase := [None, None, None], cpt_n := 0\<rparr>"

lemma whole_env_simps [simp]: "mal whole_env k" "Phase blank_cpt = [None, None, None]"
  by (simp_all add: whole_env_def blank_cpt_def)

text \<open>
  C2. Memory safety of the power theory engine. When every allocation succeeds, \<open>CPT_Config\<close> for
  three phases and a buffer of \<open>0 < samples < 2^28\<close> returns 0, and every sequence of samples,
  whatever their values (NaN and infinities included), is then processed without an
  out-of-range access or a NULL dereference, in IEEE arithmetic.
\<close>

theorem cpt_memory_safe:
  assumes "\<And>k. mal env k" and "length (Phase me) = 3"
    and "unat smp < 2 ^ 28" "0 < unat smp" and "0 < uint freq"
    and "list_all (\<lambda>pac. length (V pac) = 3 \<and> length (I pac) = 3) pacs"
  shows "\<exists>me0 me'. CPT_Config ieee env me freq smp 3 = Some (me0, 0) \<and>
    run_opt (CPT_Update ieee) me0 pacs = Some me'"
proof -
  obtain me0 where c: "CPT_Config ieee env me freq smp 3 = Some (me0, 0)" "ieee_all.ready me0"
    using ieee_all.config_ready[OF assms(1-5)] by blast
  have "list_all ieee_all.pac_G pacs"
    using assms(6) by (simp add: list_all_iff ieee_all.pac_G_def)
  with ieee_all.updates_ok[OF c(2)] c(1) show ?thesis by blast
qed

theorem cpt_memory_safe_witness:
  "\<exists>me0 me'. CPT_Config ieee whole_env blank_cpt 3840 64 3 = Some (me0, 0) \<and>
    run_opt (CPT_Update ieee) me0 [\<lparr>V = [FFin 1, FNaN, FInf True], I = [FNegZero, FFin 2, FNaN]\<rparr>] = Some me'"
  by (rule cpt_memory_safe) simp_all

text \<open>
  Allocation failure. \<open>CPT_Config\<close> for three phases allocates 56 blocks; if any of these
  allocations fails it returns -1 and touches no buffer.
\<close>

theorem cpt_config_alloc_failure:
  assumes "length (Phase me) = 3" and "k < 56" and "\<not> mal env k"
  shows "\<exists>me'. CPT_Config ieee env me freq smp 3 = Some (me', -1)"
  using assms by (rule cfg_alloc_fails)

theorem cpt_config_alloc_failure_witness:
  "\<exists>me'. CPT_Config ieee (whole_env\<lparr>mal := (\<lambda>k. k < 40)\<rparr>) blank_cpt 3840 64 3 = Some (me', -1)"
  by (rule cpt_config_alloc_failure[of _ 40]) simp_all

text \<open>
  The engine needs three phases. Asked for fewer (the single-phase mode its \<open>n != 1\<close> tests
  cater for), \<open>CPT_Config\<close> dereferences a phase pointer it has set to NULL, with every
  allocation successful.
\<close>

theorem cpt_config_few_phases_faults:
  assumes "\<And>k. mal env k" and "length (Phase me) = 3" and "unat n < 3"
  shows "CPT_Config ieee env me freq smp n = None"
  using assms by (rule cfg_few_phases)

theorem cpt_config_few_phases_faults_witness:
  "CPT_Config ieee whole_env blank_cpt 3840 64 1 = None"
  by (rule cpt_config_few_phases_faults) simp_all

section \<open>The decomposition in exact arithmetic\<close>

text \<open>The currents of a phase add up to the measured current, group by group.\<close>

definition decomposed :: "tPAC \<Rightarrow> nat \<Rightarrow> tPhase \<Rightarrow> bool" where
  "decomposed pac i p \<longleftrightarrow>
     valof (I pac ! i) = valof (ph_Ia_ActiveCurrent p) + valof (ph_Ir_ReactiveCurrent p) + valof (ph_Iv_VoidCurrent p) \<and>
     valof (ph_Ia_ActiveCurrent p) = valof (ph_Iba_BalancedActiveCurrent p) + valof (ph_Iua_UnbalancedActiveCurrent p) \<and>
     valof (ph_Ir_ReactiveCurrent p) = valof (ph_Ibr_BalancedReactiveCurrent p) + valof (ph_Iur_UnbalancedReactiveCurrent p) \<and>
     valof (ph_Iu_UnbalancedCurrent p) = valof (ph_Iua_UnbalancedActiveCurrent p) + valof (ph_Iur_UnbalancedReactiveCurrent p)"

text \<open>Every floating-point output of the two records.\<close>

definition phase_outputs :: "tPhase \<Rightarrow> fp list" where
  "phase_outputs p = [ph_V_pow2 p, ph_V_rms p, ph_I_pow2 p, ph_I_rms p, ph_Integral p, ph_Integral_lastInput p,
     ph_UnbiasedIntegral p, ph_UnbiasedIntegral_pow2 p, ph_UnbiasedIntegral_rms p, ph_W_inst p, ph_P_inst p,
     ph_W_avg p, ph_P_avg p, ph_Q p, ph_Ia_ActiveCurrent p, ph_Iba_BalancedActiveCurrent p,
     ph_Iua_UnbalancedActiveCurrent p, ph_Ir_ReactiveCurrent p, ph_Ibr_BalancedReactiveCurrent p,
     ph_Iur_UnbalancedReactiveCurrent p, ph_Iv_VoidCurrent p, ph_Iu_UnbalancedCurrent p, ph_Iba_rms p, ph_Iua_rms p,
     ph_Ibr_rms p, ph_Iur_rms p, ph_Iv_rms p, ph_A p, ph_Na p, ph_Nr p, ph_N p, ph_V p, ph_PF p, ph_NF p, ph_QF p, ph_VF p]"

definition collective_outputs :: "tCPT \<Rightarrow> fp list" where
  "collective_outputs me = [cpt_Iba_rms me, cpt_Iua_rms me, cpt_Ibr_rms me, cpt_Iur_rms me, cpt_Iv_rms me,
     cpt_V_rms me, cpt_I_rms me, cpt_UI_rms me, cpt_P_avg me, cpt_W_avg me, cpt_A me, cpt_Q me, cpt_Na me, cpt_Nr me,
     cpt_N me, cpt_V me, cpt_PF me, cpt_NF me, cpt_QF me, cpt_VF me, TSH me]"

text \<open>The reactivity and unbalance factors \<open>qf\<close> and \<open>nf\<close> of the powers \<open>p\<close>, \<open>q\<close> and \<open>n\<close>.\<close>

definition factors_of :: "fp \<Rightarrow> fp \<Rightarrow> fp \<Rightarrow> fp \<Rightarrow> fp \<Rightarrow> bool" where
  "factors_of p q n qf nf \<longleftrightarrow> 0 < valof p \<and>
     valof qf = valof q / sqrt ((valof p)\<^sup>2 + (valof q)\<^sup>2) \<and>
     valof nf = valof n / sqrt ((valof p)\<^sup>2 + (valof q)\<^sup>2 + (valof n)\<^sup>2)"

context closed_arith
begin

lemma P10_G:
  assumes "P10 pac i p"
  shows "list_all G (phase_outputs p)"
  using assms by (simp add: phase_outputs_def P_defs pos_G factor_is_def)

lemma D6_G:
  assumes "D6 me"
  shows "list_all G (collective_outputs me)"
  using assms by (simp add: collective_outputs_def C_defs pos_G factor_is_def)

end

lemma exact_factor:
  assumes "exact_fin.factor_is x d f" "is_fin x" "is_fin d" "0 < valof d"
  shows "valof f = valof x / sqrt (valof d)"
proof -
  have "fgt d fzero" using assms(3,4) by (cases d) (auto simp: fgt_def)
  then have "fdiv exact DBL x (fsqrt exact DBL d) = f" using assms(1) by (simp add: exact_fin.factor_is_def)
  then show ?thesis using assms(2-4) exact_fdiv(2)[of x "fsqrt exact DBL d" DBL] by (auto simp: exact_fsqrt)
qed

lemma exact_squares: "is_fin a \<Longrightarrow> is_fin b \<Longrightarrow> is_fin (exact_fin.squares a b) \<and> valof (exact_fin.squares a b) = (valof a)\<^sup>2 + (valof b)\<^sup>2"
  by (simp add: exact_fin.squares_def fp_eval power2_eq_square)

lemma exact_factors:
  assumes p: "\<exists>r>0. p = FFin r" and q: "is_fin q" and n: "is_fin n"
    and f: "exact_fin.factor_is q (exact_fin.squares p q) qf"
      "exact_fin.factor_is n (fadd exact DBL (exact_fin.squares p q) (fmul exact DBL n n)) nf"
  shows "factors_of p q n qf nf"
proof -
  have fin: "is_fin p" "0 < valof p" using p by auto
  note sq = exact_squares[OF fin(1) q]
  let ?d = "fadd exact DBL (exact_fin.squares p q) (fmul exact DBL n n)"
  have pos: "0 < (valof p)\<^sup>2 + (valof q)\<^sup>2" using fin(2) by (simp add: add_pos_nonneg)
  have d: "is_fin ?d" "valof ?d = (valof p)\<^sup>2 + (valof q)\<^sup>2 + (valof n)\<^sup>2"
    using sq n by (simp_all add: fp_eval power2_eq_square)
  have "0 < valof ?d" unfolding d(2) using pos by (simp add: add_pos_nonneg)
  then show ?thesis
    using exact_factor[OF f(1) q] exact_factor[OF f(2) n d(1)] sq pos fin(2) d(2) by (simp add: factors_of_def)
qed

lemma exact_phase:
  assumes p: "exact_fin.P10 pac i p" and pac: "is_fin (I pac ! i)"
  shows "decomposed pac i p" and "list_all is_fin (phase_outputs p)" and "valof (ph_VF p) \<le> 1"
    and "factors_of (ph_P_avg p) (ph_Q p) (ph_N p) (ph_QF p) (ph_NF p)"
proof -
  note d = p[unfolded exact_fin.P_defs]
  have a: "is_fin (ph_Ia_ActiveCurrent p)" and r: "is_fin (ph_Ir_ReactiveCurrent p)"
    and ba: "is_fin (ph_Iba_BalancedActiveCurrent p)" and br: "is_fin (ph_Ibr_BalancedReactiveCurrent p)"
    and ua: "is_fin (ph_Iua_UnbalancedActiveCurrent p)" and ur: "is_fin (ph_Iur_UnbalancedReactiveCurrent p)"
    using d by blast+
  have v: "fsub exact DBL (fsub exact DBL (I pac ! i) (ph_Ia_ActiveCurrent p)) (ph_Ir_ReactiveCurrent p) = ph_Iv_VoidCurrent p"
    and u: "fsub exact DBL (ph_Ia_ActiveCurrent p) (ph_Iba_BalancedActiveCurrent p) = ph_Iua_UnbalancedActiveCurrent p"
      "fsub exact DBL (ph_Ir_ReactiveCurrent p) (ph_Ibr_BalancedReactiveCurrent p) = ph_Iur_UnbalancedReactiveCurrent p"
      "fadd exact DBL (ph_Iua_UnbalancedActiveCurrent p) (ph_Iur_UnbalancedReactiveCurrent p) = ph_Iu_UnbalancedCurrent p"
    using d by blast+
  show "decomposed pac i p"
    unfolding decomposed_def v[symmetric] u[symmetric]
    using a r ba br ua ur pac by (simp add: fp_eval)
  have "\<exists>x>0. ph_A p = FFin x" using d by blast
  then show "valof (ph_VF p) \<le> 1"
    using d by (cases "ph_VF p") (auto simp: feq_def fgt_def f_of_int_def exact_def)
  show "list_all is_fin (phase_outputs p)" using p by (rule exact_fin.P10_G)
  show "factors_of (ph_P_avg p) (ph_Q p) (ph_N p) (ph_QF p) (ph_NF p)"
    using d by (intro exact_factors) blast+
qed

text \<open>
  C3. The conservative power theory decomposition. In exact arithmetic, after the configuration
  for three phases and any sequence of finite samples, the last update leaves every phase with
  its measured current split as active + reactive + void, active and reactive each split as
  balanced + unbalanced, the void factor at most one, the reactivity factor equal to \<open>Q / sqrt (P\<^sup>2 + Q\<^sup>2)\<close> and the
  unbalance factor to \<open>N / sqrt (P\<^sup>2 + Q\<^sup>2 + N\<^sup>2)\<close> with a positive \<open>P\<close>, the collective factors likewise,
  and every floating-point field of the three phases and of the collective record, rms values, powers and
  factors included, finite: no division by zero and no root of a negative number has happened, and no field is
  left at the arbitrary content of the memory it was allocated in.
\<close>

theorem cpt_decomposition:
  assumes "\<And>k. mal env k" and "length (Phase me) = 3"
    and "unat smp < 2 ^ 28" "0 < unat smp" and "0 < uint freq"
    and "list_all (\<lambda>q. length (V q) = 3 \<and> length (I q) = 3 \<and> list_all is_fin (V q) \<and> list_all is_fin (I q)) (pacs @ [pac])"
  shows "\<exists>me0 me'. CPT_Config exact env me freq smp 3 = Some (me0, 0) \<and>
    run_opt (CPT_Update exact) me0 (pacs @ [pac]) = Some me' \<and>
    (\<forall>i<3. \<exists>p. Phase me' ! i = Some p \<and> decomposed pac i p \<and> list_all is_fin (phase_outputs p) \<and> valof (ph_VF p) \<le> 1 \<and>
      factors_of (ph_P_avg p) (ph_Q p) (ph_N p) (ph_QF p) (ph_NF p)) \<and>
    list_all is_fin (collective_outputs me') \<and>
    factors_of (cpt_P_avg me') (cpt_Q me') (cpt_N me') (cpt_QF me') (cpt_NF me')"
proof -
  obtain me0 where c: "CPT_Config exact env me freq smp 3 = Some (me0, 0)" "exact_fin.ready me0"
    using exact_fin.config_ready[OF assms(1-5)] by blast
  have g: "list_all exact_fin.pac_G pacs" "exact_fin.pac_G pac"
    using assms(6) by (simp_all add: list_all_iff exact_fin.pac_G_def)
  obtain m1 where m1: "run_opt (CPT_Update exact) me0 pacs = Some m1" "exact_fin.ready m1"
    using exact_fin.updates_ok[OF c(2) g(1)] by blast
  obtain m2 where m2: "CPT_Update exact m1 pac = Some m2" "phases 3 (exact_fin.P10 pac) m2" "exact_fin.D6 m2"
    using exact_fin.update_ok[OF m1(2) g(2)] by blast
  have "is_fin (I pac ! i)" if "i < 3" for i
    using that g(2) by (simp add: exact_fin.pac_G_def list_all_length)
  then have "\<forall>i<3. \<exists>p. Phase m2 ! i = Some p \<and> decomposed pac i p \<and> list_all is_fin (phase_outputs p) \<and> valof (ph_VF p) \<le> 1 \<and>
      factors_of (ph_P_avg p) (ph_Q p) (ph_N p) (ph_QF p) (ph_NF p)"
    using m2(2) exact_phase unfolding phases_def by blast
  moreover have "factors_of (cpt_P_avg m2) (cpt_Q m2) (cpt_N m2) (cpt_QF m2) (cpt_NF m2)"
    using m2(3) unfolding exact_fin.C_defs by (intro exact_factors) blast+
  moreover have "run_opt (CPT_Update exact) me0 (pacs @ [pac]) = Some m2"
    using m1(1) m2(1) by (simp add: run_opt_append)
  ultimately show ?thesis using c(1) exact_fin.D6_G[OF m2(3)] by blast
qed

theorem cpt_decomposition_witness:
  "\<exists>me0 me'. CPT_Config exact whole_env blank_cpt 3840 64 3 = Some (me0, 0) \<and>
    run_opt (CPT_Update exact) me0 ([] @ [\<lparr>V = [FFin 1, FFin 0, FFin 2], I = [FFin 3, FNegZero, FFin (-1)]\<rparr>]) = Some me' \<and>
    (\<forall>i<3. \<exists>p. Phase me' ! i = Some p \<and>
      decomposed \<lparr>V = [FFin 1, FFin 0, FFin 2], I = [FFin 3, FNegZero, FFin (-1)]\<rparr> i p \<and>
      list_all is_fin (phase_outputs p) \<and> valof (ph_VF p) \<le> 1 \<and>
      factors_of (ph_P_avg p) (ph_Q p) (ph_N p) (ph_QF p) (ph_NF p)) \<and>
    list_all is_fin (collective_outputs me') \<and>
    factors_of (cpt_P_avg me') (cpt_Q me') (cpt_N me') (cpt_QF me') (cpt_NF me')"
  by (rule cpt_decomposition) simp_all

end
