(* ===== verification/CPT_Power.thy ===== *)
theory CPT_Power
  imports CPT_Props
begin

text \<open>
  Why the power factor is a power factor: in exact arithmetic the three windows of a phase
  (squared voltage, squared current, instantaneous power) stay aligned sample by sample, so the
  Cauchy-Schwarz inequality bounds the active power by the apparent power. The lower limits the
  code puts under each average are part of the statement.
\<close>

section \<open>What a loop does to each phase\<close>

text \<open>A body that relates the phase before to the phase after and leaves the other phases alone.\<close>

locale phase_rel =
  fixes body :: "nat \<Rightarrow> tCPT \<Rightarrow> tPhase \<Rightarrow> (tCPT \<times> tPhase) option"
    and R :: "nat \<Rightarrow> tPhase \<Rightarrow> tPhase \<Rightarrow> bool"
  assumes body_rel: "body i me p = Some (me', p') \<Longrightarrow> R i p p' \<and> Phase me' = Phase me \<and> cpt_n me' = cpt_n me"
begin

lemma for_phases_rel:
  assumes "for_phases body i k me = Some me'"
  shows "cpt_n me' = cpt_n me \<and> length (Phase me') = length (Phase me) \<and>
    (\<forall>j. j < i \<or> i + k \<le> j \<longrightarrow> Phase me' ! j = Phase me ! j) \<and>
    (\<forall>j. i \<le> j \<and> j < i + k \<longrightarrow> (\<exists>p p'. Phase me ! j = Some p \<and> Phase me' ! j = Some p' \<and> R j p p'))"
  using assms
proof (induction k arbitrary: i me)
  case (Suc k)
  obtain p m1 p1 where p: "Phase me ! i = Some p" "i < length (Phase me)" and b: "body i me p = Some (m1, p1)"
      and r: "for_phases body (Suc i) k (m1\<lparr>Phase := (Phase m1)[i := Some p1]\<rparr>) = Some me'"
    using Suc.prems by (auto split: bind_splits dest!: rd_at_SomeD) metis
  note h = body_rel[OF b] and ih = Suc.IH[OF r]
  have "\<exists>p p'. Phase me ! j = Some p \<and> Phase me' ! j = Some p' \<and> R j p p'" if "i \<le> j" "j < i + Suc k" for j
    using ih[THEN conjunct2, THEN conjunct2, THEN conjunct1, rule_format, of j]
      ih[THEN conjunct2, THEN conjunct2, THEN conjunct2, rule_format, of j] h p that
    by (cases "j = i") auto
  then show ?case using ih h by (auto simp: nth_list_update)
qed auto

lemma each_phase_rel:
  assumes "each_phase body me = Some me'"
  shows "cpt_n me' = cpt_n me"
    and "i < unat (cpt_n me) \<Longrightarrow> \<exists>p p'. Phase me ! i = Some p \<and> Phase me' ! i = Some p' \<and> R i p p'"
  using for_phases_rel[of 0 "unat (cpt_n me)" me me'] assms by (auto simp: each_phase_def)

end

text \<open>What the stages after the first two leave alone.\<close>

definition core :: "tPhase \<Rightarrow> tMAF \<times> tMAF \<times> tMAF \<times> fp \<times> fp \<times> fp" where
  "core p = (ph_V_maf p, ph_I_maf p, ph_P_maf p, ph_V_rms p, ph_I_rms p, ph_P_avg p)"

definition VI_rel :: "rnd \<Rightarrow> tPAC \<Rightarrow> nat \<Rightarrow> tPhase \<Rightarrow> tPhase \<Rightarrow> bool" where
  "VI_rel rd pac i p p' \<longleftrightarrow>
     maf_update rd (ph_V_maf p) (fmul rd DBL (V pac ! i) (V pac ! i)) = Some (ph_V_maf p') \<and>
     maf_update rd (ph_I_maf p) (fmul rd DBL (I pac ! i) (I pac ! i)) = Some (ph_I_maf p') \<and>
     ph_P_maf p' = ph_P_maf p \<and>
     ph_V_rms p' = RMS_Evaluate rd (MeanValue (ph_V_maf p')) \<and> ph_I_rms p' = RMS_Evaluate rd (MeanValue (ph_I_maf p'))"

definition PE_rel :: "rnd \<Rightarrow> tPAC \<Rightarrow> nat \<Rightarrow> tPhase \<Rightarrow> tPhase \<Rightarrow> bool" where
  "PE_rel rd pac i p p' \<longleftrightarrow>
     maf_update rd (ph_P_maf p) (fmul rd DBL (V pac ! i) (I pac ! i)) = Some (ph_P_maf p') \<and>
     ph_P_avg p' = (if flt (MeanValue (ph_P_maf p')) (tiny rd) then tiny rd else MeanValue (ph_P_maf p')) \<and>
     ph_V_maf p' = ph_V_maf p \<and> ph_I_maf p' = ph_I_maf p \<and> ph_V_rms p' = ph_V_rms p \<and> ph_I_rms p' = ph_I_rms p"

interpretation vi: phase_rel "upd_VI_phase rd pac" "VI_rel rd pac" for rd pac
  by unfold_locales
    (auto simp: upd_VI_phase_def VI_rel_def Let_def split: bind_splits dest!: rd_at_SomeD)

interpretation pe: phase_rel "upd_PE_phase rd pac" "PE_rel rd pac" for rd pac
  by unfold_locales
    (auto simp: upd_PE_phase_def PE_rel_def Let_def split: bind_splits dest!: rd_at_SomeD)

text \<open>Agreement of two states on the core of every phase.\<close>

definition same_core :: "tCPT \<Rightarrow> tCPT \<Rightarrow> bool" where
  "same_core me me' \<longleftrightarrow> cpt_n me' = cpt_n me \<and>
     (\<forall>i<unat (cpt_n me). \<exists>p p'. Phase me ! i = Some p \<and> Phase me' ! i = Some p' \<and> core p' = core p)"

lemma same_core_trans: "same_core a b \<Longrightarrow> same_core b c \<Longrightarrow> same_core a c"
  unfolding same_core_def by (metis option.inject)

lemma same_core_eq:
  "same_core a b \<Longrightarrow> Phase a' = Phase a \<Longrightarrow> cpt_n a' = cpt_n a \<Longrightarrow> Phase b' = Phase b \<Longrightarrow> cpt_n b' = cpt_n b
    \<Longrightarrow> same_core a' b'"
  by (simp add: same_core_def)

text \<open>A loop whose body leaves the core alone.\<close>

locale core_loop = phase_rel body "\<lambda>i p p'. core p' = core p" for body
begin

lemma each_same: "each_phase body me = Some me' \<Longrightarrow> same_core me me'"
  using each_phase_rel[of me me'] by (auto simp: same_core_def)

end

interpretation col: core_loop "collect_phase rd" for rd
  by unfold_locales (auto simp: collect_phase_def core_def)

interpretation act: core_loop "cur_active_phase rd pac" for rd pac
  by unfold_locales (auto simp: cur_active_phase_def core_def Let_def split: bind_splits)

interpretation iba: core_loop "cur_Iba_phase rd pac" for rd pac
  by unfold_locales (auto simp: cur_Iba_phase_def core_def split: bind_splits)

interpretation ibr: core_loop "cur_Ibr_phase rd" for rd
  by unfold_locales (auto simp: cur_Ibr_phase_def core_def)

interpretation bal: core_loop "cur_balanced_phase rd" for rd
  by unfold_locales (auto simp: cur_balanced_phase_def core_def Let_def split: bind_splits)

interpretation unb: core_loop "cur_unbalanced_phase rd" for rd
  by unfold_locales (auto simp: cur_unbalanced_phase_def core_def Let_def)

interpretation unsq: core_loop "cur_unbalanced_sq_phase rd" for rd
  by unfold_locales (auto simp: cur_unbalanced_sq_phase_def core_def Let_def)

interpretation pow: core_loop "power_phase rd" for rd
  by unfold_locales (auto simp: power_phase_def core_def Let_def)

interpretation fac: core_loop "factors_phase rd" for rd
  by unfold_locales (auto simp: factors_phase_def core_def Let_def)


lemma collective_same:
  assumes "CPT_UpdateCollectiveValues rd me pac = Some me'"
  shows "same_core me me'"
proof -
  let ?me = "me\<lparr>cpt_P_avg := fzero, cpt_W_avg := fzero, cpt_V_rms := fzero, cpt_I_rms := fzero, cpt_UI_rms := fzero\<rparr>"
  obtain m where m: "each_phase (collect_phase rd) ?me = Some m" "Phase me' = Phase m" "cpt_n me' = cpt_n m"
    using assms by (auto simp: CPT_UpdateCollectiveValues_def Let_def split: bind_splits)
  from col.each_same[OF m(1)] show ?thesis by (rule same_core_eq) (simp_all add: m)
qed

lemma void_same:
  assumes "cur_void rd me pac = Some me'"
  shows "same_core me me'"
proof -
  obtain m where m: "each_phase (cur_active_phase rd pac) (me\<lparr>cpt_Iv_rms := fzero\<rparr>) = Some m"
      "Phase me' = Phase m" "cpt_n me' = cpt_n m"
    using assms by (auto simp: cur_void_def split: bind_splits)
  from act.each_same[OF m(1)] show ?thesis by (rule same_core_eq) (simp_all add: m)
qed

lemma balanced_same:
  assumes "same_core me0 me" "cur_balanced rd me pac = Some me'"
  shows "same_core me0 me'"
proof -
  let ?z = "\<lambda>m. m\<lparr>cpt_Iba_rms := fzero, cpt_Ibr_rms := fzero\<rparr>"
  obtain m1 m2 m3 where
      m1: "(if \<not> feq (cpt_V_rms me) fzero then each_phase (cur_Iba_phase rd pac) me else Some me) = Some m1"
    and m2: "(if \<not> feq (cpt_UI_rms m1) fzero then each_phase (cur_Ibr_phase rd) m1 else Some m1) = Some m2"
    and m3: "each_phase (cur_balanced_phase rd) (?z m2) = Some m3"
    and me': "Phase me' = Phase m3" "cpt_n me' = cpt_n m3"
    using assms(2) by (auto simp: cur_balanced_def Let_def split: bind_splits)
  have "same_core me0 m1" using m1 assms(1) iba.each_same same_core_trans by (auto split: if_splits)
  then have "same_core me0 m2" using m2 ibr.each_same same_core_trans by (auto split: if_splits)
  then have "same_core me0 (?z m2)" by (rule same_core_eq) simp_all
  then have "same_core me0 m3" using bal.each_same[OF m3] by (rule same_core_trans)
  then show ?thesis by (rule same_core_eq) (simp_all add: me')
qed

lemma unbalanced_same:
  assumes "same_core me0 me" "cur_unbalanced rd me = Some me'"
  shows "same_core me0 me'"
proof (cases "cpt_n me = 1")
  case False
  let ?z = "\<lambda>m. m\<lparr>cpt_Iua_rms := fzero, cpt_Iur_rms := fzero\<rparr>"
  obtain m1 m2 where m1: "each_phase (cur_unbalanced_phase rd) me = Some m1"
    and m2: "each_phase (cur_unbalanced_sq_phase rd) (?z m1) = Some m2"
    and me': "Phase me' = Phase m2" "cpt_n me' = cpt_n m2"
    using assms(2) False by (auto simp: cur_unbalanced_def Let_def split: bind_splits)
  have "same_core me0 m1" using assms(1) unb.each_same[OF m1] by (rule same_core_trans)
  then have "same_core me0 (?z m1)" by (rule same_core_eq) simp_all
  then have "same_core me0 m2" using unsq.each_same[OF m2] by (rule same_core_trans)
  then show ?thesis by (rule same_core_eq) (simp_all add: me')
qed (use assms in \<open>simp add: cur_unbalanced_def\<close>)

lemma powers_same:
  assumes "same_core me0 me" "CPT_PowerDecomposition rd me pac = Some me'"
  shows "same_core me0 me'"
proof -
  obtain m where m: "each_phase (power_phase rd) me = Some m" "Phase me' = Phase m" "cpt_n me' = cpt_n m"
    using assms(2) by (auto simp: CPT_PowerDecomposition_def Let_def split: bind_splits)
  from same_core_trans[OF assms(1) pow.each_same[OF m(1)]] show ?thesis
    by (rule same_core_eq) (simp_all add: m)
qed

lemma factors_same:
  assumes "same_core me0 me" "CPT_EvaluateFactors rd me pac = Some me'"
  shows "same_core me0 me'"
proof -
  obtain m where m: "each_phase (factors_phase rd) m = Some me'" "Phase m = Phase me" "cpt_n m = cpt_n me"
    using assms(2) by (auto simp: CPT_EvaluateFactors_def Let_def split: if_splits)
  from assms(1) have "same_core me0 m" by (rule same_core_eq) (simp_all add: m)
  then show ?thesis using fac.each_same[OF m(1)] by (rule same_core_trans)
qed

text \<open>One sample, seen from one phase.\<close>

lemma CPT_Update_phase:
  assumes "CPT_Update rd me pac = Some me'" and i: "i < unat (cpt_n me)"
  shows "\<exists>p p1 p2 p'. Phase me ! i = Some p \<and> VI_rel rd pac i p p1 \<and> PE_rel rd pac i p1 p2 \<and>
    Phase me' ! i = Some p' \<and> core p' = core p2"
proof -
  obtain m1 m2 m3 m4 m5 m6 m7 where m: "each_phase (upd_VI_phase rd pac) me = Some m1"
      "each_phase (upd_PE_phase rd pac) m1 = Some m2" "CPT_UpdateCollectiveValues rd m2 pac = Some m3"
      "cur_void rd m3 pac = Some m4" "cur_balanced rd m4 pac = Some m5" "cur_unbalanced rd m5 = Some m6"
      "CPT_PowerDecomposition rd m6 pac = Some m7" "CPT_EvaluateFactors rd m7 pac = Some me'"
    using assms(1) by (auto simp: CPT_Update_def CPT_UpdateVoltagesAndCurrents_def CPT_UpdatePowerAndEnergy_def
        CPT_CurrentDecomposition_def split: bind_splits)
  have "same_core m2 m4" using collective_same[OF m(3)] void_same[OF m(4)] by (rule same_core_trans)
  from factors_same[OF powers_same[OF unbalanced_same[OF balanced_same[OF this m(5)] m(6)] m(7)] m(8)]
  have "same_core m2 me'" .
  moreover obtain p p1 where "Phase me ! i = Some p" "Phase m1 ! i = Some p1" "VI_rel rd pac i p p1"
    using vi.each_phase_rel(2)[OF m(1) i] by blast
  moreover obtain p1' p2 where "Phase m1 ! i = Some p1'" "Phase m2 ! i = Some p2" "PE_rel rd pac i p1' p2"
    using pe.each_phase_rel(2)[OF m(2), of i] vi.each_phase_rel(1)[OF m(1)] i by auto
  ultimately show ?thesis
    using i vi.each_phase_rel(1)[OF m(1)] pe.each_phase_rel(1)[OF m(2)] unfolding same_core_def
    by (metis option.inject)
qed

section \<open>The Cauchy-Schwarz inequality on the windows\<close>

fun aligned :: "fp list \<Rightarrow> fp list \<Rightarrow> fp list \<Rightarrow> bool" where
  "aligned (a # as) (b # bs) (p # ps) \<longleftrightarrow>
     0 \<le> valof a \<and> 0 \<le> valof b \<and> (valof p)\<^sup>2 = valof a * valof b \<and> aligned as bs ps"
| "aligned [] [] [] \<longleftrightarrow> True"
| "aligned _ _ _ \<longleftrightarrow> False"

lemma aligned_length: "aligned as bs ps \<Longrightarrow> length bs = length as \<and> length ps = length as"
  by (induction as bs ps rule: aligned.induct) auto

lemma aligned_update:
  "aligned as bs ps \<Longrightarrow> 0 \<le> valof a \<Longrightarrow> 0 \<le> valof b \<Longrightarrow> (valof p)\<^sup>2 = valof a * valof b \<Longrightarrow>
    aligned (as[i := a]) (bs[i := b]) (ps[i := p])"
proof (induction as bs ps arbitrary: i rule: aligned.induct)
  case (1 a' as b' bs p' ps)
  then show ?case by (cases i) simp_all
qed simp_all

lemma aligned_zero: "aligned (replicate n fzero) (replicate n fzero) (replicate n fzero)"
  by (induction n) auto

abbreviation fsum :: "fp list \<Rightarrow> real" where
  "fsum xs \<equiv> sum_list (map valof xs)"

lemma cross_term:
  fixes A B S a b p :: real
  assumes "0 \<le> A" "0 \<le> B" "0 \<le> a" "0 \<le> b" "S\<^sup>2 \<le> A * B" "p\<^sup>2 = a * b"
  shows "2 * (S * p) \<le> A * b + a * B"
proof -
  have "(2 * (S * p))\<^sup>2 = 4 * (S\<^sup>2 * (a * b))" using assms(6) by (simp add: power_mult_distrib)
  also have "\<dots> \<le> 4 * (A * B * (a * b))"
    using mult_right_mono[OF assms(5), of "a * b"] assms(3,4) by simp
  also have "\<dots> = (A * b + a * B)\<^sup>2 - (A * b - a * B)\<^sup>2"
    by (simp only: power2_sum power2_diff) simp
  also have "\<dots> \<le> (A * b + a * B)\<^sup>2" by simp
  finally have "(2 * (S * p))\<^sup>2 \<le> (A * b + a * B)\<^sup>2" .
  moreover have "0 \<le> A * b + a * B" using assms(1-4) by simp
  ultimately show ?thesis by (rule power2_le_imp_le)
qed

lemma aligned_nonneg: "aligned as bs ps \<Longrightarrow> 0 \<le> fsum as \<and> 0 \<le> fsum bs"
  by (induction as bs ps rule: aligned.induct) auto

lemma cauchy_schwarz: "aligned as bs ps \<Longrightarrow> (fsum ps)\<^sup>2 \<le> fsum as * fsum bs"
proof (induction as bs ps rule: aligned.induct)
  case (1 a as b bs p ps)
  then have "(fsum ps)\<^sup>2 \<le> fsum as * fsum bs" "0 \<le> fsum as" "0 \<le> fsum bs" "0 \<le> valof a" "0 \<le> valof b"
      "(valof p)\<^sup>2 = valof a * valof b"
    using aligned_nonneg[of as bs ps] by auto
  then show ?case
    using cross_term[of "fsum as" "fsum bs" "valof a" "valof b" "fsum ps" "valof p"]
    by (simp add: power2_eq_square algebra_simps)
qed auto

section \<open>The three windows of a phase\<close>

definition limits :: "tMAF \<Rightarrow> int \<Rightarrow> bool" where
  "limits m t \<longleftrightarrow> Threshold_Enabled m = t \<and> Threshold_Value m = fzero"

definition tri :: "tPhase \<Rightarrow> bool" where
  "tri p \<longleftrightarrow> exact_sum (ph_V_maf p) \<and> exact_sum (ph_I_maf p) \<and> exact_sum (ph_P_maf p) \<and>
     limits (ph_V_maf p) 1 \<and> limits (ph_I_maf p) 1 \<and> limits (ph_P_maf p) 0 \<and>
     Min (ph_V_maf p) = FFin (1 / 10000) \<and> Min (ph_I_maf p) = FFin (1 / 10000) \<and>
     Head (ph_I_maf p) = Head (ph_V_maf p) \<and> Head (ph_P_maf p) = Head (ph_V_maf p) \<and>
     aligned (Data (Buffer (ph_V_maf p))) (Data (Buffer (ph_I_maf p))) (Data (Buffer (ph_P_maf p)))"

lemma exact_update:
  assumes "exact_sum m" "is_fin x" "maf_update exact m x = Some m'"
  shows "exact_sum m'" "limits m' t = limits m t" "Min m' = Min m" "Head m = Head k \<Longrightarrow> Length (Buffer m) = Length (Buffer k)
      \<Longrightarrow> maf_update exact k y = Some k' \<Longrightarrow> Head m' = Head k'"
    "Data (Buffer m') = (Data (Buffer m))[nat (Head m) := x]"
proof -
  show "exact_sum m'" "limits m' t = limits m t" "Min m' = Min m"
    using exact_sum_step[OF assms(1,2)] assms(3) by (auto simp: limits_def)
  show "Data (Buffer m') = (Data (Buffer m))[nat (Head m) := x]"
    using assms(3) by (auto simp: maf_update_def Let_def split: option.splits)
  show "Head m' = Head k'" if "Head m = Head k" "Length (Buffer m) = Length (Buffer k)" "maf_update exact k y = Some k'"
    using that assms(3) by (auto simp: maf_update_def Let_def split: option.splits)
qed

lemma tri_step:
  assumes p: "tri p" and fin: "is_fin (V pac ! i)" "is_fin (I pac ! i)"
    and 1: "VI_rel exact pac i p p1" and 2: "PE_rel exact pac i p1 p2"
  shows "tri p2"
proof -
  let ?v = "V pac ! i" and ?c = "I pac ! i"
  note d = p[unfolded tri_def] and fv = exact_fmul[OF fin(1) fin(1)] and fc = exact_fmul[OF fin(2) fin(2)]
    and fp = exact_fmul[OF fin]
  have e: "exact_sum (ph_V_maf p)" "exact_sum (ph_I_maf p)" "exact_sum (ph_P_maf p)" using d by blast+
  have uv: "maf_update exact (ph_V_maf p) (fmul exact DBL ?v ?v) = Some (ph_V_maf p2)"
    and uc: "maf_update exact (ph_I_maf p) (fmul exact DBL ?c ?c) = Some (ph_I_maf p2)"
    and up: "maf_update exact (ph_P_maf p) (fmul exact DBL ?v ?c) = Some (ph_P_maf p2)"
    using 1 2 by (auto simp: VI_rel_def PE_rel_def)
  have len: "Length (Buffer (ph_I_maf p)) = Length (Buffer (ph_V_maf p))" "Length (Buffer (ph_P_maf p)) = Length (Buffer (ph_V_maf p))"
    using e aligned_length d by (metis exact_sum_def maf_ok_def)+
  note xv = exact_update[OF e(1) _ uv] and xc = exact_update[OF e(2) _ uc] and xp = exact_update[OF e(3) _ up]
  have "Head (ph_I_maf p2) = Head (ph_V_maf p2)" "Head (ph_P_maf p2) = Head (ph_V_maf p2)"
    using xc(4)[OF _ _ _ uv] xp(4)[OF _ _ _ uv] len d fc fp by simp_all
  moreover have "aligned (Data (Buffer (ph_V_maf p2))) (Data (Buffer (ph_I_maf p2))) (Data (Buffer (ph_P_maf p2)))"
  proof -
    have "(valof ?v * valof ?c)\<^sup>2 = (valof ?v * valof ?v) * (valof ?c * valof ?c)" by (simp add: power2_eq_square)
    then show ?thesis using d fv fc fp by (simp add: xv(5) xc(5) xp(5) aligned_update)
  qed
  ultimately show ?thesis
    using d fv fc fp xv(1,2,3) xc(1,2,3) xp(1,2) unfolding tri_def by simp
qed

text \<open>The root mean square the code computes is at least that of the window.\<close>

definition msq :: "tMAF \<Rightarrow> real" where
  "msq m = wsum m / of_int (Length (Buffer m))"

lemma exact_mean:
  assumes "maf_update exact m0 x = Some m" "exact_sum m" "limits m t"
  shows "MeanValue m = (if t = 1 \<and> msq m \<le> 0 then Min m else FFin (msq m))"
proof -
  have "0 < Length (Buffer m)" using assms(2) by (auto simp: exact_sum_def maf_ok_def)
  then have "fdiv exact DBL (Accumulator m) (f_of_int exact DBL (Length (Buffer m))) = FFin (msq m)"
    using assms(2) by (simp add: exact_sum_def fdiv_def f_of_int_def exact_def signed_zero_def msq_def)
  then show ?thesis using maf_update_mean[OF assms(1)] assms(3) by (auto simp: limits_def fle_def feq_def Let_def)
qed

lemma exact_rms_ge:
  assumes "maf_update exact m0 x = Some m" "exact_sum m" "limits m 1" "Min m = FFin (1 / 10000)" "0 \<le> msq m"
  shows "\<exists>r>0. RMS_Evaluate exact (MeanValue m) = FFin r \<and> sqrt (msq m) \<le> r"
  using exact_mean[OF assms(1-3)] assms(4,5)
  by (auto simp: RMS_Evaluate_def fle_def feq_def Let_def exact_def)

lemma tri_bound:
  assumes p: "tri p2" and 1: "VI_rel exact pac i p p1" and 2: "PE_rel exact pac i p1 p2"
  obtains v c w where "ph_V_rms p2 = FFin v" "ph_I_rms p2 = FFin c" "ph_P_avg p2 = FFin w"
    "0 < v" "0 < c" "1 / 100000 \<le> w" "w \<le> max (1 / 100000) (v * c)"
proof -
  note d = p[unfolded tri_def]
  have e: "exact_sum (ph_V_maf p2)" "exact_sum (ph_I_maf p2)" "exact_sum (ph_P_maf p2)"
    and lim: "limits (ph_V_maf p2) 1" "limits (ph_I_maf p2) 1" "limits (ph_P_maf p2) 0"
    and al: "aligned (Data (Buffer (ph_V_maf p2))) (Data (Buffer (ph_I_maf p2))) (Data (Buffer (ph_P_maf p2)))"
    and mn: "Min (ph_V_maf p2) = FFin (1 / 10000)" "Min (ph_I_maf p2) = FFin (1 / 10000)"
    using d by blast+
  have u: "maf_update exact (ph_V_maf p) (fmul exact DBL (V pac ! i) (V pac ! i)) = Some (ph_V_maf p2)"
      "maf_update exact (ph_I_maf p) (fmul exact DBL (I pac ! i) (I pac ! i)) = Some (ph_I_maf p2)"
      "maf_update exact (ph_P_maf p) (fmul exact DBL (V pac ! i) (I pac ! i)) = Some (ph_P_maf p2)"
    and out: "ph_V_rms p2 = RMS_Evaluate exact (MeanValue (ph_V_maf p2))"
      "ph_I_rms p2 = RMS_Evaluate exact (MeanValue (ph_I_maf p2))"
      "ph_P_avg p2 = (if flt (MeanValue (ph_P_maf p2)) (tiny exact) then tiny exact else MeanValue (ph_P_maf p2))"
    using 1 2 by (auto simp: VI_rel_def PE_rel_def)
  define N :: real where "N = of_int (Length (Buffer (ph_V_maf p2)))"
  have ln: "Length (Buffer (ph_I_maf p2)) = Length (Buffer (ph_V_maf p2))" "Length (Buffer (ph_P_maf p2)) = Length (Buffer (ph_V_maf p2))"
    using e aligned_length[OF al] by (simp_all add: exact_sum_def maf_ok_def)
  have N: "0 < (N :: real)" using e(1) by (auto simp: N_def exact_sum_def maf_ok_def)
  have q: "msq (ph_V_maf p2) = wsum (ph_V_maf p2) / N" "msq (ph_I_maf p2) = wsum (ph_I_maf p2) / N"
      "msq (ph_P_maf p2) = wsum (ph_P_maf p2) / N"
    using ln by (simp_all add: msq_def N_def)
  have nn: "0 \<le> msq (ph_V_maf p2)" "0 \<le> msq (ph_I_maf p2)"
    using aligned_nonneg[OF al] N by (simp_all add: q wsum_def)
  obtain v where v: "0 < v" "ph_V_rms p2 = FFin v" "sqrt (msq (ph_V_maf p2)) \<le> v"
    using exact_rms_ge[OF u(1) e(1) lim(1) mn(1) nn(1)] out(1) by auto
  obtain c where c: "0 < c" "ph_I_rms p2 = FFin c" "sqrt (msq (ph_I_maf p2)) \<le> c"
    using exact_rms_ge[OF u(2) e(2) lim(2) mn(2) nn(2)] out(2) by auto
  have "(wsum (ph_P_maf p2))\<^sup>2 \<le> wsum (ph_V_maf p2) * wsum (ph_I_maf p2)"
    using cauchy_schwarz[OF al] by (simp add: wsum_def)
  then have "(msq (ph_P_maf p2))\<^sup>2 \<le> msq (ph_V_maf p2) * msq (ph_I_maf p2)"
    using N by (simp add: q power2_eq_square divide_right_mono)
  then have "\<bar>msq (ph_P_maf p2)\<bar> \<le> sqrt (msq (ph_V_maf p2) * msq (ph_I_maf p2))"
    by (metis real_sqrt_abs real_sqrt_le_mono)
  then have "msq (ph_P_maf p2) \<le> sqrt (msq (ph_V_maf p2)) * sqrt (msq (ph_I_maf p2))"
    by (simp add: real_sqrt_mult)
  also have "\<dots> \<le> v * c" using v c nn by (intro mult_mono) auto
  finally have "msq (ph_P_maf p2) \<le> v * c" .
  moreover have "MeanValue (ph_P_maf p2) = FFin (msq (ph_P_maf p2))" using exact_mean[OF u(3) e(3) lim(3)] by simp
  moreover have "tiny exact = FFin (1 / 100000)"
    by (simp add: tiny_def fdiv_def f_of_int_def exact_def signed_zero_def)
  ultimately have "ph_P_avg p2 = FFin (max (1 / 100000) (msq (ph_P_maf p2)))" "msq (ph_P_maf p2) \<le> v * c"
    using out(3) by (auto simp: max_def)
  then obtain w where "ph_P_avg p2 = FFin w" "1 / 100000 \<le> w" "w \<le> max (1 / 100000) (v * c)"
    by (metis max.cobounded1 max.mono order_refl)
  then show thesis using that v c by blast
qed

section \<open>From configuration to the power factor\<close>

lemma init_at_exact:
  assumes "unat smp < 2 ^ 28" "0 < unat smp" "init_at (map (cfg_block env smp) [j..<j + c]) k t th mn = Some m"
  shows "exact_sum m \<and> Threshold_Enabled m = t \<and> Threshold_Value m = th \<and> Min m = mn \<and> Head m = 0 \<and>
    Data (Buffer m) = replicate (unat smp) fzero"
proof -
  let ?b = "cfg_block env smp (j + k)"
  have l: "Length ?b = int (length (Data ?b))" "Length ?b = int (unat smp)"
    using cfg_block_length[OF assms(1)] by blast+
  have "maf_init ?b t th mn = Some m"
    using assms(3) by (auto simp: init_at_def split: bind_splits dest!: rd_at_SomeD)
  moreover have "length (Data ?b) = unat smp" using l by linarith
  moreover have "0 < int (unat smp)" using assms(2) by linarith
  ultimately show ?thesis
    using maf_init_zero[OF l(1), of t th mn] l(2)
    by (auto simp: exact_sum_def maf_ok_def wsum_def sum_list_replicate list_all_iff)
qed

lemma init_phase_tri:
  assumes s: "unat smp < 2 ^ 28" "0 < unat smp"
    and "cfg_init_phase exact (map (cfg_block env smp) [j..<j + c]) k p = Some p'"
  shows "tri p'"
proof -
  let ?i = "\<lambda>n. init_at (map (cfg_block env smp) [j..<j + c]) (k + n)"
  have "?i 0 1 THRESHOLD (THR_MIN exact) = Some (ph_V_maf p')" "?i 1 1 THRESHOLD (THR_MIN exact) = Some (ph_I_maf p')"
      "?i 2 0 fzero fzero = Some (ph_P_maf p')"
    using assms(3) by (auto simp: cfg_init_phase_def Phase_Init_def split: bind_splits)
  from this[THEN init_at_exact[OF s]] show ?thesis
    by (simp add: tri_def limits_def aligned_zero THRESHOLD_def THR_MIN_def fconst_def exact_def)
qed

lemma config_tri:
  assumes alloc: "\<And>k. mal env k" and three: "length (Phase me) = 3" and s: "unat smp < 2 ^ 28" "0 < unat smp"
    and c: "CPT_Config exact env me freq smp 3 = Some (m, 0)"
  shows "phases 3 (\<lambda>i. tri) m"
proof -
  obtain a b d where ps: "Phase me = [a, b, d]" using three by (auto simp: numeral_3_eq_3 length_Suc_conv)
  let ?pb = "map (cfg_block env smp) [5..<5 + 27]"
  obtain p0 p1 p2 where p: "cfg_init_phase exact ?pb 0 (fresh_phase env 2) = Some p0"
      "cfg_init_phase exact ?pb 9 (fresh_phase env 3) = Some p1" "cfg_init_phase exact ?pb 18 (fresh_phase env 4) = Some p2"
      "Phase m = [Some p0, Some p1, Some p2]" "cpt_n m = 3"
    using c alloc ps
    by (auto simp: CPT_Config_def cfg_buffers_all PHASE_RAW_BUFFERS_def Let_def cfg_init_cpt_def
        split: bind_splits option.splits simp del: upt_rec_numeral)
  have t: "tri p0" "tri p1" "tri p2" using p(1-3) by (simp_all only: init_phase_tri[OF s])
  have "\<exists>q. Phase m ! i = Some q \<and> tri q" if "i < 3" for i
  proof -
    from that have "i = 0 \<or> i = 1 \<or> i = 2" by linarith
    then show ?thesis using p(4) t by auto
  qed
  then show ?thesis using p(4,5) by (simp add: phases_def)
qed

definition fin_pac :: "tPAC \<Rightarrow> bool" where
  "fin_pac q \<longleftrightarrow> length (V q) = 3 \<and> length (I q) = 3 \<and> list_all is_fin (V q) \<and> list_all is_fin (I q)"

lemma update_tri:
  assumes me: "exact_fin.ready me" "phases 3 (\<lambda>i. tri) me" and q: "fin_pac q"
  shows "\<exists>me'. CPT_Update exact me q = Some me' \<and> exact_fin.ready me' \<and> phases 3 (\<lambda>i. tri) me' \<and>
    (\<forall>i<3. \<exists>p v c w. Phase me' ! i = Some p \<and> ph_V_rms p = FFin v \<and> ph_I_rms p = FFin c \<and> ph_P_avg p = FFin w \<and>
       0 < v \<and> 0 < c \<and> 1 / 100000 \<le> w \<and> w \<le> max (1 / 100000) (v * c) \<and>
       ph_A p = FFin (v * c) \<and> ph_PF p = FFin (w / (v * c)))"
proof -
  have "exact_fin.pac_G q" using q by (simp add: fin_pac_def exact_fin.pac_G_def)
  then obtain me' where u: "CPT_Update exact me q = Some me'" "exact_fin.ready me'" "phases 3 (exact_fin.P10 q) me'"
    using exact_fin.update_ok[OF me(1)] by blast
  have one: "\<exists>p. Phase me' ! i = Some p \<and> tri p \<and> (\<exists>v c w. ph_V_rms p = FFin v \<and> ph_I_rms p = FFin c \<and> ph_P_avg p = FFin w \<and>
       0 < v \<and> 0 < c \<and> 1 / 100000 \<le> w \<and> w \<le> max (1 / 100000) (v * c) \<and>
       ph_A p = FFin (v * c) \<and> ph_PF p = FFin (w / (v * c)))" if i: "i < 3" for i
  proof -
    have "i < unat (cpt_n me)" using me(2) i by (simp add: phases_def)
    from CPT_Update_phase[OF u(1) this] obtain p p1 p2 p' where p: "Phase me ! i = Some p"
        "VI_rel exact q i p p1" "PE_rel exact q i p1 p2" "Phase me' ! i = Some p'" "core p' = core p2" by blast
    have fin: "is_fin (V q ! i)" "is_fin (I q ! i)" using q i by (simp_all add: fin_pac_def list_all_length)
    have "tri p" using me(2) i p(1) by (auto simp: phases_def)
    then have t2: "tri p2" using tri_step fin p(2,3) by blast
    obtain v c w where vcw: "ph_V_rms p2 = FFin v" "ph_I_rms p2 = FFin c" "ph_P_avg p2 = FFin w"
      "0 < v" "0 < c" "1 / 100000 \<le> w" "w \<le> max (1 / 100000) (v * c)"
      using tri_bound[OF t2 p(2,3)] by blast
    have k: "ph_V_rms p' = FFin v" "ph_I_rms p' = FFin c" "ph_P_avg p' = FFin w" and "tri p'"
      using p(5) vcw t2 by (simp_all add: core_def tri_def)
    have "exact_fin.P10 q i p'" using u(3) i p(4) by (auto simp: phases_def)
    then have a: "fmul exact DBL (ph_V_rms p') (ph_I_rms p') = ph_A p'"
      and f: "\<not> feq (ph_A p') fzero \<longrightarrow> fdiv exact DBL (ph_P_avg p') (ph_A p') = ph_PF p'"
      unfolding exact_fin.P10_def exact_fin.P9_def by blast+
    have A: "ph_A p' = FFin (v * c)"
      using a k vcw(4,5) by (simp add: fmul_def exact_def signed_zero_def Let_def not_less)
    moreover have "ph_PF p' = FFin (w / (v * c))"
      using f vcw(4-6) unfolding A k by (auto simp: feq_def fdiv_def exact_def signed_zero_def Let_def)
    ultimately show ?thesis using k vcw(4-7) \<open>tri p'\<close> p(4) by blast
  qed
  have "phases 3 (\<lambda>i. tri) me'" using u(3) one unfolding phases_def by blast
  then show ?thesis using u(1,2) one by blast
qed

text \<open>
  C11. The power factor. In exact arithmetic, from the configuration on and after any sequence of
  finite samples, every phase has a positive active power of at most its apparent power
  \<open>A = V_rms * I_rms\<close> (the Cauchy-Schwarz inequality over the averaging window), the lower limit
  of 1/100000 the code puts under the active power apart; so once the apparent power reaches that limit
  the power factor lies in (0, 1]. A phase that exports energy is therefore reported with the
  limit value, never with a negative power.
\<close>

theorem cpt_power_factor:
  assumes "\<And>k. mal env k" and "length (Phase me) = 3"
    and "unat smp < 2 ^ 28" "0 < unat smp" and "0 < uint freq"
    and "list_all fin_pac (pacs @ [pac])"
  shows "\<exists>me0 me'. CPT_Config exact env me freq smp 3 = Some (me0, 0) \<and>
    run_opt (CPT_Update exact) me0 (pacs @ [pac]) = Some me' \<and>
    (\<forall>i<3. \<exists>p. Phase me' ! i = Some p \<and>
       valof (ph_A p) = valof (ph_V_rms p) * valof (ph_I_rms p) \<and>
       1 / 100000 \<le> valof (ph_P_avg p) \<and> valof (ph_P_avg p) \<le> max (1 / 100000) (valof (ph_A p)) \<and>
       (1 / 100000 \<le> valof (ph_A p) \<longrightarrow> 0 < valof (ph_PF p) \<and> valof (ph_PF p) \<le> 1))"
proof -
  obtain me0 where c: "CPT_Config exact env me freq smp 3 = Some (me0, 0)" "exact_fin.ready me0"
    using exact_fin.config_ready[OF assms(1-5)] by blast
  have t: "phases 3 (\<lambda>i. tri) me0" using config_tri[OF assms(1-4) c(1)] .
  have "\<exists>m1. run_opt (CPT_Update exact) me0 pacs = Some m1 \<and>
      (\<lambda>(n::nat) m. exact_fin.ready m \<and> phases 3 (\<lambda>i. tri) m) (0 + length pacs) m1"
  proof (rule run_opt_invariant)
    fix m x and n :: nat assume "exact_fin.ready m \<and> phases 3 (\<lambda>i. tri) m" "x \<in> set pacs"
    then show "\<exists>m'. CPT_Update exact m x = Some m' \<and> exact_fin.ready m' \<and> phases 3 (\<lambda>i. tri) m'"
      using update_tri[of m x] assms(6) unfolding list_all_iff set_append by blast
  qed (use c(2) t in blast)
  then obtain m1 where m1: "run_opt (CPT_Update exact) me0 pacs = Some m1" "exact_fin.ready m1" "phases 3 (\<lambda>i. tri) m1"
    by blast
  have "fin_pac pac" using assms(6) by simp
  obtain m2 where m2: "CPT_Update exact m1 pac = Some m2" and out: "\<forall>i<3. \<exists>p v c w. Phase m2 ! i = Some p \<and>
       ph_V_rms p = FFin v \<and> ph_I_rms p = FFin c \<and> ph_P_avg p = FFin w \<and>
       0 < v \<and> 0 < c \<and> 1 / 100000 \<le> w \<and> w \<le> max (1 / 100000) (v * c) \<and>
       ph_A p = FFin (v * c) \<and> ph_PF p = FFin (w / (v * c))"
    using update_tri[OF m1(2,3) \<open>fin_pac pac\<close>] by metis
  have "\<exists>p. Phase m2 ! i = Some p \<and> valof (ph_A p) = valof (ph_V_rms p) * valof (ph_I_rms p) \<and>
       1 / 100000 \<le> valof (ph_P_avg p) \<and> valof (ph_P_avg p) \<le> max (1 / 100000) (valof (ph_A p)) \<and>
       (1 / 100000 \<le> valof (ph_A p) \<longrightarrow> 0 < valof (ph_PF p) \<and> valof (ph_PF p) \<le> 1)" if "i < 3" for i
  proof -
    from out[rule_format, OF that] obtain p v c w where o: "Phase m2 ! i = Some p" "ph_V_rms p = FFin v"
      "ph_I_rms p = FFin c" "ph_P_avg p = FFin w" "0 < v" "0 < c" "1 / 100000 \<le> w" "w \<le> max (1 / 100000) (v * c)"
      "ph_A p = FFin (v * c)" "ph_PF p = FFin (w / (v * c))" by blast
    have "0 < v * c" using o by simp
    then have "1 / 100000 \<le> v * c \<Longrightarrow> 0 < w / (v * c) \<and> w / (v * c) \<le> 1" using o(7,8) by simp
    then show ?thesis using o by (intro exI[of _ p]) simp
  qed
  moreover have "run_opt (CPT_Update exact) me0 (pacs @ [pac]) = Some m2"
    using m1(1) m2 by (simp add: run_opt_append)
  ultimately show ?thesis using c(1) by blast
qed

theorem cpt_power_factor_witness:
  "\<exists>me0 me'. CPT_Config exact whole_env blank_cpt 3840 64 3 = Some (me0, 0) \<and>
    run_opt (CPT_Update exact) me0 ([] @ [\<lparr>V = [FFin 1, FFin 0, FFin 2], I = [FFin 3, FNegZero, FFin (-1)]\<rparr>]) = Some me' \<and>
    (\<forall>i<3. \<exists>p. Phase me' ! i = Some p \<and>
       valof (ph_A p) = valof (ph_V_rms p) * valof (ph_I_rms p) \<and>
       1 / 100000 \<le> valof (ph_P_avg p) \<and> valof (ph_P_avg p) \<le> max (1 / 100000) (valof (ph_A p)) \<and>
       (1 / 100000 \<le> valof (ph_A p) \<longrightarrow> 0 < valof (ph_PF p) \<and> valof (ph_PF p) \<le> 1))"
  by (rule cpt_power_factor) (simp_all add: fin_pac_def)

end
