(* ===== verification/Goertzel_Filter.thy ===== *)
theory Goertzel_Filter
  imports Fp "HOL-Library.Monad_Syntax"
begin

text \<open>
  The Goertzel filter bank (\<open>Goertzel.c\<close>, \<open>Goertzel.h\<close>): one second-order recurrence per
  frequency bin over a block of \<open>Points\<close> samples, in single precision with the roots and the
  cosine in double precision. The cosine is the one of the C library, a parameter \<open>cosine\<close> of the model; the
  exact reading instantiates it with the real cosine.

  \<open>samples\<close> is the content of the input array from the address passed in; an index outside an array is the
  outer \<open>None\<close>. The record \<open>Goertzel\<close> is the struct, with \<open>coeff\<close> the block it points to.
\<close>

record Goertzel =
  Points :: int
  Fdtm :: fp
  Fsample :: fp
  coeff :: "fp list"

section \<open>Operations\<close>

text \<open>
  \<open>alloc\<close> is the block \<open>malloc(Points * sizeof(float))\<close> returns (\<open>None\<close> for NULL); its length is
  the number of floats that fit in the byte count, which wraps at 32 bits.
\<close>

definition gz_floats :: "int \<Rightarrow> nat" where
  "gz_floats points = nat (points * 4 mod 2 ^ 32) div 4"

definition Goertzel_Init ::
  "(nat \<Rightarrow> fp list option) \<Rightarrow> Goertzel option \<Rightarrow> int \<Rightarrow> fp \<Rightarrow> fp \<Rightarrow> Goertzel option \<times> int" where
  "Goertzel_Init alloc me points fs fdtm =
     (case me of
        None \<Rightarrow> (None, -1)
      | Some g \<Rightarrow>
          if 0 < points then
            (let g = g\<lparr>Points := points, Fsample := fs, Fdtm := fdtm\<rparr> in
             case alloc (gz_floats points) of
               Some block \<Rightarrow> (Some (g\<lparr>coeff := block\<rparr>), 0)
             | None \<Rightarrow> (Some (g\<lparr>coeff := []\<rparr>), -1))
          else (Some g, -1))"

definition GOERTZEL_PI :: real where
  "GOERTZEL_PI = 3141592653589793238462643383279 / 10 ^ 30"

definition gz_coeff :: "rnd \<Rightarrow> (fp \<Rightarrow> fp) \<Rightarrow> Goertzel \<Rightarrow> int \<Rightarrow> fp" where
  "gz_coeff rd cosine me j =
     (let normalizedfreq = fdiv rd SGL (fmul rd SGL (Fdtm me) (f_of_int rd SGL j)) (Fsample me);
          x = fadd rd SGL (fconst rd SGL (1/2)) (fmul rd SGL (f_of_int rd SGL (Points me)) normalizedfreq);
          k = fcvt rd SGL (ffloor (fcvt rd DBL x));
          two_pi = fmul rd DBL (f_of_int rd DBL 2) (fconst rd DBL GOERTZEL_PI);
          w = fcvt rd SGL (fdiv rd DBL (fmul rd DBL two_pi (fcvt rd DBL k))
                (fcvt rd DBL (f_of_int rd SGL (Points me))))
      in fcvt rd SGL (fmul rd DBL (f_of_int rd DBL 2) (cosine (fcvt rd DBL w))))"

fun gz_coeffs :: "rnd \<Rightarrow> (fp \<Rightarrow> fp) \<Rightarrow> Goertzel \<Rightarrow> int \<Rightarrow> nat \<Rightarrow> Goertzel option" where
  "gz_coeffs rd cosine me j 0 = Some me"
| "gz_coeffs rd cosine me j (Suc n) =
     do { c \<leftarrow> wr_at (coeff me) j (gz_coeff rd cosine me j);
          gz_coeffs rd cosine (me\<lparr>coeff := c\<rparr>) (j + 1) n }"

definition Goertzel_EvaluateCoefficients ::
  "rnd \<Rightarrow> (fp \<Rightarrow> fp) \<Rightarrow> Goertzel option \<Rightarrow> (Goertzel option \<times> int) option" where
  "Goertzel_EvaluateCoefficients rd cosine me =
     (case me of
        None \<Rightarrow> Some (None, -1)
      | Some g \<Rightarrow> do { g' \<leftarrow> gz_coeffs rd cosine g 0 (nat (Points g)); Some (Some g', 0) })"

text \<open>The recurrence over the samples, from index \<open>i\<close>; the pair is \<open>(s_prev, s_prev2)\<close>.\<close>

fun gz_run :: "rnd \<Rightarrow> fp list \<Rightarrow> fp \<Rightarrow> int \<Rightarrow> nat \<Rightarrow> fp \<times> fp \<Rightarrow> (fp \<times> fp) option" where
  "gz_run rd samples c i 0 (s_prev, s_prev2) = Some (s_prev, s_prev2)"
| "gz_run rd samples c i (Suc n) (s_prev, s_prev2) =
     do { x \<leftarrow> rd_at samples i;
          let s = fsub rd SGL (fadd rd SGL x (fmul rd SGL c s_prev)) s_prev2;
          gz_run rd samples c (i + 1) n (s, s_prev) }"

definition gz_power :: "rnd \<Rightarrow> fp \<Rightarrow> fp \<times> fp \<Rightarrow> fp" where
  "gz_power rd c = (\<lambda>(s_prev, s_prev2).
     fsub rd SGL (fadd rd SGL (fmul rd SGL s_prev2 s_prev2) (fmul rd SGL s_prev s_prev))
       (fmul rd SGL (fmul rd SGL c s_prev) s_prev2))"

fun gz_all :: "rnd \<Rightarrow> Goertzel \<Rightarrow> fp list \<Rightarrow> int \<Rightarrow> nat \<Rightarrow> fp list \<Rightarrow> fp list option" where
  "gz_all rd me samples j 0 output = Some output"
| "gz_all rd me samples j (Suc n) output =
     do { c \<leftarrow> rd_at (coeff me) j;
          st \<leftarrow> gz_run rd samples c 0 (nat (Points me)) (fzero, fzero);
          let power = fdiv rd SGL (gz_power rd c st) (f_of_int rd SGL (Points me));
          output' \<leftarrow> wr_at output j (fcvt rd SGL (fsqrt rd DBL (fcvt rd DBL power)));
          gz_all rd me samples (j + 1) n output' }"

definition Goertzel_CalculateAll ::
  "rnd \<Rightarrow> Goertzel option \<Rightarrow> fp list \<Rightarrow> fp list \<Rightarrow> (fp list \<times> int) option" where
  "Goertzel_CalculateAll rd me samples output =
     (case me of
        None \<Rightarrow> Some (output, -1)
      | Some g \<Rightarrow> do { out \<leftarrow> gz_all rd g samples 0 (nat (Points g) div 2) output; Some (out, 0) })"

definition gz_sqrt2 :: "rnd \<Rightarrow> fp" where
  "gz_sqrt2 rd = fcvt rd DBL (fdiv rd SGL (f_of_int rd SGL 1414213562) (f_of_int rd SGL 1000000000))"

fun gz_odd :: "rnd \<Rightarrow> Goertzel \<Rightarrow> fp list \<Rightarrow> int \<Rightarrow> int \<Rightarrow> nat \<Rightarrow> fp list \<Rightarrow> fp list option" where
  "gz_odd rd me samples j k 0 output = Some output"
| "gz_odd rd me samples j k (Suc n) output =
     do { c \<leftarrow> rd_at (coeff me) j;
          st \<leftarrow> gz_run rd samples c 0 (nat (Points me)) (fzero, fzero);
          let root = fsqrt rd DBL (fcvt rd DBL (gz_power rd c st));
          let power = fmul rd DBL (fdiv rd DBL root (fcvt rd DBL (f_of_int rd SGL (Points me)))) (gz_sqrt2 rd);
          output' \<leftarrow> wr_at output k (fcvt rd SGL power);
          gz_odd rd me samples (j + 2) (k + 1) n output' }"

definition Goertzel_CalculateOdd ::
  "rnd \<Rightarrow> Goertzel option \<Rightarrow> fp list \<Rightarrow> fp list \<Rightarrow> int \<Rightarrow> (fp list \<times> int) option" where
  "Goertzel_CalculateOdd rd me samples output n =
     (case me of
        None \<Rightarrow> Some (output, -1)
      | Some g \<Rightarrow> do { out \<leftarrow> gz_odd rd g samples 1 0 (nat n) output; Some (out, 0) })"

section \<open>Bounds\<close>

lemma gz_coeffs_ok:
  "0 \<le> j \<Longrightarrow> j + int n \<le> int (length (coeff me)) \<Longrightarrow>
    \<exists>me'. gz_coeffs rd cosine me j n = Some me' \<and> length (coeff me') = length (coeff me) \<and>
      Points me' = Points me \<and> Fsample me' = Fsample me \<and> Fdtm me' = Fdtm me \<and>
      (\<forall>i<length (coeff me). coeff me' ! i =
         (if j \<le> int i \<and> int i < j + int n then gz_coeff rd cosine me (int i) else coeff me ! i))"
proof (induction n arbitrary: me j)
  case (Suc n)
  let ?me = "me\<lparr>coeff := (coeff me)[nat j := gz_coeff rd cosine me j]\<rparr>"
  have same: "gz_coeff rd cosine ?me = gz_coeff rd cosine me" by (simp add: gz_coeff_def fun_eq_iff)
  from Suc.IH[of "j + 1" ?me] Suc.prems obtain me' where me': "gz_coeffs rd cosine ?me (j + 1) n = Some me'"
      "length (coeff me') = length (coeff me)" "Points me' = Points me" "Fsample me' = Fsample me" "Fdtm me' = Fdtm me"
      "\<forall>i<length (coeff me). coeff me' ! i = (if j + 1 \<le> int i \<and> int i < j + 1 + int n
         then gz_coeff rd cosine me (int i) else (coeff me)[nat j := gz_coeff rd cosine me j] ! i)"
    unfolding same by auto
  have "coeff me' ! i = (if j \<le> int i \<and> int i < j + int (Suc n) then gz_coeff rd cosine me (int i) else coeff me ! i)"
    if "i < length (coeff me)" for i
    using me'(6) that Suc.prems(1) by (cases "int i = j") auto
  then show ?case using me'(1-5) Suc.prems by auto
qed auto

lemma gz_run_ok:
  "0 \<le> i \<Longrightarrow> i + int n \<le> int (length samples) \<Longrightarrow> \<exists>st'. gz_run rd samples c i n st = Some st'"
proof (induction n arbitrary: i st)
  case (Suc n)
  then show ?case by (cases st) (simp add: Let_def)
qed (auto split: prod.splits)

lemma gz_run_block:
  "n \<le> length samples \<Longrightarrow> \<exists>st'. gz_run rd samples c 0 n st = Some st'"
  by (rule gz_run_ok) simp_all

section \<open>The recurrence computes the Fourier sum\<close>

text \<open>The Fourier sum of the first \<open>N\<close> samples at the angle \<open>\<theta>\<close> per sample.\<close>

definition fourier :: "fp list \<Rightarrow> nat \<Rightarrow> real \<Rightarrow> complex" where
  "fourier samples N \<theta> = (\<Sum>n<N. of_real (valof (samples ! n)) * cis (- (real n * \<theta>)))"

lemma cis_recur: "2 * complex_of_real (cos \<theta>) = cis \<theta> + cis (- \<theta>)"
  by (simp add: complex_eq_iff)

definition gz_y :: "real \<Rightarrow> fp \<times> fp \<Rightarrow> complex" where
  "gz_y \<theta> st = of_real (valof (fst st)) - cis (- \<theta>) * of_real (valof (snd st))"

lemma gz_y_step:
  assumes "is_fin c" "valof c = 2 * cos \<theta>" "is_fin x" "is_fin a" "is_fin b"
  shows "gz_y \<theta> (fsub exact SGL (fadd exact SGL x (fmul exact SGL c a)) b, a) = of_real (valof x) + cis \<theta> * gz_y \<theta> (a, b)"
proof -
  let ?s = "fsub exact SGL (fadd exact SGL x (fmul exact SGL c a)) b"
  have "valof ?s = valof x + 2 * cos \<theta> * valof a - valof b" using assms by (simp add: fp_eval)
  then have "complex_of_real (valof ?s) = of_real (valof x) + 2 * of_real (cos \<theta>) * of_real (valof a) - of_real (valof b)"
    by (simp only: of_real_add of_real_diff of_real_mult of_real_numeral)
  then have s: "complex_of_real (valof ?s) = of_real (valof x) + (cis \<theta> + cis (- \<theta>)) * of_real (valof a) - of_real (valof b)"
    by (simp only: cis_recur)
  have "cis \<theta> * (cis (- \<theta>) * of_real (valof b)) = of_real (valof b)"
    by (simp add: cis_mult flip: mult.assoc)
  then show ?thesis unfolding gz_y_def fst_conv snd_conv s by (simp only: algebra_simps)
qed

lemma gz_run_exact:
  assumes "is_fin c" "valof c = 2 * cos \<theta>" "list_all is_fin samples"
  shows "i + n \<le> length samples \<Longrightarrow> is_fin (fst st) \<Longrightarrow> is_fin (snd st) \<Longrightarrow>
    \<exists>st'. gz_run exact samples c (int i) n st = Some st' \<and> is_fin (fst st') \<and> is_fin (snd st') \<and>
      gz_y \<theta> st' = (\<Sum>k<n. of_real (valof (samples ! (i + k))) * cis (real (n - 1 - k) * \<theta>)) + cis (real n * \<theta>) * gz_y \<theta> st"
proof (induction n arbitrary: i st)
  case 0
  then show ?case by (cases st) simp
next
  case (Suc n)
  obtain a b where st: "st = (a, b)" by (cases st)
  let ?x = "samples ! i"
  have x: "is_fin ?x" using assms(3) Suc.prems(1) by (simp add: list_all_length)
  let ?s = "fsub exact SGL (fadd exact SGL ?x (fmul exact SGL c a)) b"
  have s: "is_fin ?s" using x assms(1) Suc.prems st by (simp add: fp_eval)
  obtain st' where st': "gz_run exact samples c (int (Suc i)) n (?s, a) = Some st'" "is_fin (fst st')" "is_fin (snd st')"
      "gz_y \<theta> st' = (\<Sum>k<n. of_real (valof (samples ! (Suc i + k))) * cis (real (n - 1 - k) * \<theta>)) + cis (real n * \<theta>) * gz_y \<theta> (?s, a)"
    using Suc.IH[of "Suc i" "(?s, a)"] Suc.prems s st by auto
  have "(\<Sum>k<Suc n. of_real (valof (samples ! (i + k))) * cis (real (Suc n - 1 - k) * \<theta>))
      = of_real (valof ?x) * cis (real n * \<theta>) + (\<Sum>k<n. of_real (valof (samples ! (Suc i + k))) * cis (real (n - 1 - k) * \<theta>))"
    by (subst sum.lessThan_Suc_shift) simp
  moreover have "gz_y \<theta> (?s, a) = of_real (valof ?x) + cis \<theta> * gz_y \<theta> st"
    using gz_y_step[OF assms(1,2) x] Suc.prems st by simp
  moreover have "cis (real (Suc n) * \<theta>) = cis (real n * \<theta>) * cis \<theta>" by (simp add: cis_mult algebra_simps)
  ultimately have "gz_y \<theta> st' = (\<Sum>k<Suc n. of_real (valof (samples ! (i + k))) * cis (real (Suc n - 1 - k) * \<theta>)) + cis (real (Suc n) * \<theta>) * gz_y \<theta> st"
    using st'(4) by (simp add: algebra_simps)
  moreover have "gz_run exact samples c (int i) (Suc n) st = Some st'"
    using st'(1) st Suc.prems(1) by (simp add: Let_def add.commute)
  ultimately show ?case using st'(2,3) by blast
qed

lemma gz_power_norm:
  assumes "is_fin c" "valof c = 2 * cos \<theta>" "is_fin a" "is_fin b"
  shows "is_fin (gz_power exact c (a, b))" and "valof (gz_power exact c (a, b)) = (cmod (gz_y \<theta> (a, b)))\<^sup>2"
proof -
  show "is_fin (gz_power exact c (a, b))" using assms by (simp add: gz_power_def fp_eval)
  have "(cmod (gz_y \<theta> (a, b)))\<^sup>2 = (valof a - cos \<theta> * valof b)\<^sup>2 + (sin \<theta> * valof b)\<^sup>2"
    by (simp add: cmod_power2 gz_y_def)
  also have "\<dots> = (valof b)\<^sup>2 + (valof a)\<^sup>2 - 2 * (valof a * (cos \<theta> * valof b))"
    by (simp add: power2_diff power_mult_distrib cos_squared_eq algebra_simps)
  finally show "valof (gz_power exact c (a, b)) = (cmod (gz_y \<theta> (a, b)))\<^sup>2"
    using assms by (simp add: gz_power_def fp_eval power2_eq_square algebra_simps)
qed

lemma fourier_reversed:
  "cmod (\<Sum>k<n. of_real (valof (samples ! k)) * cis (real (n - 1 - k) * \<theta>)) = cmod (fourier samples n \<theta>)"
proof -
  have "(\<Sum>k<n. of_real (valof (samples ! k)) * cis (real (n - 1 - k) * \<theta>))
      = (\<Sum>k<n. cis (real (n - 1) * \<theta>) * (of_real (valof (samples ! k)) * cis (- (real k * \<theta>))))"
  proof (rule sum.cong)
    fix k assume "k \<in> {..<n}"
    then have "real (n - 1 - k) * \<theta> = real (n - 1) * \<theta> + - (real k * \<theta>)" by (simp add: of_nat_diff algebra_simps)
    then show "of_real (valof (samples ! k)) * cis (real (n - 1 - k) * \<theta>)
        = cis (real (n - 1) * \<theta>) * (of_real (valof (samples ! k)) * cis (- (real k * \<theta>)))"
      by (simp only: cis_mult[symmetric]) simp
  qed simp
  then show ?thesis by (simp add: fourier_def norm_mult flip: sum_distrib_left)
qed

text \<open>The whole bin: the power is the squared magnitude of the Fourier sum.\<close>

lemma gz_bin_exact:
  assumes "is_fin c" "valof c = 2 * cos \<theta>" "list_all is_fin samples" "n \<le> length samples"
  obtains st where "gz_run exact samples c 0 n (fzero, fzero) = Some st"
    "is_fin (gz_power exact c st)" "valof (gz_power exact c st) = (cmod (fourier samples n \<theta>))\<^sup>2"
proof -
  obtain st where st: "gz_run exact samples c (int 0) n (fzero, fzero) = Some st" "is_fin (fst st)" "is_fin (snd st)"
      "gz_y \<theta> st = (\<Sum>k<n. of_real (valof (samples ! (0 + k))) * cis (real (n - 1 - k) * \<theta>)) + cis (real n * \<theta>) * gz_y \<theta> (fzero, fzero)"
    using gz_run_exact[OF assms(1-3), of 0 n "(fzero, fzero)"] assms(4) by auto
  have "cmod (gz_y \<theta> st) = cmod (fourier samples n \<theta>)"
    using st(4) fourier_reversed[of samples n \<theta>] by (simp add: gz_y_def)
  moreover have "gz_power exact c st = gz_power exact c (fst st, snd st)" by simp
  ultimately show thesis
    using that[of st] gz_power_norm[OF assms(1,2) st(2,3)] st(1) by simp
qed

section \<open>Filling the output\<close>

text \<open>The loop over the odd bins as a whole: defined exactly when every access is in range.\<close>

definition odd_bin :: "rnd \<Rightarrow> Goertzel \<Rightarrow> fp list \<Rightarrow> int \<Rightarrow> fp" where
  "odd_bin rd me samples j =
     (let c = coeff me ! nat j; st = the (gz_run rd samples c 0 (nat (Points me)) (fzero, fzero))
      in fcvt rd SGL (fmul rd DBL (fdiv rd DBL (fsqrt rd DBL (fcvt rd DBL (gz_power rd c st)))
           (fcvt rd DBL (f_of_int rd SGL (Points me)))) (gz_sqrt2 rd)))"

definition all_bin :: "rnd \<Rightarrow> Goertzel \<Rightarrow> fp list \<Rightarrow> int \<Rightarrow> fp" where
  "all_bin rd me samples j =
     (let c = coeff me ! nat j; st = the (gz_run rd samples c 0 (nat (Points me)) (fzero, fzero))
      in fcvt rd SGL (fsqrt rd DBL (fcvt rd DBL (fdiv rd SGL (gz_power rd c st) (f_of_int rd SGL (Points me))))))"

lemma gz_odd_ok:
  assumes "nat (Points me) \<le> length samples"
  shows "0 \<le> j \<Longrightarrow> 0 \<le> k \<Longrightarrow> j + 2 * int n \<le> int (length (coeff me)) + 1 \<Longrightarrow> k + int n \<le> int (length out) \<Longrightarrow>
    \<exists>out'. gz_odd rd me samples j k n out = Some out' \<and> length out' = length out \<and>
      (\<forall>i<length out. out' ! i = (if k \<le> int i \<and> int i < k + int n then odd_bin rd me samples (j + 2 * (int i - k)) else out ! i))"
proof (induction n arbitrary: j k out)
  case (Suc n)
  let ?c = "coeff me ! nat j" and ?v = "odd_bin rd me samples j"
  obtain st where st: "gz_run rd samples ?c 0 (nat (Points me)) (fzero, fzero) = Some st"
    using gz_run_block[OF assms] by blast
  have step: "gz_odd rd me samples j k (Suc n) out = gz_odd rd me samples (j + 2) (k + 1) n (out[nat k := ?v])"
    using Suc.prems st by (simp add: odd_bin_def Let_def)
  obtain out' where out': "gz_odd rd me samples (j + 2) (k + 1) n (out[nat k := ?v]) = Some out'" "length out' = length out"
      "\<forall>i<length out. out' ! i = (if k + 1 \<le> int i \<and> int i < k + 1 + int n
         then odd_bin rd me samples (j + 2 + 2 * (int i - (k + 1))) else out[nat k := ?v] ! i)"
    using Suc.IH[of "j + 2" "k + 1" "out[nat k := ?v]"] Suc.prems by auto
  have "out' ! i = (if k \<le> int i \<and> int i < k + int (Suc n) then odd_bin rd me samples (j + 2 * (int i - k)) else out ! i)"
    if "i < length out" for i
    using out'(3) that Suc.prems(2) by (cases "int i = k") (auto simp: algebra_simps)
  with out'(1,2) step show ?case by simp
qed auto

lemma gz_all_ok:
  assumes "nat (Points me) \<le> length samples"
  shows "0 \<le> j \<Longrightarrow> j + int n \<le> int (length (coeff me)) \<Longrightarrow> j + int n \<le> int (length out) \<Longrightarrow>
    \<exists>out'. gz_all rd me samples j n out = Some out' \<and> length out' = length out \<and>
      (\<forall>i<length out. out' ! i = (if j \<le> int i \<and> int i < j + int n then all_bin rd me samples (int i) else out ! i))"
proof (induction n arbitrary: j out)
  case (Suc n)
  let ?c = "coeff me ! nat j" and ?v = "all_bin rd me samples j"
  obtain st where st: "gz_run rd samples ?c 0 (nat (Points me)) (fzero, fzero) = Some st"
    using gz_run_block[OF assms] by blast
  have step: "gz_all rd me samples j (Suc n) out = gz_all rd me samples (j + 1) n (out[nat j := ?v])"
    using Suc.prems st by (simp add: all_bin_def Let_def)
  obtain out' where out': "gz_all rd me samples (j + 1) n (out[nat j := ?v]) = Some out'" "length out' = length out"
      "\<forall>i<length out. out' ! i = (if j + 1 \<le> int i \<and> int i < j + 1 + int n
         then all_bin rd me samples (int i) else out[nat j := ?v] ! i)"
    using Suc.IH[of "j + 1" "out[nat j := ?v]"] Suc.prems by auto
  have "out' ! i = (if j \<le> int i \<and> int i < j + int (Suc n) then all_bin rd me samples (int i) else out ! i)"
    if "i < length out" for i
    using out'(3) that Suc.prems(1) by (cases "int i = j") auto
  with out'(1,2) step show ?case by simp
qed auto

text \<open>A failing access makes the whole loop fail.\<close>

lemma gz_odd_past_end:
  "0 \<le> j \<Longrightarrow> 0 \<le> k \<Longrightarrow> 0 < n \<Longrightarrow> int (length (coeff me)) + 1 < j + 2 * int n \<or> int (length out) < k + int n \<Longrightarrow>
    gz_odd rd me samples j k n out = None"
proof (induction n arbitrary: j k out)
  case (Suc n)
  show ?case
  proof (cases "n = 0")
    case True
    then have "rd_at (coeff me) j = None \<or> (\<forall>v. wr_at out k v = None)"
      using Suc.prems by (auto simp: rd_at_def wr_at_def)
    then show ?thesis by (auto simp: Let_def split: bind_splits)
  next
    case False
    then have "gz_odd rd me samples (j + 2) (k + 1) n (out[nat k := v]) = None" for v
      by (intro Suc.IH) (use Suc.prems in auto)
    then show ?thesis by (auto simp: Let_def split: bind_splits dest!: wr_at_SomeD)
  qed
qed simp

section \<open>Properties\<close>

definition exact_cos :: "fp \<Rightarrow> fp" where
  "exact_cos a = FFin (cos (valof a))"

text \<open>The angle per sample of bin \<open>j\<close>: the multiple of the detection frequency rounded to a bin of the block.\<close>

definition bin_angle :: "int \<Rightarrow> real \<Rightarrow> real \<Rightarrow> int \<Rightarrow> real" where
  "bin_angle points fs fdtm j =
     2 * GOERTZEL_PI * of_int \<lfloor>1 / 2 + of_int points * (fdtm * of_int j / fs)\<rfloor> / of_int points"

lemma gz_coeff_exact:
  assumes "0 < Points me" "is_fin (Fdtm me)" "is_fin (Fsample me)" "valof (Fsample me) \<noteq> 0"
  shows "is_fin (gz_coeff exact exact_cos me j)"
    and "valof (gz_coeff exact exact_cos me j) = 2 * cos (bin_angle (Points me) (valof (Fsample me)) (valof (Fdtm me)) j)"
  using assms by (simp_all add: gz_coeff_def Let_def exact_cos_def fp_eval bin_angle_def del: fcvt.simps fadd.simps)

text \<open>What initialisation and \<open>EvaluateCoefficients\<close> leave for the calculations.\<close>

definition bank :: "int \<Rightarrow> fp \<Rightarrow> fp \<Rightarrow> Goertzel \<Rightarrow> bool" where
  "bank points fs fdtm g \<longleftrightarrow> Points g = points \<and> length (coeff g) = nat points \<and>
     (\<forall>j<nat points. is_fin (coeff g ! j) \<and> valof (coeff g ! j) = 2 * cos (bin_angle points (valof fs) (valof fdtm) (int j)))"

lemma init_bank:
  assumes "0 < points" "points < 2 ^ 30" "alloc (nat points) = Some block" "length block = nat points"
    and fin: "is_fin fs" "is_fin fdtm" "valof fs \<noteq> 0"
  shows "\<exists>g1 g2. Goertzel_Init alloc (Some g) points fs fdtm = (Some g1, 0) \<and>
    Goertzel_EvaluateCoefficients exact exact_cos (Some g1) = Some (Some g2, 0) \<and> bank points fs fdtm g2"
proof -
  let ?g1 = "g\<lparr>Points := points, Fsample := fs, Fdtm := fdtm, coeff := block\<rparr>"
  have "gz_floats points = nat points" using assms(1,2) by (simp add: gz_floats_def nat_mult_distrib)
  then have "Goertzel_Init alloc (Some g) points fs fdtm = (Some ?g1, 0)"
    using assms(1,3) by (simp add: Goertzel_Init_def Let_def)
  moreover have "\<exists>g2. gz_coeffs exact exact_cos ?g1 0 (nat points) = Some g2 \<and> length (coeff g2) = nat points \<and>
      Points g2 = points \<and> (\<forall>i<nat points. coeff g2 ! i = gz_coeff exact exact_cos ?g1 (int i))"
    using gz_coeffs_ok[of 0 "nat points" ?g1 exact exact_cos] assms(1,4) by (elim meta_impE exE) (simp_all, force)
  then obtain g2 where "gz_coeffs exact exact_cos ?g1 0 (nat points) = Some g2" "Points g2 = points"
      "length (coeff g2) = nat points" "\<forall>i<nat points. coeff g2 ! i = gz_coeff exact exact_cos ?g1 (int i)" by blast
  ultimately show ?thesis
    using gz_coeff_exact[of ?g1] assms(1) fin by (auto simp: Goertzel_EvaluateCoefficients_def bank_def)
qed

lemma bank_run:
  assumes "bank points fs fdtm g" "0 \<le> j" "j < points" "nat points \<le> length samples" "list_all is_fin samples"
  obtains st where "gz_run exact samples (coeff g ! nat j) 0 (nat (Points g)) (fzero, fzero) = Some st"
    "is_fin (gz_power exact (coeff g ! nat j) st)"
    "valof (gz_power exact (coeff g ! nat j) st) = (cmod (fourier samples (nat points) (bin_angle points (valof fs) (valof fdtm) j)))\<^sup>2"
proof -
  have "is_fin (coeff g ! nat j)" "valof (coeff g ! nat j) = 2 * cos (bin_angle points (valof fs) (valof fdtm) j)"
    using assms(1-3) by (auto simp: bank_def nat_less_iff)
  from gz_bin_exact[OF this assms(5,4)] that show thesis using assms(1) by (auto simp: bank_def)
qed

lemma odd_on_bank:
  assumes "bank points fs fdtm g" "0 < points" "nat points \<le> length samples" "list_all is_fin samples"
    and "2 * int n \<le> points" "n \<le> length output"
  shows "\<exists>out. Goertzel_CalculateOdd exact (Some g) samples output (int n) = Some (out, 0) \<and> length out = length output \<and>
    (\<forall>k<n. valof (out ! k) =
       cmod (fourier samples (nat points) (bin_angle points (valof fs) (valof fdtm) (2 * int k + 1))) / of_int points
         * (1414213562 / 1000000000))"
proof -
  have len: "length (coeff g) = nat points" "Points g = points" using assms(1) by (simp_all add: bank_def)
  obtain out where out: "gz_odd exact g samples 1 0 n output = Some out" "length out = length output"
      "\<forall>i<n. out ! i = odd_bin exact g samples (1 + 2 * int i)"
    using gz_odd_ok[where me = g and samples = samples and j = 1 and k = 0 and n = n and out = "output" and rd = exact]
      assms len by auto
  have "valof (out ! k) = cmod (fourier samples (nat points) (bin_angle points (valof fs) (valof fdtm) (2 * int k + 1)))
      / of_int points * (1414213562 / 1000000000)" if "k < n" for k
  proof -
    have "0 \<le> 1 + 2 * int k" "1 + 2 * int k < points" using that assms(5) by linarith+
    from bank_run[OF assms(1) this assms(3,4)] obtain st where
      "gz_run exact samples (coeff g ! nat (1 + 2 * int k)) 0 (nat (Points g)) (fzero, fzero) = Some st"
      "is_fin (gz_power exact (coeff g ! nat (1 + 2 * int k)) st)"
      "valof (gz_power exact (coeff g ! nat (1 + 2 * int k)) st) =
        (cmod (fourier samples (nat points) (bin_angle points (valof fs) (valof fdtm) (1 + 2 * int k))))\<^sup>2" .
    then show ?thesis
      using that out(3) assms(2) by (simp add: odd_bin_def Let_def fp_eval gz_sqrt2_def len add.commute del: fcvt.simps)
  qed
  then show ?thesis using out(1,2) by (auto simp: Goertzel_CalculateOdd_def)
qed

text \<open>
  C14. The odd harmonics are the Fourier magnitudes. In exact arithmetic, after a successful
  initialisation and the evaluation of the coefficients, \<open>Goertzel_CalculateOdd\<close> stores at index
  \<open>k\<close> the magnitude of the Fourier sum of the block at bin \<open>2 k + 1\<close>, scaled to an RMS value by
  \<open>1.414213562 / Points\<close>: the recurrence is equivalent to the transform it optimises.
\<close>

theorem goertzel_odd_spectrum:
  assumes "0 < points" "points < 2 ^ 30" "alloc (nat points) = Some block" "length block = nat points"
    and "is_fin fs" "is_fin fdtm" "valof fs \<noteq> 0"
    and "nat points \<le> length samples" "list_all is_fin samples"
    and "2 * int n \<le> points" "n \<le> length output"
  shows "\<exists>g1 g2 out. Goertzel_Init alloc (Some g) points fs fdtm = (Some g1, 0) \<and>
    Goertzel_EvaluateCoefficients exact exact_cos (Some g1) = Some (Some g2, 0) \<and>
    Goertzel_CalculateOdd exact (Some g2) samples output (int n) = Some (out, 0) \<and>
    (\<forall>k<n. valof (out ! k) =
       cmod (fourier samples (nat points) (bin_angle points (valof fs) (valof fdtm) (2 * int k + 1))) / of_int points
         * (1414213562 / 1000000000))"
proof -
  obtain g1 g2 where g: "Goertzel_Init alloc (Some g) points fs fdtm = (Some g1, 0)"
      "Goertzel_EvaluateCoefficients exact exact_cos (Some g1) = Some (Some g2, 0)" "bank points fs fdtm g2"
    using init_bank[where alloc = alloc, OF assms(1-7)] by blast
  then show ?thesis using odd_on_bank[OF g(3) assms(1,8,9,10,11)] by blast
qed

theorem goertzel_odd_spectrum_witness:
  "\<exists>g1 g2 out. Goertzel_Init (\<lambda>n. Some [FNaN, FNaN, FNaN, FNaN]) (Some \<lparr>Points = 0, Fdtm = FNaN, Fsample = FNaN, coeff = []\<rparr>)
      4 (FFin 240) (FFin 60) = (Some g1, 0) \<and>
    Goertzel_EvaluateCoefficients exact exact_cos (Some g1) = Some (Some g2, 0) \<and>
    Goertzel_CalculateOdd exact (Some g2) [FFin 1, FFin 2, FFin 3, FFin 4] [FNaN, FNaN] (int 2) = Some (out, 0) \<and>
    (\<forall>k<2. valof (out ! k) =
       cmod (fourier [FFin 1, FFin 2, FFin 3, FFin 4] (nat 4) (bin_angle 4 (valof (FFin 240)) (valof (FFin 60)) (2 * int k + 1)))
         / of_int 4 * (1414213562 / 1000000000))"
  by (rule goertzel_odd_spectrum[where block = "[FNaN, FNaN, FNaN, FNaN]"]) simp_all

text \<open>
  \<open>Goertzel_CalculateAll\<close> stores at index \<open>j < Points / 2\<close> the root of the power spectrum,
  the magnitude of the Fourier sum at bin \<open>j\<close> over the root of the number of points.
\<close>

theorem goertzel_all_spectrum:
  assumes "0 < points" "points < 2 ^ 30" "alloc (nat points) = Some block" "length block = nat points"
    and "is_fin fs" "is_fin fdtm" "valof fs \<noteq> 0"
    and "nat points \<le> length samples" "list_all is_fin samples" and "nat points div 2 \<le> length output"
  shows "\<exists>g1 g2 out. Goertzel_Init alloc (Some g) points fs fdtm = (Some g1, 0) \<and>
    Goertzel_EvaluateCoefficients exact exact_cos (Some g1) = Some (Some g2, 0) \<and>
    Goertzel_CalculateAll exact (Some g2) samples output = Some (out, 0) \<and>
    (\<forall>k<nat points div 2. valof (out ! k) =
       cmod (fourier samples (nat points) (bin_angle points (valof fs) (valof fdtm) (int k))) / sqrt (of_int points))"
proof -
  obtain g1 g2 where g: "Goertzel_Init alloc (Some g) points fs fdtm = (Some g1, 0)"
      "Goertzel_EvaluateCoefficients exact exact_cos (Some g1) = Some (Some g2, 0)" "bank points fs fdtm g2"
    using init_bank[where alloc = alloc, OF assms(1-7)] by blast
  let ?n = "nat points div 2"
  have len: "length (coeff g2) = nat points" "Points g2 = points" using g(3) by (simp_all add: bank_def)
  have "int ?n \<le> points" using assms(1) by linarith
  then obtain out where out: "gz_all exact g2 samples 0 ?n output = Some out"
      "\<forall>i<?n. out ! i = all_bin exact g2 samples (int i)"
    using gz_all_ok[where me = g2 and samples = samples and j = 0 and n = ?n and out = "output" and rd = exact] assms len by auto
  have "valof (out ! k) = cmod (fourier samples (nat points) (bin_angle points (valof fs) (valof fdtm) (int k))) / sqrt (of_int points)"
    if "k < ?n" for k
  proof -
    have "0 \<le> int k" "int k < points" using that by linarith+
    from bank_run[OF g(3) this assms(8,9)] obtain st where
      "gz_run exact samples (coeff g2 ! nat (int k)) 0 (nat (Points g2)) (fzero, fzero) = Some st"
      "is_fin (gz_power exact (coeff g2 ! nat (int k)) st)"
      "valof (gz_power exact (coeff g2 ! nat (int k)) st) =
        (cmod (fourier samples (nat points) (bin_angle points (valof fs) (valof fdtm) (int k))))\<^sup>2" .
    then show ?thesis
      using that out(2) assms(1) by (simp add: all_bin_def Let_def fp_eval len real_sqrt_divide del: fcvt.simps)
  qed
  then show ?thesis using g(1,2) out(1) len by (auto simp: Goertzel_CalculateAll_def)
qed

theorem goertzel_all_spectrum_witness:
  "\<exists>g1 g2 out. Goertzel_Init (\<lambda>n. Some [FNaN, FNaN, FNaN, FNaN]) (Some \<lparr>Points = 0, Fdtm = FNaN, Fsample = FNaN, coeff = []\<rparr>)
      4 (FFin 240) (FFin 60) = (Some g1, 0) \<and>
    Goertzel_EvaluateCoefficients exact exact_cos (Some g1) = Some (Some g2, 0) \<and>
    Goertzel_CalculateAll exact (Some g2) [FFin 1, FFin 2, FFin 3, FFin 4] [FNaN, FNaN] = Some (out, 0) \<and>
    (\<forall>k<nat 4 div 2. valof (out ! k) =
       cmod (fourier [FFin 1, FFin 2, FFin 3, FFin 4] (nat 4) (bin_angle 4 (valof (FFin 240)) (valof (FFin 60)) (int k)))
         / sqrt (of_int 4))"
  by (rule goertzel_all_spectrum[where block = "[FNaN, FNaN, FNaN, FNaN]"]) simp_all

text \<open>
  The bounds of \<open>Goertzel_CalculateOdd\<close>. On a filter with one coefficient per point and a
  whole block of samples, asking for \<open>n > 0\<close> odd bins stays inside the arrays exactly when
  \<open>2 n \<le> Points\<close> and the output has room: the routine itself checks neither.
\<close>

theorem goertzel_odd_bounds:
  assumes "length (coeff g) = nat (Points g)" "0 < Points g" "nat (Points g) \<le> length samples" "0 < n"
  shows "Goertzel_CalculateOdd rd (Some g) samples output n \<noteq> None \<longleftrightarrow> 2 * n \<le> Points g \<and> n \<le> int (length output)"
proof (cases "2 * n \<le> Points g \<and> n \<le> int (length output)")
  case True
  then obtain out where "gz_odd rd g samples 1 0 (nat n) output = Some out"
    using gz_odd_ok[where me = g and samples = samples and j = 1 and k = 0 and n = "nat n" and out = "output" and rd = rd] assms by auto
  then show ?thesis using True by (simp add: Goertzel_CalculateOdd_def)
next
  case False
  then have "gz_odd rd g samples 1 0 (nat n) output = None"
    using assms by (intro gz_odd_past_end) auto
  then show ?thesis using False by (simp add: Goertzel_CalculateOdd_def)
qed

theorem goertzel_odd_bounds_witness:
  "Goertzel_CalculateOdd ieee (Some \<lparr>Points = 2, Fdtm = FFin 1, Fsample = FFin 2, coeff = [FFin 2, FFin 0]\<rparr>)
     [FFin 1, FFin 2] [FNaN, FNaN] 2 \<noteq> None \<longleftrightarrow> 2 * (2::int) \<le> 2 \<and> (2::int) \<le> int (length [FNaN, FNaN])"
  using goertzel_odd_bounds[of "\<lparr>Points = 2, Fdtm = FFin 1, Fsample = FFin 2, coeff = [FFin 2, FFin 0]\<rparr>"
      "[FFin 1, FFin 2]" 2 ieee "[FNaN, FNaN]"] by simp

end
