(* ===== verification/Prussdrv.thy ===== *)
theory Prussdrv
  imports Prelude "HOL-Library.Monad_Syntax"
begin

text \<open>
  The user-space PRU driver (\<open>prussdrv.c\<close>, \<open>__prussdrv.h\<close>, \<open>prussdrv.h\<close>, \<open>pruss_intc_mapping.h\<close>):
  mapping of the PRU subsystem, interrupt controller set-up, program loading and events.

  \<open>tprussdrv\<close> is the driver's global record (without \<open>l3ram_phy_base\<close> and \<open>extram_phy_base\<close>, which
  nothing uses); pointers and physical addresses are 32-bit words, as
  on the target, and \<open>void *\<close> arithmetic is in bytes. The device is seen through its mapped
  registers and memories: \<open>pmem\<close> holds the last word stored at each address (what a
  read-modify-write reads back) and \<open>stores\<close> the sequence of stores, the part the hardware acts on. A store through an
  address that is not mapped, the null pointer included, is recorded like any other; on the target it faults.
  The operating system is the parameter \<open>os_env\<close>; \<open>os_k\<close> counts the calls made to it, so that two calls
  with the same arguments may answer differently.
\<close>

type_synonym s16 = "16 word"

section \<open>Data\<close>

record tpruss_intc_initdata =
  sysevts_enabled :: "u8 list"
  sysevt_to_channel_map :: "(s16 \<times> s16) list"
  channel_to_host_map :: "(s16 \<times> s16) list"
  host_enable_bitmask :: u32

record tprussdrv =
  version :: int
  fd :: "int list"
  pru0_dataram_base :: u32
  pru1_dataram_base :: u32
  intc_base :: u32
  pru0_control_base :: u32
  pru0_debug_base :: u32
  pru1_control_base :: u32
  pru1_debug_base :: u32
  pru0_iram_base :: u32
  pru1_iram_base :: u32
  l3ram_base :: u32
  extram_base :: u32
  mmap_fd :: int
  pruss_sharedram_base :: u32
  pruss_cfg_base :: u32
  pruss_uart_base :: u32
  pruss_iep_base :: u32
  pruss_ecap_base :: u32
  pruss_miirt_base :: u32
  pruss_mdio_base :: u32
  pru0_dataram_phy_base :: u32
  pru1_dataram_phy_base :: u32
  intc_phy_base :: u32
  pru0_control_phy_base :: u32
  pru0_debug_phy_base :: u32
  pru1_control_phy_base :: u32
  pru1_debug_phy_base :: u32
  pru0_iram_phy_base :: u32
  pru1_iram_phy_base :: u32
  pruss_sharedram_phy_base :: u32
  pruss_cfg_phy_base :: u32
  pruss_uart_phy_base :: u32
  pruss_iep_phy_base :: u32
  pruss_ecap_phy_base :: u32
  pruss_miirt_phy_base :: u32
  pruss_mdio_phy_base :: u32
  pruss_phys_base :: u32
  pruss_map_size :: u32
  l3ram_phys_base :: u32
  l3ram_map_size :: u32
  extram_phys_base :: u32
  extram_map_size :: u32
  intc_data :: tpruss_intc_initdata

text \<open>
  What the operating system answers to its k-th call: the descriptor for \<open>/dev/uio<n>\<close> (or -1), the
  number in a sysfs file (\<open>None\<close>: it cannot be opened), the address of a mapping of the given size at
  the given offset of the device, the event count read from a descriptor, and the size and content of a file.
\<close>

record os_env =
  uio_open :: "nat \<Rightarrow> u32 \<Rightarrow> int"
  sysfs :: "nat \<Rightarrow> string \<Rightarrow> u32 option"
  os_mmap :: "nat \<Rightarrow> u32 \<Rightarrow> int \<Rightarrow> u32 \<Rightarrow> u32"
  uio_read :: "nat \<Rightarrow> int \<Rightarrow> u32"
  os_file :: "nat \<Rightarrow> string \<Rightarrow> (nat \<times> u8 list) option"

record pru_sys =
  drv :: tprussdrv
  pmem :: "u32 \<Rightarrow> u32"
  stores :: "(u32 \<times> u32) list"
  unmapped :: "(u32 \<times> u32) list"
  closed :: "int list"
  os_k :: nat

definition NUM_PRU_HOSTIRQS :: nat where "NUM_PRU_HOSTIRQS = 8"
definition NUM_PRU_HOSTS :: nat where "NUM_PRU_HOSTS = 10"
definition NUM_PRU_CHANNELS :: nat where "NUM_PRU_CHANNELS = 10"
definition NUM_PRU_SYS_EVTS :: nat where "NUM_PRU_SYS_EVTS = 64"

definition PRUSS_V1 :: int where "PRUSS_V1 = 1"
definition PRUSS_V2 :: int where "PRUSS_V2 = 2"

section \<open>Device accesses\<close>

definition store :: "u32 \<Rightarrow> u32 \<Rightarrow> pru_sys \<Rightarrow> pru_sys" where
  "store a v s = s\<lparr>pmem := (pmem s)(a := v), stores := stores s @ [(a, v)]\<rparr>"

definition tick :: "pru_sys \<Rightarrow> pru_sys" where
  "tick s = s\<lparr>os_k := os_k s + 1\<rparr>"

lemma store_frame [simp]: "drv (store a v s) = drv s" "os_k (store a v s) = os_k s"
  "stores (store a v s) = stores s @ [(a, v)]" "pmem (store a v s) = (pmem s)(a := v)"
  "unmapped (store a v s) = unmapped s" "closed (store a v s) = closed s"
  by (simp_all add: store_def)

lemma tick_frame [simp]: "drv (tick s) = drv s" "pmem (tick s) = pmem s" "stores (tick s) = stores s"
  "unmapped (tick s) = unmapped s" "closed (tick s) = closed s" "os_k (tick s) = Suc (os_k s)"
  by (simp_all add: tick_def)

section \<open>Opening and mapping\<close>

definition intc_zero :: tpruss_intc_initdata where
  "intc_zero = \<lparr>sysevts_enabled = replicate NUM_PRU_SYS_EVTS 0,
     sysevt_to_channel_map = replicate NUM_PRU_SYS_EVTS (0, 0),
     channel_to_host_map = replicate NUM_PRU_CHANNELS (0, 0), host_enable_bitmask = 0\<rparr>"

definition prussdrv_zero :: tprussdrv where
  "prussdrv_zero = \<lparr>version = 0, fd = replicate NUM_PRU_HOSTIRQS 0,
     pru0_dataram_base = 0, pru1_dataram_base = 0, intc_base = 0, pru0_control_base = 0,
     pru0_debug_base = 0, pru1_control_base = 0, pru1_debug_base = 0, pru0_iram_base = 0,
     pru1_iram_base = 0, l3ram_base = 0, extram_base = 0, mmap_fd = 0, pruss_sharedram_base = 0,
     pruss_cfg_base = 0, pruss_uart_base = 0, pruss_iep_base = 0, pruss_ecap_base = 0,
     pruss_miirt_base = 0, pruss_mdio_base = 0, pru0_dataram_phy_base = 0, pru1_dataram_phy_base = 0,
     intc_phy_base = 0, pru0_control_phy_base = 0, pru0_debug_phy_base = 0, pru1_control_phy_base = 0,
     pru1_debug_phy_base = 0, pru0_iram_phy_base = 0, pru1_iram_phy_base = 0,
     pruss_sharedram_phy_base = 0, pruss_cfg_phy_base = 0, pruss_uart_phy_base = 0,
     pruss_iep_phy_base = 0, pruss_ecap_phy_base = 0, pruss_miirt_phy_base = 0, pruss_mdio_phy_base = 0,
     pruss_phys_base = 0, pruss_map_size = 0, l3ram_phys_base = 0, l3ram_map_size = 0,
     extram_phys_base = 0, extram_map_size = 0, intc_data = intc_zero\<rparr>"

definition prussdrv_init :: "pru_sys \<Rightarrow> pru_sys \<times> int" where
  "prussdrv_init s = (s\<lparr>drv := prussdrv_zero\<rparr>, 0)"

definition detect_hw_version :: "(u32 \<Rightarrow> u32) \<Rightarrow> u32 \<Rightarrow> int" where
  "detect_hw_version m base =
     (if m (base + (0x01C34000 - 0x01C30000)) = 0x4E825900 then PRUSS_V1
      else if m (base + (0x4a320000 - 0x4a300000)) = 0x4E82A900 then PRUSS_V2
      else -1)"

text \<open>The physical bases of the two families; an unknown version leaves them alone.\<close>

definition set_phys_bases :: "tprussdrv \<Rightarrow> tprussdrv" where
  "set_phys_bases d =
     (if version d = PRUSS_V1 then
        d\<lparr>pru0_dataram_phy_base := 0x01C30000, pru1_dataram_phy_base := 0x01C32000,
          intc_phy_base := 0x01C34000, pru0_control_phy_base := 0x01C37000,
          pru0_debug_phy_base := 0x01C37400, pru1_control_phy_base := 0x01C37800,
          pru1_debug_phy_base := 0x01C37C00, pru0_iram_phy_base := 0x01C38000,
          pru1_iram_phy_base := 0x01C3C000\<rparr>
      else if version d = PRUSS_V2 then
        d\<lparr>pru0_dataram_phy_base := 0x4a300000, pru1_dataram_phy_base := 0x4a302000,
          intc_phy_base := 0x4a320000, pru0_control_phy_base := 0x4a322000,
          pru0_debug_phy_base := 0x4a322400, pru1_control_phy_base := 0x4a324000,
          pru1_debug_phy_base := 0x4a324400, pru0_iram_phy_base := 0x4a334000,
          pru1_iram_phy_base := 0x4a338000, pruss_sharedram_phy_base := 0x4a310000,
          pruss_cfg_phy_base := 0x4a326000, pruss_uart_phy_base := 0x4a328000,
          pruss_iep_phy_base := 0x4a32e000, pruss_ecap_phy_base := 0x4a330000,
          pruss_miirt_phy_base := 0x4a332000, pruss_mdio_phy_base := 0x4a332400\<rparr>
      else d)"

definition set_virt_bases :: "tprussdrv \<Rightarrow> tprussdrv" where
  "set_virt_bases d =
     (let b = pru0_dataram_base d; p = pru0_dataram_phy_base d;
          d = d\<lparr>pru1_dataram_base := b + pru1_dataram_phy_base d - p,
                intc_base := b + intc_phy_base d - p,
                pru0_control_base := b + pru0_control_phy_base d - p,
                pru0_debug_base := b + pru0_debug_phy_base d - p,
                pru1_control_base := b + pru1_control_phy_base d - p,
                pru1_debug_base := b + pru1_debug_phy_base d - p,
                pru0_iram_base := b + pru0_iram_phy_base d - p,
                pru1_iram_base := b + pru1_iram_phy_base d - p\<rparr>
      in if version d = PRUSS_V2 then
           d\<lparr>pruss_sharedram_base := b + pruss_sharedram_phy_base d - p,
             pruss_cfg_base := b + pruss_cfg_phy_base d - p,
             pruss_uart_base := b + pruss_uart_phy_base d - p,
             pruss_iep_base := b + pruss_iep_phy_base d - p,
             pruss_ecap_base := b + pruss_ecap_phy_base d - p,
             pruss_miirt_base := b + pruss_miirt_phy_base d - p,
             pruss_mdio_base := b + pruss_mdio_phy_base d - p\<rparr>
         else d)"

definition MAP_FAILED :: u32 where "MAP_FAILED = -1"

text \<open>
  \<open>__prussdrv_memmap_init\<close>. The code does not look at the result of \<open>mmap\<close> before it reads the
  interrupt controller's revision through it: a failed mapping of the subsystem is undefined behaviour.
  The L3 RAM parts are compiled out (\<open>DISABLE_L3RAM_SUPPORT\<close>).
\<close>

definition memmap_init :: "os_env \<Rightarrow> pru_sys \<Rightarrow> (pru_sys \<times> int) option" where
  "memmap_init os s =
     (case (if mmap_fd (drv s) = 0 then find (\<lambda>f. f \<noteq> 0) (fd (drv s)) else Some (mmap_fd (drv s))) of
        None \<Rightarrow> Some (s, -1)
      | Some mfd \<Rightarrow>
     (let s = s\<lparr>drv := (drv s)\<lparr>mmap_fd := mfd\<rparr>\<rparr> in
      case sysfs os (os_k s) ''/sys/class/uio/uio0/maps/map0/addr'' of
        None \<Rightarrow> Some (tick s, -1)
      | Some a \<Rightarrow>
     (let s = tick (s\<lparr>drv := (drv s)\<lparr>pruss_phys_base := a\<rparr>\<rparr>) in
      case sysfs os (os_k s) ''/sys/class/uio/uio0/maps/map0/size'' of
        None \<Rightarrow> Some (tick s, -1)
      | Some sz \<Rightarrow>
     (let s = tick (s\<lparr>drv := (drv s)\<lparr>pruss_map_size := sz\<rparr>\<rparr>);
          base = os_mmap os (os_k s) sz mfd 0
      in if base = MAP_FAILED then None else
     (let d = (drv s)\<lparr>pru0_dataram_base := base\<rparr>;
          d = d\<lparr>version := detect_hw_version (pmem s) base\<rparr>;
          s = tick (s\<lparr>drv := set_virt_bases (set_phys_bases d)\<rparr>)
      in case sysfs os (os_k s) ''/sys/class/uio/uio0/maps/map1/addr'' of
        None \<Rightarrow> Some (tick s, -1)
      | Some ea \<Rightarrow>
     (let s = tick (s\<lparr>drv := (drv s)\<lparr>extram_phys_base := ea\<rparr>\<rparr>) in
      case sysfs os (os_k s) ''/sys/class/uio/uio0/maps/map1/size'' of
        None \<Rightarrow> Some (tick s, -1)
      | Some es \<Rightarrow>
     (let s = tick (s\<lparr>drv := (drv s)\<lparr>extram_map_size := es\<rparr>\<rparr>);
          eb = os_mmap os (os_k s) es mfd 4096
      in Some (tick (s\<lparr>drv := (drv s)\<lparr>extram_base := eb\<rparr>\<rparr>), 0))))))))"

definition prussdrv_open :: "os_env \<Rightarrow> u32 \<Rightarrow> pru_sys \<Rightarrow> (pru_sys \<times> int) option" where
  "prussdrv_open os host_interrupt s =
     do { f \<leftarrow> rd_at (fd (drv s)) (uint host_interrupt);
          if f = 0 then
            (let f' = uio_open os (os_k s) host_interrupt;
                 s = tick (s\<lparr>drv := (drv s)\<lparr>fd := (fd (drv s))[unat host_interrupt := f']\<rparr>\<rparr>)
             in if f' = -1 then Some (s, -1) else memmap_init os s)
          else Some (s, -1) }"

definition prussdrv_version :: "pru_sys \<Rightarrow> int" where
  "prussdrv_version s = version (drv s)"

definition prussdrv_strversion :: "int \<Rightarrow> string" where
  "prussdrv_strversion v =
     (if v = PRUSS_V1 then ''AM18XX'' else if v = PRUSS_V2 then ''AM33XX'' else ''UNKNOWN'')"

definition prussdrv_exit :: "pru_sys \<Rightarrow> pru_sys \<times> int" where
  "prussdrv_exit s =
     (let d = drv s in
      (s\<lparr>unmapped := unmapped s @ [(pru0_dataram_base d, pruss_map_size d), (l3ram_base d, l3ram_map_size d),
           (extram_base d, extram_map_size d)],
         closed := closed s @ filter (\<lambda>f. f \<noteq> 0) (fd d)\<rparr>, 0))"

section \<open>PRU control and memories\<close>

definition control_base :: "pru_sys \<Rightarrow> u32 \<Rightarrow> u32 option" where
  "control_base s prunum =
     (if prunum = 0 then Some (pru0_control_base (drv s))
      else if prunum = 1 then Some (pru1_control_base (drv s)) else None)"

definition prussdrv_pru_reset :: "u32 \<Rightarrow> pru_sys \<Rightarrow> pru_sys \<times> int" where
  "prussdrv_pru_reset prunum s =
     (case control_base s prunum of None \<Rightarrow> (s, -1) | Some a \<Rightarrow> (store a 0 s, 0))"

definition prussdrv_pru_enable_at :: "u32 \<Rightarrow> u32 \<Rightarrow> pru_sys \<Rightarrow> pru_sys \<times> int" where
  "prussdrv_pru_enable_at prunum addr s =
     (case control_base s prunum of
        None \<Rightarrow> (s, -1)
      | Some a \<Rightarrow> (store a (push_bit 16 (addr div 4) OR 2) s, 0))"

definition prussdrv_pru_enable :: "u32 \<Rightarrow> pru_sys \<Rightarrow> pru_sys \<times> int" where
  "prussdrv_pru_enable prunum s = prussdrv_pru_enable_at prunum 0 s"

definition prussdrv_pru_disable :: "u32 \<Rightarrow> pru_sys \<Rightarrow> pru_sys \<times> int" where
  "prussdrv_pru_disable prunum s =
     (case control_base s prunum of None \<Rightarrow> (s, -1) | Some a \<Rightarrow> (store a 1 s, 0))"

text \<open>The memory a RAM id names: \<open>None\<close> for an id the driver rejects.\<close>

definition ram_base :: "tprussdrv \<Rightarrow> u32 \<Rightarrow> u32 option" where
  "ram_base d pru_ram_id =
     (if pru_ram_id = 2 then Some (pru0_iram_base d)
      else if pru_ram_id = 3 then Some (pru1_iram_base d)
      else if pru_ram_id = 0 then Some (pru0_dataram_base d)
      else if pru_ram_id = 1 then Some (pru1_dataram_base d)
      else if pru_ram_id = 4 then (if version d \<noteq> PRUSS_V2 then None else Some (pruss_sharedram_base d))
      else None)"

fun copy_words :: "u32 \<Rightarrow> u32 list \<Rightarrow> int \<Rightarrow> nat \<Rightarrow> pru_sys \<Rightarrow> pru_sys option" where
  "copy_words base memarea i 0 s = Some s"
| "copy_words base memarea i (Suc n) s =
     do { w \<leftarrow> rd_at memarea i;
          copy_words base memarea (i + 1) n (store (base + 4 * of_int i) w s) }"

definition prussdrv_pru_write_memory ::
  "u32 \<Rightarrow> u32 \<Rightarrow> u32 list \<Rightarrow> u32 \<Rightarrow> pru_sys \<Rightarrow> (pru_sys \<times> int) option" where
  "prussdrv_pru_write_memory pru_ram_id wordoffset memarea bytelength s =
     (case ram_base (drv s) pru_ram_id of
        None \<Rightarrow> Some (s, -1)
      | Some area \<Rightarrow>
          let wordlength = drop_bit 2 (bytelength + 3)
          in do { s' \<leftarrow> copy_words (area + 4 * wordoffset) memarea 0 (unat wordlength) s;
                  Some (s', sint wordlength) })"

section \<open>The interrupt controller\<close>

text \<open>\<open>pruintc_io[reg >> 2]\<close>, with \<open>reg\<close> a byte offset.\<close>

definition intc_store :: "u32 \<Rightarrow> u32 \<Rightarrow> pru_sys \<Rightarrow> pru_sys" where
  "intc_store reg v s = store (intc_base (drv s) + 4 * drop_bit 2 reg) v s"

definition intc_load :: "u32 \<Rightarrow> pru_sys \<Rightarrow> u32" where
  "intc_load reg s = pmem s (intc_base (drv s) + 4 * drop_bit 2 reg)"

fun clear_regs :: "u32 \<Rightarrow> nat \<Rightarrow> pru_sys \<Rightarrow> pru_sys" where
  "clear_regs reg 0 s = s"
| "clear_regs reg (Suc n) s = clear_regs (reg + 4) n (intc_store reg 0 s)"

definition set_cmr :: "s16 \<Rightarrow> s16 \<Rightarrow> pru_sys \<Rightarrow> pru_sys" where
  "set_cmr sysevt channel s =
     (let reg = 0x400 + (ucast sysevt AND NOT 3)
      in intc_store reg (intc_load reg s OR
           push_bit (unat (push_bit 3 (ucast sysevt AND 3 :: u32))) (ucast channel AND 0xF)) s)"

definition set_hmr :: "s16 \<Rightarrow> s16 \<Rightarrow> pru_sys \<Rightarrow> pru_sys" where
  "set_hmr channel host s =
     (let reg = 0x800 + (ucast channel AND NOT 3)
      in intc_store reg (intc_load reg s OR
           push_bit (unat (push_bit 3 (ucast channel AND 3 :: u32))) (ucast host AND 0xF)) s)"

text \<open>
  The three loops over the tables run to an end marker they do not bound; running off the table is
  undefined. \<open>char\<close> is unsigned on ARM, so the marker of \<open>sysevts_enabled\<close> is 255.
\<close>

fun map_channels :: "(s16 \<times> s16) list \<Rightarrow> pru_sys \<Rightarrow> pru_sys option" where
  "map_channels [] s = None"
| "map_channels ((e, c) # m) s =
     (if e \<noteq> -1 \<and> c \<noteq> -1 then map_channels m (set_cmr e c s) else Some s)"

fun map_hosts :: "(s16 \<times> s16) list \<Rightarrow> pru_sys \<Rightarrow> pru_sys option" where
  "map_hosts [] s = None"
| "map_hosts ((c, h) # m) s =
     (if c \<noteq> -1 \<and> h \<noteq> -1 then map_hosts m (set_hmr c h s) else Some s)"

text \<open>The masks of enabled events; \<open>Some None\<close> is the error return for an event out of range.\<close>

fun event_masks :: "u8 list \<Rightarrow> u32 \<Rightarrow> u32 \<Rightarrow> (u32 \<times> u32) option option" where
  "event_masks [] m1 m2 = None"
| "event_masks (e # es) m1 m2 =
     (if e = 255 then Some (Some (m1, m2))
      else if e < 32 then event_masks es (m1 + push_bit (unat e) 1) m2
      else if e < 64 then event_masks es m1 (m2 + push_bit (unat (e - 32)) 1)
      else Some None)"

fun enable_hosts :: "u32 \<Rightarrow> nat \<Rightarrow> nat \<Rightarrow> pru_sys \<Rightarrow> pru_sys" where
  "enable_hosts hmask i 0 s = s"
| "enable_hosts hmask i (Suc n) s =
     enable_hosts hmask (i + 1) n (if hmask AND push_bit i 1 \<noteq> 0 then intc_store 0x034 (of_nat i) s else s)"

definition prussdrv_pruintc_init :: "tpruss_intc_initdata \<Rightarrow> pru_sys \<Rightarrow> (pru_sys \<times> int) option" where
  "prussdrv_pruintc_init d s =
     do { let s = intc_store 0xD00 0xFFFFFFFF s;
          let s = intc_store 0xD04 0xFFFFFFFF s;
          let s = clear_regs 0x400 ((NUM_PRU_SYS_EVTS + 3) div 4) s;
          s \<leftarrow> map_channels (sysevt_to_channel_map d) s;
          let s = clear_regs 0x800 ((NUM_PRU_HOSTS + 3) div 4) s;
          s \<leftarrow> map_hosts (channel_to_host_map d) s;
          let s = intc_store 0xD80 0 s;
          let s = intc_store 0xD84 0 s;
          masks \<leftarrow> event_masks (sysevts_enabled d) 0 0;
          (case masks of
             None \<Rightarrow> Some (s, -1)
           | Some (mask1, mask2) \<Rightarrow>
              (let s = intc_store 0x300 mask1 s;
                   s = intc_store 0x280 mask1 s;
                   s = intc_store 0x304 mask2 s;
                   s = intc_store 0x284 mask2 s;
                   s = enable_hosts (host_enable_bitmask d) 0 10 s;
                   s = intc_store 0x010 1 s
               in Some (s\<lparr>drv := (drv s)\<lparr>intc_data := d\<rparr>\<rparr>, 0))) }"

text \<open>
  The lookups in the stashed tables: bounded, up to the end marker, a \<open>short\<close> against an
  \<open>unsigned int\<close> after sign extension.
\<close>

fun find_map :: "nat \<Rightarrow> (s16 \<times> s16) list \<Rightarrow> u32 \<Rightarrow> s16 option" where
  "find_map 0 m k = None"
| "find_map (Suc n) [] k = None"
| "find_map (Suc n) ((a, b) # m) k =
     (if a \<noteq> -1 \<and> b \<noteq> -1 then if k = scast a then Some b else find_map n m k else None)"

definition prussdrv_get_event_to_channel_map :: "u32 \<Rightarrow> pru_sys \<Rightarrow> s16" where
  "prussdrv_get_event_to_channel_map eventnum s =
     (case find_map NUM_PRU_SYS_EVTS (sysevt_to_channel_map (intc_data (drv s))) eventnum of
        Some c \<Rightarrow> c | None \<Rightarrow> -1)"

definition prussdrv_get_channel_to_host_map :: "u32 \<Rightarrow> pru_sys \<Rightarrow> s16" where
  "prussdrv_get_channel_to_host_map channel s =
     (case find_map NUM_PRU_CHANNELS (channel_to_host_map (intc_data (drv s))) channel of
        Some h \<Rightarrow> h - 2 | None \<Rightarrow> -1)"

definition prussdrv_get_event_to_host_map :: "u32 \<Rightarrow> pru_sys \<Rightarrow> s16" where
  "prussdrv_get_event_to_host_map eventnum s =
     (let ans = prussdrv_get_event_to_channel_map eventnum s
      in if sint ans < 0 then ans else prussdrv_get_channel_to_host_map (scast ans) s)"

section \<open>Events\<close>

text \<open>A shift by 32 or more is undefined; only event numbers below 64 are in range.\<close>

definition prussdrv_pru_send_event :: "u32 \<Rightarrow> pru_sys \<Rightarrow> (pru_sys \<times> int) option" where
  "prussdrv_pru_send_event eventnum s =
     (if eventnum < 32 then Some (intc_store 0x200 (push_bit (unat eventnum) 1) s, 0)
      else if eventnum - 32 < 32 then Some (intc_store 0x204 (push_bit (unat (eventnum - 32)) 1) s, 0)
      else None)"

definition prussdrv_pru_wait_event :: "os_env \<Rightarrow> u32 \<Rightarrow> pru_sys \<Rightarrow> (pru_sys \<times> u32) option" where
  "prussdrv_pru_wait_event os host_interrupt s =
     do { f \<leftarrow> rd_at (fd (drv s)) (uint host_interrupt);
          Some (tick s, uio_read os (os_k s) f) }"

definition prussdrv_pru_event_fd :: "u32 \<Rightarrow> pru_sys \<Rightarrow> int option" where
  "prussdrv_pru_event_fd host_interrupt s =
     (if unat host_interrupt < NUM_PRU_HOSTIRQS then rd_at (fd (drv s)) (uint host_interrupt) else Some (-1))"

definition prussdrv_pru_clear_event :: "u32 \<Rightarrow> u32 \<Rightarrow> pru_sys \<Rightarrow> (pru_sys \<times> int) option" where
  "prussdrv_pru_clear_event host_interrupt sysevent s =
     do { s \<leftarrow> (if sysevent < 32 then Some (intc_store 0x280 (push_bit (unat sysevent) 1) s)
               else if sysevent - 32 < 32 then Some (intc_store 0x284 (push_bit (unat (sysevent - 32)) 1) s)
               else None);
          Some (intc_store 0x034 (host_interrupt + 2) s, 0) }"

definition prussdrv_pru_send_wait_clear_event ::
  "os_env \<Rightarrow> u32 \<Rightarrow> u32 \<Rightarrow> u32 \<Rightarrow> pru_sys \<Rightarrow> (pru_sys \<times> int) option" where
  "prussdrv_pru_send_wait_clear_event os send_eventnum host_interrupt ack_eventnum s =
     do { (s, r) \<leftarrow> prussdrv_pru_send_event send_eventnum s;
          (s, n) \<leftarrow> prussdrv_pru_wait_event os host_interrupt s;
          (s, r) \<leftarrow> prussdrv_pru_clear_event host_interrupt ack_eventnum s;
          Some (s, 0) }"

section \<open>Memory maps and addresses\<close>

definition prussdrv_map_l3mem :: "pru_sys \<Rightarrow> u32 \<times> int" where
  "prussdrv_map_l3mem s = (l3ram_base (drv s), 0)"

definition prussdrv_map_extmem :: "pru_sys \<Rightarrow> u32 \<times> int" where
  "prussdrv_map_extmem s = (extram_base (drv s), 0)"

definition prussdrv_extmem_size :: "pru_sys \<Rightarrow> u32" where
  "prussdrv_extmem_size s = extram_map_size (drv s)"

text \<open>\<open>*address\<close> is passed in and returned, since some error returns leave it alone.\<close>

definition prussdrv_map_prumem :: "u32 \<Rightarrow> u32 \<Rightarrow> pru_sys \<Rightarrow> u32 \<times> int" where
  "prussdrv_map_prumem pru_ram_id address s =
     (let d = drv s in
      if pru_ram_id = 0 then (pru0_dataram_base d, 0)
      else if pru_ram_id = 1 then (pru1_dataram_base d, 0)
      else if pru_ram_id = 4 then
        (if version d \<noteq> PRUSS_V2 then (address, -1) else (pruss_sharedram_base d, 0))
      else (0, -1))"

definition prussdrv_map_peripheral_io :: "u32 \<Rightarrow> u32 \<Rightarrow> pru_sys \<Rightarrow> u32 \<times> int" where
  "prussdrv_map_peripheral_io per_id address s =
     (let d = drv s in
      if version d \<noteq> PRUSS_V2 then (address, -1)
      else if per_id = 5 then (pruss_cfg_base d, 0)
      else if per_id = 6 then (pruss_uart_base d, 0)
      else if per_id = 7 then (pruss_iep_base d, 0)
      else if per_id = 8 then (pruss_ecap_base d, 0)
      else if per_id = 9 then (pruss_miirt_base d, 0)
      else if per_id = 10 then (pruss_mdio_base d, 0)
      else (0, -1))"

definition prussdrv_get_phys_addr :: "u32 \<Rightarrow> pru_sys \<Rightarrow> u32" where
  "prussdrv_get_phys_addr address s =
     (let d = drv s in
      if pru0_dataram_base d \<le> address \<and> address < pru0_dataram_base d + pruss_map_size d then
        address - pru0_dataram_base d + pru0_dataram_phy_base d
      else if l3ram_base d \<le> address \<and> address < l3ram_base d + l3ram_map_size d then
        address - l3ram_base d + l3ram_phys_base d
      else if extram_base d \<le> address \<and> address < extram_base d + extram_map_size d then
        address - extram_base d + extram_phys_base d
      else 0)"

definition prussdrv_get_virt_addr :: "u32 \<Rightarrow> pru_sys \<Rightarrow> u32" where
  "prussdrv_get_virt_addr phyaddr s =
     (let d = drv s in
      if pru0_dataram_phy_base d \<le> phyaddr \<and> phyaddr < pru0_dataram_phy_base d + pruss_map_size d then
        pru0_dataram_base d + (phyaddr - pru0_dataram_phy_base d)
      else if l3ram_phys_base d \<le> phyaddr \<and> phyaddr < l3ram_phys_base d + l3ram_map_size d then
        l3ram_base d + (phyaddr - l3ram_phys_base d)
      else if extram_phys_base d \<le> phyaddr \<and> phyaddr < extram_phys_base d + extram_map_size d then
        extram_base d + (phyaddr - extram_phys_base d)
      else 0)"

section \<open>Loading programs and data\<close>

definition prussdrv_exec_code_at :: "u32 \<Rightarrow> u32 list \<Rightarrow> u32 \<Rightarrow> u32 \<Rightarrow> pru_sys \<Rightarrow> (pru_sys \<times> int) option" where
  "prussdrv_exec_code_at prunum code codelen addr s =
     (if prunum \<noteq> 0 \<and> prunum \<noteq> 1 then Some (s, -1)
      else do { let pru_ram_id = (if prunum = 0 then 2 else 3);
                let s = fst (prussdrv_pru_disable prunum s);
                (s, n) \<leftarrow> prussdrv_pru_write_memory pru_ram_id 0 code codelen s;
                let s = fst (prussdrv_pru_enable_at prunum addr s);
                Some (s, 0) })"

definition prussdrv_exec_code :: "u32 \<Rightarrow> u32 list \<Rightarrow> u32 \<Rightarrow> pru_sys \<Rightarrow> (pru_sys \<times> int) option" where
  "prussdrv_exec_code prunum code codelen s = prussdrv_exec_code_at prunum code codelen 0 s"

definition prussdrv_load_data :: "u32 \<Rightarrow> u32 list \<Rightarrow> u32 \<Rightarrow> pru_sys \<Rightarrow> (pru_sys \<times> int) option" where
  "prussdrv_load_data prunum code codelen s =
     (if prunum \<noteq> 0 \<and> prunum \<noteq> 1 then Some (s, -1)
      else do { let pru_ram_id = (if prunum = 0 then 0 else 1);
                let s = fst (prussdrv_pru_disable prunum s);
                (s, n) \<leftarrow> prussdrv_pru_write_memory pru_ram_id 0 code codelen s;
                Some (s, 0) })"

definition PRUSS_MAX_IRAM_SIZE :: nat where "PRUSS_MAX_IRAM_SIZE = 8192"

text \<open>The stack buffer as words, little endian: the bytes read, then whatever it held.\<close>

fun le_words :: "u8 list \<Rightarrow> u32 list" where
  "le_words (a # b # c # d # bs) =
     (ucast a OR push_bit 8 (ucast b) OR push_bit 16 (ucast c) OR push_bit 24 (ucast d)) # le_words bs"
| "le_words _ = []"

definition fill_buffer :: "u8 list \<Rightarrow> u8 list \<Rightarrow> u8 list" where
  "fill_buffer buf bytes = bytes @ drop (length bytes) buf"

text \<open>
  \<open>buf\<close> is the uninitialised \<open>fileDataArray\<close>. A file is its size as \<open>ftell\<close> reports it and what \<open>fread\<close> then
  delivers, at most that size.
\<close>

definition prussdrv_exec_program_at ::
  "os_env \<Rightarrow> u8 list \<Rightarrow> u32 \<Rightarrow> string \<Rightarrow> u32 \<Rightarrow> pru_sys \<Rightarrow> (pru_sys \<times> int) option" where
  "prussdrv_exec_program_at os buf prunum filename addr s =
     (case os_file os (os_k s) filename of
        None \<Rightarrow> Some (tick s, -1)
      | Some (fileSize, bytes) \<Rightarrow>
          (let s = tick s; got = take fileSize bytes in
           if fileSize = 0 then Some (s, -1)
           else if PRUSS_MAX_IRAM_SIZE < fileSize then Some (s, -1)
           else if length buf < length got then None
           else if fileSize \<noteq> length got then Some (s, -1)
           else prussdrv_exec_code_at prunum (le_words (fill_buffer buf got)) (of_nat fileSize) addr s))"

definition prussdrv_exec_program ::
  "os_env \<Rightarrow> u8 list \<Rightarrow> u32 \<Rightarrow> string \<Rightarrow> pru_sys \<Rightarrow> (pru_sys \<times> int) option" where
  "prussdrv_exec_program os buf prunum filename s = prussdrv_exec_program_at os buf prunum filename 0 s"

definition prussdrv_load_datafile ::
  "os_env \<Rightarrow> u8 list \<Rightarrow> u32 \<Rightarrow> string \<Rightarrow> pru_sys \<Rightarrow> (pru_sys \<times> int) option" where
  "prussdrv_load_datafile os buf prunum filename s =
     (case os_file os (os_k s) filename of
        None \<Rightarrow> Some (tick s, -1)
      | Some (fileSize, bytes) \<Rightarrow>
          (let s = tick s; got = take fileSize bytes in
           if fileSize = 0 then Some (s, -1)
           else if length buf < length got then None
           else if fileSize \<noteq> length got then Some (s, -1)
           else prussdrv_load_data prunum (le_words (fill_buffer buf got)) (of_nat fileSize) s))"

end
