(* ===== verification/Prussdrv_Props.thy ===== *)
theory Prussdrv_Props
  imports Prussdrv
begin

text \<open>
  What the PRU driver promises: the interrupt controller ends up as the caller's tables say, by stores in a
  fixed order, the lookups answer from the same tables, the memory regions it hands out lie in the mapping and translate to the
  physical addresses of the device, programs are loaded between a disable and an enable.
\<close>

section \<open>The interrupt controller's registers\<close>

text \<open>The register at a byte offset of the controller.\<close>

definition ireg :: "pru_sys \<Rightarrow> u32 \<Rightarrow> u32" where
  "ireg s off = pmem s (intc_base (drv s) + off)"

lemma intc_store_frame [simp]: "drv (intc_store reg v s) = drv s" "os_k (intc_store reg v s) = os_k s"
  by (simp_all add: intc_store_def)

lemma ireg_store: "ireg (intc_store reg v s) off = (if off = 4 * drop_bit 2 reg then v else ireg s off)"
  by (simp add: ireg_def intc_store_def)

lemma ireg_load: "intc_load reg s = ireg s (4 * drop_bit 2 reg)"
  by (simp add: ireg_def intc_load_def)

text \<open>One byte-wide field of a table of four fields per register.\<close>

definition field :: "u32 \<Rightarrow> nat \<Rightarrow> pru_sys \<Rightarrow> u32" where
  "field reg e s = drop_bit (8 * (e mod 4)) (ireg s (reg + 4 * of_nat (e div 4))) AND 0xFF"

lemma or_field:
  fixes w v :: u32
  assumes "j < 4" "k < 4"
  shows "drop_bit (8 * k) (w OR push_bit (8 * j) (v AND 0xF)) AND 0xFF =
    (if k = j then (drop_bit (8 * k) w AND 0xFF) OR (v AND 0xF) else drop_bit (8 * k) w AND 0xFF)"
proof -
  have m: "(0xF :: u32) = mask 4" "(0xFF :: u32) = mask 8" by (simp_all add: mask_eq_exp_minus_1)
  have "bit (drop_bit (8 * k) (w OR push_bit (8 * j) (v AND 0xF)) AND 0xFF) n =
      bit (if k = j then (drop_bit (8 * k) w AND 0xFF) OR (v AND 0xF) else drop_bit (8 * k) w AND 0xFF) n"
    if "n < 32" for n
    using that assms unfolding m by (auto simp: bit_simps)
  then show ?thesis by (intro bit_word_eqI) simp
qed

lemma table_address_all:
  "\<forall>e\<in>set [0..<64]. \<forall>reg\<in>set [0x400, 0x800 :: u32].
     4 * drop_bit 2 (reg + (ucast (of_nat e :: s16) AND NOT 3)) = reg + 4 * of_nat (e div 4) \<and>
     unat (push_bit 3 (ucast (of_nat e :: s16) AND 3 :: u32)) = 8 * (e mod 4)"
  by code_simp

lemma table_address:
  assumes "e < 64" "reg = 0x400 \<or> reg = (0x800 :: u32)"
  shows "4 * drop_bit 2 (reg + (ucast (of_nat e :: s16) AND NOT 3)) = reg + 4 * of_nat (e div 4)"
    and "unat (push_bit 3 (ucast (of_nat e :: s16) AND 3 :: u32)) = 8 * (e mod 4)"
  using bspec[OF table_address_all, of e] assms by auto

lemma word_index_all: "\<forall>i\<in>set [0..<16]. \<forall>j\<in>set [0..<16]. (4 * of_nat i = (4 * of_nat j :: u32)) = (i = j)"
  by code_simp

lemma word_index: "i < 16 \<Longrightarrow> j < 16 \<Longrightarrow> (4 * of_nat i = (4 * of_nat j :: u32)) = (i = j)"
  using word_index_all by auto

definition set_field :: "u32 \<Rightarrow> s16 \<Rightarrow> s16 \<Rightarrow> pru_sys \<Rightarrow> pru_sys" where
  "set_field table k v s =
     (let reg = table + (ucast k AND NOT 3)
      in intc_store reg (intc_load reg s OR push_bit (unat (push_bit 3 (ucast k AND 3 :: u32))) (ucast v AND 0xF)) s)"

lemma set_cmr_field: "set_cmr = set_field 0x400" and set_hmr_field: "set_hmr = set_field 0x800"
  by (simp_all add: set_cmr_def set_hmr_def set_field_def fun_eq_iff)

lemma field_set:
  assumes "e < 64" "e' < 64" "table = 0x400 \<or> table = (0x800 :: u32)"
  shows "field table e' (set_field table (of_nat e) v s) =
    (if e' = e then field table e s OR (ucast v AND 0xF) else field table e' s)"
proof -
  have a: "4 * drop_bit 2 (table + (ucast (of_nat e :: s16) AND NOT 3)) = table + 4 * of_nat (e div 4)"
    and b: "unat (push_bit 3 (ucast (of_nat e :: s16) AND 3 :: u32)) = 8 * (e mod 4)"
    using table_address[OF assms(1,3)] by blast+
  have r: "ireg (set_field table (of_nat e) v s) off = (if off = table + 4 * of_nat (e div 4)
      then ireg s (table + 4 * of_nat (e div 4)) OR push_bit (8 * (e mod 4)) (ucast v AND 0xF) else ireg s off)" for off
    unfolding set_field_def Let_def ireg_store ireg_load a b by simp
  have same: "(table + 4 * of_nat (e' div 4) = table + (4 * of_nat (e div 4) :: u32)) = (e' div 4 = e div 4)"
    using word_index[of "e' div 4" "e div 4"] assms(1,2) by simp
  have k: "e mod 4 < 4" "e' mod 4 < 4" by simp_all
  have eq: "e' = e \<longleftrightarrow> e' div 4 = e div 4 \<and> e' mod 4 = e mod 4"
    by (metis mult_div_mod_eq)
  show ?thesis
    unfolding field_def r same using or_field[OF k(1,2)] eq by auto
qed

lemma set_field_frame [simp]: "drv (set_field table k v s) = drv s" "os_k (set_field table k v s) = os_k s"
  by (simp_all add: set_field_def Let_def)

text \<open>What a store leaves alone: a register outside the table.\<close>

lemma ireg_set_field:
  assumes "e < 64" "table = 0x400 \<or> table = (0x800 :: u32)" "\<forall>i<16. off \<noteq> table + 4 * of_nat i"
  shows "ireg (set_field table (of_nat e) v s) off = ireg s off"
proof -
  have "e div 4 < 16" using assms(1) by simp
  then show ?thesis
    unfolding set_field_def Let_def ireg_store table_address(1)[OF assms(1,2)] using assms(3) by auto
qed

section \<open>Tables\<close>

text \<open>A table as the caller fills it: entries in range with distinct keys, then the end marker.\<close>

definition s16_pair :: "nat \<times> nat \<Rightarrow> s16 \<times> s16" where
  "s16_pair = (\<lambda>(a, b). (of_nat a, of_nat b))"

definition table_ok :: "nat \<Rightarrow> nat \<Rightarrow> (nat \<times> nat) list \<Rightarrow> bool" where
  "table_ok keys vals m \<longleftrightarrow> distinct (map fst m) \<and> list_all (\<lambda>(a, b). a < keys \<and> b < vals) m"

definition as_table :: "(nat \<times> nat) list \<Rightarrow> (s16 \<times> s16) list \<Rightarrow> (s16 \<times> s16) list" where
  "as_table m rest = map s16_pair m @ (-1, -1) # rest"

fun set_fields :: "u32 \<Rightarrow> (nat \<times> nat) list \<Rightarrow> pru_sys \<Rightarrow> pru_sys" where
  "set_fields table [] s = s"
| "set_fields table ((a, b) # m) s = set_fields table m (set_field table (of_nat a) (of_nat b) s)"

lemma s16_all: "\<forall>a\<in>set [0..<64]. (of_nat a :: s16) \<noteq> -1 \<and> (scast (of_nat a :: s16) :: u32) = of_nat a \<and>
    (ucast (of_nat a :: s16) :: u32) = of_nat a"
  by code_simp

lemma s16_small: "a < 64 \<Longrightarrow> (of_nat a :: s16) \<noteq> -1" "a < 64 \<Longrightarrow> (scast (of_nat a :: s16) :: u32) = of_nat a"
  "a < 64 \<Longrightarrow> (ucast (of_nat a :: s16) :: u32) = of_nat a"
  using s16_all by auto

lemma map_table:
  assumes "list_all (\<lambda>(a, b). a < 64 \<and> b < 64) m"
  shows "map_channels (as_table m rest) s = Some (set_fields 0x400 m s)"
    and "map_hosts (as_table m rest) s = Some (set_fields 0x800 m s)"
  using assms
  by (induction m arbitrary: s) (auto simp: as_table_def s16_pair_def s16_small set_cmr_field set_hmr_field)

lemma set_fields_frame [simp]: "drv (set_fields table m s) = drv s"
  by (induction table m s rule: set_fields.induct) auto

lemma field_set_fields:
  assumes "table_ok 64 16 m" "table = 0x400 \<or> table = (0x800 :: u32)" "k < 64"
  shows "field table k (set_fields table m s) =
    (case map_of m k of Some v \<Rightarrow> field table k s OR (of_nat v AND 0xF) | None \<Rightarrow> field table k s)"
  using assms(1)
proof (induction m arbitrary: s)
  case (Cons x m)
  obtain a b where x: "x = (a, b)" by (cases x)
  have ok: "table_ok 64 16 m" "a < 64" "b < 16" "a \<notin> fst ` set m"
    using Cons.prems by (auto simp: table_ok_def x)
  let ?s = "set_field table (of_nat a) (of_nat b) s"
  have f: "field table k ?s = (if k = a then field table k s OR (of_nat b AND 0xF) else field table k s)"
    using field_set[OF ok(2) assms(3,2), of "of_nat b" s] ok(3) by (auto simp: s16_small(3))
  have none: "map_of m a = None" using ok(4) by (simp add: map_of_eq_None_iff)
  show ?case
    using Cons.IH[OF ok(1), of ?s] none f by (cases "k = a") (simp_all add: x split: option.splits)
qed simp

lemma ireg_set_fields:
  assumes "list_all (\<lambda>(a, b). a < 64 \<and> b < c) m" "table = 0x400 \<or> table = (0x800 :: u32)" "\<forall>i<16. off \<noteq> table + 4 * of_nat i"
  shows "ireg (set_fields table m s) off = ireg s off"
  using assms(1) by (induction m arbitrary: s) (auto simp: ireg_set_field[OF _ assms(2,3)])

lemma clear_regs_frame [simp]: "drv (clear_regs reg n s) = drv s"
  by (induction reg n s rule: clear_regs.induct) auto


lemma ireg_clear_regs:
  "ireg (clear_regs reg n s) off = (if \<exists>i<n. off = 4 * drop_bit 2 (reg + 4 * of_nat i) then 0 else ireg s off)"
proof (induction reg n s rule: clear_regs.induct)
  case (2 reg n s)
  have "(\<exists>i<Suc n. off = 4 * drop_bit 2 (reg + 4 * of_nat i)) \<longleftrightarrow>
      off = 4 * drop_bit 2 reg \<or> (\<exists>i<n. off = 4 * drop_bit 2 (reg + 4 + 4 * of_nat i))"
    by (simp add: Ex_less_Suc2 algebra_simps)
  with 2 show ?case by (auto simp: ireg_store)
qed simp

lemma register_all:
  "\<forall>i\<in>set [0..<16]. 4 * drop_bit 2 (0x400 + 4 * of_nat i) = (0x400 + 4 * of_nat i :: u32) \<and>
     4 * drop_bit 2 (0x800 + 4 * of_nat i) = (0x800 + 4 * of_nat i :: u32) \<and>
     (\<forall>j\<in>set [0..<16]. (0x400 + 4 * of_nat i :: u32) \<noteq> 0x800 + 4 * of_nat j) \<and>
     (\<forall>off\<in>set [0x010, 0x034, 0x280, 0x284, 0x300, 0x304, 0xD00, 0xD04, 0xD80, 0xD84].
        (0x400 + 4 * of_nat i :: u32) \<noteq> off \<and> (0x800 + 4 * of_nat i :: u32) \<noteq> off)"
  by code_simp

lemma register:
  assumes "i < 16"
  shows "4 * drop_bit 2 (0x400 + 4 * of_nat i) = (0x400 + 4 * of_nat i :: u32)"
    "4 * drop_bit 2 (0x800 + 4 * of_nat i) = (0x800 + 4 * of_nat i :: u32)"
    "j < 16 \<Longrightarrow> (0x400 + 4 * of_nat i :: u32) \<noteq> 0x800 + 4 * of_nat j"
    "off \<in> set [0x010, 0x034, 0x280, 0x284, 0x300, 0x304, 0xD00, 0xD04, 0xD80, 0xD84] \<Longrightarrow>
      (0x400 + 4 * of_nat i :: u32) \<noteq> off \<and> (0x800 + 4 * of_nat i :: u32) \<noteq> off"
proof -
  have i: "i \<in> set [0..<16]" using assms by simp
  note h = bspec[OF register_all i]
  show "4 * drop_bit 2 (0x400 + 4 * of_nat i) = (0x400 + 4 * of_nat i :: u32)"
    "4 * drop_bit 2 (0x800 + 4 * of_nat i) = (0x800 + 4 * of_nat i :: u32)" using h by blast+
  show "(0x400 + 4 * of_nat i :: u32) \<noteq> 0x800 + 4 * of_nat j" if "j < 16"
  proof -
    have "j \<in> set [0..<16]" using that by simp
    with h show ?thesis by blast
  qed
  show "(0x400 + 4 * of_nat i :: u32) \<noteq> off \<and> (0x800 + 4 * of_nat i :: u32) \<noteq> off"
    if "off \<in> set [0x010, 0x034, 0x280, 0x284, 0x300, 0x304, 0xD00, 0xD04, 0xD80, 0xD84]"
    using h that by blast
qed

lemma field_cleared:
  assumes "k < 64"
  shows "field 0x400 k (clear_regs 0x400 16 s) = 0"
proof -
  have i: "k div 4 < 16" using assms by simp
  then have "\<exists>i<16. (0x400 + 4 * of_nat (k div 4) :: u32) = 4 * drop_bit 2 (0x400 + 4 * of_nat i)"
    using register(1)[OF i] by (intro exI[of _ "k div 4"]) simp
  then show ?thesis unfolding field_def ireg_clear_regs by simp
qed

lemma field_cleared_hosts:
  assumes "k < 12"
  shows "field 0x800 k (clear_regs 0x800 3 s) = 0"
proof -
  have i: "k div 4 < 3" "k div 4 < 16" using assms by simp_all
  then have "\<exists>i<3. (0x800 + 4 * of_nat (k div 4) :: u32) = 4 * drop_bit 2 (0x800 + 4 * of_nat i)"
    using register(2)[OF i(2)] by (intro exI[of _ "k div 4"]) simp
  then show ?thesis unfolding field_def ireg_clear_regs by simp
qed

text \<open>A register store outside both tables leaves their fields alone.\<close>

definition plain_regs :: "u32 set" where
  "plain_regs = {0x010, 0x034, 0x280, 0x284, 0x300, 0x304, 0xD00, 0xD04, 0xD80, 0xD84}"

lemma field_plain:
  assumes "off \<in> plain_regs" "k < 64" "table = 0x400 \<or> table = (0x800 :: u32)"
  shows "field table k (intc_store off v s) = field table k s"
proof -
  have a: "4 * drop_bit 2 off = off" using assms(1) by (auto simp: plain_regs_def)
  have "k div 4 < 16" using assms(2) by simp
  then have "table + 4 * of_nat (k div 4) \<noteq> off"
    using register(4)[of "k div 4" off] assms(1,3) by (auto simp: plain_regs_def)
  then show ?thesis by (simp add: field_def ireg_store a)
qed

lemma ireg_plain: "off \<in> plain_regs \<Longrightarrow> ireg (intc_store off v s) off' = (if off' = off then v else ireg s off')"
  by (auto simp: ireg_store plain_regs_def)

lemma enable_hosts_plain:
  "drv (enable_hosts b i n s) = drv s"
  "k < 64 \<Longrightarrow> table = 0x400 \<or> table = (0x800 :: u32) \<Longrightarrow> field table k (enable_hosts b i n s) = field table k s"
  "off \<noteq> 0x034 \<Longrightarrow> ireg (enable_hosts b i n s) off = ireg s off"
  by (induction b i n s rule: enable_hosts.induct) (auto simp: field_plain plain_regs_def ireg_store)

lemma u8_all: "\<forall>e\<in>set [0..<64]. (of_nat e :: u8) \<noteq> 255 \<and> ((of_nat e :: u8) < 32) = (e < 32) \<and> (of_nat e :: u8) < 64 \<and>
    unat (of_nat e :: u8) = e \<and> (32 \<le> e \<longrightarrow> unat ((of_nat e :: u8) - 32) = e - 32)"
  by code_simp

lemma u8_small:
  assumes "e < 64"
  shows "(of_nat e :: u8) \<noteq> 255" "((of_nat e :: u8) < 32) = (e < 32)" "(of_nat e :: u8) < 64"
    "unat (of_nat e :: u8) = e" "32 \<le> e \<Longrightarrow> unat ((of_nat e :: u8) - 32) = e - 32"
proof -
  have e: "e \<in> set [0..<64]" using assms by simp
  note h = bspec[OF u8_all e]
  show "(of_nat e :: u8) \<noteq> 255" "((of_nat e :: u8) < 32) = (e < 32)" "(of_nat e :: u8) < 64"
    "unat (of_nat e :: u8) = e" "32 \<le> e \<Longrightarrow> unat ((of_nat e :: u8) - 32) = e - 32" using h by blast+
qed

lemma add_new_bit:
  fixes m :: u32
  assumes "\<not> bit m e" "e < 32"
  shows "bit (m + push_bit e 1) k \<longleftrightarrow> bit m k \<or> k = e"
proof -
  have "m + push_bit e 1 = m OR push_bit e 1"
    by (rule disjunctive_add) (use assms in \<open>auto simp: bit_simps\<close>)
  then show ?thesis using assms(2) by (auto simp: bit_simps)
qed

lemma event_masks_bits:
  assumes "distinct es" "list_all (\<lambda>e. e < 64) es" "\<forall>e\<in>set es. if e < 32 then \<not> bit m1 e else \<not> bit m2 (e - 32)"
  shows "\<exists>n1 n2. event_masks (map of_nat es @ 255 # r) m1 m2 = Some (Some (n1, n2)) \<and>
    (\<forall>k. bit n1 k \<longleftrightarrow> bit m1 k \<or> k < 32 \<and> k \<in> set es) \<and> (\<forall>k. bit n2 k \<longleftrightarrow> bit m2 k \<or> k + 32 \<in> set es)"
  using assms
proof (induction es arbitrary: m1 m2)
  case (Cons e es)
  have e: "e < 64" "e \<notin> set es" using Cons.prems by auto
  show ?case
  proof (cases "e < 32")
    case True
    have b: "bit (m1 + push_bit e 1) k \<longleftrightarrow> bit m1 k \<or> k = e" for k
      using add_new_bit[of m1 e k] Cons.prems(3) True by auto
    have "\<exists>n1 n2. event_masks (map of_nat es @ 255 # r) (m1 + push_bit e 1) m2 = Some (Some (n1, n2)) \<and>
      (\<forall>k. bit n1 k \<longleftrightarrow> bit (m1 + push_bit e 1) k \<or> k < 32 \<and> k \<in> set es) \<and> (\<forall>k. bit n2 k \<longleftrightarrow> bit m2 k \<or> k + 32 \<in> set es)"
      by (rule Cons.IH) (use Cons.prems e b in auto)
    then show ?thesis using True e b by (auto simp: u8_small)
  next
    case False
    have b: "bit (m2 + push_bit (e - 32) 1) k \<longleftrightarrow> bit m2 k \<or> k + 32 = e" for k
      using add_new_bit[of m2 "e - 32" k] Cons.prems(3) False e by auto
    have "\<exists>n1 n2. event_masks (map of_nat es @ 255 # r) m1 (m2 + push_bit (e - 32) 1) = Some (Some (n1, n2)) \<and>
      (\<forall>k. bit n1 k \<longleftrightarrow> bit m1 k \<or> k < 32 \<and> k \<in> set es) \<and>
      (\<forall>k. bit n2 k \<longleftrightarrow> bit (m2 + push_bit (e - 32) 1) k \<or> k + 32 \<in> set es)"
      by (rule Cons.IH) (use Cons.prems e b False in auto)
    then show ?thesis using False e b by (auto simp: u8_small)
  qed
qed auto

section \<open>The lookups\<close>

lemma u32_nat_eq: "a < 2 ^ 32 \<Longrightarrow> b < 2 ^ 32 \<Longrightarrow> (of_nat a = (of_nat b :: u32)) = (a = b)"
  by (simp add: word_of_nat_eq_iff take_bit_nat_eq_self)

lemma find_map_table:
  assumes "list_all (\<lambda>(a, b). a < 64 \<and> b < 64) m" "k < 64"
  shows "length m < n \<Longrightarrow> find_map n (as_table m rest) (of_nat k) = map_option of_nat (map_of m k)"
  using assms(1)
proof (induction m arbitrary: n)
  case Nil
  then show ?case by (cases n) (auto simp: as_table_def)
next
  case (Cons x m)
  obtain a b where x: "x = (a, b)" by (cases x)
  obtain n' where n: "n = Suc n'" "length m < n'" using Cons.prems(1) by (cases n) auto
  have ab: "a < 64" "b < 64" using Cons.prems(2) x by auto
  have IH: "find_map n' (as_table m rest) (of_nat k) = map_option of_nat (map_of m k)"
    using Cons n by simp
  have "(of_nat k = (of_nat a :: u32)) = (k = a)" using ab assms(2) by (intro u32_nat_eq) simp_all
  then show ?case using IH ab by (auto simp: n(1) x as_table_def s16_pair_def s16_small)
qed

section \<open>Programming the interrupt controller\<close>

definition good_intc :: "tpruss_intc_initdata \<Rightarrow> nat list \<Rightarrow> (nat \<times> nat) list \<Rightarrow> (nat \<times> nat) list \<Rightarrow> bool" where
  "good_intc d es m h \<longleftrightarrow>
     (\<exists>r1 r2 r3. sysevts_enabled d = map of_nat es @ 255 # r1 \<and>
        sysevt_to_channel_map d = as_table m r2 \<and> channel_to_host_map d = as_table h r3) \<and>
     distinct es \<and> list_all (\<lambda>e. e < 64) es \<and>
     table_ok 64 10 m \<and> length m < 64 \<and> table_ok 10 10 h \<and> length h < 10"

definition of_entry :: "nat option \<Rightarrow> u32" where
  "of_entry x = (case x of Some v \<Rightarrow> of_nat v | None \<Rightarrow> 0)"

lemma small_nibble: "v < 10 \<Longrightarrow> (of_nat v :: u32) AND 0xF = of_nat v"
proof -
  have "\<forall>v\<in>set [0..<10]. (of_nat v :: u32) AND 0xF = of_nat v" by code_simp
  moreover assume "v < 10"
  ultimately show ?thesis by simp
qed

lemma field_table:
  assumes "table_ok n 10 m" "n \<le> 64" "table = 0x400 \<or> table = (0x800 :: u32)" "k < 64" "field table k s = 0"
  shows "field table k (set_fields table m s) = of_entry (map_of m k)"
proof -
  have "table_ok 64 16 m" using assms(1,2) by (auto simp: table_ok_def list_all_iff)
  moreover have "v < 10" if "map_of m k = Some v" for v
    using that assms(1) by (auto simp: table_ok_def list_all_iff dest!: map_of_SomeD)
  ultimately show ?thesis
    using field_set_fields[OF _ assms(3,4)] assms(5) by (auto simp: of_entry_def small_nibble split: option.splits)
qed

lemma tables_apart:
  assumes "k < 64" "list_all (\<lambda>(a, b). a < 64 \<and> b < c) h"
  shows "field 0x400 k (set_fields 0x800 h (clear_regs 0x800 3 s)) = field 0x400 k s"
proof -
  have i: "k div 4 < 16" using assms(1) by simp
  have a: "\<forall>j<16. (0x400 + 4 * of_nat (k div 4) :: u32) \<noteq> 0x800 + 4 * of_nat j"
    using register(3)[OF i] by blast
  have no: "\<not> (\<exists>i<3. (0x400 + 4 * of_nat (k div 4) :: u32) = 4 * drop_bit 2 (0x800 + 4 * of_nat i))"
  proof clarify
    fix i :: nat assume "i < 3" and e: "(0x400 + 4 * of_nat (k div 4) :: u32) = 4 * drop_bit 2 (0x800 + 4 * of_nat i)"
    then have "i < 16" by simp
    with a e register(2)[of i] show False by metis
  qed
  have "ireg (set_fields 0x800 h (clear_regs 0x800 3 s)) (0x400 + 4 * of_nat (k div 4)) = ireg s (0x400 + 4 * of_nat (k div 4))"
    using ireg_set_fields[OF assms(2) _ a, of "clear_regs 0x800 3 s"] unfolding ireg_clear_regs if_not_P[OF no] by simp
  then show ?thesis by (simp add: field_def)
qed

lemma pruintc_init_ok:
  assumes g: "good_intc d es m h"
  shows "\<exists>s'. prussdrv_pruintc_init d s = Some (s', 0) \<and> intc_data (drv s') = d \<and> intc_base (drv s') = intc_base (drv s) \<and>
    (\<forall>k<64. field 0x400 k s' = of_entry (map_of m k)) \<and> (\<forall>c<10. field 0x800 c s' = of_entry (map_of h c)) \<and>
    (\<forall>e<64. bit (ireg s' (0x300 + 4 * of_nat (e div 32))) (e mod 32) \<longleftrightarrow> e \<in> set es)"
proof -
  obtain r1 r2 r3 where d: "sysevts_enabled d = map of_nat es @ 255 # r1" "sysevt_to_channel_map d = as_table m r2"
      "channel_to_host_map d = as_table h r3"
    and es: "distinct es" "list_all (\<lambda>e. e < 64) es" and m: "table_ok 64 10 m" and h: "table_ok 10 10 h"
    using g by (auto simp: good_intc_def)
  have lm: "list_all (\<lambda>(a, b). a < 64 \<and> b < 64) m" and lh: "list_all (\<lambda>(a, b). a < 64 \<and> b < 64) h"
    using m h by (auto simp: table_ok_def list_all_iff)
  let ?s1 = "clear_regs 0x400 16 (intc_store 0xD04 0xFFFFFFFF (intc_store 0xD00 0xFFFFFFFF s))"
  let ?s2 = "set_fields 0x400 m ?s1"
  let ?s3 = "set_fields 0x800 h (clear_regs 0x800 3 ?s2)"
  let ?s4 = "intc_store 0xD84 0 (intc_store 0xD80 0 ?s3)"
  obtain n1 n2 where n: "event_masks (map of_nat es @ 255 # r1) 0 0 = Some (Some (n1, n2))"
      "\<forall>k. bit n1 k \<longleftrightarrow> k < 32 \<and> k \<in> set es" "\<forall>k. bit n2 k \<longleftrightarrow> k + 32 \<in> set es"
  proof -
    have "\<forall>e\<in>set es. if e < 32 then \<not> bit (0 :: u32) e else \<not> bit (0 :: u32) (e - 32)" by simp
    from event_masks_bits[OF es this, of r1] that show thesis by auto
  qed
  let ?s5 = "intc_store 0x284 n2 (intc_store 0x304 n2 (intc_store 0x280 n1 (intc_store 0x300 n1 ?s4)))"
  let ?s6 = "intc_store 0x010 1 (enable_hosts (host_enable_bitmask d) 0 10 ?s5)"
  let ?s' = "?s6\<lparr>drv := (drv ?s6)\<lparr>intc_data := d\<rparr>\<rparr>"
  have run: "prussdrv_pruintc_init d s = Some (?s', 0)"
    using map_table(1)[OF lm, of r2 ?s1] map_table(2)[OF lh, of r3 "clear_regs 0x800 3 ?s2"] n(1)
    by (simp add: prussdrv_pruintc_init_def Let_def d NUM_PRU_SYS_EVTS_def NUM_PRU_HOSTS_def)
  have regs: "{0x010, 0x034, 0x280, 0x284, 0x300, 0x304, 0xD00, 0xD04, 0xD80, 0xD84} \<subseteq> plain_regs"
    by (simp add: plain_regs_def)
  have tail: "field t k ?s' = field t k ?s3" if "k < 64" "t = 0x400 \<or> t = 0x800" for t k
  proof -
    have "field t k ?s' = field t k ?s6" by (simp add: field_def ireg_def)
    also have "\<dots> = field t k ?s3" using regs that by (simp add: field_plain enable_hosts_plain(2))
    finally show ?thesis .
  qed
  have "field 0x400 k ?s' = of_entry (map_of m k)" if k: "k < 64" for k
    using tail[OF k] tables_apart[OF k lh] field_table[OF m _ _ k] field_cleared[OF k] by simp
  moreover have "field 0x800 c ?s' = of_entry (map_of h c)" if c: "c < 10" for c
    using tail[where k = c] field_table[OF h, where table = "0x800" and k = c] field_cleared_hosts[where k = c] c by simp
  moreover have "ireg ?s' 0x300 = n1" "ireg ?s' 0x304 = n2"
  proof -
    have "ireg ?s' off = ireg ?s6 off" for off by (simp add: ireg_def)
    then show "ireg ?s' 0x300 = n1" "ireg ?s' 0x304 = n2"
      using regs by (simp_all add: ireg_plain enable_hosts_plain(3))
  qed
  then have "bit (ireg ?s' (0x300 + 4 * of_nat (e div 32))) (e mod 32) \<longleftrightarrow> e \<in> set es" if "e < 64" for e
  proof (cases "e < 32")
    case False
    then have "e div 32 = 1" "e mod 32 = e - 32" using that by (auto simp: le_mod_geq)
    then show ?thesis using \<open>ireg ?s' 0x304 = n2\<close> n(3) False by simp
  qed (use n(2) \<open>ireg ?s' 0x300 = n1\<close> in simp)
  ultimately show ?thesis using run by (intro exI[of _ ?s']) (simp add: NUM_PRU_SYS_EVTS_def enable_hosts_plain(1))
qed

lemma stores_intc_store [simp]:
  "stores (intc_store reg v s) = stores s @ [(intc_base (drv s) + 4 * drop_bit 2 reg, v)]"
  by (simp add: intc_store_def store_def)

lemma stores_clear_regs:
  "stores (clear_regs reg n s) =
    stores s @ map (\<lambda>i. (intc_base (drv s) + 4 * drop_bit 2 (reg + 4 * of_nat i), 0)) [0..<n]"
proof (induction reg n s rule: clear_regs.induct)
  case (2 reg n s)
  have "[0..<Suc n] = 0 # map Suc [0..<n]" by (simp add: map_Suc_upt upt_conv_Cons)
  then show ?case using 2 by (simp add: algebra_simps comp_def)
qed simp

lemma stores_set_fields:
  assumes "list_all (\<lambda>(a, b). a < 64 \<and> b < 64) m" "table = 0x400 \<or> table = (0x800 :: u32)"
  shows "\<exists>ws. stores (set_fields table m s) = stores s @ ws \<and>
    map fst ws = map (\<lambda>(k, v). intc_base (drv s) + table + 4 * of_nat (k div 4)) m"
  using assms(1)
proof (induction m arbitrary: s)
  case (Cons x m)
  obtain a b where x: "x = (a, b)" by (cases x)
  have a: "a < 64" using Cons.prems x by simp
  have "\<exists>v. stores (set_field table (of_nat a) (of_nat b) s) = stores s @ [(intc_base (drv s) + table + 4 * of_nat (a div 4), v)]"
    unfolding set_field_def Let_def stores_intc_store table_address(1)[OF a assms(2)] by (simp add: add.assoc)
  then show ?case using Cons.IH[of "set_field table (of_nat a) (of_nat b) s"] Cons.prems x by fastforce
qed simp

lemma host_enabled: "hm AND 2 ^ i = 0 \<longleftrightarrow> \<not> bit (hm :: u32) i"
  by (rule and_exp_eq_0_iff_not_bit)

lemma stores_enable_hosts:
  "stores (enable_hosts hm i n s) =
    stores s @ map (\<lambda>k. (intc_base (drv s) + 0x034, of_nat k)) (filter (bit hm) [i..<i + n])"
proof (induction hm i n s rule: enable_hosts.induct)
  case (2 hm i n s)
  have "[i..<i + Suc n] = i # [i + 1..<i + 1 + n]" by (simp add: upt_conv_Cons)
  then show ?case using 2 by (simp add: host_enabled del: upt_Suc)
qed simp


lemma cleared_table:
  assumes "n \<le> 16" "table = 0x400 \<or> table = (0x800 :: u32)"
  shows "map (\<lambda>i. (b + 4 * drop_bit 2 (table + 4 * of_nat i), 0 :: u32)) [0..<n] =
    map (\<lambda>i. (b + table + 4 * of_nat i, 0)) [0..<n]"
  using assms register(1,2) by (auto simp: add.assoc)

lemma init_fixed_registers:
  "4 * drop_bit 2 (0xD00 :: u32) = 0xD00" "4 * drop_bit 2 (0xD04 :: u32) = 0xD04" "4 * drop_bit 2 (0xD80 :: u32) = 0xD80"
  "4 * drop_bit 2 (0xD84 :: u32) = 0xD84" "4 * drop_bit 2 (0x300 :: u32) = 0x300" "4 * drop_bit 2 (0x280 :: u32) = 0x280"
  "4 * drop_bit 2 (0x304 :: u32) = 0x304" "4 * drop_bit 2 (0x284 :: u32) = 0x284" "4 * drop_bit 2 (0x010 :: u32) = 0x010"
  by simp_all

text \<open>The stores of the initialisation, in their order; those of the tables by their addresses.\<close>

lemma pruintc_init_stores:
  assumes g: "good_intc d es m h"
  shows "\<exists>s' ws1 ws2 mask1 mask2. prussdrv_pruintc_init d s = Some (s', 0) \<and>
    (let b = intc_base (drv s) in
      stores s' = stores s @ [(b + 0xD00, 0xFFFFFFFF), (b + 0xD04, 0xFFFFFFFF)] @
        map (\<lambda>i. (b + 0x400 + 4 * of_nat i, 0)) [0..<16] @ ws1 @
        map (\<lambda>i. (b + 0x800 + 4 * of_nat i, 0)) [0..<3] @ ws2 @
        [(b + 0xD80, 0), (b + 0xD84, 0), (b + 0x300, mask1), (b + 0x280, mask1), (b + 0x304, mask2), (b + 0x284, mask2)] @
        map (\<lambda>i. (b + 0x034, of_nat i)) (filter (bit (host_enable_bitmask d)) [0..<10]) @ [(b + 0x010, 1)] \<and>
      map fst ws1 = map (\<lambda>(e, c). b + 0x400 + 4 * of_nat (e div 4)) m \<and>
      map fst ws2 = map (\<lambda>(c, t). b + 0x800 + 4 * of_nat (c div 4)) h) \<and>
    (\<forall>e. bit mask1 e \<longleftrightarrow> e < 32 \<and> e \<in> set es) \<and> (\<forall>e. bit mask2 e \<longleftrightarrow> e + 32 \<in> set es)"
proof -
  obtain r1 r2 r3 where d: "sysevts_enabled d = map of_nat es @ 255 # r1" "sysevt_to_channel_map d = as_table m r2"
      "channel_to_host_map d = as_table h r3"
    and es: "distinct es" "list_all (\<lambda>e. e < 64) es" and m: "table_ok 64 10 m" and h: "table_ok 10 10 h"
    using g by (auto simp: good_intc_def)
  have lm: "list_all (\<lambda>(a, b). a < 64 \<and> b < 64) m" and lh: "list_all (\<lambda>(a, b). a < 64 \<and> b < 64) h"
    using m h by (auto simp: table_ok_def list_all_iff)
  have "\<forall>e\<in>set es. if e < 32 then \<not> bit (0 :: u32) e else \<not> bit (0 :: u32) (e - 32)" by simp
  from event_masks_bits[OF es this, of r1] obtain n1 n2 where n: "event_masks (map of_nat es @ 255 # r1) 0 0 = Some (Some (n1, n2))"
      "\<forall>k. bit n1 k \<longleftrightarrow> k < 32 \<and> k \<in> set es" "\<forall>k. bit n2 k \<longleftrightarrow> k + 32 \<in> set es"
    by auto
  let ?b = "intc_base (drv s)"
  let ?s1 = "clear_regs 0x400 16 (intc_store 0xD04 0xFFFFFFFF (intc_store 0xD00 0xFFFFFFFF s))"
  let ?s2 = "clear_regs 0x800 3 (set_fields 0x400 m ?s1)"
  obtain ws1 where ws1: "stores (set_fields 0x400 m ?s1) = stores ?s1 @ ws1"
      "map fst ws1 = map (\<lambda>(e, c). ?b + 0x400 + 4 * of_nat (e div 4)) m"
    using stores_set_fields[OF lm, of "0x400" ?s1] by auto
  obtain ws2 where ws2: "stores (set_fields 0x800 h ?s2) = stores ?s2 @ ws2"
      "map fst ws2 = map (\<lambda>(c, t). ?b + 0x800 + 4 * of_nat (c div 4)) h"
    using stores_set_fields[OF lh, of "0x800" ?s2] by auto
  let ?s3 = "intc_store 0xD84 0 (intc_store 0xD80 0 (set_fields 0x800 h ?s2))"
  let ?s5 = "intc_store 0x284 n2 (intc_store 0x304 n2 (intc_store 0x280 n1 (intc_store 0x300 n1 ?s3)))"
  let ?s6 = "intc_store 0x010 1 (enable_hosts (host_enable_bitmask d) 0 10 ?s5)"
  have run: "prussdrv_pruintc_init d s = Some (?s6\<lparr>drv := (drv ?s6)\<lparr>intc_data := d\<rparr>\<rparr>, 0)"
    using map_table(1)[OF lm, of r2 ?s1] map_table(2)[OF lh, of r3 ?s2] n(1)
    by (simp add: prussdrv_pruintc_init_def Let_def d NUM_PRU_SYS_EVTS_def NUM_PRU_HOSTS_def)
  have "stores ?s6 = stores s @ [(?b + 0xD00, 0xFFFFFFFF), (?b + 0xD04, 0xFFFFFFFF)] @
        map (\<lambda>i. (?b + 0x400 + 4 * of_nat i, 0)) [0..<16] @ ws1 @
        map (\<lambda>i. (?b + 0x800 + 4 * of_nat i, 0)) [0..<3] @ ws2 @
        [(?b + 0xD80, 0), (?b + 0xD84, 0), (?b + 0x300, n1), (?b + 0x280, n1), (?b + 0x304, n2), (?b + 0x284, n2)] @
        map (\<lambda>i. (?b + 0x034, of_nat i)) (filter (bit (host_enable_bitmask d)) [0..<10]) @ [(?b + 0x010, 1)]"
    unfolding stores_intc_store stores_enable_hosts ws2(1) stores_clear_regs ws1(1) cleared_table init_fixed_registers
    by (simp add: enable_hosts_plain(1) cleared_table del: upt_rec_numeral)
  then show ?thesis using run ws1(2) ws2(2) n(2,3)
    by (intro exI[of _ "?s6\<lparr>drv := (drv ?s6)\<lparr>intc_data := d\<rparr>\<rparr>"] exI[of _ ws1] exI[of _ ws2] exI[of _ n1] exI[of _ n2])
      (simp add: Let_def del: upt_rec_numeral)
qed

text \<open>
  C15. The interrupt controller is programmed as the caller asks. For tables in range with
  distinct keys and their end markers, \<open>prussdrv_pruintc_init\<close> returns 0 after exactly these
  stores, in this order: the polarity registers (0xD00, 0xD04) all ones, the sixteen channel-map registers
  cleared and then one store per table entry to its event's register, the three host-map registers likewise, the type
  registers (0xD80, 0xD84) 0, the two masks of the enabled events each to the enable (0x300, 0x304) and
  to the status-clear register (0x280, 0x284), the number of every host in the caller's bit mask to the host-enable
  register (0x034), and last 1 to the global enable (0x010). At the end every event's channel field and every channel's host field
  hold the table's entry, 0 for none. The lookups answer from the stashed tables, not from these fields: an
  event's channel, or -1 for an event that is not mapped; and a channel's host less 2, so -2 and -1 for
  the hosts 0 and 1 (the PRUs), or -1 for a channel that is not mapped.
\<close>

theorem pruintc_init_programs:
  assumes "good_intc d es m h"
  shows "\<exists>s' ws1 ws2 mask1 mask2. prussdrv_pruintc_init d s = Some (s', 0) \<and>
    (let b = intc_base (drv s) in
      stores s' = stores s @ [(b + 0xD00, 0xFFFFFFFF), (b + 0xD04, 0xFFFFFFFF)] @
        map (\<lambda>i. (b + 0x400 + 4 * of_nat i, 0)) [0..<16] @ ws1 @
        map (\<lambda>i. (b + 0x800 + 4 * of_nat i, 0)) [0..<3] @ ws2 @
        [(b + 0xD80, 0), (b + 0xD84, 0), (b + 0x300, mask1), (b + 0x280, mask1), (b + 0x304, mask2), (b + 0x284, mask2)] @
        map (\<lambda>i. (b + 0x034, of_nat i)) (filter (bit (host_enable_bitmask d)) [0..<10]) @ [(b + 0x010, 1)] \<and>
      map fst ws1 = map (\<lambda>(e, c). b + 0x400 + 4 * of_nat (e div 4)) m \<and>
      map fst ws2 = map (\<lambda>(c, t). b + 0x800 + 4 * of_nat (c div 4)) h) \<and>
    (\<forall>e. bit mask1 e \<longleftrightarrow> e < 32 \<and> e \<in> set es) \<and> (\<forall>e. bit mask2 e \<longleftrightarrow> e + 32 \<in> set es) \<and>
    (\<forall>k<64. field 0x400 k s' = of_entry (map_of m k)) \<and> (\<forall>c<10. field 0x800 c s' = of_entry (map_of h c)) \<and>
    (\<forall>k<64. prussdrv_get_event_to_channel_map (of_nat k) s' = (case map_of m k of Some c \<Rightarrow> of_nat c | None \<Rightarrow> -1)) \<and>
    (\<forall>c<10. prussdrv_get_channel_to_host_map (of_nat c) s' = (case map_of h c of Some t \<Rightarrow> of_nat t - 2 | None \<Rightarrow> -1))"
proof -
  obtain s' where s': "prussdrv_pruintc_init d s = Some (s', 0)" "intc_data (drv s') = d"
      "\<forall>k<64. field 0x400 k s' = of_entry (map_of m k)" "\<forall>c<10. field 0x800 c s' = of_entry (map_of h c)"
    using pruintc_init_ok[OF assms, of s] by blast
  obtain r2 r3 where t: "sysevt_to_channel_map d = as_table m r2" "channel_to_host_map d = as_table h r3"
    and len: "length m < 64" "length h < 10"
    using assms by (auto simp: good_intc_def)
  have lm: "list_all (\<lambda>(a, b). a < 64 \<and> b < 64) m" and lh: "list_all (\<lambda>(a, b). a < 64 \<and> b < 64) h"
    using assms by (auto simp: good_intc_def table_ok_def list_all_iff)
  have "prussdrv_get_event_to_channel_map (of_nat k) s' = (case map_of m k of Some c \<Rightarrow> of_nat c | None \<Rightarrow> -1)" if "k < 64" for k
    using find_map_table[OF lm that len(1), of r2] s'(2) t
    by (simp add: prussdrv_get_event_to_channel_map_def NUM_PRU_SYS_EVTS_def split: option.splits)
  moreover have "prussdrv_get_channel_to_host_map (of_nat c) s' = (case map_of h c of Some t \<Rightarrow> of_nat t - 2 | None \<Rightarrow> -1)" if "c < 10" for c
    using find_map_table[OF lh _ len(2), of c r3] that s'(2) t
    by (simp add: prussdrv_get_channel_to_host_map_def NUM_PRU_CHANNELS_def split: option.splits)
  ultimately show ?thesis using s' pruintc_init_stores[OF assms, of s] by (simp only: option.inject prod.inject) blast
qed

definition idle_pru :: pru_sys where
  "idle_pru = \<lparr>drv = prussdrv_zero, pmem = (\<lambda>_. 0), stores = [], unmapped = [], closed = [], os_k = 0\<rparr>"

theorem pruintc_init_programs_witness:
  "let d = \<lparr>sysevts_enabled = [34, 19, 255], sysevt_to_channel_map = [(19, 1), (34, 2), (-1, -1)],
            channel_to_host_map = [(1, 1), (2, 2), (-1, -1)], host_enable_bitmask = 6\<rparr>;
       m = [(19, 1), (34, 2)]; h = [(1, 1), (2, 2)]; es = [34, 19]
   in \<exists>s' ws1 ws2 mask1 mask2. prussdrv_pruintc_init d idle_pru = Some (s', 0) \<and>
    (let b = intc_base (drv idle_pru) in
      stores s' = stores idle_pru @ [(b + 0xD00, 0xFFFFFFFF), (b + 0xD04, 0xFFFFFFFF)] @
        map (\<lambda>i. (b + 0x400 + 4 * of_nat i, 0)) [0..<16] @ ws1 @
        map (\<lambda>i. (b + 0x800 + 4 * of_nat i, 0)) [0..<3] @ ws2 @
        [(b + 0xD80, 0), (b + 0xD84, 0), (b + 0x300, mask1), (b + 0x280, mask1), (b + 0x304, mask2), (b + 0x284, mask2)] @
        map (\<lambda>i. (b + 0x034, of_nat i)) (filter (bit (host_enable_bitmask d)) [0..<10]) @ [(b + 0x010, 1)] \<and>
      map fst ws1 = map (\<lambda>(e, c). b + 0x400 + 4 * of_nat (e div 4)) m \<and>
      map fst ws2 = map (\<lambda>(c, t). b + 0x800 + 4 * of_nat (c div 4)) h) \<and>
    (\<forall>e. bit mask1 e \<longleftrightarrow> e < 32 \<and> e \<in> set es) \<and> (\<forall>e. bit mask2 e \<longleftrightarrow> e + 32 \<in> set es) \<and>
    (\<forall>k<64. field 0x400 k s' = of_entry (map_of m k)) \<and> (\<forall>c<10. field 0x800 c s' = of_entry (map_of h c)) \<and>
    (\<forall>k<64. prussdrv_get_event_to_channel_map (of_nat k) s' = (case map_of m k of Some c \<Rightarrow> of_nat c | None \<Rightarrow> -1)) \<and>
    (\<forall>c<10. prussdrv_get_channel_to_host_map (of_nat c) s' = (case map_of h c of Some t \<Rightarrow> of_nat t - 2 | None \<Rightarrow> -1))"
  unfolding Let_def[of "\<lparr>sysevts_enabled = _, sysevt_to_channel_map = _, channel_to_host_map = _, host_enable_bitmask = _\<rparr>"]
    Let_def[of "_ # _"]
  by (rule pruintc_init_programs) (simp add: good_intc_def as_table_def s16_pair_def table_ok_def)

section \<open>Loading a program\<close>

lemma copy_words_stores:
  "i + n \<le> length ws \<Longrightarrow> \<exists>s'. copy_words base ws (int i) n s = Some s' \<and> drv s' = drv s \<and> os_k s' = os_k s \<and>
    stores s' = stores s @ map (\<lambda>k. (base + 4 * of_nat k, ws ! k)) [i..<i + n]"
proof (induction n arbitrary: i s)
  case (Suc n)
  have "[i..<i + Suc n] = i # [Suc i..<Suc i + n]" by (simp add: upt_conv_Cons)
  moreover obtain s' where "copy_words base ws (int (Suc i)) n (store (base + 4 * of_nat i) (ws ! i) s) = Some s'"
      "drv s' = drv s" "os_k s' = os_k s" "stores s' = stores s @ (base + 4 * of_nat i, ws ! i) #
         map (\<lambda>k. (base + 4 * of_nat k, ws ! k)) [Suc i..<Suc i + n]"
    using Suc.IH[of "Suc i" "store (base + 4 * of_nat i) (ws ! i) s"] Suc.prems by auto
  ultimately show ?case using Suc.prems by (simp add: add.commute)
qed auto

definition iram_of :: "pru_sys \<Rightarrow> u32 \<Rightarrow> u32" where
  "iram_of s prunum = (if prunum = 0 then pru0_iram_base (drv s) else pru1_iram_base (drv s))"

definition control_of :: "pru_sys \<Rightarrow> u32 \<Rightarrow> u32" where
  "control_of s prunum = (if prunum = 0 then pru0_control_base (drv s) else pru1_control_base (drv s))"

lemma exec_code_stores':
  assumes "prunum = 0 \<or> prunum = 1" and "unat (drop_bit 2 (codelen + 3)) \<le> length code"
  shows "\<exists>s'. prussdrv_exec_code_at prunum code codelen addr s = Some (s', 0) \<and> drv s' = drv s \<and>
    stores s' = stores s @ (control_of s prunum, 1) #
      map (\<lambda>k. (iram_of s prunum + 4 * of_nat k, code ! k)) [0..<unat (drop_bit 2 (codelen + 3))] @
      [(control_of s prunum, push_bit 16 (addr div 4) OR 2)]"
proof -
  let ?n = "unat (drop_bit 2 (codelen + 3))" and ?s1 = "store (control_of s prunum) 1 s"
  obtain s2 where s2: "copy_words (iram_of s prunum) code 0 ?n ?s1 = Some s2" "drv s2 = drv s"
      "stores s2 = stores s @ (control_of s prunum, 1) # map (\<lambda>k. (iram_of s prunum + 4 * of_nat k, code ! k)) [0..<?n]"
    using copy_words_stores[of 0 ?n code "iram_of s prunum" ?s1] assms(2) by auto
  have "prussdrv_exec_code_at prunum code codelen addr s =
      Some (store (control_of s prunum) (push_bit 16 (addr div 4) OR 2) s2, 0)"
    using assms(1) s2(1,2)
    by (auto simp: prussdrv_exec_code_at_def prussdrv_pru_disable_def prussdrv_pru_enable_at_def control_base_def
        prussdrv_pru_write_memory_def ram_base_def iram_of_def control_of_def Let_def)
  then show ?thesis using s2 by simp
qed

text \<open>
  C16. Loading a program. \<open>prussdrv_exec_code_at\<close> on PRU 0 or 1 makes exactly these stores, in this
  order: it disables the PRU, writes the program's words to consecutive words of that PRU's instruction memory
  (the byte length rounded up), and only then enables the PRU at the word address of the entry point.
\<close>

theorem exec_code_stores:
  assumes "prunum = 0 \<or> prunum = 1" and "unat (drop_bit 2 (codelen + 3)) \<le> length code"
  shows "\<exists>s'. prussdrv_exec_code_at prunum code codelen addr s = Some (s', 0) \<and> drv s' = drv s \<and>
    stores s' = stores s @ (control_of s prunum, 1) #
      map (\<lambda>k. (iram_of s prunum + 4 * of_nat k, code ! k)) [0..<unat (drop_bit 2 (codelen + 3))] @
      [(control_of s prunum, push_bit 16 (addr div 4) OR 2)]"
  using assms by (rule exec_code_stores')

theorem exec_code_stores_witness:
  "\<exists>s'. prussdrv_exec_code_at 1 [0x10, 0x20] 7 8 idle_pru = Some (s', 0) \<and> drv s' = drv idle_pru \<and>
    stores s' = stores idle_pru @ (control_of idle_pru 1, 1) #
      map (\<lambda>k. (iram_of idle_pru 1 + 4 * of_nat k, [0x10, 0x20] ! k)) [0..<unat (drop_bit 2 (7 + 3 :: u32))] @
      [(control_of idle_pru 1, push_bit 16 (8 div 4) OR 2)]"
  by (rule exec_code_stores) simp_all

lemma program_words: "0 < n \<Longrightarrow> n \<le> 8192 \<Longrightarrow> unat (drop_bit 2 (of_nat n + 3 :: u32)) = (n + 3) div 4"
proof -
  assume n: "0 < n" "n \<le> 8192"
  have "(of_nat n + 3 :: u32) = of_nat (n + 3)" by simp
  moreover have "unat (of_nat (n + 3) :: u32) = n + 3"
    using n unfolding unat_of_nat by (intro mod_less) simp
  ultimately show ?thesis by (simp only: unat_drop_bit_eq) (simp add: drop_bit_eq_div)
qed

lemma le_words_length: "length (le_words bs) = length bs div 4"
  by (induction bs rule: le_words.induct) auto

lemma exec_program_cases:
  assumes "prunum = 0 \<or> prunum = 1" and "length buf = 8192"
  shows "\<exists>s' r. prussdrv_exec_program_at os buf prunum filename addr s = Some (s', r) \<and>
    (case os_file os (os_k s) filename of
       None \<Rightarrow> r = -1 \<and> stores s' = stores s
     | Some (n, bytes) \<Rightarrow>
         if 0 < n \<and> n \<le> 8192 \<and> n \<le> length bytes then
           r = 0 \<and> stores s' = stores s @ (control_of s prunum, 1) #
             map (\<lambda>k. (iram_of s prunum + 4 * of_nat k, le_words (fill_buffer buf (take n bytes)) ! k)) [0..<(n + 3) div 4] @
             [(control_of s prunum, push_bit 16 (addr div 4) OR 2)]
         else r = -1 \<and> stores s' = stores s)"
proof (cases "os_file os (os_k s) filename")
  case None
  then show ?thesis by (simp add: prussdrv_exec_program_at_def)
next
  case (Some f)
  obtain n bytes where f: "f = (n, bytes)" by (cases f)
  let ?ws = "le_words (fill_buffer buf (take n bytes))"
  show ?thesis
  proof (cases "0 < n \<and> n \<le> 8192 \<and> n \<le> length bytes")
    case True
    have w: "unat (drop_bit 2 (of_nat n + 3 :: u32)) = (n + 3) div 4" using True program_words by blast
    have "length ?ws = 2048"
      using True assms(2) by (simp add: le_words_length fill_buffer_def)
    moreover have "(n + 3) div 4 \<le> 2048" using True by linarith
    ultimately have "unat (drop_bit 2 (of_nat n + 3 :: u32)) \<le> length ?ws" using w by simp
    from exec_code_stores'[OF assms(1) this, unfolded w, of addr "tick s"]
    obtain s' where s': "prussdrv_exec_code_at prunum ?ws (of_nat n) addr (tick s) = Some (s', 0)"
      "stores s' = stores (tick s) @ (control_of (tick s) prunum, 1) #
        map (\<lambda>k. (iram_of (tick s) prunum + 4 * of_nat k, ?ws ! k)) [0..<(n + 3) div 4] @
        [(control_of (tick s) prunum, push_bit 16 (addr div 4) OR 2)]"
      by blast
    then show ?thesis
      using Some f True assms(2)
      by (simp add: prussdrv_exec_program_at_def Let_def PRUSS_MAX_IRAM_SIZE_def control_of_def iram_of_def)
  next
    case False
    then consider "n = 0" | "8192 < n" | "0 < n" "n \<le> 8192" "length bytes < n" by linarith
    then show ?thesis
    proof cases
      case 1
      then show ?thesis using Some f by (simp add: prussdrv_exec_program_at_def Let_def)
    next
      case 2
      then show ?thesis using Some f by (simp add: prussdrv_exec_program_at_def Let_def PRUSS_MAX_IRAM_SIZE_def)
    next
      case 3
      then have "\<not> length buf < length (take n bytes)" "n \<noteq> length (take n bytes)" using assms(2) by simp_all
      then show ?thesis using Some f 3
        by (simp add: prussdrv_exec_program_at_def Let_def PRUSS_MAX_IRAM_SIZE_def del: length_take)
    qed
  qed
qed

text \<open>
  C17. Loading a program file. A file of 1 to 8192 bytes is loaded as its little-endian words; a
  missing or empty file, one larger than the instruction memory, or a short read is refused with -1 and no
  store to the device. The stack buffer is never overrun.
\<close>

theorem exec_program_file:
  assumes "prunum = 0 \<or> prunum = 1" and "length buf = 8192"
  shows "\<exists>s' r. prussdrv_exec_program_at os buf prunum filename addr s = Some (s', r) \<and>
    (case os_file os (os_k s) filename of
       None \<Rightarrow> r = -1 \<and> stores s' = stores s
     | Some (n, bytes) \<Rightarrow>
         if 0 < n \<and> n \<le> 8192 \<and> n \<le> length bytes then
           r = 0 \<and> stores s' = stores s @ (control_of s prunum, 1) #
             map (\<lambda>k. (iram_of s prunum + 4 * of_nat k, le_words (fill_buffer buf (take n bytes)) ! k)) [0..<(n + 3) div 4] @
             [(control_of s prunum, push_bit 16 (addr div 4) OR 2)]
         else r = -1 \<and> stores s' = stores s)"
  using assms by (rule exec_program_cases)

theorem exec_program_file_witness:
  "\<exists>s' r. prussdrv_exec_program_at \<lparr>uio_open = (\<lambda>_ _. 3), sysfs = (\<lambda>_ _. None), os_mmap = (\<lambda>_ _ _ _. 0),
      uio_read = (\<lambda>_ _. 0), os_file = (\<lambda>_ _. Some (4, [1, 2, 3, 4]))\<rparr> (replicate 8192 0) 0 ''a.bin'' 0 idle_pru = Some (s', r) \<and>
    (case os_file \<lparr>uio_open = (\<lambda>_ _. 3), sysfs = (\<lambda>_ _. None), os_mmap = (\<lambda>_ _ _ _. 0),
      uio_read = (\<lambda>_ _. 0), os_file = (\<lambda>_ _. Some (4, [1, 2, 3, 4]))\<rparr> (os_k idle_pru) ''a.bin'' of
       None \<Rightarrow> r = -1 \<and> stores s' = stores idle_pru
     | Some (n, bytes) \<Rightarrow>
         if 0 < n \<and> n \<le> 8192 \<and> n \<le> length bytes then
           r = 0 \<and> stores s' = stores idle_pru @ (control_of idle_pru 0, 1) #
             map (\<lambda>k. (iram_of idle_pru 0 + 4 * of_nat k, le_words (fill_buffer (replicate 8192 0) (take n bytes)) ! k)) [0..<(n + 3) div 4] @
             [(control_of idle_pru 0, push_bit 16 (0 div 4) OR 2)]
         else r = -1 \<and> stores s' = stores idle_pru)"
  by (rule exec_program_file[OF disjI1[OF refl] length_replicate])

text \<open>
  The data loader does not check the size: \<open>prussdrv_load_datafile\<close> reads a file of more than
  8192 bytes into a stack buffer of 8192, which \<open>prussdrv_exec_program_at\<close> refuses.
\<close>

theorem load_datafile_overruns:
  assumes "os_file os (os_k s) filename = Some (n, bytes)" and "8192 < n" "n \<le> length bytes" and "length buf = 8192"
  shows "prussdrv_load_datafile os buf prunum filename s = None \<and>
    (\<exists>s'. prussdrv_exec_program_at os buf prunum filename addr s = Some (s', -1))"
  using assms by (simp add: prussdrv_load_datafile_def prussdrv_exec_program_at_def Let_def PRUSS_MAX_IRAM_SIZE_def)

theorem load_datafile_overruns_witness:
  "prussdrv_load_datafile \<lparr>uio_open = (\<lambda>_ _. 3), sysfs = (\<lambda>_ _. None), os_mmap = (\<lambda>_ _ _ _. 0),
      uio_read = (\<lambda>_ _. 0), os_file = (\<lambda>_ _. Some (9000, replicate 9000 7))\<rparr> (replicate 8192 0) 0 ''a.dat'' idle_pru = None \<and>
    (\<exists>s'. prussdrv_exec_program_at \<lparr>uio_open = (\<lambda>_ _. 3), sysfs = (\<lambda>_ _. None), os_mmap = (\<lambda>_ _ _ _. 0),
      uio_read = (\<lambda>_ _. 0), os_file = (\<lambda>_ _. Some (9000, replicate 9000 7))\<rparr> (replicate 8192 0) 0 ''a.dat'' 0 idle_pru = Some (s', -1))"
proof (rule load_datafile_overruns)
  show "length (replicate 8192 (0 :: u8)) = 8192" "9000 \<le> length (replicate 9000 (7 :: u8))"
    unfolding length_replicate by simp_all
  show "(8192 :: nat) < 9000" by simp
qed (simp only: os_env.select_convs)

section \<open>The memory map\<close>

text \<open>The regions of the AM33xx subsystem: the driver's ids and their physical addresses.\<close>

definition am33_memories :: "(u32 \<times> u32) list" where
  "am33_memories = [(0, 0x4a300000), (1, 0x4a302000), (4, 0x4a310000)]"

definition am33_peripherals :: "(u32 \<times> u32) list" where
  "am33_peripherals = [(5, 0x4a326000), (6, 0x4a328000), (7, 0x4a32e000), (8, 0x4a330000), (9, 0x4a332000), (10, 0x4a332400)]"

text \<open>What the system provides when the driver opens an AM33xx: descriptors, sizes and a mapping that does not wrap.\<close>

definition am33_opens :: "os_env \<Rightarrow> u32 \<Rightarrow> u32 \<Rightarrow> pru_sys \<Rightarrow> bool" where
  "am33_opens os hst b s \<longleftrightarrow>
     unat hst < 8 \<and> length (fd (drv s)) = 8 \<and> fd (drv s) ! unat hst = 0 \<and> 0 < uio_open os (os_k s) hst \<and>
     (\<forall>k. sysfs os k ''/sys/class/uio/uio0/maps/map0/addr'' \<noteq> None) \<and>
     (\<forall>k. sysfs os k ''/sys/class/uio/uio0/maps/map0/size'' = Some 0x40000) \<and>
     (\<forall>k. sysfs os k ''/sys/class/uio/uio0/maps/map1/addr'' \<noteq> None) \<and>
     (\<forall>k. sysfs os k ''/sys/class/uio/uio0/maps/map1/size'' \<noteq> None) \<and>
     (\<forall>k f. os_mmap os k 0x40000 f 0 = b) \<and> unat b + 0x40000 < 2 ^ 32 \<and>
     pmem s (b + 0x4000) \<noteq> 0x4E825900 \<and> pmem s (b + 0x20000) = 0x4E82A900"

definition am33_mapped :: "u32 \<Rightarrow> tprussdrv \<Rightarrow> bool" where
  "am33_mapped b d \<longleftrightarrow> version d = PRUSS_V2 \<and> pruss_map_size d = 0x40000 \<and>
     pru0_dataram_base d = b \<and> pru0_dataram_phy_base d = 0x4a300000 \<and> pru1_dataram_base d = b + 0x2000 \<and>
     intc_base d = b + 0x20000 \<and> pru0_control_base d = b + 0x22000 \<and> pru1_control_base d = b + 0x24000 \<and>
     pru0_iram_base d = b + 0x34000 \<and> pru1_iram_base d = b + 0x38000 \<and> pruss_sharedram_base d = b + 0x10000 \<and>
     pruss_cfg_base d = b + 0x26000 \<and> pruss_uart_base d = b + 0x28000 \<and> pruss_iep_base d = b + 0x2e000 \<and>
     pruss_ecap_base d = b + 0x30000 \<and> pruss_miirt_base d = b + 0x32000 \<and> pruss_mdio_base d = b + 0x32400"

lemma set_bases_mapped:
  assumes "version d = PRUSS_V2" "pruss_map_size d = 0x40000"
  shows "am33_mapped (pru0_dataram_base d) (set_virt_bases (set_phys_bases d))"
  using assms by (simp add: am33_mapped_def set_virt_bases_def set_phys_bases_def Let_def PRUSS_V1_def PRUSS_V2_def)

lemma mapped_extram:
  "am33_mapped b (d\<lparr>extram_phys_base := x\<rparr>) = am33_mapped b d" "am33_mapped b (d\<lparr>extram_map_size := x\<rparr>) = am33_mapped b d"
  "am33_mapped b (d\<lparr>extram_base := x\<rparr>) = am33_mapped b d"
  by (simp_all add: am33_mapped_def)

lemma open_maps:
  assumes "am33_opens os hst b s"
  shows "\<exists>s'. prussdrv_open os hst s = Some (s', 0) \<and> am33_mapped b (drv s') \<and>
    fd (drv s') = (fd (drv s))[unat hst := uio_open os (os_k s) hst] \<and> pmem s' = pmem s"
proof -
  let ?f = "uio_open os (os_k s) hst"
  let ?s = "tick (s\<lparr>drv := (drv s)\<lparr>fd := (fd (drv s))[unat hst := ?f]\<rparr>\<rparr>)"
  note h = assms[unfolded am33_opens_def]
  have "?f \<in> set (fd (drv ?s))" using h by (simp add: set_update_memI)
  then have "find (\<lambda>f. f \<noteq> 0) (fd (drv ?s)) \<noteq> None" using h by (auto simp: find_None_iff)
  then obtain m where m: "(if mmap_fd (drv ?s) = 0 then find (\<lambda>f. f \<noteq> 0) (fd (drv ?s)) else Some (mmap_fd (drv ?s))) = Some m"
    by (cases "mmap_fd (drv ?s) = 0") auto
  obtain a where a: "sysfs os (os_k ?s) ''/sys/class/uio/uio0/maps/map0/addr'' = Some a" using h by blast
  have nf: "b \<noteq> MAP_FAILED"
  proof
    assume "b = MAP_FAILED"
    then have "unat b = 2 ^ 32 - 1" by (simp add: MAP_FAILED_def unsigned_minus_1_eq_mask mask_eq_exp_minus_1)
    then show False using h by simp
  qed
  have v: "detect_hw_version (pmem s) b = PRUSS_V2" using h by (simp add: detect_hw_version_def)
  have "\<forall>k. \<exists>ep. sysfs os k ''/sys/class/uio/uio0/maps/map1/addr'' = Some ep"
    "\<forall>k. \<exists>es. sysfs os k ''/sys/class/uio/uio0/maps/map1/size'' = Some es" using h by blast+
  then obtain ep es where e: "\<forall>k. sysfs os k ''/sys/class/uio/uio0/maps/map1/addr'' = Some (ep k)"
    "\<forall>k. sysfs os k ''/sys/class/uio/uio0/maps/map1/size'' = Some (es k)" by metis
  let ?d = "(drv ?s)\<lparr>mmap_fd := m, pruss_phys_base := a, pruss_map_size := 0x40000, pru0_dataram_base := b, version := PRUSS_V2\<rparr>"
  have "am33_mapped b (set_virt_bases (set_phys_bases ?d))" using set_bases_mapped[of ?d] by simp
  moreover have "fd (set_virt_bases (set_phys_bases ?d)) = (fd (drv s))[unat hst := ?f]"
    by (simp add: set_virt_bases_def set_phys_bases_def Let_def)
  moreover have "\<exists>s'. memmap_init os ?s = Some (s', 0) \<and> pmem s' = pmem s \<and> (\<exists>x y z. drv s' =
      (set_virt_bases (set_phys_bases ?d))\<lparr>extram_phys_base := x, extram_map_size := y, extram_base := z\<rparr>)"
    using m a h nf v e by (simp add: memmap_init_def Let_def) blast
  moreover have "prussdrv_open os hst s = memmap_init os ?s"
    using h by (auto simp: prussdrv_open_def Let_def)
  ultimately show ?thesis using h by (auto simp: mapped_extram)
qed

lemma in_mapping:
  fixes b off :: u32
  assumes "unat b + 0x40000 < 2 ^ 32" "off < 0x40000"
  shows "b \<le> b + off" "b + off < b + 0x40000"
  using assms by (simp_all add: word_le_nat_alt word_less_nat_alt unat_word_ariths)

lemma mapped_region:
  assumes "am33_mapped b (drv s)" "unat b + 0x40000 < 2 ^ 32" "off < 0x40000"
  shows "b \<le> b + off" "b + off < b + 0x40000" "prussdrv_get_phys_addr (b + off) s = 0x4a300000 + off"
    "prussdrv_get_virt_addr (0x4a300000 + off) s = b + off"
proof -
  show io: "b \<le> b + off" "b + off < b + 0x40000" using in_mapping[OF assms(2,3)] .
  have p: "0x4a300000 \<le> 0x4a300000 + off" "0x4a300000 + off < 0x4a300000 + (0x40000 :: u32)"
    using in_mapping[of "0x4a300000" off] assms(3) by simp_all
  show "prussdrv_get_phys_addr (b + off) s = 0x4a300000 + off"
    using assms(1) io by (simp add: prussdrv_get_phys_addr_def am33_mapped_def Let_def)
  show "prussdrv_get_virt_addr (0x4a300000 + off) s = b + off"
    using assms(1) p by (simp add: prussdrv_get_virt_addr_def am33_mapped_def Let_def)
qed

text \<open>
  C18. The memory regions. Opening an AM33xx device succeeds, and every memory and peripheral the
  driver then hands out lies inside the mapping, at the address that \<open>prussdrv_get_phys_addr\<close> translates to
  the region's physical address on the device, and \<open>prussdrv_get_virt_addr\<close> translates back.
\<close>

theorem open_regions:
  assumes "am33_opens os hst b s"
  shows "\<exists>s'. prussdrv_open os hst s = Some (s', 0) \<and>
    (\<forall>(i, p)\<in>set am33_memories. \<exists>a. prussdrv_map_prumem i x s' = (a, 0) \<and> b \<le> a \<and> a < b + 0x40000 \<and>
       prussdrv_get_phys_addr a s' = p \<and> prussdrv_get_virt_addr p s' = a) \<and>
    (\<forall>(i, p)\<in>set am33_peripherals. \<exists>a. prussdrv_map_peripheral_io i x s' = (a, 0) \<and> b \<le> a \<and> a < b + 0x40000 \<and>
       prussdrv_get_phys_addr a s' = p \<and> prussdrv_get_virt_addr p s' = a)"
proof -
  obtain s' where s': "prussdrv_open os hst s = Some (s', 0)" "am33_mapped b (drv s')"
    using open_maps[OF assms] by blast
  have w: "unat b + 0x40000 < 2 ^ 32" using assms by (simp add: am33_opens_def)
  note r = mapped_region[OF s'(2) w]
  have "prussdrv_map_prumem 0 x s' = (b + 0, 0)" "prussdrv_map_prumem 1 x s' = (b + 0x2000, 0)"
      "prussdrv_map_prumem 4 x s' = (b + 0x10000, 0)"
      "prussdrv_map_peripheral_io 5 x s' = (b + 0x26000, 0)" "prussdrv_map_peripheral_io 6 x s' = (b + 0x28000, 0)"
      "prussdrv_map_peripheral_io 7 x s' = (b + 0x2e000, 0)" "prussdrv_map_peripheral_io 8 x s' = (b + 0x30000, 0)"
      "prussdrv_map_peripheral_io 9 x s' = (b + 0x32000, 0)" "prussdrv_map_peripheral_io 10 x s' = (b + 0x32400, 0)"
    using s'(2) by (simp_all add: prussdrv_map_prumem_def prussdrv_map_peripheral_io_def am33_mapped_def Let_def)
  then show ?thesis
    using s'(1) r[of 0] r[of "0x2000"] r[of "0x10000"] r[of "0x26000"] r[of "0x28000"] r[of "0x2e000"] r[of "0x30000"] r[of "0x32000"] r[of "0x32400"]
    by (simp add: am33_memories_def am33_peripherals_def)
qed

definition am33_os :: os_env where
  "am33_os = \<lparr>uio_open = (\<lambda>_ _. 3), sysfs = (\<lambda>_ _. Some 0x40000), os_mmap = (\<lambda>_ _ _ _. 0x10000000),
     uio_read = (\<lambda>_ _. 1), os_file = (\<lambda>_ _. None)\<rparr>"

definition am33_idle :: pru_sys where
  "am33_idle = idle_pru\<lparr>pmem := (\<lambda>a. if a = 0x10020000 then 0x4E82A900 else 0)\<rparr>"

lemma am33_opens_idle: "unat hst < 8 \<Longrightarrow> am33_opens am33_os hst 0x10000000 am33_idle"
  by (simp add: am33_opens_def am33_os_def am33_idle_def idle_pru_def prussdrv_zero_def NUM_PRU_HOSTIRQS_def)

theorem open_regions_witness:
  "\<exists>s'. prussdrv_open am33_os 0 am33_idle = Some (s', 0) \<and>
    (\<forall>(i, p)\<in>set am33_memories. \<exists>a. prussdrv_map_prumem i 0 s' = (a, 0) \<and> 0x10000000 \<le> a \<and> a < 0x10000000 + 0x40000 \<and>
       prussdrv_get_phys_addr a s' = p \<and> prussdrv_get_virt_addr p s' = a) \<and>
    (\<forall>(i, p)\<in>set am33_peripherals. \<exists>a. prussdrv_map_peripheral_io i 0 s' = (a, 0) \<and> 0x10000000 \<le> a \<and> a < 0x10000000 + 0x40000 \<and>
       prussdrv_get_phys_addr a s' = p \<and> prussdrv_get_virt_addr p s' = a)"
  by (rule open_regions) (simp add: am33_opens_idle)

text \<open>
  A failed open is final. When the system refuses the descriptor, \<open>prussdrv_open\<close> returns -1 and
  leaves -1 as the descriptor, so every later attempt on that interrupt returns -1 without asking the system again,
  and \<open>prussdrv_exit\<close> closes descriptor -1.
\<close>

theorem failed_open_is_final:
  assumes "unat hst < length (fd (drv s))" and "fd (drv s) ! unat hst = 0" and "uio_open os (os_k s) hst = -1"
  shows "\<exists>s'. prussdrv_open os hst s = Some (s', -1) \<and> prussdrv_open os' hst s' = Some (s', -1) \<and>
    -1 \<in> set (closed (fst (prussdrv_exit s')))"
proof -
  let ?s' = "tick (s\<lparr>drv := (drv s)\<lparr>fd := (fd (drv s))[unat hst := -1]\<rparr>\<rparr>)"
  have "prussdrv_open os hst s = Some (?s', -1)" "prussdrv_open os' hst ?s' = Some (?s', -1)"
    using assms by (simp_all add: prussdrv_open_def Let_def)
  moreover have "-1 \<in> set (closed (fst (prussdrv_exit ?s')))"
    using assms(1) by (simp add: prussdrv_exit_def Let_def set_update_memI)
  ultimately show ?thesis by blast
qed

theorem failed_open_is_final_witness:
  "\<exists>s'. prussdrv_open (am33_os\<lparr>uio_open := (\<lambda>_ _. -1)\<rparr>) 0 idle_pru = Some (s', -1) \<and>
    prussdrv_open am33_os 0 s' = Some (s', -1) \<and> -1 \<in> set (closed (fst (prussdrv_exit s')))"
  by (rule failed_open_is_final) (simp_all add: idle_pru_def prussdrv_zero_def NUM_PRU_HOSTIRQS_def)

end
