(* ===== verification/Acquisition.thy ===== *)
theory Acquisition
  imports Fp Prussdrv
begin

text \<open>
  Acquisition of the samples: the PRU helpers (\<open>pru.c\<close>), the shared RAM (\<open>Mem.c\<close>), the acquisition
  loop's operations (\<open>DAQ.c\<close>) and the decoding of the packets into channels (\<open>AnalogCore.c\<close>).

  The file-scope variables of \<open>AnalogCore.c\<close> and the driver's record are the state \<open>acq\<close>. The system is
  the parameter \<open>acq_env\<close>: the driver's \<open>os_env\<close>, the descriptor of \<open>/dev/mem\<close>, and the content of the
  shared RAM as the PRU has filled it by the time of the k-th call. \<open>memcpy\<close> from outside the mapping, which
  the kernel rounds up to whole pages, is undefined behaviour.
\<close>

record acq_env =
  hostos :: os_env
  devmem_open :: "nat \<Rightarrow> int"
  shared_ram :: "nat \<Rightarrow> u32 \<Rightarrow> u8"
  stack_buf :: "u8 list"

record acq =
  sys :: pru_sys
  mem_map :: u32
  ram_addr :: u32
  addr :: u32
  dbuffer :: "u8 list"
  buffer_ix :: int
  ch_data :: "fp list list"

definition ENERGY_METER_SAMPLE_RATE :: nat where "ENERGY_METER_SAMPLE_RATE = 15360"
definition ENERGY_METER_FREQ :: nat where "ENERGY_METER_FREQ = 60"
definition PKG_SIZE :: nat where "PKG_SIZE = 100"
definition PKG_SAMPLES :: nat where "PKG_SAMPLES = 4"
definition PKG_COUNT :: nat where "PKG_COUNT = ENERGY_METER_SAMPLE_RATE div PKG_SAMPLES"
definition CHANNELS :: nat where "CHANNELS = 8"
definition AN_CHANNELS :: nat where "AN_CHANNELS = 8"
definition PRU_PACKET_SIZE :: nat where "PRU_PACKET_SIZE = PKG_COUNT * PKG_SIZE"
definition PRU_BUFFER_SIZE :: nat where "PRU_BUFFER_SIZE = 2 * PRU_PACKET_SIZE"

section \<open>The PRU helpers\<close>

text \<open>\<open>AM33XX\<close> is defined in \<open>pruss_intc_mapping.h\<close>, so the events are 17 to 22 and \<open>PRU0_ARM_INTERRUPT\<close> is 19.\<close>

definition PRU0_PRU1_INTERRUPT :: nat where "PRU0_PRU1_INTERRUPT = 17"
definition PRU1_PRU0_INTERRUPT :: nat where "PRU1_PRU0_INTERRUPT = 18"
definition PRU0_ARM_INTERRUPT :: nat where "PRU0_ARM_INTERRUPT = 19"
definition PRU1_ARM_INTERRUPT :: nat where "PRU1_ARM_INTERRUPT = 20"
definition ARM_PRU0_INTERRUPT :: nat where "ARM_PRU0_INTERRUPT = 21"
definition ARM_PRU1_INTERRUPT :: nat where "ARM_PRU1_INTERRUPT = 22"

definition PRUSS_INTC_INITDATA :: tpruss_intc_initdata where
  "PRUSS_INTC_INITDATA = \<lparr>
     sysevts_enabled = map of_nat [PRU0_PRU1_INTERRUPT, PRU1_PRU0_INTERRUPT, PRU0_ARM_INTERRUPT, PRU1_ARM_INTERRUPT,
       ARM_PRU0_INTERRUPT, ARM_PRU1_INTERRUPT] @ 255 # replicate 57 0,
     sysevt_to_channel_map = [(of_nat PRU0_PRU1_INTERRUPT, 1), (of_nat PRU1_PRU0_INTERRUPT, 0), (of_nat PRU0_ARM_INTERRUPT, 2),
       (of_nat PRU1_ARM_INTERRUPT, 3), (of_nat ARM_PRU0_INTERRUPT, 0), (of_nat ARM_PRU1_INTERRUPT, 1), (-1, -1)] @ replicate 57 (0, 0),
     channel_to_host_map = [(0, 0), (1, 1), (2, 2), (3, 3), (-1, -1)] @ replicate 5 (0, 0),
     host_enable_bitmask = 0x0001 OR 0x0002 OR 0x0004 OR 0x0008\<rparr>"

definition pru_setup :: "os_env \<Rightarrow> pru_sys \<Rightarrow> (pru_sys \<times> int) option" where
  "pru_setup os s =
     do { let s = fst (prussdrv_init s);
          (s, r) \<leftarrow> prussdrv_open os 0 s;
          if r \<noteq> 0 then Some (s, -1) else do {
          (s, r) \<leftarrow> prussdrv_open os 1 s;
          if r \<noteq> 0 then Some (s, -1) else do {
          (s, r) \<leftarrow> prussdrv_pruintc_init PRUSS_INTC_INITDATA s;
          if r \<noteq> 0 then Some (s, -1) else Some (s, 0) }}}"

text \<open>\<open>mem\<close> is the uninitialised local the driver may leave alone.\<close>

definition pru_mmap :: "u32 \<Rightarrow> int \<Rightarrow> pru_sys \<Rightarrow> u32 \<times> int" where
  "pru_mmap mem pru_number s =
     (if pru_number = 0 then (fst (prussdrv_map_prumem 0 mem s), 0)
      else (fst (prussdrv_map_prumem 1 mem s), 0))"

definition pru_start :: "os_env \<Rightarrow> u8 list \<Rightarrow> u32 \<Rightarrow> string \<Rightarrow> pru_sys \<Rightarrow> (pru_sys \<times> int) option" where
  "pru_start os buf pru_number program s =
     do { (s, r) \<leftarrow> prussdrv_exec_program os buf pru_number program s;
          Some (s, if r \<noteq> 0 then -1 else 0) }"

definition pru_stop :: "u32 \<Rightarrow> pru_sys \<Rightarrow> pru_sys \<times> int" where
  "pru_stop pru_number s =
     (let (s, r) = prussdrv_pru_disable pru_number s in (s, if r \<noteq> 0 then -1 else 0))"

definition pru_cleanup :: "pru_sys \<Rightarrow> pru_sys \<times> int" where
  "pru_cleanup s = (fst (prussdrv_exit s), 0)"

section \<open>The shared RAM\<close>

definition PAGE_MASK :: u32 where "PAGE_MASK = 4096 - 1"

definition getMemInfo :: "os_env \<Rightarrow> pru_sys \<Rightarrow> (pru_sys \<times> u32 \<times> u32) option" where
  "getMemInfo os s =
     do { a \<leftarrow> sysfs os (os_k s) ''/sys/class/uio/uio0/maps/map1/addr'';
          let s = tick s;
          sz \<leftarrow> sysfs os (os_k s) ''/sys/class/uio/uio0/maps/map1/size'';
          Some (tick s, a, sz) }"

definition Allocate_RAM :: "acq_env \<Rightarrow> u32 \<Rightarrow> acq \<Rightarrow> (acq \<times> int) option" where
  "Allocate_RAM env buffer_size st =
     do { (s, a, sz) \<leftarrow> getMemInfo (hostos env) (sys st);
          let st = st\<lparr>sys := s, addr := a\<rparr>;
          if sz < buffer_size then Some (st, -1) else
          let f = devmem_open env (os_k s); st = st\<lparr>sys := tick s\<rparr> in
          if f = -1 then Some (st, -1) else
          let m = os_mmap (hostos env) (os_k (sys st)) buffer_size f (a AND NOT PAGE_MASK);
              st = st\<lparr>sys := (tick (sys st))\<lparr>closed := closed (sys st) @ [f]\<rparr>, mem_map := m\<rparr> in
          if m = -1 then Some (st, -1)
          else Some (st\<lparr>ram_addr := m + (a AND PAGE_MASK)\<rparr>, 0) }"

text \<open>
  \<open>munmap\<close> of \<open>RAM_SIZE(buffer_size)\<close> bytes, a quarter of the buffer; \<open>ok\<close> is its success.
\<close>

definition Release_RAM :: "bool \<Rightarrow> u32 \<Rightarrow> u32 \<Rightarrow> acq \<Rightarrow> acq \<times> int" where
  "Release_RAM ok m buffer_size st =
     (st\<lparr>sys := (sys st)\<lparr>unmapped := unmapped (sys st) @ (if ok then [(m, buffer_size div 4)] else [])\<rparr>\<rparr>,
      if ok then 0 else -1)"

section \<open>Acquisition\<close>

definition DAQ_Setup :: "acq_env \<Rightarrow> u32 \<Rightarrow> u32 \<Rightarrow> pru_sys \<Rightarrow> (pru_sys \<times> int) option" where
  "DAQ_Setup env junk a s =
     do { (s, r) \<leftarrow> pru_setup (hostos env) s;
          if r \<noteq> 0 then Some (s, -1) else do {
          let pru0_mem = fst (pru_mmap junk 0 s);
          let s = store pru0_mem a s;
          (s, r) \<leftarrow> pru_start (hostos env) (stack_buf env) 0 ''pru/ads131e08s_pru0.bin'' s;
          if r \<noteq> 0 then Some (s, -1) else do {
          (s, r) \<leftarrow> pru_start (hostos env) (stack_buf env) 1 ''pru/ads131e08s_pru1.bin'' s;
          Some (s, if r \<noteq> 0 then -1 else 0) }}}"

definition DAQ_Stop :: "pru_sys \<Rightarrow> pru_sys" where
  "DAQ_Stop s = fst (pru_cleanup (fst (pru_stop 0 (fst (pru_stop 1 s)))))"

text \<open>The end of the mapping of the buffer: whole pages.\<close>

definition mapped_bytes :: nat where
  "mapped_bytes = (PRU_BUFFER_SIZE + 4095) div 4096 * 4096"

definition ram_copy :: "acq_env \<Rightarrow> nat \<Rightarrow> u32 \<Rightarrow> u32 \<Rightarrow> nat \<Rightarrow> u8 list option" where
  "ram_copy env k m from n =
     (if m \<le> from \<and> unat (from - m) + n \<le> mapped_bytes
      then Some (map (\<lambda>i. shared_ram env k (from + of_nat i)) [0..<n]) else None)"

definition DAQ_Run :: "acq_env \<Rightarrow> u32 \<Rightarrow> u32 \<Rightarrow> nat \<Rightarrow> pru_sys \<Rightarrow> (pru_sys \<times> u8 list \<times> u32) option" where
  "DAQ_Run env m from n s =
     do { (s, cnt) \<leftarrow> prussdrv_pru_wait_event (hostos env) 0 s;
          (s, r) \<leftarrow> prussdrv_pru_clear_event 0 (of_nat PRU0_ARM_INTERRUPT) s;
          bytes \<leftarrow> ram_copy env (os_k s) m from n;
          Some (s, bytes, cnt) }"

section \<open>Decoding the packets\<close>

text \<open>Three bytes, most significant first, sign-extended from 24 bits by a shift up and down.\<close>

definition raw_value :: "u8 \<Rightarrow> u8 \<Rightarrow> u8 \<Rightarrow> u32" where
  "raw_value b0 b1 b2 =
     (let v = push_bit 16 (ucast b0) OR push_bit 8 (ucast b1) OR (ucast b2 :: u32)
      in signed_drop_bit 8 (push_bit 8 v))"

definition sample_value :: "rnd \<Rightarrow> u8 \<Rightarrow> u8 \<Rightarrow> u8 \<Rightarrow> fp" where
  "sample_value rd b0 b1 b2 =
     (let v = fcvt rd SGL (fmul rd DBL (f_of_int rd DBL (sint (raw_value b0 b1 b2))) (fconst rd DBL 4))
      in fcvt rd SGL (fdiv rd DBL (fcvt rd DBL v) (fconst rd DBL 8388607)))"

text \<open>The innermost loop over the channels: \<open>p\<close> is the byte position, \<open>k\<close> the channel.\<close>

fun conv_channels :: "rnd \<Rightarrow> u8 list \<Rightarrow> int \<Rightarrow> int \<Rightarrow> int \<Rightarrow> nat \<Rightarrow> fp list list \<Rightarrow> fp list list option" where
  "conv_channels rd buf p s_idx k 0 ch = Some ch"
| "conv_channels rd buf p s_idx k (Suc n) ch =
     do { b0 \<leftarrow> rd_at buf p;
          b1 \<leftarrow> rd_at buf (p + 1);
          b2 \<leftarrow> rd_at buf (p + 2);
          row \<leftarrow> rd_at ch k;
          row' \<leftarrow> wr_at row s_idx (sample_value rd b0 b1 b2);
          conv_channels rd buf (p + 3) s_idx (k + 1) n (ch[nat k := row']) }"

fun conv_samples :: "rnd \<Rightarrow> u8 list \<Rightarrow> nat \<Rightarrow> int \<Rightarrow> int \<Rightarrow> nat \<Rightarrow> fp list list \<Rightarrow> (int \<times> fp list list) option" where
  "conv_samples rd buf n p s_idx 0 ch = Some (s_idx, ch)"
| "conv_samples rd buf n p s_idx (Suc j) ch =
     do { ch \<leftarrow> conv_channels rd buf p s_idx 0 n ch;
          conv_samples rd buf n (p + 24) (s_idx + 1) j ch }"

fun conv_packets :: "rnd \<Rightarrow> u8 list \<Rightarrow> nat \<Rightarrow> int \<Rightarrow> int \<Rightarrow> nat \<Rightarrow> fp list list \<Rightarrow> fp list list option" where
  "conv_packets rd buf n i s_idx 0 ch = Some ch"
| "conv_packets rd buf n i s_idx (Suc c) ch =
     do { (s_idx, ch) \<leftarrow> conv_samples rd buf n (i * int PKG_SIZE + 4) s_idx PKG_SAMPLES ch;
          conv_packets rd buf n (i + 1) s_idx c ch }"

definition ConvertRawValues :: "rnd \<Rightarrow> u8 list \<Rightarrow> nat \<Rightarrow> fp list list \<Rightarrow> fp list list option" where
  "ConvertRawValues rd buf n ch = conv_packets rd buf n 0 0 PKG_COUNT ch"

section \<open>The analog core\<close>

definition AnalogCore_Init :: "acq_env \<Rightarrow> acq \<Rightarrow> (acq \<times> int) option" where
  "AnalogCore_Init env st =
     do { (st, r) \<leftarrow> Allocate_RAM env (of_nat PRU_BUFFER_SIZE) (st\<lparr>buffer_ix := 0\<rparr>);
          Some (st, if r \<noteq> 0 then -1 else 0) }"

definition AnalogCore_Deinit :: "bool \<Rightarrow> acq \<Rightarrow> acq" where
  "AnalogCore_Deinit ok st = fst (Release_RAM ok (mem_map st) (of_nat PRU_BUFFER_SIZE) st)"

text \<open>\<open>channel[idx] = &ch_data[idx][0]\<close>: a pointer into the channel table is the row's number.\<close>

definition AnalogCore_Setup :: "acq_env \<Rightarrow> u32 \<Rightarrow> nat list option \<Rightarrow> acq \<Rightarrow> (acq \<times> nat list option \<times> int) option" where
  "AnalogCore_Setup env junk pAnalog st =
     do { (s, status) \<leftarrow> DAQ_Setup env junk (addr st) (sys st);
          Some (st\<lparr>sys := s, buffer_ix := 0\<rparr>, map_option (\<lambda>_. [0..<AN_CHANNELS]) pAnalog, status) }"

definition AnalogCore_GetSamples :: "rnd \<Rightarrow> acq_env \<Rightarrow> acq \<Rightarrow> (acq \<times> u32) option" where
  "AnalogCore_GetSamples rd env st =
     do { let half = (if buffer_ix st = 0 then 0 else of_nat PRU_PACKET_SIZE);
          (s, bytes, EventN) \<leftarrow> DAQ_Run env (mem_map st) (ram_addr st + half) PRU_PACKET_SIZE (sys st);
          let st = st\<lparr>sys := s, dbuffer := bytes, buffer_ix := (if buffer_ix st = 0 then 1 else 0)\<rparr>;
          ch \<leftarrow> ConvertRawValues rd (dbuffer st) 8 (ch_data st);
          Some (st\<lparr>ch_data := ch\<rparr>, EventN) }"

end
