(* ===== verification/Acquisition_Props.thy ===== *)
theory Acquisition_Props
  imports Acquisition Prussdrv_Props
begin

text \<open>
  What the acquisition promises: the packet decoding fills every channel from the right bytes with the right
  value and never leaves its arrays, the double buffer alternates, the PRU set-up leaves the interrupt
  routing the acquisition waits on; and where the shared RAM's bookkeeping falls short.
\<close>

section \<open>One sample\<close>

lemma sint_24:
  fixes v :: u32
  assumes "uint v < 2 ^ 24"
  shows "sint (signed_drop_bit 8 (push_bit 8 v)) = (if uint v < 2 ^ 23 then uint v else uint v - 2 ^ 24)"
proof -
  have "sint (signed_drop_bit 8 (push_bit 8 v)) = signed_take_bit 23 (uint v)"
  proof (rule bit_eqI)
    fix n
    show "bit (sint (signed_drop_bit 8 (push_bit 8 v))) n \<longleftrightarrow> bit (signed_take_bit 23 (uint v)) n"
      by (cases "n = 23") (auto simp: bit_simps min_def)
  qed
  also have "\<dots> = (if uint v < 2 ^ 23 then uint v else uint v - 2 ^ 24)"
  proof (cases "uint v < 2 ^ 23")
    case True
    have "- (2 ^ 23) \<le> uint v" by (rule order_trans[OF _ uint_ge_0]) simp
    then show ?thesis using True by (simp add: signed_take_bit_int_eq_self)
  next
    case False
    have "signed_take_bit 23 (uint v) = uint v - 2 ^ 24"
      using mod_add_self2[of "uint v - 2 ^ 23" "2 ^ 24"] False assms
      by (simp add: signed_take_bit_eq_take_bit_shift take_bit_eq_mod add.commute[of "uint v"])
    then show ?thesis using False by simp
  qed
  finally show ?thesis .
qed

lemma bytes_24:
  fixes b0 b1 b2 :: u8
  shows "uint (push_bit 16 (ucast b0) OR push_bit 8 (ucast b1) OR (ucast b2 :: u32)) = uint b0 * 65536 + uint b1 * 256 + uint b2"
proof -
  have "uint (push_bit 16 (ucast b0) OR push_bit 8 (ucast b1) OR (ucast b2 :: u32))
      = push_bit 16 (uint b0) OR (push_bit 8 (uint b1) OR uint b2)"
    by (rule bit_eqI) (auto simp: bit_simps dest: bit_imp_le_length)
  also have "\<dots> = push_bit 16 (uint b0) + (push_bit 8 (uint b1) OR uint b2)"
    by (rule disjunctive_add[symmetric]) (auto simp: bit_simps dest: bit_imp_le_length)
  also have "push_bit 8 (uint b1) OR uint b2 = push_bit 8 (uint b1) + uint b2"
    by (rule disjunctive_add[symmetric]) (auto simp: bit_simps dest: bit_imp_le_length)
  finally show ?thesis by (simp add: push_bit_eq_mult)
qed

text \<open>The value the three bytes stand for.\<close>

definition adc_code :: "u8 \<Rightarrow> u8 \<Rightarrow> u8 \<Rightarrow> int" where
  "adc_code b0 b1 b2 = (let u = uint b0 * 65536 + uint b1 * 256 + uint b2 in if u < 2 ^ 23 then u else u - 2 ^ 24)"

lemma raw_value_code: "sint (raw_value b0 b1 b2) = adc_code b0 b1 b2"
proof -
  have "uint b0 * 65536 + uint b1 * 256 + uint b2 < 2 ^ 24"
    using uint_lt2p[of b0] uint_lt2p[of b1] uint_lt2p[of b2] by simp
  then show ?thesis
    unfolding raw_value_def Let_def adc_code_def by (subst sint_24) (simp_all add: bytes_24)
qed

lemma adc_code_range: "- (2 ^ 23) \<le> adc_code b0 b1 b2 \<and> adc_code b0 b1 b2 < 2 ^ 23"
proof -
  define u where "u = uint b0 * 65536 + uint b1 * 256 + uint b2"
  have "0 \<le> u" by (simp add: u_def)
  moreover have "u < 2 ^ 24"
    using uint_lt2p[of b0] uint_lt2p[of b1] uint_lt2p[of b2] by (simp add: u_def)
  ultimately show ?thesis unfolding adc_code_def u_def[symmetric] Let_def by auto
qed

lemma sample_value_exact: "is_fin (sample_value exact b0 b1 b2)"
  "valof (sample_value exact b0 b1 b2) = 4 * of_int (adc_code b0 b1 b2) / 8388607"
  by (simp_all add: sample_value_def Let_def fp_eval raw_value_code del: fcvt.simps)

section \<open>The packets\<close>

definition shape :: "nat \<Rightarrow> nat \<Rightarrow> fp list list \<Rightarrow> bool" where
  "shape rows cols ch \<longleftrightarrow> length ch = rows \<and> (\<forall>r<rows. length (ch ! r) = cols)"

definition sample_at :: "rnd \<Rightarrow> u8 list \<Rightarrow> nat \<Rightarrow> fp" where
  "sample_at rd buf q = sample_value rd (buf ! q) (buf ! (q + 1)) (buf ! (q + 2))"

lemma shape_replicate: "shape R C (replicate R (replicate C x))"
  by (simp add: shape_def)

lemma shape_update: "shape R C ch \<Longrightarrow> r < R \<Longrightarrow> length row = C \<Longrightarrow> shape R C (ch[r := row])"
  by (auto simp: shape_def nth_list_update)

lemma conv_channels_ok:
  assumes "s < C"
  shows "shape R C ch \<Longrightarrow> k + n \<le> R \<Longrightarrow> p + 3 * n \<le> length buf \<Longrightarrow>
    \<exists>ch'. conv_channels rd buf (int p) (int s) (int k) n ch = Some ch' \<and> shape R C ch' \<and>
      (\<forall>r<R. \<forall>c<C. ch' ! r ! c = (if c = s \<and> k \<le> r \<and> r < k + n then sample_at rd buf (p + 3 * (r - k)) else ch ! r ! c))"
proof (induction n arbitrary: p k ch)
  case (Suc n)
  let ?v = "sample_at rd buf p"
  let ?ch = "ch[k := (ch ! k)[s := ?v]]"
  have k: "k < R" "length (ch ! k) = C" "length ch = R" using Suc.prems by (auto simp: shape_def)
  have sh: "shape R C ?ch" using Suc.prems k by (intro shape_update) auto
  have b: "rd_at buf (int p) = Some (buf ! p)" "rd_at buf (int p + 1) = Some (buf ! (p + 1))"
      "rd_at buf (int p + 2) = Some (buf ! (p + 2))"
    using Suc.prems(3) by (auto simp: rd_at_def nat_add_distrib)
  have step: "conv_channels rd buf (int p) (int s) (int k) (Suc n) ch = conv_channels rd buf (int (p + 3)) (int s) (int (k + 1)) n ?ch"
    using b k assms by (simp add: sample_at_def add.commute)
  obtain ch' where ch': "conv_channels rd buf (int (p + 3)) (int s) (int (k + 1)) n ?ch = Some ch'" "shape R C ch'"
      "\<forall>r<R. \<forall>c<C. ch' ! r ! c = (if c = s \<and> k + 1 \<le> r \<and> r < k + 1 + n then sample_at rd buf (p + 3 + 3 * (r - (k + 1))) else ?ch ! r ! c)"
    using Suc.IH[OF sh, of "k + 1" "p + 3"] Suc.prems by auto
  have "ch' ! r ! c = (if c = s \<and> k \<le> r \<and> r < k + Suc n then sample_at rd buf (p + 3 * (r - k)) else ch ! r ! c)"
    if "r < R" "c < C" for r c
  proof (cases "r = k")
    case False
    have "r - k = Suc (r - Suc k)" if "Suc k \<le> r" using that by linarith
    then show ?thesis using ch'(3) that False k by (auto simp: add.assoc)
  qed (use ch'(3) that k in auto)
  then show ?case using step ch' by auto
qed auto

lemma conv_samples_ok:
  assumes "n = R"
  shows "shape R C ch \<Longrightarrow> s + j \<le> C \<Longrightarrow> p + 24 * j \<le> length buf \<Longrightarrow> 3 * R \<le> 24 \<Longrightarrow>
    \<exists>ch'. conv_samples rd buf n (int p) (int s) j ch = Some (int (s + j), ch') \<and> shape R C ch' \<and>
      (\<forall>r<R. \<forall>c<C. ch' ! r ! c = (if s \<le> c \<and> c < s + j then sample_at rd buf (p + 24 * (c - s) + 3 * r) else ch ! r ! c))"
proof (induction j arbitrary: p s ch)
  case (Suc j)
  have "s < C" using Suc.prems by simp
  obtain ch1 where c1: "conv_channels rd buf (int p) (int s) 0 n ch = Some ch1" "shape R C ch1"
      "\<forall>r<R. \<forall>c<C. ch1 ! r ! c = (if c = s then sample_at rd buf (p + 3 * r) else ch ! r ! c)"
    using conv_channels_ok[OF \<open>s < C\<close> Suc.prems(1), of 0 n p buf rd] Suc.prems assms by auto
  obtain ch' where ch': "conv_samples rd buf n (int (p + 24)) (int (s + 1)) j ch1 = Some (int (s + 1 + j), ch')" "shape R C ch'"
      "\<forall>r<R. \<forall>c<C. ch' ! r ! c = (if s + 1 \<le> c \<and> c < s + 1 + j then sample_at rd buf (p + 24 + 24 * (c - (s + 1)) + 3 * r) else ch1 ! r ! c)"
    using Suc.IH[OF c1(2), of "s + 1" "p + 24"] Suc.prems by auto
  have "ch' ! r ! c = (if s \<le> c \<and> c < s + Suc j then sample_at rd buf (p + 24 * (c - s) + 3 * r) else ch ! r ! c)"
    if "r < R" "c < C" for r c
  proof (cases "c = s")
    case False
    have "c - s = Suc (c - Suc s)" if "Suc s \<le> c" using that by linarith
    then show ?thesis using ch'(3) c1(3) that False by (auto simp: add.assoc)
  qed (use ch'(3) c1(3) that in auto)
  then show ?case using c1(1) ch' by (auto simp: add.commute)
qed auto

text \<open>The byte at which channel \<open>r\<close> of sample \<open>c\<close> starts: the packet, its four skipped bytes, the sample, the channel.\<close>

definition sample_pos :: "nat \<Rightarrow> nat \<Rightarrow> nat" where
  "sample_pos c r = (c div 4) * 100 + 4 + (c mod 4) * 24 + 3 * r"

lemma conv_packets_ok:
  "shape 8 C ch \<Longrightarrow> 4 * (i + n) \<le> C \<Longrightarrow> 100 * (i + n) \<le> length buf \<Longrightarrow>
    \<exists>ch'. conv_packets rd buf 8 (int i) (int (4 * i)) n ch = Some ch' \<and> shape 8 C ch' \<and>
      (\<forall>r<8. \<forall>c<C. ch' ! r ! c = (if 4 * i \<le> c \<and> c < 4 * (i + n) then sample_at rd buf (sample_pos c r) else ch ! r ! c))"
proof (induction n arbitrary: i ch)
  case (Suc n)
  let ?p = "100 * i + 4"
  have ppos: "int i * int PKG_SIZE + 4 = int ?p" by (simp add: PKG_SIZE_def)
  obtain ch1 where c1: "conv_samples rd buf 8 (int ?p) (int (4 * i)) 4 ch = Some (int (4 * i + 4), ch1)" "shape 8 C ch1"
      "\<forall>r<8. \<forall>c<C. ch1 ! r ! c = (if 4 * i \<le> c \<and> c < 4 * i + 4 then sample_at rd buf (?p + 24 * (c - 4 * i) + 3 * r) else ch ! r ! c)"
    using conv_samples_ok[OF refl Suc.prems(1), of "4 * i" 4 ?p buf rd] Suc.prems(2,3) by auto
  have s4: "int (4 * i + 4) = int (4 * (i + 1))" "int i + 1 = int (i + 1)" by simp_all
  obtain ch' where ch': "conv_packets rd buf 8 (int (i + 1)) (int (4 * (i + 1))) n ch1 = Some ch'" "shape 8 C ch'"
      "\<forall>r<8. \<forall>c<C. ch' ! r ! c = (if 4 * (i + 1) \<le> c \<and> c < 4 * (i + 1 + n) then sample_at rd buf (sample_pos c r) else ch1 ! r ! c)"
    using Suc.IH[OF c1(2), of "i + 1"] Suc.prems(2,3) by auto
  have pos: "?p + 24 * (c - 4 * i) + 3 * r = sample_pos c r" if "4 * i \<le> c" "c < 4 * i + 4" for c r
  proof -
    have "c div 4 = i" "c mod 4 = c - 4 * i" using that by (auto simp: div_nat_eqI mod_nat_eqI)
    then show ?thesis by (simp add: sample_pos_def)
  qed
  have "ch' ! r ! c = (if 4 * i \<le> c \<and> c < 4 * (i + Suc n) then sample_at rd buf (sample_pos c r) else ch ! r ! c)"
    if "r < 8" "c < C" for r c
    using ch'(3) c1(3) that pos[of c r] by auto
  moreover have "conv_packets rd buf 8 (int i) (int (4 * i)) (Suc n) ch = Some ch'"
    using c1(1) ch'(1) unfolding conv_packets.simps ppos s4 PKG_SAMPLES_def by simp
  ultimately show ?case using ch'(2) by blast
qed auto

lemma ConvertRawValues_ok:
  assumes "shape 8 15360 ch" "length buf = 384000"
  shows "\<exists>ch'. ConvertRawValues rd buf 8 ch = Some ch' \<and> shape 8 15360 ch' \<and>
    (\<forall>r<8. \<forall>c<15360. ch' ! r ! c = sample_at rd buf (sample_pos c r))"
  using conv_packets_ok[OF assms(1), of 0 3840 buf rd] assms(2)
  by (simp add: ConvertRawValues_def PKG_COUNT_def ENERGY_METER_SAMPLE_RATE_def PKG_SAMPLES_def)

text \<open>
  C19. The decoding of one second of packets. From a raw buffer of 3840 packets of 100 bytes,
  \<open>ConvertRawValues\<close> writes every one of the 8 x 15360 channel samples, each from its own three bytes
  (packet, skipped four-byte word, sample, channel), without leaving the buffer or the channel table; and in
  exact arithmetic the value is the 24-bit two's complement code scaled to volts, within the 4 V reference.
\<close>

theorem convert_raw_values:
  assumes "shape 8 15360 ch" "length buf = 384000"
  shows "\<exists>ch'. ConvertRawValues exact buf 8 ch = Some ch' \<and> shape 8 15360 ch' \<and>
    (\<forall>r<8. \<forall>c<15360. let q = sample_pos c r; v = valof (ch' ! r ! c) in
       v = 4 * of_int (adc_code (buf ! q) (buf ! (q + 1)) (buf ! (q + 2))) / 8388607 \<and>
       - 4 * 8388608 / 8388607 \<le> v \<and> v \<le> 4)"
proof -
  obtain ch' where ch': "ConvertRawValues exact buf 8 ch = Some ch'" "shape 8 15360 ch'"
      "\<forall>r<8. \<forall>c<15360. ch' ! r ! c = sample_at exact buf (sample_pos c r)"
    using ConvertRawValues_ok[OF assms] by blast
  have "- 4 * 8388608 / 8388607 \<le> (4 :: real) * of_int (adc_code a b c) / 8388607 \<and> 4 * of_int (adc_code a b c) / 8388607 \<le> (4 :: real)" for a b c
  proof -
    have "of_int (- (2 ^ 23)) \<le> (of_int (adc_code a b c) :: real)" "of_int (adc_code a b c) \<le> (of_int (2 ^ 23 - 1) :: real)"
      using adc_code_range[of a b c] by (simp_all only: of_int_le_iff) simp_all
    then show ?thesis by simp
  qed
  then have "\<forall>r<8. \<forall>c<15360. let q = sample_pos c r; v = valof (ch' ! r ! c) in
       v = 4 * of_int (adc_code (buf ! q) (buf ! (q + 1)) (buf ! (q + 2))) / 8388607 \<and>
       - 4 * 8388608 / 8388607 \<le> v \<and> v \<le> 4"
    using ch'(3) by (simp add: Let_def sample_at_def sample_value_exact)
  with ch'(1,2) show ?thesis by blast
qed

theorem convert_raw_values_witness:
  "\<exists>ch'. ConvertRawValues exact (replicate 384000 0x80) 8 (replicate 8 (replicate 15360 FNaN)) = Some ch' \<and> shape 8 15360 ch' \<and>
    (\<forall>r<8. \<forall>c<15360. let q = sample_pos c r; v = valof (ch' ! r ! c) in
       v = 4 * of_int (adc_code (replicate 384000 0x80 ! q) (replicate 384000 0x80 ! (q + 1)) (replicate 384000 0x80 ! (q + 2))) / 8388607 \<and>
       - 4 * 8388608 / 8388607 \<le> v \<and> v \<le> 4)"
  by (rule convert_raw_values[OF shape_replicate length_replicate])

section \<open>The double buffer\<close>

text \<open>A state in which the acquisition can run: the driver is open and the arrays are there.\<close>

definition acq_ready :: "acq \<Rightarrow> bool" where
  "acq_ready st \<longleftrightarrow> length (fd (drv (sys st))) = 8 \<and> (buffer_ix st = 0 \<or> buffer_ix st = 1) \<and> shape 8 15360 (ch_data st)"

definition half_of :: "int \<Rightarrow> u32" where
  "half_of ix = (if ix = 0 then 0 else 384000)"

lemma buffer_sizes: "PRU_PACKET_SIZE = 384000" "mapped_bytes = 770048"
  by (simp_all add: PRU_PACKET_SIZE_def PKG_COUNT_def PKG_SIZE_def PKG_SAMPLES_def ENERGY_METER_SAMPLE_RATE_def
      mapped_bytes_def PRU_BUFFER_SIZE_def)

lemmas event_numbers = PRU0_PRU1_INTERRUPT_def PRU1_PRU0_INTERRUPT_def PRU0_ARM_INTERRUPT_def
  PRU1_ARM_INTERRUPT_def ARM_PRU0_INTERRUPT_def ARM_PRU1_INTERRUPT_def

lemma clear_pru0_event:
  "\<exists>s'. prussdrv_pru_clear_event 0 (of_nat PRU0_ARM_INTERRUPT) s = Some (s', 0) \<and> drv s' = drv s \<and> os_k s' = os_k s \<and>
    stores s' = stores s @ [(intc_base (drv s) + 0x280, 2 ^ 19), (intc_base (drv s) + 0x034, 2)]"
  by (simp add: prussdrv_pru_clear_event_def event_numbers push_bit_eq_mult)

lemma offset_sum:
  fixes m d h :: u32
  assumes "unat m + N < 2 ^ 32" "unat d + unat h \<le> N"
  shows "m \<le> m + d + h" "unat (m + d + h - m) = unat d + unat h"
proof -
  have s: "unat (d + h) = unat d + unat h" using assms by (intro unat_add_lem[THEN iffD1]) simp
  then have "unat (m + (d + h)) = unat m + unat (d + h)" using assms by (intro unat_add_lem[THEN iffD1]) simp
  then show "m \<le> m + d + h" unfolding word_le_nat_alt add.assoc by simp
  have "m + d + h - m = d + h" by simp
  then show "unat (m + d + h - m) = unat d + unat h" using s by simp
qed

lemma ram_copy_half:
  assumes "unat (r - m) \<le> 2048" "unat m + 770048 < 2 ^ 32"
  shows "ram_copy env k m (r + half_of ix) 384000 =
    Some (map (\<lambda>i. shared_ram env k (r + half_of ix + of_nat i)) [0..<384000])"
proof -
  have h: "unat (half_of ix) \<le> 384000" by (simp add: half_of_def)
  have "unat (r - m) + unat (half_of ix) \<le> 770048" using assms(1) h by simp
  from offset_sum[OF assms(2) this] have "m \<le> r + half_of ix" "unat (r + half_of ix - m) = unat (r - m) + unat (half_of ix)"
    by simp_all
  moreover have "unat (r - m) + unat (half_of ix) + 384000 \<le> 770048" using assms(1) h by linarith
  ultimately show ?thesis by (simp only: ram_copy_def buffer_sizes) simp
qed

lemma get_samples_ok:
  assumes "acq_ready st" and "unat (ram_addr st - mem_map st) \<le> 2048"
    and "unat (mem_map st) + 770048 < 2 ^ 32"
  shows "\<exists>st' n k. AnalogCore_GetSamples rd env st = Some (st', n) \<and> acq_ready st' \<and> buffer_ix st' = 1 - buffer_ix st \<and>
    dbuffer st' = map (\<lambda>i. shared_ram env k (ram_addr st + half_of (buffer_ix st) + of_nat i)) [0..<384000] \<and>
    (\<forall>r<8. \<forall>c<15360. ch_data st' ! r ! c = sample_at rd (dbuffer st') (sample_pos c r)) \<and>
    k = Suc (os_k (sys st)) \<and> n = uio_read (hostos env) (os_k (sys st)) (fd (drv (sys st)) ! 0) \<and>
    stores (sys st') = stores (sys st) @
      [(intc_base (drv (sys st)) + 0x280, 2 ^ 19), (intc_base (drv (sys st)) + 0x034, 2)]"
proof -
  have f: "length (fd (drv (sys st))) = 8" and ix: "buffer_ix st = 0 \<or> buffer_ix st = 1" and sh: "shape 8 15360 (ch_data st)"
    using assms(1) by (auto simp: acq_ready_def)
  let ?n = "uio_read (hostos env) (os_k (sys st)) (fd (drv (sys st)) ! 0)"
  have w: "prussdrv_pru_wait_event (hostos env) 0 (sys st) = Some (tick (sys st), ?n)"
    using f by (simp add: prussdrv_pru_wait_event_def rd_at_def)
  obtain s' where c: "prussdrv_pru_clear_event 0 (of_nat PRU0_ARM_INTERRUPT) (tick (sys st)) = Some (s', 0)"
      "drv s' = drv (sys st)" "os_k s' = Suc (os_k (sys st))"
      "stores s' = stores (sys st) @ [(intc_base (drv (sys st)) + 0x280, 2 ^ 19), (intc_base (drv (sys st)) + 0x034, 2)]"
    using clear_pru0_event[of "tick (sys st)"] by (auto simp: tick_def)
  let ?bytes = "map (\<lambda>i. shared_ram env (os_k s') (ram_addr st + half_of (buffer_ix st) + of_nat i)) [0..<384000]"
  have "DAQ_Run env (mem_map st) (ram_addr st + half_of (buffer_ix st)) 384000 (sys st) = Some (s', ?bytes, ?n)"
    using w c(1) ram_copy_half[OF assms(2,3)] by (simp add: DAQ_Run_def del: upt_rec_numeral)
  moreover have "(if buffer_ix st = 0 then 0 else of_nat PRU_PACKET_SIZE) = half_of (buffer_ix st)"
    by (simp add: half_of_def buffer_sizes)
  moreover have "length ?bytes = 384000" by (simp del: upt_rec_numeral)
  then obtain ch' where ch': "ConvertRawValues rd ?bytes 8 (ch_data st) = Some ch'" "shape 8 15360 ch'"
      "\<forall>r<8. \<forall>c<15360. ch' ! r ! c = sample_at rd ?bytes (sample_pos c r)"
    using ConvertRawValues_ok[OF sh] by blast
  ultimately have "AnalogCore_GetSamples rd env st = Some (st\<lparr>sys := s', dbuffer := ?bytes,
      buffer_ix := (if buffer_ix st = 0 then 1 else 0), ch_data := ch'\<rparr>, ?n)"
    by (simp add: AnalogCore_GetSamples_def buffer_sizes Let_def del: upt_rec_numeral)
  then show ?thesis
    using ch' f ix c(2-4) by (intro exI[of _ "st\<lparr>sys := s', dbuffer := ?bytes,
      buffer_ix := (if buffer_ix st = 0 then 1 else 0), ch_data := ch'\<rparr>"] exI[of _ ?n] exI[of _ "os_k s'"])
      (auto simp: acq_ready_def simp del: upt_rec_numeral)
qed

lemma get_samples_frame: "AnalogCore_GetSamples rd env st = Some (st', n) \<Longrightarrow> mem_map st' = mem_map st \<and> ram_addr st' = ram_addr st"
  by (auto simp: AnalogCore_GetSamples_def Let_def split: Option.bind_splits prod.splits)

text \<open>
  C20. The double buffer. Each \<open>AnalogCore_GetSamples\<close> waits on the first interrupt (PRU_EVTOUT_0) and
  returns the count read there, acknowledges by exactly two stores, \<open>PRU0_ARM_INTERRUPT\<close> (19) to the status-clear
  register and then host 2 to the host-enable register, decodes exactly the half of the
  shared RAM that \<open>buffer_ix\<close> selects, as the PRU has left it after the wait, into all the channels, and switches to the other
  half, provided the RAM's address leaves the buffer within its mapping (at most 2048 bytes into its page).
\<close>

theorem get_samples_half:
  assumes "acq_ready st" and "unat (ram_addr st - mem_map st) \<le> 2048"
    and "unat (mem_map st) + 770048 < 2 ^ 32"
  shows "\<exists>st' n k. AnalogCore_GetSamples rd env st = Some (st', n) \<and> acq_ready st' \<and> buffer_ix st' = 1 - buffer_ix st \<and>
    dbuffer st' = map (\<lambda>i. shared_ram env k (ram_addr st + half_of (buffer_ix st) + of_nat i)) [0..<384000] \<and>
    (\<forall>r<8. \<forall>c<15360. ch_data st' ! r ! c = sample_at rd (dbuffer st') (sample_pos c r)) \<and>
    k = Suc (os_k (sys st)) \<and> n = uio_read (hostos env) (os_k (sys st)) (fd (drv (sys st)) ! 0) \<and>
    stores (sys st') = stores (sys st) @
      [(intc_base (drv (sys st)) + 0x280, 2 ^ 19), (intc_base (drv (sys st)) + 0x034, 2)]"
  using assms by (rule get_samples_ok)

definition idle_acq :: acq where
  "idle_acq = \<lparr>sys = idle_pru, mem_map = 0x1000, ram_addr = 0x1000, addr = 0, dbuffer = [], buffer_ix = 0,
     ch_data = replicate 8 (replicate 15360 FNaN)\<rparr>"

definition still_env :: acq_env where
  "still_env = \<lparr>hostos = am33_os, devmem_open = (\<lambda>_. 4), shared_ram = (\<lambda>_ _. 0x11), stack_buf = replicate 8192 0\<rparr>"

lemma idle_acq_ready: "acq_ready idle_acq"
  unfolding acq_ready_def idle_acq_def acq.simps
  by (intro conjI shape_replicate) (simp_all add: idle_pru_def prussdrv_zero_def NUM_PRU_HOSTIRQS_def)

theorem get_samples_half_witness:
  "\<exists>st' n k. AnalogCore_GetSamples ieee still_env idle_acq = Some (st', n) \<and> acq_ready st' \<and> buffer_ix st' = 1 - buffer_ix idle_acq \<and>
    dbuffer st' = map (\<lambda>i. shared_ram still_env k (ram_addr idle_acq + half_of (buffer_ix idle_acq) + of_nat i)) [0..<384000] \<and>
    (\<forall>r<8. \<forall>c<15360. ch_data st' ! r ! c = sample_at ieee (dbuffer st') (sample_pos c r)) \<and>
    k = Suc (os_k (sys idle_acq)) \<and> n = uio_read (hostos still_env) (os_k (sys idle_acq)) (fd (drv (sys idle_acq)) ! 0) \<and>
    stores (sys st') = stores (sys idle_acq) @
      [(intc_base (drv (sys idle_acq)) + 0x280, 2 ^ 19), (intc_base (drv (sys idle_acq)) + 0x034, 2)]"
  by (rule get_samples_half[OF idle_acq_ready]) (simp_all only: idle_acq_def acq.select_convs, simp_all)

section \<open>The shared RAM\<close>

text \<open>
  C21. Allocation of the shared RAM. \<open>Allocate_RAM\<close> fails with -1 when the pool is too small,
  \<open>/dev/mem\<close> cannot be opened or the mapping fails; otherwise it maps from the page boundary below the pool's
  address and sets \<open>ram_addr\<close> to the pool's place in that page, so the data starts
  \<open>addr & 0xFFF\<close> bytes into a mapping that is only as long as the buffer.
\<close>

theorem allocate_ram_cases:
  fixes n :: u32
  assumes "sysfs (hostos env) (os_k (sys st)) ''/sys/class/uio/uio0/maps/map1/addr'' = Some a"
    and "sysfs (hostos env) (Suc (os_k (sys st))) ''/sys/class/uio/uio0/maps/map1/size'' = Some sz"
  defines "f \<equiv> devmem_open env (os_k (sys st) + 2)"
  defines "m \<equiv> os_mmap (hostos env) (os_k (sys st) + 3) n f (a AND NOT 0xFFF)"
  shows "\<exists>st'. Allocate_RAM env n st = Some (st', if sz < n \<or> f = -1 \<or> m = -1 then -1 else 0) \<and> addr st' = a \<and>
    (n \<le> sz \<and> f \<noteq> -1 \<and> m \<noteq> -1 \<longrightarrow> mem_map st' = m \<and> ram_addr st' - mem_map st' = a AND 0xFFF \<and>
       unat (ram_addr st' - mem_map st') < 4096)"
proof -
  have "unat (a AND 0xFFF) < 4096"
  proof -
    have "a AND 0xFFF = take_bit 12 a" by (simp add: take_bit_eq_mask mask_eq_exp_minus_1)
    then have "unat (a AND 0xFFF) = take_bit 12 (unat a)" by (simp add: unsigned_take_bit_eq)
    then show ?thesis using take_bit_nat_less_exp[of 12 "unat a"] by simp
  qed
  then show ?thesis
    using assms(1,2) unfolding f_def m_def
    by (auto simp: Allocate_RAM_def getMemInfo_def PAGE_MASK_def Let_def numeral_eq_Suc not_le not_less)
qed

theorem allocate_ram_cases_witness:
  "\<exists>st'. Allocate_RAM still_env 768000 idle_acq = Some (st', if (0x40000 :: u32) < 768000 \<or> devmem_open still_env (os_k (sys idle_acq) + 2) = -1 \<or>
      os_mmap (hostos still_env) (os_k (sys idle_acq) + 3) 768000 (devmem_open still_env (os_k (sys idle_acq) + 2)) (0x40000 AND NOT 0xFFF) = -1 then -1 else 0) \<and>
    addr st' = 0x40000 \<and>
    ((768000 :: u32) \<le> 0x40000 \<and> devmem_open still_env (os_k (sys idle_acq) + 2) \<noteq> -1 \<and>
      os_mmap (hostos still_env) (os_k (sys idle_acq) + 3) 768000 (devmem_open still_env (os_k (sys idle_acq) + 2)) (0x40000 AND NOT 0xFFF) \<noteq> -1 \<longrightarrow>
       mem_map st' = os_mmap (hostos still_env) (os_k (sys idle_acq) + 3) 768000 (devmem_open still_env (os_k (sys idle_acq) + 2)) (0x40000 AND NOT 0xFFF) \<and>
       ram_addr st' - mem_map st' = 0x40000 AND 0xFFF \<and> unat (ram_addr st' - mem_map st') < 4096)"
  by (rule allocate_ram_cases) (simp_all add: still_env_def am33_os_def)

section \<open>Setting up the PRU\<close>

definition am33_system :: "os_env \<Rightarrow> u32 \<Rightarrow> pru_sys \<Rightarrow> bool" where
  "am33_system os b s \<longleftrightarrow> (\<forall>k h. 0 < uio_open os k h) \<and>
     (\<forall>k. sysfs os k ''/sys/class/uio/uio0/maps/map0/addr'' \<noteq> None) \<and>
     (\<forall>k. sysfs os k ''/sys/class/uio/uio0/maps/map0/size'' = Some 0x40000) \<and>
     (\<forall>k. sysfs os k ''/sys/class/uio/uio0/maps/map1/addr'' \<noteq> None) \<and>
     (\<forall>k. sysfs os k ''/sys/class/uio/uio0/maps/map1/size'' \<noteq> None) \<and>
     (\<forall>k f. os_mmap os k 0x40000 f 0 = b) \<and> unat b + 0x40000 < 2 ^ 32 \<and>
     pmem s (b + 0x4000) \<noteq> 0x4E825900 \<and> pmem s (b + 0x20000) = 0x4E82A900"

definition intc_events :: "nat list" where "intc_events = [17, 18, 19, 20, 21, 22]"
definition intc_channels :: "(nat \<times> nat) list" where
  "intc_channels = [(17, 1), (18, 0), (19, 2), (20, 3), (21, 0), (22, 1)]"
definition intc_hosts :: "(nat \<times> nat) list" where "intc_hosts = [(0, 0), (1, 1), (2, 2), (3, 3)]"

lemma initdata_good: "good_intc PRUSS_INTC_INITDATA intc_events intc_channels intc_hosts"
  by (simp add: good_intc_def PRUSS_INTC_INITDATA_def event_numbers intc_events_def intc_channels_def intc_hosts_def
      as_table_def s16_pair_def table_ok_def)

lemma pru_setup_runs:
  assumes "am33_system os b s"
  shows "\<exists>s1 s2. pru_setup os s = Some (s2, 0) \<and> am33_mapped b (drv s1) \<and>
    prussdrv_pruintc_init PRUSS_INTC_INITDATA s1 = Some (s2, 0)"
proof -
  let ?s0 = "fst (prussdrv_init s)"
  have "am33_opens os 0 b ?s0"
    using assms by (simp add: am33_system_def am33_opens_def prussdrv_init_def prussdrv_zero_def NUM_PRU_HOSTIRQS_def)
  from open_maps[OF this] obtain sa where a: "prussdrv_open os 0 ?s0 = Some (sa, 0)"
      "fd (drv sa) = (fd (drv ?s0))[0 := uio_open os (os_k ?s0) 0]" "pmem sa = pmem s"
    by (auto simp: prussdrv_init_def)
  have "am33_opens os 1 b sa"
    using assms a by (simp add: am33_system_def am33_opens_def prussdrv_init_def prussdrv_zero_def NUM_PRU_HOSTIRQS_def)
  from open_maps[OF this] obtain sb where b: "prussdrv_open os 1 sa = Some (sb, 0)" "am33_mapped b (drv sb)" by blast
  obtain s2 where "prussdrv_pruintc_init PRUSS_INTC_INITDATA sb = Some (s2, 0)"
    using pruintc_init_ok[OF initdata_good, of sb] by blast
  then show ?thesis using a(1) b by (auto simp: pru_setup_def)
qed

lemma initdata_lookup:
  "find_map 64 (sysevt_to_channel_map PRUSS_INTC_INITDATA) 19 = Some 2"
  "find_map 64 (sysevt_to_channel_map PRUSS_INTC_INITDATA) 20 = Some 3"
  "find_map 64 (sysevt_to_channel_map PRUSS_INTC_INITDATA) 17 = Some 1"
  "find_map 64 (sysevt_to_channel_map PRUSS_INTC_INITDATA) 0 = None"
  "find_map 10 (channel_to_host_map PRUSS_INTC_INITDATA) 1 = Some 1"
  "find_map 10 (channel_to_host_map PRUSS_INTC_INITDATA) 2 = Some 2"
  "find_map 10 (channel_to_host_map PRUSS_INTC_INITDATA) 3 = Some 3"
  by code_simp+

lemma event_host_lookup:
  assumes "intc_data (drv s) = PRUSS_INTC_INITDATA"
  shows "prussdrv_get_event_to_host_map 19 s = 0" "prussdrv_get_event_to_host_map 20 s = 1"
    "prussdrv_get_event_to_host_map 17 s = -1" "prussdrv_get_event_to_host_map 0 s = -1"
  using assms
  by (simp_all add: prussdrv_get_event_to_host_map_def prussdrv_get_event_to_channel_map_def
      prussdrv_get_channel_to_host_map_def NUM_PRU_SYS_EVTS_def NUM_PRU_CHANNELS_def initdata_lookup)

lemma host_2_enabled: "(2 :: u32) \<in> of_nat ` {x \<in> set [0..<10]. bit (host_enable_bitmask PRUSS_INTC_INITDATA) x}"
  by (rule image_eqI[of _ _ 2]) (simp_all add: PRUSS_INTC_INITDATA_def)

text \<open>
  C22. The PRU set-up routes the event the acquisition waits on. On an AM33xx system \<open>pru_setup\<close>
  returns 0 with \<open>PRU0_ARM_INTERRUPT\<close> (19), the event \<open>DAQ_Run\<close> clears, enabled and routed by the hardware to
  channel 2 and host 2, that host enabled and the controller enabled by the last store; the driver reports
  the event on PRU_EVTOUT_0, the interrupt \<open>DAQ_Run\<close> waits for.
\<close>

theorem pru_setup_routes:
  assumes "am33_system os b s"
  shows "\<exists>s'. pru_setup os s = Some (s', 0) \<and> field 0x400 19 s' = 2 \<and> field 0x800 2 s' = 2 \<and>
    bit (ireg s' 0x300) 19 \<and> (intc_base (drv s') + 0x034, 2) \<in> set (stores s') \<and>
    last (stores s') = (intc_base (drv s') + 0x010, 1) \<and> prussdrv_get_event_to_host_map 19 s' = 0"
proof -
  obtain s1 s2 where s: "pru_setup os s = Some (s2, 0)" "prussdrv_pruintc_init PRUSS_INTC_INITDATA s1 = Some (s2, 0)"
    using pru_setup_runs[OF assms] by blast
  have p: "intc_data (drv s2) = PRUSS_INTC_INITDATA" "\<forall>k<64. field 0x400 k s2 = of_entry (map_of intc_channels k)"
      "\<forall>c<10. field 0x800 c s2 = of_entry (map_of intc_hosts c)" "intc_base (drv s2) = intc_base (drv s1)"
      "\<forall>e<64. bit (ireg s2 (0x300 + 4 * of_nat (e div 32))) (e mod 32) \<longleftrightarrow> e \<in> set intc_events"
    using pruintc_init_ok[OF initdata_good, of s1] s(2) by auto
  have "field 0x400 19 s2 = 2" using p(2) by (simp add: intc_channels_def of_entry_def)
  moreover have "field 0x800 2 s2 = 2" using p(3) by (simp add: intc_hosts_def of_entry_def)
  moreover have "bit (ireg s2 0x300) 19"
    using p(5)[rule_format, of 19] by (simp add: intc_events_def)
  moreover have "(intc_base (drv s2) + 0x034, 2) \<in> set (stores s2)" "last (stores s2) = (intc_base (drv s2) + 0x010, 1)"
    using pruintc_init_stores[OF initdata_good, of s1] s(2) p(4) host_2_enabled by (auto simp: Let_def)
  ultimately show ?thesis using s(1) event_host_lookup(1)[OF p(1)] by blast
qed

lemma am33_system_idle: "am33_system am33_os 0x10000000 am33_idle"
  by (simp add: am33_system_def am33_os_def am33_idle_def idle_pru_def)

theorem pru_setup_routes_witness:
  "\<exists>s'. pru_setup am33_os am33_idle = Some (s', 0) \<and> field 0x400 19 s' = 2 \<and> field 0x800 2 s' = 2 \<and>
    bit (ireg s' 0x300) 19 \<and> (intc_base (drv s') + 0x034, 2) \<in> set (stores s') \<and>
    last (stores s') = (intc_base (drv s') + 0x010, 1) \<and> prussdrv_get_event_to_host_map 19 s' = 0"
  by (rule pru_setup_routes[OF am33_system_idle])

text \<open>
  The event lookup is ambiguous. After \<open>pru_setup\<close> the event routed to the PRU1 host (17) and an
  event that is not mapped at all (0) get the same answer, -1, from \<open>prussdrv_get_event_to_host_map\<close>, since
  the lookup subtracts 2 from the host number.
\<close>

theorem event_lookup_ambiguous:
  assumes "am33_system os b s" and "pru_setup os s = Some (s', 0)"
  shows "field 0x400 17 s' = 1 \<and> field 0x800 1 s' = 1 \<and> prussdrv_get_event_to_host_map 17 s' = -1 \<and>
    prussdrv_get_event_to_host_map 0 s' = -1"
proof -
  obtain s1 where s: "prussdrv_pruintc_init PRUSS_INTC_INITDATA s1 = Some (s', 0)"
    using pru_setup_runs[OF assms(1)] assms(2) by auto
  have p: "intc_data (drv s') = PRUSS_INTC_INITDATA" "\<forall>k<64. field 0x400 k s' = of_entry (map_of intc_channels k)"
      "\<forall>c<10. field 0x800 c s' = of_entry (map_of intc_hosts c)"
    using pruintc_init_ok[OF initdata_good, of s1] s by auto
  have "field 0x400 17 s' = 1" using p(2) by (simp add: intc_channels_def of_entry_def)
  moreover have "field 0x800 1 s' = 1" using p(3)[rule_format, of 1] by (simp add: intc_hosts_def of_entry_def)
  ultimately show ?thesis using event_host_lookup[OF p(1)] by blast
qed

theorem event_lookup_ambiguous_witness:
  "let s' = fst (the (pru_setup am33_os am33_idle)) in
    field 0x400 17 s' = 1 \<and> field 0x800 1 s' = 1 \<and> prussdrv_get_event_to_host_map 17 s' = -1 \<and>
    prussdrv_get_event_to_host_map 0 s' = -1"
proof -
  obtain s' where "pru_setup am33_os am33_idle = Some (s', 0)" using pru_setup_runs[OF am33_system_idle] by blast
  with event_lookup_ambiguous[OF am33_system_idle this] show ?thesis by (simp add: Let_def)
qed

end
