(* ===== verification/Metrology.thy ===== *)
theory Metrology
  imports Goertzel_Filter Acquisition_Props
begin

text \<open>
  The metrology core (\<open>MetrologyCore.c\<close>, \<open>MetrologyCore.h\<close>): scaling of the acquired samples to volts
  and amperes, and the harmonics of every cycle of the second.

  A channel's \<open>fsamples\<close> points into the channel table of \<open>AnalogCore.c\<close>: it is the row's number, and
  the operations update the table \<open>ch\<close> they are given, so that two channels on one row would alias.
\<close>

definition DFT_POINTS :: nat where "DFT_POINTS = 10"
definition V_INPUTS :: nat where "V_INPUTS = 3"
definition I_INPUTS :: nat where "I_INPUTS = 3"

record tMetrologyCoreChannel =
  dft :: "fp list list"
  fsamples :: nat

record tMetrologyCoreSetup =
  IChannels :: "tMetrologyCoreChannel list"
  VChannels :: "tMetrologyCoreChannel list"
  mc_goertzel :: Goertzel
  mc_Points :: int
  mc_fs :: int
  mc_F :: int

section \<open>Operations\<close>

definition MetrologyCore_Init ::
  "rnd \<Rightarrow> (fp \<Rightarrow> fp) \<Rightarrow> (nat \<Rightarrow> fp list option) \<Rightarrow> tMetrologyCoreSetup option \<Rightarrow> int \<Rightarrow> int \<Rightarrow> int
    \<Rightarrow> (tMetrologyCoreSetup option \<times> int) option" where
  "MetrologyCore_Init rd cosine alloc me points fs f1 =
     (case me of
        None \<Rightarrow> Some (None, -1)
      | Some m \<Rightarrow>
          (let (g, status) = Goertzel_Init alloc (Some (mc_goertzel m)) points (f_of_int rd SGL fs) (f_of_int rd SGL f1);
               m = m\<lparr>mc_goertzel := the g\<rparr>
           in if status = -1 then Some (Some m, -1)
              else do { (g, r) \<leftarrow> Goertzel_EvaluateCoefficients rd cosine (Some (mc_goertzel m));
                        Some (Some (m\<lparr>mc_goertzel := the g, mc_Points := points, mc_fs := fs, mc_F := f1\<rparr>), 0) }))"

text \<open>The cycles of one channel: \<open>samples\<close> is its row, read from \<open>i * Points\<close> on.\<close>

fun harmonics_cycles ::
  "rnd \<Rightarrow> Goertzel \<Rightarrow> int \<Rightarrow> fp list \<Rightarrow> nat \<Rightarrow> nat \<Rightarrow> fp list list \<Rightarrow> fp list list option" where
  "harmonics_cycles rd g points samples i 0 d = Some d"
| "harmonics_cycles rd g points samples i (Suc n) d =
     do { row \<leftarrow> rd_at d (int i);
          (row', r) \<leftarrow> Goertzel_CalculateOdd rd (Some g) (drop (nat (int i * points)) samples) row (int DFT_POINTS);
          harmonics_cycles rd g points samples (i + 1) n (d[i := row']) }"

fun harmonics_channels ::
  "rnd \<Rightarrow> fp list list \<Rightarrow> nat \<Rightarrow> nat \<Rightarrow> tMetrologyCoreSetup \<Rightarrow> tMetrologyCoreSetup option" where
  "harmonics_channels rd ch j 0 me = Some me"
| "harmonics_channels rd ch j (Suc n) me =
     do { c \<leftarrow> rd_at (IChannels me) (int j);
          samples \<leftarrow> rd_at ch (int (fsamples c));
          d \<leftarrow> harmonics_cycles rd (mc_goertzel me) (mc_Points me) samples 0 (nat (mc_F me)) (dft c);
          harmonics_channels rd ch (j + 1) n (me\<lparr>IChannels := (IChannels me)[j := c\<lparr>dft := d\<rparr>]\<rparr>) }"

definition MetrologyCore_CalculateHarmonics ::
  "rnd \<Rightarrow> fp list list \<Rightarrow> tMetrologyCoreSetup \<Rightarrow> tMetrologyCoreSetup option" where
  "MetrologyCore_CalculateHarmonics rd ch me = harmonics_channels rd ch 0 I_INPUTS me"

text \<open>
  One scaled sample; the offset is always 0, since the calls that would compute it are commented out,
  and with them the counters \<open>k\<close> and \<open>t\<close>, which nothing reads.
\<close>

definition scale_sample :: "rnd \<Rightarrow> int \<Rightarrow> fp \<Rightarrow> fp" where
  "scale_sample rd rng x =
     (let centred = fcvt rd SGL (fsub rd SGL x fzero)
      in fcvt rd SGL (fmul rd DBL (fcvt rd DBL centred) (fdiv rd DBL (f_of_int rd DBL rng) (fconst rd DBL (12 / 5)))))"

fun scale_row :: "rnd \<Rightarrow> int \<Rightarrow> nat \<Rightarrow> nat \<Rightarrow> fp list \<Rightarrow> fp list option" where
  "scale_row rd rng i 0 row = Some row"
| "scale_row rd rng i (Suc n) row =
     do { x \<leftarrow> rd_at row (int i);
          row' \<leftarrow> wr_at row (int i) (scale_sample rd rng x);
          scale_row rd rng (i + 1) n row' }"

fun scale_channels :: "rnd \<Rightarrow> int \<Rightarrow> int \<Rightarrow> nat list \<Rightarrow> fp list list \<Rightarrow> fp list list option" where
  "scale_channels rd rng fs [] ch = Some ch"
| "scale_channels rd rng fs (p # ps) ch =
     do { row \<leftarrow> rd_at ch (int p);
          row' \<leftarrow> scale_row rd rng 0 (nat fs) row;
          scale_channels rd rng fs ps (ch[p := row']) }"

definition MetrologyCore_Scale :: "rnd \<Rightarrow> tMetrologyCoreSetup \<Rightarrow> fp list list \<Rightarrow> fp list list option" where
  "MetrologyCore_Scale rd me ch =
     do { ch \<leftarrow> scale_channels rd 160 (mc_fs me) (map fsamples (take V_INPUTS (VChannels me))) ch;
          scale_channels rd 50 (mc_fs me) (map fsamples (take I_INPUTS (IChannels me))) ch }"

text \<open>\<open>CalculateOffset\<close>, which nothing calls: the mean of the samples.\<close>

fun offset_sum :: "rnd \<Rightarrow> fp list \<Rightarrow> nat \<Rightarrow> nat \<Rightarrow> fp \<Rightarrow> fp option" where
  "offset_sum rd buf i 0 acc = Some acc"
| "offset_sum rd buf i (Suc n) acc =
     do { x \<leftarrow> rd_at buf (int i);
          offset_sum rd buf (i + 1) n (fadd rd SGL acc x) }"

definition CalculateOffset :: "rnd \<Rightarrow> fp list option \<Rightarrow> int \<Rightarrow> fp \<Rightarrow> (fp \<times> int) option" where
  "CalculateOffset rd buffer samples out =
     (case buffer of
        None \<Rightarrow> Some (out, -1)
      | Some b \<Rightarrow>
          if samples \<le> 0 then Some (out, -1)
          else do { s \<leftarrow> offset_sum rd b 0 (nat samples) fzero;
                    Some (fdiv rd SGL s (f_of_int rd SGL samples), 0) })"

section \<open>Scaling\<close>

lemma scale_row_ok:
  "i + n \<le> length row \<Longrightarrow> scale_row rd rng i n row =
    Some (take i row @ map (scale_sample rd rng) (take n (drop i row)) @ drop (i + n) row)"
proof (induction n arbitrary: i row)
  case (Suc n)
  let ?v = "scale_sample rd rng (row ! i)"
  have i: "i < length row" using Suc.prems by simp
  have d: "drop i row = row ! i # drop (Suc i) row" using i by (simp add: Cons_nth_drop_Suc)
  have t: "take (Suc i) (row[i := ?v]) = take i row @ [?v]" using i by (simp add: take_Suc_conv_app_nth)
  have "scale_row rd rng i (Suc n) row = scale_row rd rng (Suc i) n (row[i := ?v])" using i by simp
  also have "\<dots> = Some (take (Suc i) (row[i := ?v]) @ map (scale_sample rd rng) (take n (drop (Suc i) (row[i := ?v]))) @
      drop (Suc i + n) (row[i := ?v]))"
    using Suc.IH[of "Suc i" "row[i := ?v]"] Suc.prems by simp
  finally show ?case using t d by (simp del: take_Suc)
qed simp

lemma scale_channels_ok:
  "distinct ps \<Longrightarrow> \<forall>p\<in>set ps. p < R \<Longrightarrow> shape R C ch \<Longrightarrow>
    \<exists>ch'. scale_channels rd rng (int C) ps ch = Some ch' \<and> shape R C ch' \<and>
      (\<forall>r<R. ch' ! r = (if r \<in> set ps then map (scale_sample rd rng) (ch ! r) else ch ! r))"
proof (induction ps arbitrary: ch)
  case (Cons p ps)
  have p: "p < R" "length ch = R" "length (ch ! p) = C" using Cons.prems by (auto simp: shape_def)
  let ?ch = "ch[p := map (scale_sample rd rng) (ch ! p)]"
  have "scale_row rd rng 0 C (ch ! p) = Some (map (scale_sample rd rng) (ch ! p))"
    using scale_row_ok[of 0 C "ch ! p"] p by simp
  then have step: "scale_channels rd rng (int C) (p # ps) ch = scale_channels rd rng (int C) ps ?ch" using p by simp
  have "shape R C ?ch" using Cons.prems(3) p by (intro shape_update) simp_all
  moreover have "distinct ps" "\<forall>p\<in>set ps. p < R" using Cons.prems by auto
  ultimately obtain ch' where "scale_channels rd rng (int C) ps ?ch = Some ch'" "shape R C ch'"
      "\<forall>r<R. ch' ! r = (if r \<in> set ps then map (scale_sample rd rng) (?ch ! r) else ?ch ! r)"
    using Cons.IH[of ?ch] by blast
  with step p Cons.prems(1) show ?case by (auto simp: nth_list_update)
qed auto

lemma scale_shape:
  assumes "shape 8 15360 ch" "mc_fs me = 15360" "length (VChannels me) = 3" "length (IChannels me) = 3"
    and "distinct (map fsamples (VChannels me @ IChannels me))" "\<forall>c\<in>set (VChannels me @ IChannels me). fsamples c < 8"
  shows "\<exists>ch'. MetrologyCore_Scale rd me ch = Some ch' \<and> shape 8 15360 ch'"
proof -
  have fs: "mc_fs me = int 15360" using assms(2) by simp
  obtain c1 where c1: "scale_channels rd 160 (mc_fs me) (map fsamples (VChannels me)) ch = Some c1" "shape 8 15360 c1"
    using scale_channels_ok[of "map fsamples (VChannels me)" 8 15360 ch rd 160] assms unfolding fs by auto
  obtain c2 where "scale_channels rd 50 (mc_fs me) (map fsamples (IChannels me)) c1 = Some c2" "shape 8 15360 c2"
    using scale_channels_ok[of "map fsamples (IChannels me)" 8 15360 c1 rd 50] assms c1(2) unfolding fs by auto
  with c1 assms(3,4) show ?thesis by (simp add: MetrologyCore_Scale_def V_INPUTS_def I_INPUTS_def)
qed

lemma scale_sample_exact:
  "is_fin x \<Longrightarrow> is_fin (scale_sample exact rng x) \<and> valof (scale_sample exact rng x) = valof x * of_int rng / (12 / 5)"
  by (simp add: scale_sample_def Let_def fp_eval del: fcvt.simps)

text \<open>
  C23. Scaling. With the six channels of the meter on six different rows of the channel table,
  \<open>MetrologyCore_Scale\<close> stays inside it and, in exact arithmetic, multiplies every voltage sample by
  160/2.4 and every current sample by 50/2.4, each once, and touches no other row.
\<close>

theorem scale_exact:
  assumes "shape 8 15360 ch" and "\<forall>r<8. list_all is_fin (ch ! r)"
    and "mc_fs me = 15360" "length (VChannels me) = 3" "length (IChannels me) = 3"
    and "distinct (map fsamples (VChannels me @ IChannels me))" "\<forall>c\<in>set (VChannels me @ IChannels me). fsamples c < 8"
  shows "\<exists>ch'. MetrologyCore_Scale exact me ch = Some ch' \<and> shape 8 15360 ch' \<and>
    (\<forall>r<8. \<forall>i<15360. valof (ch' ! r ! i) = valof (ch ! r ! i) *
       (if r \<in> fsamples ` set (VChannels me) then 160 / 2.4 else if r \<in> fsamples ` set (IChannels me) then 50 / 2.4 else 1))"
proof -
  let ?V = "map fsamples (VChannels me)" and ?I = "map fsamples (IChannels me)"
  have d: "distinct ?V" "distinct ?I" "set ?V \<inter> set ?I = {}" using assms(6) by auto
  have fs: "mc_fs me = int 15360" using assms(3) by simp
  obtain c1 where c1: "scale_channels exact 160 (mc_fs me) ?V ch = Some c1" "shape 8 15360 c1"
      "\<forall>r<8. c1 ! r = (if r \<in> set ?V then map (scale_sample exact 160) (ch ! r) else ch ! r)"
    using scale_channels_ok[OF d(1) _ assms(1), of exact 160] assms(7) unfolding fs by auto
  obtain c2 where c2: "scale_channels exact 50 (mc_fs me) ?I c1 = Some c2" "shape 8 15360 c2"
      "\<forall>r<8. c2 ! r = (if r \<in> set ?I then map (scale_sample exact 50) (c1 ! r) else c1 ! r)"
    using scale_channels_ok[OF d(2) _ c1(2), of exact 50] assms(7) unfolding fs by auto
  have "valof (c2 ! r ! i) = valof (ch ! r ! i) *
       (if r \<in> set ?V then 160 / 2.4 else if r \<in> set ?I then 50 / 2.4 else 1)" if "r < 8" "i < 15360" for r i
  proof -
    have "length (ch ! r) = 15360" using assms(1) that by (simp add: shape_def)
    moreover have "is_fin (ch ! r ! i)" using assms(2) that calculation by (simp add: list_all_length)
    ultimately show ?thesis using c1(3) c2(3) d(3) that by (auto simp: scale_sample_exact)
  qed
  moreover have "MetrologyCore_Scale exact me ch = Some c2"
    using c1(1) c2(1) assms(4,5) by (simp add: MetrologyCore_Scale_def V_INPUTS_def I_INPUTS_def)
  ultimately show ?thesis using c2(2) by auto
qed

definition meter_channel :: "nat \<Rightarrow> tMetrologyCoreChannel" where
  "meter_channel r = \<lparr>dft = replicate 60 (replicate 10 FNaN), fsamples = r\<rparr>"

text \<open>The wiring of \<open>main.cpp\<close>: voltages on rows 2, 1, 0, currents on rows 3, 6, 7.\<close>

definition meter_setup :: tMetrologyCoreSetup where
  "meter_setup = \<lparr>IChannels = map meter_channel [3, 6, 7], VChannels = map meter_channel [2, 1, 0],
     mc_goertzel = \<lparr>Points = 0, Fdtm = FNaN, Fsample = FNaN, coeff = []\<rparr>, mc_Points = 256, mc_fs = 15360, mc_F = 60\<rparr>"

theorem scale_exact_witness:
  "\<exists>ch'. MetrologyCore_Scale exact meter_setup (replicate 8 (replicate 15360 (FFin 1))) = Some ch' \<and> shape 8 15360 ch' \<and>
    (\<forall>r<8. \<forall>i<15360. valof (ch' ! r ! i) = valof (replicate 8 (replicate 15360 (FFin 1)) ! r ! i) *
       (if r \<in> fsamples ` set (VChannels meter_setup) then 160 / 2.4
        else if r \<in> fsamples ` set (IChannels meter_setup) then 50 / 2.4 else 1))"
proof (rule scale_exact[OF shape_replicate])
  have fin: "list_all is_fin (replicate n (FFin 1))" for n by (induction n) auto
  show "\<forall>r<8. list_all is_fin (replicate 8 (replicate 15360 (FFin 1)) ! r)"
  proof (intro allI impI)
    fix r :: nat assume "r < 8"
    show "list_all is_fin (replicate 8 (replicate 15360 (FFin 1)) ! r)"
      unfolding nth_replicate[OF \<open>r < 8\<close>] by (rule fin)
  qed
qed (simp_all add: meter_setup_def meter_channel_def del: replicate.simps)

section \<open>Harmonics\<close>

lemma harmonics_cycles_ok:
  assumes g: "bank points fs fdtm g" "0 < points" "2 * 10 \<le> points" and fin: "list_all is_fin samples"
  shows "nat points * (i + n) \<le> length samples \<Longrightarrow> i + n \<le> length d \<Longrightarrow> \<forall>row\<in>set d. length row = 10 \<Longrightarrow>
    \<exists>d'. harmonics_cycles exact g points samples i n d = Some d' \<and> length d' = length d \<and> (\<forall>row\<in>set d'. length row = 10) \<and>
      (\<forall>c. i \<le> c \<and> c < i + n \<longrightarrow> (\<forall>k<10. valof (d' ! c ! k) =
         cmod (fourier (drop (c * nat points) samples) (nat points) (bin_angle points (valof fs) (valof fdtm) (2 * int k + 1)))
           / of_int points * (1414213562 / 1000000000))) \<and>
      (\<forall>c<length d. c < i \<or> i + n \<le> c \<longrightarrow> d' ! c = d ! c)"
proof (induction n arbitrary: i d)
  case (Suc n)
  have i: "i < length d" using Suc.prems(2) by simp
  let ?s = "drop (i * nat points) samples"
  have pos: "nat (int i * points) = i * nat points" using g(2) by (simp add: nat_mult_distrib)
  have l: "nat points \<le> length ?s" using Suc.prems(1) by (simp add: algebra_simps)
  have "list_all is_fin ?s" using fin by (auto simp: list_all_iff dest: in_set_dropD)
  moreover have "length (d ! i) = 10" using Suc.prems(3) i by simp
  ultimately obtain row where row: "Goertzel_CalculateOdd exact (Some g) ?s (d ! i) (int 10) = Some (row, 0)" "length row = 10"
      "\<forall>k<10. valof (row ! k) = cmod (fourier ?s (nat points) (bin_angle points (valof fs) (valof fdtm) (2 * int k + 1)))
         / of_int points * (1414213562 / 1000000000)"
    using odd_on_bank[OF g(1,2) l, of 10 "d ! i"] g(3) by auto
  let ?d = "d[i := row]"
  have "\<forall>row\<in>set ?d. length row = 10" using Suc.prems(3) row(2) by (auto dest!: set_update_subset_insert[THEN subsetD])
  then obtain d' where d': "harmonics_cycles exact g points samples (i + 1) n ?d = Some d'" "length d' = length d"
      "\<forall>row\<in>set d'. length row = 10"
      "\<forall>c. i + 1 \<le> c \<and> c < i + 1 + n \<longrightarrow> (\<forall>k<10. valof (d' ! c ! k) =
         cmod (fourier (drop (c * nat points) samples) (nat points) (bin_angle points (valof fs) (valof fdtm) (2 * int k + 1)))
           / of_int points * (1414213562 / 1000000000))"
      "\<forall>c<length d. c < i + 1 \<or> i + 1 + n \<le> c \<longrightarrow> d' ! c = ?d ! c"
    using Suc.IH[of "i + 1" ?d] Suc.prems(1,2) by auto
  have "harmonics_cycles exact g points samples i (Suc n) d = Some d'"
    using i row(1) d'(1) pos by (simp add: DFT_POINTS_def)
  moreover have "valof (d' ! c ! k) =
         cmod (fourier (drop (c * nat points) samples) (nat points) (bin_angle points (valof fs) (valof fdtm) (2 * int k + 1)))
           / of_int points * (1414213562 / 1000000000)" if "i \<le> c" "c < i + Suc n" "k < 10" for c k
  proof (cases "c = i")
    case True
    then show ?thesis using row(3) d'(5) i that by simp
  next
    case False
    then have "i + 1 \<le> c \<and> c < i + 1 + n" using that by simp
    then show ?thesis using d'(4) that(3) by blast
  qed
  moreover have "d' ! c = d ! c" if "c < length d" "c < i \<or> i + Suc n \<le> c" for c
    using d'(5) that by auto
  ultimately show ?case using d'(2,3) by blast
qed auto

definition harmonic :: "fp list \<Rightarrow> nat \<Rightarrow> nat \<Rightarrow> real" where
  "harmonic samples c k =
     cmod (fourier (drop (c * 256) samples) 256 (2 * GOERTZEL_PI * (2 * real k + 1) / 256)) / 256 * (1414213562 / 1000000000)"

lemma meter_bin_angle: "bin_angle 256 15360 60 (2 * int k + 1) = 2 * GOERTZEL_PI * (2 * real k + 1) / 256"
proof -
  have "(1 / 2 + of_int 256 * (60 * of_int (2 * int k + 1) / 15360) :: real) = 1 / 2 + of_int (2 * int k + 1)"
    by (simp add: add_divide_distrib)
  moreover have "\<lfloor>1 / 2 + of_int (2 * int k + 1) :: real\<rfloor> = 2 * int k + 1" by linarith
  ultimately have f: "\<lfloor>1 / 2 + of_int 256 * (60 * of_int (2 * int k + 1) / 15360) :: real\<rfloor> = 2 * int k + 1"
    by (simp only:)
  show ?thesis unfolding bin_angle_def f by simp
qed

lemma harmonics_channels_ok:
  assumes g: "bank 256 fs fdtm (mc_goertzel me)" "mc_Points me = 256" "mc_F me = 60" "valof fs = 15360" "valof fdtm = 60"
    and ch: "shape 8 15360 ch" "\<forall>r<8. list_all is_fin (ch ! r)"
  shows "j + n = length (IChannels me) \<Longrightarrow> \<forall>c\<in>set (IChannels me). fsamples c < 8 \<and> shape 60 10 (dft c) \<Longrightarrow>
    \<exists>me'. harmonics_channels exact ch j n me = Some me' \<and> length (IChannels me') = length (IChannels me) \<and>
      (\<forall>i. j \<le> i \<and> i < j + n \<longrightarrow> (\<forall>c<60. \<forall>k<10.
         valof (dft (IChannels me' ! i) ! c ! k) = harmonic (ch ! fsamples (IChannels me ! i)) c k)) \<and>
      (\<forall>i<j. IChannels me' ! i = IChannels me ! i)"
  using g(1,2,3)
proof (induction n arbitrary: j me)
  case (Suc n)
  let ?c = "IChannels me ! j" and ?g = "mc_goertzel me"
  let ?s = "ch ! fsamples ?c"
  have j: "j < length (IChannels me)" using Suc.prems by simp
  then have c: "fsamples ?c < 8" "shape 60 10 (dft ?c)" using Suc.prems(2) by (auto dest: nth_mem)
  have s: "length ch = 8" "length ?s = 15360" "list_all is_fin ?s" using ch c(1) by (auto simp: shape_def)
  have d: "length (dft ?c) = 60" "\<forall>row\<in>set (dft ?c). length row = 10" using c(2) by (auto simp: shape_def in_set_conv_nth)
  obtain d' where d': "harmonics_cycles exact ?g 256 ?s 0 60 (dft ?c) = Some d'" "length d' = 60" "\<forall>row\<in>set d'. length row = 10"
      "\<forall>x<60. \<forall>k<10. valof (d' ! x ! k) = cmod (fourier (drop (x * 256) ?s) 256 (bin_angle 256 (valof fs) (valof fdtm) (2 * int k + 1)))
         / of_int 256 * (1414213562 / 1000000000)"
    using harmonics_cycles_ok[OF Suc.prems(3) _ _ s(3), of 0 60 "dft ?c"] s(2) d by auto
  have h: "\<forall>x<60. \<forall>k<10. valof (d' ! x ! k) = harmonic ?s x k"
    using d'(4) assms(4,5) meter_bin_angle by (simp add: harmonic_def)
  let ?me = "me\<lparr>IChannels := (IChannels me)[j := ?c\<lparr>dft := d'\<rparr>]\<rparr>"
  have "shape 60 10 d'" using d'(2,3) by (auto simp: shape_def)
  then have "\<forall>c\<in>set (IChannels ?me). fsamples c < 8 \<and> shape 60 10 (dft c)"
    using Suc.prems(2) c(1) by (auto dest!: set_update_subset_insert[THEN subsetD])
  then obtain me' where me': "harmonics_channels exact ch (j + 1) n ?me = Some me'" "length (IChannels me') = length (IChannels me)"
      "\<forall>i. j + 1 \<le> i \<and> i < j + 1 + n \<longrightarrow> (\<forall>c<60. \<forall>k<10.
         valof (dft (IChannels me' ! i) ! c ! k) = harmonic (ch ! fsamples (IChannels ?me ! i)) c k)"
      "\<forall>i<j + 1. IChannels me' ! i = IChannels ?me ! i"
    using Suc.IH[of "j + 1" ?me] Suc.prems by auto
  have "harmonics_channels exact ch j (Suc n) me = Some me'"
    using me'(1) j s(1) c(1) d'(1) Suc.prems(4,5) by simp
  moreover have "valof (dft (IChannels me' ! i) ! x ! k) = harmonic (ch ! fsamples (IChannels me ! i)) x k"
    if "j \<le> i" "i < j + Suc n" "x < 60" "k < 10" for i x k
  proof (cases "i = j")
    case True
    then show ?thesis using me'(4) h j that by simp
  next
    case False
    then show ?thesis using me'(3)[rule_format, of i x k] that by simp
  qed
  moreover have "IChannels me' ! i = IChannels me ! i" if "i < j" for i using me'(4) that by simp
  ultimately show ?case using me'(2) by blast
qed auto

text \<open>
  C24. The harmonics of the meter. With the meter's dimensions (256 points, 15360 samples, 60 Hz),
  after a successful initialisation \<open>MetrologyCore_CalculateHarmonics\<close> stays inside its arrays, and in exact
  arithmetic entry \<open>[c][k]\<close> of every current channel is the RMS Fourier magnitude of cycle \<open>c\<close> of its samples at odd
  harmonic \<open>2 k + 1\<close>, at the angle \<open>2 pi (2 k + 1) / 256\<close>.
\<close>

theorem harmonics_spectrum:
  assumes "alloc 256 = Some block" "length block = 256"
    and "shape 8 15360 ch" "\<forall>r<8. list_all is_fin (ch ! r)"
    and "length (IChannels me) = 3" "\<forall>c\<in>set (IChannels me). fsamples c < 8 \<and> shape 60 10 (dft c)"
  shows "\<exists>me1 me2. MetrologyCore_Init exact exact_cos alloc (Some me) 256 15360 60 = Some (Some me1, 0) \<and>
    MetrologyCore_CalculateHarmonics exact ch me1 = Some me2 \<and>
    (\<forall>i<3. \<forall>c<60. \<forall>k<10. valof (dft (IChannels me2 ! i) ! c ! k) = harmonic (ch ! fsamples (IChannels me ! i)) c k)"
proof -
  obtain g1 g2 where g: "Goertzel_Init alloc (Some (mc_goertzel me)) 256 (FFin 15360) (FFin 60) = (Some g1, 0)"
      "Goertzel_EvaluateCoefficients exact exact_cos (Some g1) = Some (Some g2, 0)" "bank 256 (FFin 15360) (FFin 60) g2"
    using init_bank[where alloc = alloc and points = 256 and fs = "FFin 15360" and fdtm = "FFin 60" and g = "mc_goertzel me"] assms(1,2)
    by auto
  let ?me = "me\<lparr>mc_goertzel := g2, mc_Points := 256, mc_fs := 15360, mc_F := 60\<rparr>"
  have "MetrologyCore_Init exact exact_cos alloc (Some me) 256 15360 60 = Some (Some ?me, 0)"
    using g(1,2) by (simp add: MetrologyCore_Init_def Let_def f_of_int_def exact_def)
  moreover obtain me2 where "harmonics_channels exact ch 0 3 ?me = Some me2"
      "\<forall>i<3. \<forall>c<60. \<forall>k<10. valof (dft (IChannels me2 ! i) ! c ! k) = harmonic (ch ! fsamples (IChannels me ! i)) c k"
    using harmonics_channels_ok[of "FFin 15360" "FFin 60" ?me ch 0 3] g(3) assms(3-6) by auto
  ultimately show ?thesis by (auto simp: MetrologyCore_CalculateHarmonics_def I_INPUTS_def)
qed

theorem harmonics_spectrum_witness:
  "\<exists>me1 me2. MetrologyCore_Init exact exact_cos (\<lambda>n. Some (replicate n FNaN)) (Some meter_setup) 256 15360 60 = Some (Some me1, 0) \<and>
    MetrologyCore_CalculateHarmonics exact (replicate 8 (replicate 15360 (FFin 1))) me1 = Some me2 \<and>
    (\<forall>i<3. \<forall>c<60. \<forall>k<10. valof (dft (IChannels me2 ! i) ! c ! k) =
       harmonic (replicate 8 (replicate 15360 (FFin 1)) ! fsamples (IChannels meter_setup ! i)) c k)"
proof (rule harmonics_spectrum[OF _ _ shape_replicate])
  have fin: "list_all is_fin (replicate n (FFin 1))" for n by (induction n) auto
  show "\<forall>r<8. list_all is_fin (replicate 8 (replicate 15360 (FFin 1)) ! r)"
  proof (intro allI impI)
    fix r :: nat assume "r < 8"
    show "list_all is_fin (replicate 8 (replicate 15360 (FFin 1)) ! r)"
      unfolding nth_replicate[OF \<open>r < 8\<close>] by (rule fin)
  qed
  show "\<forall>c\<in>set (IChannels meter_setup). fsamples c < 8 \<and> shape 60 10 (dft c)"
    by (simp add: meter_setup_def meter_channel_def shape_replicate del: replicate.simps)
qed (rule refl, rule length_replicate, simp add: meter_setup_def)

end
