(* ===== verification/Waveforms.thy ===== *)
theory Waveforms
  imports Fp "HOL-Library.Monad_Syntax"
begin

text \<open>
  Waveform utilities (\<open>Waveform.c\<close>, \<open>Waveform.h\<close>): the zero crossing, the difference of two signatures
  aligned at it, the copy of two cycles around an offset, and the saving of a waveform.

  A pointer into an array is the array with an index; an index outside it is undefined behaviour, the outer
  \<open>None\<close>. The output arrays are the caller's own and do not overlap the inputs.
\<close>

record VI_Signature =
  V_Waveform :: "fp list"
  I_Waveform :: "fp list"
  Samples :: int

section \<open>Operations\<close>

text \<open>\<open>do { c = *waveform++; k++; } while (P c && k < len)\<close>, from index \<open>k\<close>; the result is the final \<open>k\<close>.\<close>

function scan :: "(fp \<Rightarrow> bool) \<Rightarrow> fp list \<Rightarrow> int \<Rightarrow> int \<Rightarrow> int option" where
  "scan P w len k =
     (case rd_at w k of
        None \<Rightarrow> None
      | Some c \<Rightarrow> if P c \<and> k + 1 < len then scan P w len (k + 1) else Some (k + 1))"
  by pat_completeness auto
termination by (relation "measure (\<lambda>(P, w, len, k). nat (len - k))") auto

declare scan.simps [simp del]

definition FindZero :: "fp list \<Rightarrow> int \<Rightarrow> int option" where
  "FindZero waveform len =
     do { c1_v1 \<leftarrow> rd_at waveform 0;
          k \<leftarrow> (if flt c1_v1 fzero then map_option (\<lambda>k. k - 1) (scan (\<lambda>c. flt c fzero) waveform len 0) else Some 0);
          map_option (\<lambda>k. k - 1) (scan (\<lambda>c. fgt c fzero) waveform len k) }"

fun diff_loop ::
  "rnd \<Rightarrow> fp list \<Rightarrow> int \<Rightarrow> fp list \<Rightarrow> int \<Rightarrow> fp list \<Rightarrow> int \<Rightarrow> int \<Rightarrow> nat \<Rightarrow> fp list \<times> fp list \<Rightarrow> (fp list \<times> fp list) option" where
  "diff_loop rd a1 i1 a2 i2 v j k 0 (ov, oi) = Some (ov, oi)"
| "diff_loop rd a1 i1 a2 i2 v j k (Suc n) (ov, oi) =
     do { x2 \<leftarrow> rd_at a2 i2;
          x1 \<leftarrow> rd_at a1 i1;
          oi \<leftarrow> wr_at oi k (fsub rd SGL x2 x1);
          y \<leftarrow> rd_at v j;
          ov \<leftarrow> wr_at ov k y;
          diff_loop rd a1 (i1 + 1) a2 (i2 + 1) v (j + 1) (k + 1) n (ov, oi) }"

text \<open>The two diagnostic lines read the samples around both crossings, so these reads are part of the behaviour.\<close>

definition WaveformDiff ::
  "rnd \<Rightarrow> VI_Signature \<Rightarrow> VI_Signature \<Rightarrow> VI_Signature \<Rightarrow> int \<Rightarrow> int \<Rightarrow> VI_Signature option" where
  "WaveformDiff rd prior current out offset12 start_end =
     do { let i1 = (if start_end = 1 then Samples prior - Samples out - 512 else 0);
          let i2 = (if start_end = 1 then Samples current - Samples out - 512 else 0);
          k1 \<leftarrow> FindZero (V_Waveform prior) 512;
          k2 \<leftarrow> FindZero (V_Waveform current) 512;
          p1 \<leftarrow> rd_at (V_Waveform prior) (k1 - 1);
          p2 \<leftarrow> rd_at (V_Waveform current) (k2 - 1);
          p3 \<leftarrow> rd_at (V_Waveform prior) k1;
          p4 \<leftarrow> rd_at (V_Waveform current) k2;
          let (v, j) = (if offset12 = 2
            then (V_Waveform current, k2 + (if start_end = 1 then Samples current - Samples out - 512 else 0))
            else (V_Waveform prior, k1 + (if start_end = 1 then Samples prior - Samples out - 512 else 0)));
          (ov, oi) \<leftarrow> diff_loop rd (I_Waveform prior) (i1 + k1) (I_Waveform current) (i2 + k2) v j 0
            (nat (Samples out)) (V_Waveform out, I_Waveform out);
          Some (out\<lparr>V_Waveform := ov, I_Waveform := oi\<rparr>) }"

fun copy_loop :: "fp list \<Rightarrow> fp list \<Rightarrow> int \<Rightarrow> int \<Rightarrow> nat \<Rightarrow> fp list \<times> fp list \<Rightarrow> (fp list \<times> fp list) option" where
  "copy_loop v c i k 0 (dv, di) = Some (dv, di)"
| "copy_loop v c i k (Suc n) (dv, di) =
     do { x \<leftarrow> rd_at v i;
          dv \<leftarrow> wr_at dv k x;
          y \<leftarrow> rd_at c i;
          di \<leftarrow> wr_at di k y;
          copy_loop v c (i + 1) (k + 1) n (dv, di) }"

definition CopyWaveform :: "int \<Rightarrow> fp list \<Rightarrow> fp list \<Rightarrow> fp list \<Rightarrow> fp list \<Rightarrow> (fp list \<times> fp list) option" where
  "CopyWaveform offset vchannel ichannel wvf_v wvf_i =
     do { d \<leftarrow> copy_loop vchannel ichannel (offset - 256) 0 256 (wvf_v, wvf_i);
          copy_loop vchannel ichannel offset 256 256 d }"

text \<open>
  The file name is built in a buffer of 30 bytes. \<open>opens\<close> says whether \<open>fopen\<close> succeeds; the result is what is
  written, if anything.
\<close>

definition SaveWaveform :: "(string \<Rightarrow> bool) \<Rightarrow> string \<Rightarrow> fp list \<Rightarrow> int \<Rightarrow> (string \<times> fp list) option option" where
  "SaveWaveform opens fname wform len =
     (let name = fname @ ''.wvf'' in
      if 30 < length name + 1 then None
      else if \<not> opens name then Some None
      else if len < 0 \<or> int (length wform) < len then None
      else Some (Some (name, take (nat len) wform)))"

section \<open>The loops\<close>

lemma diff_loop_ok:
  assumes "0 \<le> i1" "i1 + int n \<le> int (length a1)" "0 \<le> i2" "i2 + int n \<le> int (length a2)"
    "0 \<le> j" "j + int n \<le> int (length v)" "0 \<le> k" "k + int n \<le> int (length ov)" "k + int n \<le> int (length oi)"
  shows "diff_loop rd a1 i1 a2 i2 v j k n (ov, oi) =
    Some (take (nat k) ov @ take n (drop (nat j) v) @ drop (nat k + n) ov,
          take (nat k) oi @ map2 (fsub rd SGL) (take n (drop (nat i2) a2)) (take n (drop (nat i1) a1)) @ drop (nat k + n) oi)"
  using assms
proof (induction n arbitrary: i1 i2 j k ov oi)
  case (Suc n)
  have c: "take (Suc n) (drop (nat i) (xs :: fp list)) = xs ! nat i # take n (drop (nat (i + 1)) xs)"
    if "0 \<le> i" "i + int (Suc n) \<le> int (length xs)" for i xs
    using that by (simp add: Cons_nth_drop_Suc[symmetric] nat_add_distrib)
  have u: "take (nat (k + 1)) (xs[nat k := x]) = take (nat k) xs @ [x]"
    if "k + int (Suc n) \<le> int (length xs)" for x and xs :: "fp list"
    using that Suc.prems(7) by (simp add: nat_add_distrib take_Suc_conv_app_nth)
  have d: "drop (nat (k + 1) + n) (xs[nat k := x]) = drop (nat k + Suc n) xs" for x and xs :: "fp list"
    using Suc.prems(7) by (simp add: nat_add_distrib)
  show ?case
    using Suc.prems by (simp add: Suc.IH c u d wr_at_def rd_at_def del: take_Suc_conv_app_nth)
qed simp

section \<open>The zero crossing\<close>

lemma scan_ok:
  "0 \<le> k \<Longrightarrow> k < len \<Longrightarrow> len \<le> int (length w) \<Longrightarrow>
    \<exists>z. scan P w len k = Some (z + 1) \<and> k \<le> z \<and> z < len \<and> (\<forall>i. k \<le> i \<and> i < z \<longrightarrow> P (w ! nat i)) \<and>
      (z + 1 < len \<longrightarrow> \<not> P (w ! nat z))"
proof (induction P w len k rule: scan.induct)
  case (1 P w len k)
  have r: "rd_at w k = Some (w ! nat k)" using "1.prems" by simp
  show ?case
  proof (cases "P (w ! nat k) \<and> k + 1 < len")
    case True
    then obtain z where z: "scan P w len (k + 1) = Some (z + 1)" "k + 1 \<le> z" "z < len"
        "\<forall>i. k + 1 \<le> i \<and> i < z \<longrightarrow> P (w ! nat i)" "z + 1 < len \<longrightarrow> \<not> P (w ! nat z)"
      using "1.IH"[OF r] "1.prems" by auto
    have "P (w ! nat i)" if "k \<le> i" "i < z" for i
      using z(4) that True by (cases "i = k") auto
    then show ?thesis using z True r by (intro exI[of _ z]) (auto simp: scan.simps[of P w len k])
  next
    case False
    then show ?thesis using r "1.prems" by (intro exI[of _ k]) (auto simp: scan.simps[of P w len k])
  qed
qed

lemma FindZero_ok:
  assumes "0 < len" "len \<le> int (length w)"
  shows "\<exists>m z. FindZero w len = Some z \<and> 0 \<le> m \<and> m \<le> z \<and> z < len \<and>
    (\<forall>i. 0 \<le> i \<and> i < m \<longrightarrow> flt (w ! nat i) fzero) \<and> (\<forall>i. m \<le> i \<and> i < z \<longrightarrow> fgt (w ! nat i) fzero) \<and>
    (m + 1 < len \<longrightarrow> \<not> flt (w ! nat m) fzero) \<and> (z + 1 < len \<longrightarrow> \<not> fgt (w ! nat z) fzero)"
proof -
  have r: "rd_at w 0 = Some (w ! 0)" using assms by (cases w) (simp_all add: rd_at_def)
  have "\<exists>m. (if flt (w ! 0) fzero then map_option (\<lambda>k. k - 1) (scan (\<lambda>c. flt c fzero) w len 0) else Some 0) = Some m \<and>
      0 \<le> m \<and> m < len \<and> (\<forall>i. 0 \<le> i \<and> i < m \<longrightarrow> flt (w ! nat i) fzero) \<and> (m + 1 < len \<longrightarrow> \<not> flt (w ! nat m) fzero)"
  proof (cases "flt (w ! 0) fzero")
    case True
    with scan_ok[of 0 len w "\<lambda>c. flt c fzero"] assms show ?thesis by auto
  next
    case False
    with assms show ?thesis by (intro exI[of _ 0]) auto
  qed
  then obtain m where m: "(if flt (w ! 0) fzero then map_option (\<lambda>k. k - 1) (scan (\<lambda>c. flt c fzero) w len 0) else Some 0) = Some m"
      "0 \<le> m" "m < len" "\<forall>i. 0 \<le> i \<and> i < m \<longrightarrow> flt (w ! nat i) fzero" "m + 1 < len \<longrightarrow> \<not> flt (w ! nat m) fzero" by blast
  obtain z where z: "scan (\<lambda>c. fgt c fzero) w len m = Some (z + 1)" "m \<le> z" "z < len"
      "\<forall>i. m \<le> i \<and> i < z \<longrightarrow> fgt (w ! nat i) fzero" "z + 1 < len \<longrightarrow> \<not> fgt (w ! nat z) fzero"
    using scan_ok[OF m(2,3) assms(2)] by blast
  have "FindZero w len = Some z" using r m(1) z(1) by (simp add: FindZero_def)
  then show ?thesis using m z by blast
qed

text \<open>
  C25. The zero crossing. On an array of at least \<open>len > 0\<close> samples \<open>FindZero\<close> returns, reads nothing
  outside the array, and its result \<open>z\<close> ends a run of positive samples that follows a (possibly empty) initial run of
  negative ones: the falling edge, unless the window ends first.
\<close>

theorem find_zero_crossing:
  assumes "0 < len" "len \<le> int (length w)"
  shows "\<exists>m z. FindZero w len = Some z \<and> 0 \<le> m \<and> m \<le> z \<and> z < len \<and>
    (\<forall>i. 0 \<le> i \<and> i < m \<longrightarrow> flt (w ! nat i) fzero) \<and> (\<forall>i. m \<le> i \<and> i < z \<longrightarrow> fgt (w ! nat i) fzero) \<and>
    (m + 1 < len \<longrightarrow> \<not> flt (w ! nat m) fzero) \<and> (z + 1 < len \<longrightarrow> \<not> fgt (w ! nat z) fzero)"
  using assms by (rule FindZero_ok)

theorem find_zero_crossing_witness:
  "let w = [FFin (-1), FFin 2, FFin 3, FFin (-4)] in
   \<exists>m z. FindZero w 4 = Some z \<and> 0 \<le> m \<and> m \<le> z \<and> z < 4 \<and>
    (\<forall>i. 0 \<le> i \<and> i < m \<longrightarrow> flt (w ! nat i) fzero) \<and> (\<forall>i. m \<le> i \<and> i < z \<longrightarrow> fgt (w ! nat i) fzero) \<and>
    (m + 1 < 4 \<longrightarrow> \<not> flt (w ! nat m) fzero) \<and> (z + 1 < 4 \<longrightarrow> \<not> fgt (w ! nat z) fzero)"
  unfolding Let_def by (rule find_zero_crossing) simp_all

section \<open>The difference of two signatures\<close>

definition start_of :: "VI_Signature \<Rightarrow> int \<Rightarrow> int \<Rightarrow> int" where
  "start_of sig n start_end = (if start_end = 1 then Samples sig - n - 512 else 0)"

text \<open>The \<open>n\<close> samples from \<open>k\<close> on.\<close>

definition window :: "fp list \<Rightarrow> int \<Rightarrow> int \<Rightarrow> fp list" where
  "window xs k n = take (nat n) (drop (nat k) xs)"

text \<open>A signature whose two arrays hold at least its samples.\<close>

definition sig_ok :: "VI_Signature \<Rightarrow> bool" where
  "sig_ok s \<longleftrightarrow> 0 \<le> Samples s \<and> Samples s \<le> int (length (V_Waveform s)) \<and> Samples s \<le> int (length (I_Waveform s))"

text \<open>
  The difference of two signatures. Both signatures hold at least 512 samples more than the \<open>n\<close> asked
  for. When both have a sample before their crossings \<open>k1\<close>, \<open>k2\<close>, the call stays inside every array and stores
  the \<open>n\<close> current differences, aligned at the crossings and taken at the start or, with \<open>start_end = 1\<close>, at the
  end of the signatures, and the \<open>n\<close> voltages of the signature \<open>offset12\<close> selects; the rest of the output is kept.
\<close>

theorem waveform_diff_aligned:
  assumes "sig_ok prior" "sig_ok current" "sig_ok out"
    and "Samples out + 512 \<le> Samples prior" "Samples out + 512 \<le> Samples current"
    and "FindZero (V_Waveform prior) 512 = Some k1" "FindZero (V_Waveform current) 512 = Some k2" "1 \<le> k1" "1 \<le> k2"
  shows "let n = Samples out; s1 = start_of prior n start_end + k1; s2 = start_of current n start_end + k2 in
    WaveformDiff rd prior current out offset12 start_end =
      Some (out\<lparr>V_Waveform := (if offset12 = 2 then window (V_Waveform current) s2 n else window (V_Waveform prior) s1 n)
                  @ drop (nat n) (V_Waveform out),
                I_Waveform := map2 (fsub rd SGL) (window (I_Waveform current) s2 n) (window (I_Waveform prior) s1 n)
                  @ drop (nat n) (I_Waveform out)\<rparr>)"
proof -
  have k: "k1 < 512" "k2 < 512"
    using FindZero_ok[of 512 "V_Waveform prior"] FindZero_ok[of 512 "V_Waveform current"] assms
    by (auto simp: sig_ok_def)
  have r: "rd_at (V_Waveform prior) (k1 - 1) \<noteq> None" "rd_at (V_Waveform prior) k1 \<noteq> None"
    "rd_at (V_Waveform current) (k2 - 1) \<noteq> None" "rd_at (V_Waveform current) k2 \<noteq> None"
    using k assms by (auto simp: sig_ok_def)
  show ?thesis
    using k r assms
    by (cases "start_end = 1"; cases "offset12 = 2")
      (auto simp: WaveformDiff_def Let_def diff_loop_ok sig_ok_def start_of_def window_def algebra_simps)
qed

theorem waveform_diff_aligned_witness:
  "let xs = FFin 1 # replicate 600 (FFin (-1));
       s = \<lparr>V_Waveform = xs, I_Waveform = xs, Samples = 601\<rparr>;
       out = \<lparr>V_Waveform = [FNaN, FNaN], I_Waveform = [FNaN, FNaN], Samples = 2\<rparr> in
   WaveformDiff exact s s out 2 1 =
     Some (out\<lparr>V_Waveform := window xs 88 2, I_Waveform := map2 (fsub exact SGL) (window xs 88 2) (window xs 88 2)\<rparr>)"
proof -
  have "FindZero (FFin 1 # replicate 600 (FFin (-1))) 512 = Some 1"
    by (simp add: FindZero_def scan.simps rd_at_def nth_Cons' fgt_def)
  then show ?thesis
    using waveform_diff_aligned[of "\<lparr>V_Waveform = FFin 1 # replicate 600 (FFin (-1)), I_Waveform = FFin 1 # replicate 600 (FFin (-1)), Samples = 601\<rparr>"
      "\<lparr>V_Waveform = FFin 1 # replicate 600 (FFin (-1)), I_Waveform = FFin 1 # replicate 600 (FFin (-1)), Samples = 601\<rparr>"
      "\<lparr>V_Waveform = [FNaN, FNaN], I_Waveform = [FNaN, FNaN], Samples = 2\<rparr>" 1 1 1 exact 2]
    by (simp add: sig_ok_def start_of_def Let_def del: replicate.simps)
qed

text \<open>
  A missing guard. A signature whose first voltage sample is neither negative nor positive (a zero or a
  NaN) has its crossing at index 0, and the call then reads the sample before the array.
\<close>

theorem waveform_diff_reads_before:
  assumes "V_Waveform prior \<noteq> [] " "\<not> flt (V_Waveform prior ! 0) fzero" "\<not> fgt (V_Waveform prior ! 0) fzero"
  shows "WaveformDiff rd prior current out offset12 start_end = None"
proof -
  have "FindZero (V_Waveform prior) 512 = Some 0"
    using assms by (cases "V_Waveform prior") (simp_all add: FindZero_def scan.simps rd_at_def)
  then show ?thesis
    by (cases "FindZero (V_Waveform current) 512") (simp_all add: WaveformDiff_def Let_def)
qed

theorem waveform_diff_reads_before_witness:
  "let s = \<lparr>V_Waveform = FFin 0 # replicate 599 (FFin 1), I_Waveform = replicate 600 (FFin 1), Samples = 600\<rparr> in
   WaveformDiff exact s s (s\<lparr>Samples := 10\<rparr>) 1 0 = None"
  unfolding Let_def by (rule waveform_diff_reads_before) (simp_all add: fgt_def)

section \<open>Copies\<close>

lemma copy_loop_ok:
  assumes "0 \<le> i" "i + int n \<le> int (length v)" "i + int n \<le> int (length c)"
    "0 \<le> k" "k + int n \<le> int (length dv)" "k + int n \<le> int (length di)"
  shows "copy_loop v c i k n (dv, di) =
    Some (take (nat k) dv @ window v i (int n) @ drop (nat k + n) dv,
          take (nat k) di @ window c i (int n) @ drop (nat k + n) di)"
  using assms
proof (induction n arbitrary: i k dv di)
  case (Suc n)
  have c: "window xs i (1 + int n) = xs ! nat i # window xs (i + 1) (int n)"
    if "i + int (Suc n) \<le> int (length xs)" for xs
  proof -
    have n: "nat (1 + int n) = Suc n" "nat (i + 1) = Suc (nat i)" using Suc.prems(1) by simp_all
    have "nat i < length xs" using that Suc.prems(1) by simp
    then show ?thesis unfolding window_def n by (simp add: Cons_nth_drop_Suc[symmetric])
  qed
  have u: "take (nat (k + 1)) (xs[nat k := x]) = take (nat k) xs @ [x]"
    if "k + int (Suc n) \<le> int (length xs)" for x and xs :: "fp list"
    using that Suc.prems(4) by (simp add: nat_add_distrib take_Suc_conv_app_nth)
  have d: "drop (nat (k + 1) + n) (xs[nat k := x]) = drop (nat k + Suc n) xs" for x and xs :: "fp list"
    using Suc.prems(4) by (simp add: nat_add_distrib)
  show ?case
    using Suc.prems by (simp add: Suc.IH c u d)
qed (simp add: window_def)

lemma copy_loop_faults:
  "0 < n \<Longrightarrow> i < 0 \<or> int (length v) < i + int n \<Longrightarrow> copy_loop v c i k n (dv, di) = None"
proof (induction n arbitrary: i k dv di)
  case (Suc n)
  show ?case
  proof (cases "0 \<le> i \<and> i < int (length v)")
    case True
    with Suc.prems have "0 < n" "int (length v) < (i + 1) + int n" by auto
    then have "copy_loop v c (i + 1) (k + 1) n (a, b) = None" for a b using Suc.IH by simp
    then show ?thesis by (simp add: bind_eq_None_conv)
  qed auto
qed simp

text \<open>
  Copying two cycles. With destinations of 512 samples, \<open>CopyWaveform\<close> succeeds exactly when the whole
  window \<open>offset - 256 .. offset + 255\<close> lies in the channel, and it then copies those 512 consecutive samples: the two
  halves of the loop meet at \<open>offset\<close>.
\<close>

theorem copy_waveform_window:
  assumes "length i = length v" "length dv = 512" "length di = 512"
  shows "CopyWaveform offset v i dv di =
    (if 256 \<le> offset \<and> offset + 256 \<le> int (length v)
     then Some (window v (offset - 256) 512, window i (offset - 256) 512) else None)"
proof -
  have w: "window xs (offset - 256) 256 @ window xs offset 256 = window xs (offset - 256) 512"
    if "256 \<le> offset" for xs
  proof -
    have n: "nat offset = 256 + nat (offset - 256)" using that by simp
    show ?thesis unfolding window_def n drop_drop[symmetric]
      using take_add[of 256 256 "drop (nat (offset - 256)) xs"] by (simp add: add.commute)
  qed
  consider "offset < 256" | "256 \<le> offset" "int (length v) < offset" | "256 \<le> offset" "offset \<le> int (length v)" "int (length v) < offset + 256"
    | "256 \<le> offset" "offset + 256 \<le> int (length v)" by linarith
  then show ?thesis
  proof cases
    case 3
    then have "copy_loop v i (offset - 256) 0 256 (dv, di) =
      Some (window v (offset - 256) 256 @ drop 256 dv, window i (offset - 256) 256 @ drop 256 di)"
      using copy_loop_ok[of "offset - 256" 256 v i 0 dv di] assms by simp
    with 3 show ?thesis by (simp add: CopyWaveform_def copy_loop_faults)
  next
    case 4
    then have 1: "copy_loop v i (offset - 256) 0 256 (dv, di) =
      Some (window v (offset - 256) 256 @ drop 256 dv, window i (offset - 256) 256 @ drop 256 di)"
      using copy_loop_ok[of "offset - 256" 256 v i 0 dv di] assms by simp
    have l: "length (window xs (offset - 256) 256) = 256" if "length xs = length v" for xs
      using that 4 by (simp add: window_def)
    have "copy_loop v i offset 256 256 (window v (offset - 256) 256 @ drop 256 dv, window i (offset - 256) 256 @ drop 256 di) =
      Some (window v (offset - 256) 256 @ window v offset 256, window i (offset - 256) 256 @ window i offset 256)"
      using copy_loop_ok[of offset 256 v i 256 "window v (offset - 256) 256 @ drop 256 dv" "window i (offset - 256) 256 @ drop 256 di"]
        4 assms l by simp
    with 1 4 show ?thesis by (simp add: CopyWaveform_def w)
  qed (simp_all add: CopyWaveform_def copy_loop_faults)
qed

theorem copy_waveform_window_witness:
  "CopyWaveform 100 (replicate 600 FNaN) (replicate 600 FNaN) (replicate 512 (FFin 0)) (replicate 512 (FFin 0)) = None"
  by (subst copy_waveform_window) simp_all

end
