(* ===== verification/Pasm_State.thy ===== *)
theory Pasm_State
  imports Prelude
begin

text \<open>
  The PRU assembler's state and the small functions everything else in it uses: the globals of
  \<open>pasm.c\<close>, \<open>Report\<close>, the labels, the code image (\<open>ValidateOffset\<close>, \<open>GenOp\<close>) and the classification of
  tokens (\<open>CheckOpcode\<close>, \<open>CheckTokenType\<close> of \<open>pasmop.c\<close>, \<open>CheckDotCommand\<close> of \<open>pasmdot.c\<close>).

  A C string is the list of its characters, without the terminator; the model's strings hold no NUL. A run ends
  in undefined behaviour (\<open>Stuck\<close>), runs out of the fuel a recursive function was given (\<open>Fuel\<close>) or returns.
  A function that reports and returns an error code returns \<open>None\<close> and the state with the reports counted. The
  messages themselves, the listing and the debug output are left out.
\<close>

section \<open>Runs\<close>

datatype 'a exec = Stuck | Fuel | Ret 'a

type_synonym ('a, 's) step = "('a option \<times> 's) exec"

text \<open>\<open>if( !f(...) ) return(0);\<close> and then the rest.\<close>

definition andThen :: "('a option \<times> 's) exec \<Rightarrow> ('a \<Rightarrow> 's \<Rightarrow> ('b option \<times> 's) exec) \<Rightarrow> ('b option \<times> 's) exec" where
  "andThen m k = (case m of Stuck \<Rightarrow> Stuck | Fuel \<Rightarrow> Fuel
     | Ret (None, s) \<Rightarrow> Ret (None, s) | Ret (Some a, s) \<Rightarrow> k a s)"

lemma andThen_simps [simp]: "andThen Stuck k = Stuck" "andThen Fuel k = Fuel"
  "andThen (Ret (None, s)) k = Ret (None, s)" "andThen (Ret (Some a, s)) k = k a s"
  by (simp_all add: andThen_def)

lemma andThen_assoc: "andThen (andThen m f) g = andThen m (\<lambda>a s. andThen (f a s) g)"
  by (simp add: andThen_def split: exec.splits option.splits)

lemma andThen_Ret: "andThen m k = Ret r \<longleftrightarrow>
    (\<exists>s. m = Ret (None, s) \<and> r = (None, s)) \<or> (\<exists>a s. m = Ret (Some a, s) \<and> k a s = Ret r)"
  by (auto simp: andThen_def split: exec.splits option.splits)

section \<open>Characters\<close>

definition code :: "char \<Rightarrow> nat" where "code c = of_char c"

definition isdigit :: "char \<Rightarrow> bool" where "isdigit c = (48 \<le> code c \<and> code c \<le> 57)"
definition isupper :: "char \<Rightarrow> bool" where "isupper c = (65 \<le> code c \<and> code c \<le> 90)"
definition islower :: "char \<Rightarrow> bool" where "islower c = (97 \<le> code c \<and> code c \<le> 122)"

definition toupper :: "char \<Rightarrow> char" where
  "toupper c = (if islower c then char_of (code c - 32) else c)"

definition tolower :: "char \<Rightarrow> char" where
  "tolower c = (if isupper c then char_of (code c + 32) else c)"

text \<open>\<open>stricmp\<close>, which is \<open>strcasecmp\<close>: do the strings agree?\<close>

definition stricmp :: "string \<Rightarrow> string \<Rightarrow> bool" where
  "stricmp a b = (map tolower a = map tolower b)"

text \<open>The character at the front of the rest of a string: NUL at its end.\<close>

definition cur :: "string \<Rightarrow> char" where
  "cur s = (case s of [] \<Rightarrow> CHR 0x00 | c # _ \<Rightarrow> c)"

lemma cur_simps [simp]: "cur [] = CHR 0x00" "cur (c # s) = c"
  by (simp_all add: cur_def)

text \<open>The decimal digits of a number: \<open>sprintf\<close> with \<open>%d\<close>.\<close>

function decimal :: "nat \<Rightarrow> string" where
  "decimal n = (if n < 10 then [char_of (48 + n)] else decimal (n div 10) @ [char_of (48 + n mod 10)])"
  by pat_completeness auto
termination by (relation "measure id") auto

declare decimal.simps [simp del]

definition blank :: "char \<Rightarrow> bool" where "blank c = (c = CHR 0x20 \<or> c = CHR 0x09)"

definition skip_blanks :: "string \<Rightarrow> string" where "skip_blanks = dropWhile blank"

lemma length_skip_blanks: "length (skip_blanks s) \<le> length s"
  by (simp add: skip_blanks_def length_dropWhile_le)

definition LabelChar :: "char \<Rightarrow> bool \<Rightarrow> bool" where
  "LabelChar c FlagFirstChar =
     (if FlagFirstChar then isupper c \<or> islower c \<or> c = CHR ''_''
      else isupper c \<or> islower c \<or> isdigit c \<or> c = CHR ''_'')"

section \<open>State\<close>

record CODEGEN =
  cg_Flags :: u8
  cg_FileIndex :: u16
  cg_Line :: u32
  cg_AddrOffset :: u32
  cg_CodeWord :: u32

text \<open>A source file: the open handle is the text not yet read.\<close>

record SOURCEFILE =
  sf_FileIndex :: u32
  sf_CurrentLine :: u32
  sf_ccDepthIn :: nat
  sf_LastChar :: char
  sf_SourceName :: string
  sf_SourceBaseDir :: string
  sf_FilePtr :: string

definition source_file :: "nat \<Rightarrow> nat \<Rightarrow> string \<Rightarrow> string \<Rightarrow> string \<Rightarrow> SOURCEFILE" where
  "source_file i depth dir name body = \<lparr>sf_FileIndex = of_nat i, sf_CurrentLine = 1, sf_ccDepthIn = depth,
     sf_LastChar = CHR 0x00, sf_SourceName = name, sf_SourceBaseDir = dir, sf_FilePtr = body\<rparr>"

abbreviation "source0 \<equiv> source_file 0 0 ''.'' ''main.p'' []"

record asm =
  Options :: u32
  Core :: nat
  Pass :: nat
  HaveEntry :: bool
  EntryPoint :: int
  CodeOffset :: int
  Errors :: nat
  FatalError :: bool
  Warnings :: nat
  RetRegValue :: u32
  RetRegField :: u32
  pLabelList :: "(string \<times> int) list"
  ProgramImage :: "CODEGEN list"

definition OPTION_BIGENDIAN :: u32 where "OPTION_BIGENDIAN = 0x80"
definition OPTION_RETREGSET :: u32 where "OPTION_RETREGSET = 0x100"

abbreviation (input) "CORE_NONE \<equiv> (0 :: nat)"
abbreviation (input) "CORE_V0 \<equiv> (1 :: nat)"
abbreviation (input) "CORE_V1 \<equiv> (2 :: nat)"
abbreviation (input) "CORE_V2 \<equiv> (3 :: nat)"
abbreviation (input) "CORE_V3 \<equiv> (4 :: nat)"

definition MAX_PROGRAM :: nat where "MAX_PROGRAM = 16384"
definition TOKEN_MAX_LEN :: nat where "TOKEN_MAX_LEN = 128"
definition LABEL_NAME_LEN :: nat where "LABEL_NAME_LEN = TOKEN_MAX_LEN"

definition big_endian :: "asm \<Rightarrow> bool" where
  "big_endian st = (Options st AND OPTION_BIGENDIAN \<noteq> 0)"

text \<open>The state at the start of a pass.\<close>

definition asm_init :: "nat \<Rightarrow> u32 \<Rightarrow> nat \<Rightarrow> (string \<times> int) list \<Rightarrow> asm" where
  "asm_init core options pass labels = \<lparr>Options = options, Core = core, Pass = pass, HaveEntry = False,
     EntryPoint = -1, CodeOffset = -1, Errors = 0, FatalError = False, Warnings = 0, RetRegValue = 30,
     RetRegField = 4, pLabelList = labels,
     ProgramImage = replicate MAX_PROGRAM \<lparr>cg_Flags = 0, cg_FileIndex = 0, cg_Line = 0, cg_AddrOffset = 0, cg_CodeWord = 0\<rparr>\<rparr>"

lemma asm_init_simps [simp]: "Options (asm_init c o' p l) = o'" "Core (asm_init c o' p l) = c" "Pass (asm_init c o' p l) = p"
  "CodeOffset (asm_init c o' p l) = -1" "EntryPoint (asm_init c o' p l) = -1" "Errors (asm_init c o' p l) = 0"
  "pLabelList (asm_init c o' p l) = l" "length (ProgramImage (asm_init c o' p l)) = MAX_PROGRAM" "RetRegValue (asm_init c o' p l) = 30"
  "RetRegField (asm_init c o' p l) = 4"
  by (simp_all add: asm_init_def)

section \<open>Reports\<close>

datatype level = REP_FATAL | REP_ERROR | REP_WARN1 | REP_WARN2 | REP_INFO

definition Report :: "level \<Rightarrow> asm \<Rightarrow> asm" where
  "Report l st =
     (if Pass st = 1 \<and> l = REP_WARN2 then st
      else if Pass st = 2 \<and> (l = REP_INFO \<or> l = REP_WARN1) then st
      else if l = REP_FATAL then st\<lparr>FatalError := True, Errors := Errors st + 1\<rparr>
      else if l = REP_ERROR then st\<lparr>Errors := Errors st + 1\<rparr>
      else if l = REP_WARN1 \<or> l = REP_WARN2 then st\<lparr>Warnings := Warnings st + 1\<rparr>
      else st)"

abbreviation error :: "asm \<Rightarrow> ('a option \<times> asm) exec" where
  "error st \<equiv> Ret (None, Report REP_ERROR st)"

lemma Report_ERROR [simp]: "Report REP_ERROR st = st\<lparr>Errors := Errors st + 1\<rparr>"
  by (simp add: Report_def)

section \<open>Labels\<close>

definition LabelFind :: "string \<Rightarrow> asm \<Rightarrow> int option" where
  "LabelFind name st = map_of (pLabelList st) name"

section \<open>The code image\<close>

definition put_code :: "u8 \<Rightarrow> SOURCEFILE \<Rightarrow> u32 \<Rightarrow> asm \<Rightarrow> asm exec" where
  "put_code flags ps opcode st =
     (case wr_at (ProgramImage st) (CodeOffset st)
        \<lparr>cg_Flags = flags, cg_FileIndex = ucast (sf_FileIndex ps), cg_Line = sf_CurrentLine ps,
         cg_AddrOffset = word_of_int (CodeOffset st), cg_CodeWord = opcode\<rparr> of
        None \<Rightarrow> Stuck
      | Some im \<Rightarrow> Ret (st\<lparr>ProgramImage := im, CodeOffset := CodeOffset st + 1\<rparr>))"

definition ValidateOffset :: "SOURCEFILE \<Rightarrow> asm \<Rightarrow> (bool \<times> asm) exec" where
  "ValidateOffset ps st =
     (let check = (\<lambda>st. if int MAX_PROGRAM \<le> CodeOffset st then Ret (False, Report REP_FATAL st) else Ret (True, st))
      in if CodeOffset st = -1 then
           (let st = st\<lparr>CodeOffset := 8\<rparr>;
                st = (if EntryPoint st < 0 then st\<lparr>EntryPoint := 8\<rparr> else st)
            in if Core st \<noteq> CORE_V0 then check (Report REP_WARN1 st)
               else (case put_code 1 ps 0x21000900 st of Ret st \<Rightarrow> check st | Stuck \<Rightarrow> Stuck | Fuel \<Rightarrow> Fuel))
         else check st)"

definition GenOp :: "SOURCEFILE \<Rightarrow> u32 \<Rightarrow> asm \<Rightarrow> asm exec" where
  "GenOp ps opcode st =
     (case ValidateOffset ps st of
        Ret (True, st) \<Rightarrow> put_code 3 ps opcode st
      | Ret (False, st) \<Rightarrow> Ret st
      | Stuck \<Rightarrow> Stuck
      | Fuel \<Rightarrow> Fuel)"

text \<open>\<open>GenOp( ps, TermCnt, pTerms, opcode ); return(1);\<close>\<close>

definition gen_ok :: "SOURCEFILE \<Rightarrow> u32 \<Rightarrow> asm \<Rightarrow> (unit option \<times> asm) exec" where
  "gen_ok ps opcode st =
     (case GenOp ps opcode st of Ret st \<Rightarrow> Ret (Some (), st) | Stuck \<Rightarrow> Stuck | Fuel \<Rightarrow> Fuel)"

section \<open>Reserved words\<close>

definition OpText :: "string list" where
  "OpText = [
    ''$ERROR$'',''ADD'',''ADC'',''SUB'',''SUC'',''LSL'',''LSR'',''RSB'',''RSC'',''AND'',''OR'',
    ''XOR'',''NOT'',''MIN'',''MAX'',''CLR'',''SET'',''LDI'',''LBBO'',''LBCO'',''SBBO'',
    ''SBCO'',''LFC'',''STC'',''JAL'',''JMP'',''QBGT'',''QBLT'',''QBEQ'',''QBGE'',''QBLE'',
    ''QBNE'',''QBA'',''QBBS'',''QBBC'',''LMBD'',''CALL'',''WBC'',''WBS'',''MOV'',''MVIB'',
    ''MVIW'',''MVID'',''SCAN'',''HALT'',''SLP'', ''RET'', ''ZERO'', ''FILL'', ''XIN'', ''XOUT'',
    ''XCHG'',''SXIN'',''SXOUT'',''SXCHG'',''LOOP'',''ILOOP'',''NOP0'',''NOP1'',''NOP2'',''NOP3'',
    ''NOP4'',''NOP5'',''NOP6'',''NOP7'',''NOP8'',''NOP9'',''NOPA'',''NOPB'',''NOPC'',''NOPD'',
    ''NOPE'',''NOPF'']"

fun find_word :: "nat \<Rightarrow> string \<Rightarrow> string list \<Rightarrow> nat" where
  "find_word i word [] = 0"
| "find_word i word (t # ts) = (if stricmp word t then i else find_word (i + 1) word ts)"

definition CheckOpcode :: "string \<Rightarrow> nat" where
  "CheckOpcode word = find_word 1 word (tl OpText)"

definition DotCmds :: "string list" where
  "DotCmds = [ ''.main'',''.end'',''.proc'',''.ret'',''.origin'',''.entrypoint'',
     ''.struct'',''.ends'',''.u32'',''.u16'',''.u8'',''.assign'',
     ''.setcallreg'', ''.enter'', ''.leave'', ''.using'',
     ''.macro'', ''.mparam'', ''.endm'', ''.codeword'' ]"

definition CheckDotCommand :: "string \<Rightarrow> bool" where
  "CheckDotCommand word = list_ex (stricmp word) DotCmds"

text \<open>Token type flags.\<close>

definition TOKENTYPE_UNRESERVED :: u32 where "TOKENTYPE_UNRESERVED = 0"
definition FLG_OPCODE :: u32 where "FLG_OPCODE = 0x01"
definition FLG_DIRECTIVE :: u32 where "FLG_DIRECTIVE = 0x02"
definition FLG_REG_BASE :: u32 where "FLG_REG_BASE = 0x04"
definition FLG_REG_ADDR :: u32 where "FLG_REG_ADDR = 0x08"
definition FLG_REG_PTR :: u32 where "FLG_REG_PTR = 0x10"
definition FLG_REG_POSTINC :: u32 where "FLG_REG_POSTINC = 0x20"
definition FLG_REG_PREDEC :: u32 where "FLG_REG_PREDEC = 0x40"

text \<open>The prefix of a register token: the flags and the rest, or not a register token.\<close>

definition reg_prefix :: "string \<Rightarrow> (u32 \<times> string) option" where
  "reg_prefix w =
     (if cur w = CHR ''*'' then
        (let w = tl w in
         if cur w = CHR ''&'' then Some (FLG_REG_PTR OR FLG_REG_ADDR, tl w)
         else if cur w = CHR ''-'' then
           (if cur (tl w) \<noteq> CHR ''-'' then None
            else Some (FLG_REG_PTR OR FLG_REG_BASE OR FLG_REG_PREDEC, drop 2 w))
         else Some (FLG_REG_PTR OR FLG_REG_BASE, w))
      else if cur w = CHR ''&'' then Some (FLG_REG_ADDR, tl w)
      else Some (FLG_REG_BASE, w))"

text \<open>The automaton over the rest: \<open>state\<close> is \<open>parse_state\<close>.\<close>

fun reg_state :: "u32 \<Rightarrow> nat \<Rightarrow> string \<Rightarrow> u32" where
  "reg_state flags state [] = (if state = 2 \<or> state = 3 then flags else TOKENTYPE_UNRESERVED)"
| "reg_state flags state (c # w) =
     (let c = toupper c in
      if state = 0 then
        (if c \<in> {CHR ''B'', CHR ''C'', CHR ''R'', CHR ''T'', CHR ''W''} then reg_state flags 1 w
         else TOKENTYPE_UNRESERVED)
      else if state = 1 then
        (if isdigit c then reg_state flags 2 w else TOKENTYPE_UNRESERVED)
      else
        (if isdigit c then (if state + 1 > 3 then TOKENTYPE_UNRESERVED else reg_state flags (state + 1) w)
         else if c = CHR ''.'' then reg_state flags 0 w
         else if blank c then flags
         else if c = CHR ''+'' then
           (if flags AND (FLG_REG_ADDR OR FLG_REG_PREDEC) \<noteq> 0 then TOKENTYPE_UNRESERVED
            else if cur w \<noteq> c \<or> tl w \<noteq> [] then TOKENTYPE_UNRESERVED
            else flags OR FLG_REG_POSTINC)
         else TOKENTYPE_UNRESERVED))"

definition CheckTokenType :: "string \<Rightarrow> u32" where
  "CheckTokenType word =
     (if CheckOpcode word \<noteq> 0 then FLG_OPCODE
      else if CheckDotCommand word then FLG_DIRECTIVE
      else if word = ''SIZE'' \<or> word = ''OFFSET'' then FLG_DIRECTIVE
      else (case reg_prefix word of None \<Rightarrow> TOKENTYPE_UNRESERVED | Some (flags, w) \<Rightarrow> reg_state flags 0 w))"

end
