(* ===== verification/Pasm_Exp.thy ===== *)
theory Pasm_Exp
  imports Pasm_State
begin

text \<open>
  The assembler's expression evaluator (\<open>pasmexp.c\<close>): values and operations are collected from the text,
  then the operations are applied, tightest binding first, until one value is left.

  The index into the text is the rest of the text. The index reported on an error, which no caller reads, is
  left out. The closing parenthesis that \<open>EXP_getValue\<close> overwrites with a NUL is never read again, so the inner
  expression is evaluated on the text between the parentheses. The entries of \<open>values\<close> and \<open>ops\<close> above
  \<open>validx\<close> and \<open>opidx\<close> are never read, so the arrays are lists of the live ones; the library's \<open>memcpy\<close> is taken
  to copy overlapping words upwards, as the code needs. The recursion is bounded by fuel; \<open>Expression\<close> passes
  enough for any text (\<open>expression_terminates\<close>).
\<close>

definition MAXTERM :: nat where "MAXTERM = 32"

datatype eop = EOP_MULTIPLY | EOP_DIVIDE | EOP_MOD | EOP_ADD | EOP_SUBTRACT
  | EOP_LEFTSHIFT | EOP_RIGHTSHIFT | EOP_AND | EOP_XOR | EOP_OR

fun prec :: "eop \<Rightarrow> nat" where
  "prec EOP_MULTIPLY = 1"
| "prec EOP_DIVIDE = 1"
| "prec EOP_MOD = 1"
| "prec EOP_ADD = 2"
| "prec EOP_SUBTRACT = 2"
| "prec EOP_LEFTSHIFT = 3"
| "prec EOP_RIGHTSHIFT = 3"
| "prec EOP_AND = 4"
| "prec EOP_XOR = 5"
| "prec EOP_OR = 6"

section \<open>Register offsets\<close>

text \<open>
  \<open>while( isdigit(c) ) { val *= 10; val += c-'0'; c = src[idx++]; }\<close>: the value and the rest, or \<open>None\<close> when
  the \<open>int\<close> overflows.
\<close>

fun digits :: "int \<Rightarrow> string \<Rightarrow> (int \<times> string) option" where
  "digits val [] = Some (val, [])"
| "digits val (c # s) =
     (if isdigit c then
        (let val = val * 10 + (int (code c) - 48) in if val < 2 ^ 31 then digits val s else None)
      else Some (val, c # s))"

lemma digits_length: "digits val s = Some (v, s') \<Longrightarrow> length s' \<le> length s"
  by (induction val s rule: digits.induct) (auto simp: Let_def split: if_splits)

text \<open>The fields after the register number: \<open>None\<close> is a syntax error.\<close>

function reg_offset_fields :: "string \<Rightarrow> int \<Rightarrow> int \<Rightarrow> (int \<times> int) option exec" where
  "reg_offset_fields s width offset =
     (if s = [] then Ret (Some (width, offset))
      else if cur s \<noteq> CHR ''.'' then Ret None
      else
        (let field = toupper (cur (tl s)); s = drop 2 s in
         if field \<noteq> CHR ''W'' \<and> field \<noteq> CHR ''B'' then Ret None
         else if \<not> isdigit (cur s) then Ret None
         else (case digits 0 s of
             None \<Rightarrow> Stuck
           | Some (val, s) \<Rightarrow>
               if field = CHR ''W'' then
                 (if 2 ^ 31 \<le> val * 8 + 16 then Stuck
                  else if val * 8 + 16 > width then Ret None else reg_offset_fields s 16 (offset + val))
               else
                 (if 2 ^ 31 \<le> val * 8 + 8 then Stuck
                  else if val * 8 + 8 > width then Ret None else reg_offset_fields s 8 (offset + val)))))"
  by pat_completeness auto
termination
  by (relation "measure (\<lambda>(s, width, offset). length s)")
    (auto dest!: digits_length simp: neq_Nil_conv split: list.splits)

declare reg_offset_fields.simps [simp del]

text \<open>\<open>GetRegisterOffset\<close>: the byte offset of a register field in the register file.\<close>

definition GetRegisterOffset :: "string \<Rightarrow> asm \<Rightarrow> u32 option exec" where
  "GetRegisterOffset src st =
     (if Core st = CORE_V0 then Ret None
      else if toupper (cur src) \<noteq> CHR ''R'' then Ret None
      else if \<not> isdigit (cur (tl src)) then Ret None
      else (case digits 0 (tl src) of
          None \<Rightarrow> Stuck
        | Some (reg, s) \<Rightarrow>
            if reg > 31 then Ret None
            else (case reg_offset_fields s 32 0 of
                Stuck \<Rightarrow> Stuck
              | Fuel \<Rightarrow> Fuel
              | Ret None \<Rightarrow> Ret None
              | Ret (Some (width, offset)) \<Rightarrow>
                  Ret (Some (word_of_int (reg * 4 +
                    (if \<not> big_endian st then offset else 4 - offset - width div 8)))))))"

section \<open>Operations\<close>

text \<open>The code of the operation (\<open>rc = 1\<close>), no text left (0) or no operation (-1), and the rest.\<close>

definition EXP_getOperation :: "string \<Rightarrow> int \<times> eop option \<times> string" where
  "EXP_getOperation s =
     (let s = skip_blanks s; c = cur s in
      if s = [] then (0, None, s)
      else if c = CHR ''*'' then (1, Some EOP_MULTIPLY, tl s)
      else if c = CHR ''/'' then (1, Some EOP_DIVIDE, tl s)
      else if c = CHR ''%'' then (1, Some EOP_MOD, tl s)
      else if c = CHR ''+'' then (1, Some EOP_ADD, tl s)
      else if c = CHR ''-'' then (1, Some EOP_SUBTRACT, tl s)
      else if c = CHR ''<'' then
        (if cur (tl s) \<noteq> CHR ''<'' then (-1, None, tl s) else (1, Some EOP_LEFTSHIFT, drop 2 s))
      else if c = CHR ''>'' then
        (if cur (tl s) \<noteq> CHR ''>'' then (-1, None, tl s) else (1, Some EOP_RIGHTSHIFT, drop 2 s))
      else if c = CHR ''&'' then (1, Some EOP_AND, tl s)
      else if c = CHR ''^'' then (1, Some EOP_XOR, tl s)
      else if c = CHR ''|'' then (1, Some EOP_OR, tl s)
      else (-1, None, s))"

text \<open>
  One operation. The outer \<open>None\<close> is a shift C leaves undefined; \<open>Inl\<close> is a division by zero in the second
  pass, which is an error; in the first pass the result is then 0.
\<close>

definition apply_op :: "nat \<Rightarrow> eop \<Rightarrow> u32 \<Rightarrow> u32 \<Rightarrow> (unit + u32) option" where
  "apply_op pass o' a b =
     (case o' of
        EOP_MULTIPLY \<Rightarrow> Some (Inr (a * b))
      | EOP_DIVIDE \<Rightarrow> Some (if b = 0 then (if pass = 2 then Inl () else Inr 0) else Inr (a div b))
      | EOP_MOD \<Rightarrow> Some (if b = 0 then (if pass = 2 then Inl () else Inr 0) else Inr (a mod b))
      | EOP_ADD \<Rightarrow> Some (Inr (a + b))
      | EOP_SUBTRACT \<Rightarrow> Some (Inr (a - b))
      | EOP_LEFTSHIFT \<Rightarrow> if b < 32 then Some (Inr (push_bit (unat b) a)) else None
      | EOP_RIGHTSHIFT \<Rightarrow> if b < 32 then Some (Inr (drop_bit (unat b) a)) else None
      | EOP_AND \<Rightarrow> Some (Inr (a AND b))
      | EOP_XOR \<Rightarrow> Some (Inr (a XOR b))
      | EOP_OR \<Rightarrow> Some (Inr (a OR b)))"

text \<open>The first operation of the tightest binding: the loop from \<open>i\<close> on.\<close>

fun highest_prec :: "eop list \<Rightarrow> nat \<Rightarrow> nat \<Rightarrow> nat \<Rightarrow> nat" where
  "highest_prec ops maxprec i 0 = maxprec"
| "highest_prec ops maxprec i (Suc n) =
     highest_prec ops (if prec (ops ! i) < prec (ops ! maxprec) then i else maxprec) (i + 1) n"

fun exp_reduce :: "nat \<Rightarrow> u32 list \<Rightarrow> eop list \<Rightarrow> asm \<Rightarrow> (u32, asm) step" where
  "exp_reduce 0 vals ops st = (if length vals \<noteq> 1 then error st else Ret (Some (vals ! 0), st))"
| "exp_reduce (Suc opidx) vals ops st =
     (let m = highest_prec ops 0 1 opidx in
      case apply_op (Pass st) (ops ! m) (vals ! m) (vals ! (m + 1)) of
        None \<Rightarrow> Stuck
      | Some (Inl _) \<Rightarrow> error st
      | Some (Inr v) \<Rightarrow> exp_reduce opidx (take m vals @ v # drop (m + 2) vals) (take m ops @ drop (m + 1) ops) st)"

section \<open>Values\<close>

text \<open>The label: the characters up to the first that is neither a label character nor a dot.\<close>

definition label_part :: "string \<Rightarrow> string \<times> string" where
  "label_part s = (let p = (\<lambda>c. LabelChar c False \<or> c = CHR ''.'') in (cur s # takeWhile p (tl s), dropWhile p (tl s)))"

text \<open>The text up to the parenthesis that closes \<open>depth\<close> open ones, and what follows it.\<close>

fun close_paren :: "nat \<Rightarrow> string \<Rightarrow> (string \<times> string) option" where
  "close_paren depth [] = None"
| "close_paren depth (c # s) =
     (if c = CHR '')'' \<and> depth = 1 then Some ([], s)
      else map_option (\<lambda>(a, b). (c # a, b))
        (close_paren (if c = CHR ''('' then depth + 1 else if c = CHR '')'' then depth - 1 else depth) s))"

definition digit_value :: "char \<Rightarrow> nat option" where
  "digit_value c =
     (if isdigit c then Some (code c - 48)
      else if 97 \<le> code c \<and> code c \<le> 102 then Some (code c - 97 + 10)
      else if 65 \<le> code c \<and> code c \<le> 70 then Some (code c - 65 + 10)
      else None)"

text \<open>The number's digits from the second on: the value wraps at 32 bits.\<close>

fun number :: "nat \<Rightarrow> u32 \<Rightarrow> string \<Rightarrow> int \<times> u32 \<times> string" where
  "number base tval [] = (1, tval, [])"
| "number base tval (c # s) =
     (case digit_value c of
        None \<Rightarrow> (1, tval, c # s)
      | Some i \<Rightarrow> if base \<le> i then (-1, tval, c # s) else number base (tval * of_nat base + of_nat i) s)"

text \<open>The number from its first digit on: its base by the prefix.\<close>

definition get_number :: "string \<Rightarrow> int \<times> u32 \<times> string" where
  "get_number s =
     (let tval = of_nat (code (cur s) - 48); s = tl s in
      if tval = 0 then
        (if cur s = CHR ''x'' then number 16 tval (tl s)
         else if cur s = CHR ''b'' then number 2 tval (tl s)
         else number 8 tval s)
      else number 10 tval s)"

text \<open>
  The evaluator. \<open>EXP_getValue\<close> gives its return code (0 for no value, 1, or -1), the value and the rest;
  the negation of the least \<open>int\<close> is undefined. \<open>exp_terms\<close> is the collecting loop of \<open>Expression\<close>.
\<close>

fun EXP_getValue :: "nat \<Rightarrow> string \<Rightarrow> asm \<Rightarrow> (int \<times> u32 \<times> string \<times> asm) exec"
  and exp_terms :: "nat \<Rightarrow> string \<Rightarrow> u32 list \<Rightarrow> eop list \<Rightarrow> asm \<Rightarrow> (u32, asm) step"
where
  "EXP_getValue 0 s st = Fuel"
| "EXP_getValue (Suc n) s st =
     (let s = skip_blanks s; c = cur s in
      if s = [] then Ret (0, 0, s, st)
      else if LabelChar c True \<or> c = CHR ''.'' \<or> c = CHR ''&'' then
        (let (lblstr, s) = label_part s;
             look = (case LabelFind lblstr st of
                 None \<Rightarrow> if Pass st = 1 then Ret (1, 0, s, st) else Ret (0, 0, s, Report REP_ERROR st)
               | Some off \<Rightarrow> Ret (1, word_of_int off, s, st)) in
         if LABEL_NAME_LEN \<le> length lblstr then Stuck
         else if CheckTokenType lblstr AND FLG_REG_ADDR \<noteq> 0 then
           (case GetRegisterOffset (tl lblstr) st of
              Stuck \<Rightarrow> Stuck
            | Fuel \<Rightarrow> Fuel
            | Ret (Some v) \<Rightarrow> Ret (1, v, s, st)
            | Ret None \<Rightarrow> look)
         else look)
      else if c = CHR ''-'' then
        (case EXP_getValue n (tl s) st of
           Ret (i, tval, s, st) \<Rightarrow>
             if i < 0 then Ret (i, tval, s, st)
             else if tval = 0x80000000 then Stuck
             else Ret (1, - tval, s, st)
         | Stuck \<Rightarrow> Stuck | Fuel \<Rightarrow> Fuel)
      else if c = CHR ''~'' then
        (case EXP_getValue n (tl s) st of
           Ret (i, tval, s, st) \<Rightarrow> if i < 0 then Ret (i, tval, s, st) else Ret (1, NOT tval, s, st)
         | Stuck \<Rightarrow> Stuck | Fuel \<Rightarrow> Fuel)
      else if c = CHR ''('' then
        (case close_paren 1 (tl s) of
           None \<Rightarrow> Ret (-1, 0, tl s, st)
         | Some (inner, s) \<Rightarrow>
             (case exp_terms n inner [] [] st of
                Ret (Some v, st) \<Rightarrow> Ret (1, v, s, st)
              | Ret (None, st) \<Rightarrow> Ret (-1, 0, s, st)
              | Stuck \<Rightarrow> Stuck | Fuel \<Rightarrow> Fuel))
      else if \<not> isdigit c then Ret (-1, 0, s, st)
      else (let (rc, tval, s) = get_number s in Ret (rc, tval, s, st)))"
| "exp_terms 0 s vals ops st = Fuel"
| "exp_terms (Suc n) s vals ops st =
     (let finish = (\<lambda>vals st. if length vals \<le> length ops \<or> vals = [] then Ret (None, st)
                      else exp_reduce (length ops) vals ops st) in
      if MAXTERM \<le> length vals then error st
      else (case EXP_getValue n s st of
          Stuck \<Rightarrow> Stuck
        | Fuel \<Rightarrow> Fuel
        | Ret (rc, v, s, st) \<Rightarrow>
            if rc = 0 then finish vals st
            else if rc < 0 then Ret (None, st)
            else (case EXP_getOperation s of
                (rc, op', s) \<Rightarrow>
                  if rc = 0 then finish (vals @ [v]) st
                  else if rc < 0 then Ret (None, st)
                  else exp_terms n s (vals @ [v]) (ops @ [the op']) st)))"

definition Expression :: "string \<Rightarrow> asm \<Rightarrow> (u32, asm) step" where
  "Expression s st = exp_terms (2 * length s + 2) s [] [] st"

end
