(* ===== verification/Pasm_Arg.thy ===== *)
theory Pasm_Arg
  imports Pasm_Exp
begin

text \<open>
  The operands of an instruction (\<open>GetRegister\<close>, \<open>GetImValue\<close>, \<open>GetConstant\<close>, \<open>GetR0offset\<close>,
  \<open>GetJmpOffset\<close>, \<open>GetLoopOffset\<close>, \<open>Offset2Reg\<close> of \<open>pasmop.c\<close>).

  Each returns the operand, or \<open>None\<close> when the source reports an error and returns 0. A field of the operand
  the source leaves unset is 0 here; nothing reads it.
\<close>

datatype argtype = ARGTYPE_REGISTER | ARGTYPE_IMMEDIATE | ARGTYPE_COUNT | ARGTYPE_R0BYTE
  | ARGTYPE_CONSTANT | ARGTYPE_OFFSET | ARGTYPE_REGISTERBIT

record PRU_ARG =
  pa_Type :: argtype
  pa_Value :: u32
  pa_Field :: u32
  pa_Bit :: u32

abbreviation (input) "FIELDTYPE_7_0 \<equiv> (0 :: u32)"
abbreviation (input) "FIELDTYPE_15_8 \<equiv> (1 :: u32)"
abbreviation (input) "FIELDTYPE_23_16 \<equiv> (2 :: u32)"
abbreviation (input) "FIELDTYPE_31_24 \<equiv> (3 :: u32)"
abbreviation (input) "FIELDTYPE_15_0 \<equiv> (4 :: u32)"
abbreviation (input) "FIELDTYPE_23_8 \<equiv> (5 :: u32)"
abbreviation (input) "FIELDTYPE_31_16 \<equiv> (6 :: u32)"
abbreviation (input) "FIELDTYPE_31_0 \<equiv> (7 :: u32)"

abbreviation "arg t v f \<equiv> \<lparr>pa_Type = t, pa_Value = v, pa_Field = f, pa_Bit = 0\<rparr>"

section \<open>Registers\<close>

lemma cur_dot: "cur s = CHR ''.'' \<Longrightarrow> length (drop 2 s) < length s"
  by (cases s) simp_all

lemma digits_shorter: "digits v s = Some (w, r) \<Longrightarrow> length s < n \<Longrightarrow> length r < n"
  by (auto dest: digits_length)

text \<open>
  The fields after the register number, to the terminating character: width, offset and bit (-1 for none), or
  \<open>None\<close> for a register the source reports as invalid.
\<close>

function reg_fields :: "nat \<Rightarrow> bool \<Rightarrow> char \<Rightarrow> string \<Rightarrow> int \<Rightarrow> int \<Rightarrow> int \<Rightarrow> (int \<times> int \<times> int) option exec" where
  "reg_fields core fBitOk termC s width offset bitno =
     (if cur s = termC then Ret (Some (width, offset, bitno))
      else if cur s \<noteq> CHR ''.'' then Ret None
      else
        (let field = toupper (cur (tl s)); s = drop 2 s in
         if field \<noteq> CHR ''T'' \<and> field \<noteq> CHR ''W'' \<and> field \<noteq> CHR ''B'' then Ret None
         else if \<not> isdigit (cur s) then Ret None
         else (case digits 0 s of
             None \<Rightarrow> Stuck
           | Some (val, s) \<Rightarrow>
               let next = (\<lambda>width offset bitno.
                     if cur s \<noteq> termC \<and> core = CORE_V0 then Ret None
                     else reg_fields core fBitOk termC s width offset bitno) in
               if field = CHR ''W'' then
                 (if 2 ^ 31 \<le> val * 8 + 16 then Stuck
                  else if val * 8 + 16 > width then Ret None else next 16 (offset + val) bitno)
               else if field = CHR ''B'' then
                 (if 2 ^ 31 \<le> val * 8 + 8 then Stuck
                  else if val * 8 + 8 > width then Ret None else next 8 (offset + val) bitno)
               else
                 (if \<not> fBitOk then Ret None
                  else if width \<le> val then Ret None
                  else if cur s \<noteq> termC then Ret None
                  else next width offset val))))"
  by pat_completeness auto
termination
  by (relation "measure (\<lambda>(core, fb, termC, s, width, offset, bitno). length s)")
    (auto elim!: digits_shorter intro: cur_dot simp del: digits.simps length_drop)

declare reg_fields.simps [simp del]

definition reg_field_type :: "int \<Rightarrow> int \<Rightarrow> u32" where
  "reg_field_type width offset =
     (if width = 32 then FIELDTYPE_31_0
      else if width = 16 then
        (if offset = 0 then FIELDTYPE_15_0 else if offset = 1 then FIELDTYPE_23_8 else FIELDTYPE_31_16)
      else
        (if offset = 0 then FIELDTYPE_7_0 else if offset = 1 then FIELDTYPE_15_8
         else if offset = 2 then FIELDTYPE_23_16 else FIELDTYPE_31_24))"

definition GetRegister :: "string \<Rightarrow> bool \<Rightarrow> char \<Rightarrow> asm \<Rightarrow> (PRU_ARG, asm) step" where
  "GetRegister src fBitOk termC st =
     (if toupper (cur src) \<noteq> CHR ''R'' then error st
      else if \<not> isdigit (cur (tl src)) then error st
      else (case digits 0 (tl src) of
          None \<Rightarrow> Stuck
        | Some (reg, s) \<Rightarrow>
            if reg > 31 then error st
            else (case reg_fields (Core st) fBitOk termC s 32 0 (-1) of
                Stuck \<Rightarrow> Stuck
              | Fuel \<Rightarrow> Fuel
              | Ret None \<Rightarrow> error st
              | Ret (Some (width, offset, bitno)) \<Rightarrow>
                  Ret (Some \<lparr>pa_Type = (if 0 \<le> bitno then ARGTYPE_REGISTERBIT else ARGTYPE_REGISTER),
                    pa_Value = word_of_int reg, pa_Field = reg_field_type width offset,
                    pa_Bit = (if 0 \<le> bitno then word_of_int bitno else 0)\<rparr>, st))))"

section \<open>Immediates, constants and counts\<close>

text \<open>The expression of an operand; its error is reported once more.\<close>

definition operand_exp :: "string \<Rightarrow> asm \<Rightarrow> (u32, asm) step" where
  "operand_exp src st =
     (if TOKEN_MAX_LEN \<le> length src then Stuck
      else (case Expression src st of
          Ret (None, st) \<Rightarrow> error st
        | r \<Rightarrow> r))"

definition GetImValue :: "string \<Rightarrow> u32 \<Rightarrow> u32 \<Rightarrow> asm \<Rightarrow> (PRU_ARG, asm) step" where
  "GetImValue src lo hi st =
     (let val = CheckTokenType src in
      if val \<noteq> TOKENTYPE_UNRESERVED \<and> val AND FLG_REG_ADDR = 0 then error st
      else
        (let src = (if cur src = CHR ''#'' then tl src else src) in
         andThen (operand_exp src st) (\<lambda>val st.
           if val < lo \<or> hi < val then error st
           else Ret (Some (arg ARGTYPE_IMMEDIATE val 0), st))))"

text \<open>\<open>C##\<close> and \<open>B##\<close>: the letter, a number up to \<open>hi\<close>, and nothing more.\<close>

definition letter_number :: "char \<Rightarrow> int \<Rightarrow> string \<Rightarrow> int option exec" where
  "letter_number letter hi src =
     (if toupper (cur src) \<noteq> letter then Ret None
      else if \<not> isdigit (cur (tl src)) then Ret None
      else (case digits 0 (tl src) of
          None \<Rightarrow> Stuck
        | Some (val, s) \<Rightarrow> if s \<noteq> [] \<or> hi < val then Ret None else Ret (Some val)))"

definition GetConstant :: "string \<Rightarrow> asm \<Rightarrow> (PRU_ARG, asm) step" where
  "GetConstant src st =
     (case letter_number CHR ''C'' 31 src of
        Stuck \<Rightarrow> Stuck | Fuel \<Rightarrow> Fuel | Ret None \<Rightarrow> error st
      | Ret (Some val) \<Rightarrow> Ret (Some (arg ARGTYPE_CONSTANT (word_of_int val) 0), st))"

definition GetR0offset :: "string \<Rightarrow> asm \<Rightarrow> (PRU_ARG, asm) step" where
  "GetR0offset src st =
     (case letter_number CHR ''B'' 3 src of
        Stuck \<Rightarrow> Stuck | Fuel \<Rightarrow> Fuel | Ret None \<Rightarrow> error st
      | Ret (Some val) \<Rightarrow> Ret (Some (arg ARGTYPE_R0BYTE (word_of_int val) 0), st))"

section \<open>Jump offsets\<close>

text \<open>The distance from the current instruction, checked in the second pass; its \<open>int\<close> overflow is undefined.\<close>

definition rel_offset :: "int \<Rightarrow> int \<Rightarrow> string \<Rightarrow> asm \<Rightarrow> (PRU_ARG, asm) step" where
  "rel_offset lo hi src st =
     andThen (operand_exp src st) (\<lambda>val st.
       let jmpoff = sint val - CodeOffset st in
       if jmpoff < - (2 ^ 31) \<or> 2 ^ 31 \<le> jmpoff then Stuck
       else if Pass st = 2 \<and> (jmpoff < lo \<or> hi < jmpoff) then error st
       else Ret (Some (arg ARGTYPE_OFFSET (word_of_int jmpoff) 0), st))"

definition GetJmpOffset :: "string \<Rightarrow> asm \<Rightarrow> (PRU_ARG, asm) step" where
  "GetJmpOffset src st = rel_offset (-512) 511 src st"

definition GetLoopOffset :: "string \<Rightarrow> asm \<Rightarrow> (PRU_ARG, asm) step" where
  "GetLoopOffset src st = rel_offset 2 255 src st"

section \<open>Register file offsets\<close>

definition offset_field_little :: "u32 \<Rightarrow> u32 \<Rightarrow> u32" where
  "offset_field_little sz offset =
     (if sz = 4 then FIELDTYPE_31_0
      else if sz = 2 then
        (if offset = 0 then FIELDTYPE_15_0 else if offset = 1 then FIELDTYPE_23_8 else FIELDTYPE_31_16)
      else
        (if offset = 0 then FIELDTYPE_7_0 else if offset = 1 then FIELDTYPE_15_8
         else if offset = 2 then FIELDTYPE_23_16 else FIELDTYPE_31_24))"

definition offset_field_big :: "u32 \<Rightarrow> u32 \<Rightarrow> u32" where
  "offset_field_big sz offset =
     (if sz = 4 then FIELDTYPE_31_0
      else if sz = 2 then
        (if offset = 0 then FIELDTYPE_31_16 else if offset = 1 then FIELDTYPE_23_8 else FIELDTYPE_15_0)
      else
        (if offset = 0 then FIELDTYPE_31_24 else if offset = 1 then FIELDTYPE_23_16
         else if offset = 2 then FIELDTYPE_15_8 else FIELDTYPE_7_0))"

definition Offset2Reg :: "u32 \<Rightarrow> u32 \<Rightarrow> asm \<Rightarrow> (PRU_ARG, asm) step" where
  "Offset2Reg addr sz st =
     (let offset = addr AND 3 in
      if addr + sz > 128 then error st
      else if (sz = 2 \<and> offset = 3) \<or> (sz = 4 \<and> offset \<noteq> 0) then error st
      else Ret (Some (arg ARGTYPE_REGISTER (addr div 4)
        (if \<not> big_endian st then offset_field_little sz offset else offset_field_big sz offset)), st))"

end
