(* ===== verification/Pasm_Op.thy ===== *)
theory Pasm_Op
  imports Pasm_Arg
begin

text \<open>
  The instruction encoder (\<open>ProcessOp\<close> of \<open>pasmop.c\<close>), one definition per group of cases of its switch, and
  the dispatch over them. \<open>terms\<close> are the opcode and its operands, so \<open>TermCnt\<close> is their number. A constant
  shifted beyond the range of \<open>int\<close> has its 32-bit value.
\<close>

abbreviation (input) "OP_ADD \<equiv> (1 :: nat)"
abbreviation (input) "OP_AND \<equiv> (9 :: nat)"
abbreviation (input) "OP_XOR \<equiv> (11 :: nat)"
abbreviation (input) "OP_NOT \<equiv> (12 :: nat)"
abbreviation (input) "OP_MAX \<equiv> (14 :: nat)"
abbreviation (input) "OP_CLR \<equiv> (15 :: nat)"
abbreviation (input) "OP_SET \<equiv> (16 :: nat)"
abbreviation (input) "OP_LDI \<equiv> (17 :: nat)"
abbreviation (input) "OP_LBBO \<equiv> (18 :: nat)"
abbreviation (input) "OP_LBCO \<equiv> (19 :: nat)"
abbreviation (input) "OP_SBBO \<equiv> (20 :: nat)"
abbreviation (input) "OP_SBCO \<equiv> (21 :: nat)"
abbreviation (input) "OP_LFC \<equiv> (22 :: nat)"
abbreviation (input) "OP_STC \<equiv> (23 :: nat)"
abbreviation (input) "OP_JAL \<equiv> (24 :: nat)"
abbreviation (input) "OP_JMP \<equiv> (25 :: nat)"
abbreviation (input) "OP_QBGT \<equiv> (26 :: nat)"
abbreviation (input) "OP_QBLT \<equiv> (27 :: nat)"
abbreviation (input) "OP_QBEQ \<equiv> (28 :: nat)"
abbreviation (input) "OP_QBGE \<equiv> (29 :: nat)"
abbreviation (input) "OP_QBLE \<equiv> (30 :: nat)"
abbreviation (input) "OP_QBNE \<equiv> (31 :: nat)"
abbreviation (input) "OP_QBA \<equiv> (32 :: nat)"
abbreviation (input) "OP_QBBS \<equiv> (33 :: nat)"
abbreviation (input) "OP_QBBC \<equiv> (34 :: nat)"
abbreviation (input) "OP_LMBD \<equiv> (35 :: nat)"
abbreviation (input) "OP_CALL \<equiv> (36 :: nat)"
abbreviation (input) "OP_WBC \<equiv> (37 :: nat)"
abbreviation (input) "OP_WBS \<equiv> (38 :: nat)"
abbreviation (input) "OP_MOV \<equiv> (39 :: nat)"
abbreviation (input) "OP_MVIB \<equiv> (40 :: nat)"
abbreviation (input) "OP_MVIW \<equiv> (41 :: nat)"
abbreviation (input) "OP_MVID \<equiv> (42 :: nat)"
abbreviation (input) "OP_SCAN \<equiv> (43 :: nat)"
abbreviation (input) "OP_HALT \<equiv> (44 :: nat)"
abbreviation (input) "OP_SLP \<equiv> (45 :: nat)"
abbreviation (input) "OP_RET \<equiv> (46 :: nat)"
abbreviation (input) "OP_ZERO \<equiv> (47 :: nat)"
abbreviation (input) "OP_FILL \<equiv> (48 :: nat)"
abbreviation (input) "OP_XIN \<equiv> (49 :: nat)"
abbreviation (input) "OP_XOUT \<equiv> (50 :: nat)"
abbreviation (input) "OP_XCHG \<equiv> (51 :: nat)"
abbreviation (input) "OP_SXIN \<equiv> (52 :: nat)"
abbreviation (input) "OP_SXOUT \<equiv> (53 :: nat)"
abbreviation (input) "OP_SXCHG \<equiv> (54 :: nat)"
abbreviation (input) "OP_LOOP \<equiv> (55 :: nat)"
abbreviation (input) "OP_ILOOP \<equiv> (56 :: nat)"
abbreviation (input) "OP_NOP0 \<equiv> (57 :: nat)"
abbreviation (input) "OP_NOPF \<equiv> (72 :: nat)"

type_synonym op_step = "(unit, asm) step"

section \<open>Operands and fields the groups share\<close>

definition is_reg_base :: "string \<Rightarrow> bool" where
  "is_reg_base t = (CheckTokenType t AND FLG_REG_BASE \<noteq> 0)"

definition reg_or_im :: "string \<Rightarrow> u32 \<Rightarrow> asm \<Rightarrow> (PRU_ARG, asm) step" where
  "reg_or_im t hi st =
     (if is_reg_base t then GetRegister t False CHR 0x00 st else GetImValue t 0 hi st)"

abbreviation "reg t \<equiv> GetRegister t False CHR 0x00"

definition dst_bits :: "PRU_ARG \<Rightarrow> u32" where
  "dst_bits a = pa_Value a OR push_bit 5 (pa_Field a)"

definition src1_bits :: "PRU_ARG \<Rightarrow> u32" where
  "src1_bits a = push_bit 8 (pa_Value a) OR push_bit 13 (pa_Field a)"

definition src2_bits :: "PRU_ARG \<Rightarrow> u32" where
  "src2_bits a =
     (if pa_Type a = ARGTYPE_REGISTER then push_bit 16 (pa_Value a) OR push_bit 21 (pa_Field a)
      else push_bit 16 (pa_Value a) OR push_bit 24 1)"

definition imm :: "u32 \<Rightarrow> PRU_ARG" where "imm v = arg ARGTYPE_IMMEDIATE v 0"

section \<open>Arithmetic\<close>

definition arith_opcode :: "nat \<Rightarrow> u32" where
  "arith_opcode op' =
     (if OP_NOP0 \<le> op' \<and> op' \<le> OP_NOPF then push_bit 25 (of_nat (0x50 + op' - OP_NOP0))
      else if op' = OP_LMBD then push_bit 25 0x13
      else if op' = OP_SCAN then push_bit 25 0x14
      else push_bit 25 (of_nat (op' - OP_ADD)))"

definition code_arithmetic :: "SOURCEFILE \<Rightarrow> nat \<Rightarrow> PRU_ARG \<Rightarrow> PRU_ARG \<Rightarrow> PRU_ARG \<Rightarrow> asm \<Rightarrow> op_step" where
  "code_arithmetic ps op' a0 a1 a2 st =
     gen_ok ps (arith_opcode op' OR dst_bits a0 OR src1_bits a1 OR src2_bits a2) st"

definition parse_arithmetic :: "SOURCEFILE \<Rightarrow> nat \<Rightarrow> string list \<Rightarrow> asm \<Rightarrow> op_step" where
  "parse_arithmetic ps op' terms st =
     andThen (reg (terms ! 1) st) (\<lambda>a0 st.
     andThen (reg (terms ! 2) st) (\<lambda>a1 st.
     andThen (if length terms = 4 then reg_or_im (terms ! 3) 255 st else Ret (Some (imm 0), st)) (\<lambda>a2 st.
       code_arithmetic ps op' a0 a1 a2 st)))"

definition op_arithmetic :: "SOURCEFILE \<Rightarrow> nat \<Rightarrow> string list \<Rightarrow> asm \<Rightarrow> op_step" where
  "op_arithmetic ps op' terms st =
     (if op' = OP_NOT then
        (if length terms \<noteq> 3 \<and> length terms \<noteq> 4 then error st else parse_arithmetic ps op' terms st)
      else if op' = OP_LMBD \<and> Core st < CORE_V1 then error st
      else if OP_NOP0 \<le> op' \<and> op' \<le> OP_NOPF \<and> Core st < CORE_V3 then error st
      else if length terms \<noteq> 4 then error st
      else parse_arithmetic ps op' terms st)"

text \<open>A register bit as the register and the bit number.\<close>

definition split_bit :: "PRU_ARG \<Rightarrow> PRU_ARG \<times> PRU_ARG" where
  "split_bit a = (a\<lparr>pa_Type := ARGTYPE_REGISTER\<rparr>, imm (pa_Bit a))"

definition op_clr_set :: "SOURCEFILE \<Rightarrow> nat \<Rightarrow> string list \<Rightarrow> asm \<Rightarrow> op_step" where
  "op_clr_set ps op' terms st =
     (if length terms < 2 \<or> 4 < length terms then error st
      else if length terms = 4 then parse_arithmetic ps op' terms st
      else if length terms = 2 then
        andThen (GetRegister (terms ! 1) True CHR 0x00 st) (\<lambda>a0 st.
          if pa_Type a0 \<noteq> ARGTYPE_REGISTERBIT then error st
          else (let (r, b) = split_bit a0 in code_arithmetic ps op' r r b st))
      else
        andThen (reg (terms ! 1) st) (\<lambda>a0 st.
        andThen (if is_reg_base (terms ! 2) then GetRegister (terms ! 2) True CHR 0x00 st
                 else GetImValue (terms ! 2) 0 31 st) (\<lambda>a1 st.
          if pa_Type a1 = ARGTYPE_REGISTERBIT
          then (let (r, b) = split_bit a1 in code_arithmetic ps op' a0 r b st)
          else code_arithmetic ps op' a0 a0 a1 st)))"

section \<open>Moves\<close>

definition ldi_opcode :: "u32 \<Rightarrow> u32 \<Rightarrow> u32 \<Rightarrow> u32" where
  "ldi_opcode r field v = push_bit 24 0x24 OR r OR push_bit 5 field OR push_bit 8 v"

definition op_ldi :: "SOURCEFILE \<Rightarrow> string list \<Rightarrow> asm \<Rightarrow> op_step" where
  "op_ldi ps terms st =
     (if length terms \<noteq> 3 then error st
      else
        andThen (reg (terms ! 1) st) (\<lambda>a0 st.
        andThen (GetImValue (terms ! 2) 0 65535 st) (\<lambda>a1 st.
          gen_ok ps (ldi_opcode (pa_Value a0) (pa_Field a0) (pa_Value a1)) st)))"

definition mov_limit :: "u32 \<Rightarrow> u32" where
  "mov_limit field =
     (if field \<le> FIELDTYPE_31_24 then 255 else if field \<le> FIELDTYPE_31_16 then 65535 else 0xFFFFFFFF)"

definition op_mov :: "SOURCEFILE \<Rightarrow> string list \<Rightarrow> asm \<Rightarrow> op_step" where
  "op_mov ps terms st =
     (if length terms \<noteq> 3 then error st
      else if \<not> is_reg_base (terms ! 2) then
        andThen (reg (terms ! 1) st) (\<lambda>a0 st.
          if FIELDTYPE_31_0 < pa_Field a0 then Ret (None, st)
          else
            andThen (GetImValue (terms ! 2) 0 (mov_limit (pa_Field a0)) st) (\<lambda>a1 st.
              if pa_Field a0 = FIELDTYPE_31_0 \<and> 0xFFFF < pa_Value a1 then
                andThen (gen_ok ps (ldi_opcode (pa_Value a0) FIELDTYPE_31_16 (drop_bit 16 (pa_Value a1))) st) (\<lambda>_ st.
                  gen_ok ps (ldi_opcode (pa_Value a0) FIELDTYPE_15_0 (pa_Value a1 AND 0xFFFF)) st)
              else gen_ok ps (ldi_opcode (pa_Value a0) (pa_Field a0) (pa_Value a1)) st))
      else
        andThen (reg (terms ! 1) st) (\<lambda>a0 st.
        andThen (reg (terms ! 2) st) (\<lambda>a1 st.
          code_arithmetic ps OP_AND a0 a1 a1 st)))"

definition op_scan :: "SOURCEFILE \<Rightarrow> string list \<Rightarrow> asm \<Rightarrow> op_step" where
  "op_scan ps terms st =
     (if Core st \<noteq> CORE_V1 then error st
      else if length terms \<noteq> 3 then error st
      else
        andThen (reg (terms ! 1) st) (\<lambda>a0 st.
          if pa_Field a0 \<noteq> FIELDTYPE_31_0 then error st
          else andThen (reg_or_im (terms ! 2) 255 st) (\<lambda>a2 st.
            code_arithmetic ps OP_SCAN a0 a0 a2 st)))"

section \<open>Indirect moves\<close>

text \<open>An operand that is no plain register or register address (\<open>None\<close>) takes the indirect form.\<close>

definition mvi_address :: "u32 \<Rightarrow> string \<Rightarrow> asm \<Rightarrow> (PRU_ARG, asm) step" where
  "mvi_address utmp t st =
     andThen (GetImValue (tl t) 0 127 st) (\<lambda>a st. Offset2Reg (pa_Value a) utmp st)"

definition mvi_operand :: "u32 \<Rightarrow> string \<Rightarrow> asm \<Rightarrow> (PRU_ARG option, asm) step" where
  "mvi_operand utmp t st =
     (let argtype = CheckTokenType t in
      if argtype = FLG_REG_PTR OR FLG_REG_ADDR then andThen (mvi_address utmp t st) (\<lambda>a st. Ret (Some (Some a), st))
      else if argtype = FLG_REG_BASE then andThen (reg t st) (\<lambda>a st. Ret (Some (Some a), st))
      else Ret (Some None, st))"

definition mvi_narrow :: "u32 \<Rightarrow> u32 \<Rightarrow> u32" where
  "mvi_narrow utmp field =
     (if utmp = 1 then
        (if field = FIELDTYPE_15_0 \<or> field = FIELDTYPE_31_0 then FIELDTYPE_7_0
         else if field = FIELDTYPE_31_16 then FIELDTYPE_23_16 else field)
      else if utmp = 2 then (if field = FIELDTYPE_31_0 then FIELDTYPE_15_0 else field)
      else field)"

text \<open>The indirect mode of an operand: its contribution to \<open>itype\<close>, the text's offset, the terminator.\<close>

definition mvi_mode :: "string \<Rightarrow> nat \<times> nat \<times> char" where
  "mvi_mode t =
     (let argtype = CheckTokenType t in
      if argtype AND FLG_REG_PTR \<noteq> 0 \<and> argtype AND FLG_REG_ADDR = 0 then
        (if argtype AND FLG_REG_POSTINC \<noteq> 0 then (2, 1, CHR ''+'')
         else if argtype AND FLG_REG_PREDEC \<noteq> 0 then (3, 3, CHR 0x00)
         else (1, 1, CHR 0x00))
      else (0, 0, CHR 0x00))"

definition mvi_indirect :: "u32 \<Rightarrow> string \<Rightarrow> asm \<Rightarrow> (PRU_ARG, asm) step" where
  "mvi_indirect utmp t st =
     (let (mode, idx, termC) = mvi_mode t in
      if CheckTokenType t = FLG_REG_PTR OR FLG_REG_ADDR then mvi_address utmp t st
      else GetRegister (drop idx t) False termC st)"

definition op_mvi_plus :: "SOURCEFILE \<Rightarrow> u32 \<Rightarrow> string list \<Rightarrow> asm \<Rightarrow> op_step" where
  "op_mvi_plus ps utmp terms st =
     (if Core st < CORE_V2 then error st
      else
        andThen (mvi_indirect utmp (terms ! 1) st) (\<lambda>a0 st.
        andThen (mvi_indirect utmp (terms ! 2) st) (\<lambda>a1 st.
        andThen (if length terms = 4 then GetR0offset (terms ! 3) st else Ret (Some (imm 0), st)) (\<lambda>a2 st.
          let m0 = fst (mvi_mode (terms ! 1)); m1 = fst (mvi_mode (terms ! 2)); itype = 4 * m0 + m1 in
          if (4 \<le> itype \<and> (pa_Value a0 \<noteq> 1 \<or> FIELDTYPE_31_24 < pa_Field a0)) \<or>
             (itype mod 4 \<noteq> 0 \<and> (pa_Value a1 \<noteq> 1 \<or> FIELDTYPE_31_24 < pa_Field a1)) then error st
          else if itype = 0 then error st
          else gen_ok ps (push_bit 25 0x16 OR push_bit 21 (of_nat itype) OR
                 (if length terms = 4 then push_bit 20 1 OR push_bit 18 (pa_Value a2) else 0) OR
                 push_bit 16 (utmp div 2) OR dst_bits a0 OR src1_bits a1) st))))"

definition op_mvi :: "SOURCEFILE \<Rightarrow> u32 \<Rightarrow> string list \<Rightarrow> asm \<Rightarrow> op_step" where
  "op_mvi ps utmp terms st =
     (if Core st < CORE_V1 then error st
      else if length terms = 4 then error st
      else if length terms \<noteq> 3 then error st
      else
        andThen (mvi_operand utmp (terms ! 1) st) (\<lambda>o0 st.
          case o0 of None \<Rightarrow> op_mvi_plus ps utmp terms st
          | Some a0 \<Rightarrow>
              andThen (mvi_operand utmp (terms ! 2) st) (\<lambda>o1 st.
                case o1 of None \<Rightarrow> op_mvi_plus ps utmp terms st
                | Some a1 \<Rightarrow>
                    (let a1 = (if pa_Type a1 = ARGTYPE_REGISTER then a1\<lparr>pa_Field := mvi_narrow utmp (pa_Field a1)\<rparr> else a1)
                     in code_arithmetic ps OP_AND a0 a1 a1 st))))"

section \<open>Halt and sleep\<close>

definition op_halt :: "SOURCEFILE \<Rightarrow> string list \<Rightarrow> asm \<Rightarrow> op_step" where
  "op_halt ps terms st =
     (if Core st < CORE_V1 then error st
      else if length terms \<noteq> 1 then error st
      else gen_ok ps (push_bit 25 0x15) st)"

definition op_slp :: "SOURCEFILE \<Rightarrow> string list \<Rightarrow> asm \<Rightarrow> op_step" where
  "op_slp ps terms st =
     (if Core st < CORE_V1 then error st
      else if length terms \<noteq> 2 then error st
      else
        andThen (GetImValue (terms ! 1) 0 1 st) (\<lambda>a0 st.
        andThen (gen_ok ps (push_bit 25 0x1F OR push_bit 23 (pa_Value a0)) st) (\<lambda>_ st.
          if Core st < CORE_V3 then gen_ok ps (push_bit 25 0x8) st else Ret (Some (), st))))"

section \<open>Bursts and transfers\<close>

text \<open>The first byte of a register field: in the little and in the big endian register file.\<close>

definition field_byte :: "bool \<Rightarrow> u32 \<Rightarrow> u32" where
  "field_byte big field =
     (if \<not> big then
        (if field = FIELDTYPE_15_8 \<or> field = FIELDTYPE_23_8 then 1
         else if field = FIELDTYPE_23_16 \<or> field = FIELDTYPE_31_16 then 2
         else if field = FIELDTYPE_31_24 then 3 else 0)
      else
        (if field = FIELDTYPE_23_16 \<or> field = FIELDTYPE_23_8 then 1
         else if field = FIELDTYPE_15_0 \<or> field = FIELDTYPE_15_8 then 2
         else if field = FIELDTYPE_7_0 then 3 else 0))"

text \<open>The register and its first byte, from a register or from an offset in the register file.\<close>

definition xfer_reg :: "bool \<Rightarrow> PRU_ARG \<Rightarrow> u32" where
  "xfer_reg big a =
     (if pa_Type a = ARGTYPE_IMMEDIATE then (drop_bit 2 (pa_Value a) AND 0x1F) OR push_bit 5 (pa_Value a AND 3)
      else pa_Value a OR push_bit 5 (field_byte big (pa_Field a)))"

definition xfer_count :: "PRU_ARG \<Rightarrow> u32" where
  "xfer_count a = (if pa_Type a = ARGTYPE_R0BYTE then pa_Value a + 124 else pa_Value a - 1)"

definition count_or_r0 :: "string \<Rightarrow> asm \<Rightarrow> (PRU_ARG, asm) step" where
  "count_or_r0 t st = (if is_reg_base t then GetR0offset t st else GetImValue t 1 124 st)"

definition burst_base :: "nat \<Rightarrow> u32" where
  "burst_base op' =
     (if op' = OP_SBBO then push_bit 28 0xE else if op' = OP_LBBO then push_bit 28 0xF
      else if op' = OP_SBCO then push_bit 28 0x8 else push_bit 28 0x9)"

definition op_burst :: "SOURCEFILE \<Rightarrow> nat \<Rightarrow> string list \<Rightarrow> asm \<Rightarrow> op_step" where
  "op_burst ps op' terms st =
     (if length terms \<noteq> 5 then error st
      else
        andThen (reg_or_im (terms ! 1) 127 st) (\<lambda>a0 st.
        andThen (if op' = OP_SBBO \<or> op' = OP_LBBO then
                   andThen (reg (terms ! 2) st) (\<lambda>a1 st.
                     if pa_Field a1 \<noteq> FIELDTYPE_31_0 then error st else Ret (Some a1, st))
                 else GetConstant (terms ! 2) st) (\<lambda>a1 st.
        andThen (reg_or_im (terms ! 3) 255 st) (\<lambda>a2 st.
        andThen (count_or_r0 (terms ! 4) st) (\<lambda>a3 st.
          let utmp = xfer_count a3 in
          gen_ok ps (burst_base op' OR xfer_reg (big_endian st) a0 OR push_bit 8 (pa_Value a1) OR src2_bits a2 OR
            push_bit 21 (utmp AND 0x70) OR push_bit 12 (utmp AND 0x0E) OR push_bit 7 (utmp AND 0x01)) st)))))"

definition xfr_base :: "nat \<Rightarrow> u32" where
  "xfr_base op' =
     (if op' = OP_SXIN then push_bit 23 0x5D OR push_bit 14 1
      else if op' = OP_SXOUT then push_bit 23 0x5E OR push_bit 14 1
      else if op' = OP_SXCHG then push_bit 23 0x5F OR push_bit 14 1
      else if op' = OP_XIN then push_bit 23 0x5D
      else if op' = OP_XOUT then push_bit 23 0x5E
      else push_bit 23 0x5F)"

definition op_xfr :: "SOURCEFILE \<Rightarrow> nat \<Rightarrow> string list \<Rightarrow> asm \<Rightarrow> op_step" where
  "op_xfr ps op' terms st =
     (if (op' = OP_SXIN \<or> op' = OP_SXOUT \<or> op' = OP_SXCHG) \<and> Core st < CORE_V3 then error st
      else if Core st < CORE_V2 then error st
      else if length terms \<noteq> 4 then error st
      else
        andThen (GetImValue (terms ! 1) 0 253 st) (\<lambda>a0 st.
        andThen (if is_reg_base (terms ! 2) then
                   andThen (reg (terms ! 2) st) (\<lambda>a1 st. if pa_Value a1 = 31 then error st else Ret (Some a1, st))
                 else GetImValue (terms ! 2) 0 123 st) (\<lambda>a1 st.
        andThen (count_or_r0 (terms ! 3) st) (\<lambda>a2 st.
          gen_ok ps (xfr_base op' OR xfer_reg (big_endian st) a1 OR push_bit 15 (pa_Value a0) OR push_bit 7 (xfer_count a2)) st))))"

section \<open>Coprocessor moves of the first core\<close>

definition op_lfc :: "SOURCEFILE \<Rightarrow> string list \<Rightarrow> asm \<Rightarrow> op_step" where
  "op_lfc ps terms st =
     (if Core st \<noteq> CORE_V0 then error st
      else if length terms \<noteq> 3 then error st
      else
        andThen (reg (terms ! 1) st) (\<lambda>a0 st.
        andThen (GetImValue (terms ! 2) 0 255 st) (\<lambda>a1 st.
          gen_ok ps (push_bit 28 0xB OR dst_bits a0 OR push_bit 8 (pa_Value a1) OR push_bit 24 1) st)))"

definition op_stc :: "SOURCEFILE \<Rightarrow> string list \<Rightarrow> asm \<Rightarrow> op_step" where
  "op_stc ps terms st =
     (if Core st \<noteq> CORE_V0 then error st
      else if length terms \<noteq> 3 \<and> length terms \<noteq> 4 then error st
      else
        andThen (reg (terms ! 1) st) (\<lambda>a0 st.
        andThen (GetImValue (terms ! 2) 0 255 st) (\<lambda>a1 st.
        andThen (if length terms = 4 then andThen (reg_or_im (terms ! 3) 255 st) (\<lambda>a2 st. Ret (Some (src2_bits a2), st))
                 else if pa_Field a0 = FIELDTYPE_31_0
                 then Ret (Some (push_bit 16 (pa_Value a0) OR push_bit 21 FIELDTYPE_31_24), st)
                 else Ret (Some (push_bit 24 1), st)) (\<lambda>top st.
          gen_ok ps (push_bit 28 0xA OR dst_bits a0 OR push_bit 8 (pa_Value a1) OR top) st))))"

section \<open>Jumps\<close>

text \<open>The target: a register, or a 16-bit immediate.\<close>

definition jump_bits :: "PRU_ARG \<Rightarrow> u32" where
  "jump_bits a =
     (if pa_Type a = ARGTYPE_REGISTER then push_bit 16 (pa_Value a) OR push_bit 21 (pa_Field a)
      else push_bit 8 (pa_Value a) OR push_bit 24 1)"

definition code_jal :: "SOURCEFILE \<Rightarrow> PRU_ARG \<Rightarrow> PRU_ARG \<Rightarrow> asm \<Rightarrow> op_step" where
  "code_jal ps a0 a1 st = gen_ok ps (push_bit 25 0x11 OR dst_bits a0 OR jump_bits a1) st"

definition code_jmp :: "SOURCEFILE \<Rightarrow> PRU_ARG \<Rightarrow> asm \<Rightarrow> op_step" where
  "code_jmp ps a1 st = gen_ok ps (push_bit 25 0x10 OR jump_bits a1) st"

definition ret_reg :: "asm \<Rightarrow> PRU_ARG" where
  "ret_reg st = arg ARGTYPE_REGISTER (RetRegValue st) (RetRegField st)"

definition op_jal :: "SOURCEFILE \<Rightarrow> string list \<Rightarrow> asm \<Rightarrow> op_step" where
  "op_jal ps terms st =
     (if length terms \<noteq> 3 then error st
      else
        andThen (reg (terms ! 1) st) (\<lambda>a0 st.
        andThen (reg_or_im (terms ! 2) 65535 st) (\<lambda>a1 st. code_jal ps a0 a1 st)))"

definition op_ret :: "SOURCEFILE \<Rightarrow> string list \<Rightarrow> asm \<Rightarrow> op_step" where
  "op_ret ps terms st =
     (if length terms \<noteq> 1 then error st else code_jmp ps (ret_reg st) st)"

definition op_jmp :: "SOURCEFILE \<Rightarrow> nat \<Rightarrow> string list \<Rightarrow> asm \<Rightarrow> op_step" where
  "op_jmp ps op' terms st =
     (if length terms \<noteq> 2 then error st
      else
        andThen (reg_or_im (terms ! 1) 65535 st) (\<lambda>a1 st.
          if op' = OP_CALL then code_jal ps (ret_reg st) a1 st else code_jmp ps a1 st))"

definition op_loop :: "SOURCEFILE \<Rightarrow> nat \<Rightarrow> string list \<Rightarrow> asm \<Rightarrow> op_step" where
  "op_loop ps op' terms st =
     (if Core st < CORE_V3 then error st
      else if length terms \<noteq> 3 then error st
      else
        andThen (GetLoopOffset (terms ! 1) st) (\<lambda>a0 st.
        andThen (if is_reg_base (terms ! 2) then reg (terms ! 2) st
                 else andThen (GetImValue (terms ! 2) 0 256 st) (\<lambda>a1 st.
                   if pa_Value a1 = 0 then error st else Ret (Some a1, st))) (\<lambda>a1 st.
          gen_ok ps ((if op' = OP_ILOOP then push_bit 28 3 OR push_bit 15 1 else push_bit 28 3) OR (pa_Value a0 AND 0xFF) OR
            (if pa_Type a1 = ARGTYPE_REGISTER then push_bit 16 (pa_Value a1) OR push_bit 21 (pa_Field a1)
             else push_bit 16 (pa_Value a1 - 1) OR push_bit 24 1)) st)))"

section \<open>Quick branches\<close>

definition qb_base :: "nat \<Rightarrow> u32" where
  "qb_base op' =
     (if op' = OP_QBGT then push_bit 27 0xC else if op' = OP_QBLT then push_bit 27 0x9
      else if op' = OP_QBEQ then push_bit 27 0xA else if op' = OP_QBGE then push_bit 27 0xE
      else if op' = OP_QBLE then push_bit 27 0xB else push_bit 27 0xD)"

text \<open>The 10-bit offset: its low byte at bit 0, its high two bits at bit 25.\<close>

definition branch_bits :: "u32 \<Rightarrow> u32" where
  "branch_bits v = (v AND 0xFF) OR push_bit 17 (v AND 0x300)"

definition code_qb :: "SOURCEFILE \<Rightarrow> u32 \<Rightarrow> PRU_ARG \<Rightarrow> PRU_ARG \<Rightarrow> PRU_ARG \<Rightarrow> asm \<Rightarrow> op_step" where
  "code_qb ps opcode a0 a1 a2 st =
     gen_ok ps (opcode OR branch_bits (pa_Value a0) OR src1_bits a1 OR src2_bits a2) st"

definition op_qb :: "SOURCEFILE \<Rightarrow> nat \<Rightarrow> string list \<Rightarrow> asm \<Rightarrow> op_step" where
  "op_qb ps op' terms st =
     (if length terms \<noteq> 4 then error st
      else
        andThen (GetJmpOffset (terms ! 1) st) (\<lambda>a0 st.
        andThen (reg (terms ! 2) st) (\<lambda>a1 st.
        andThen (reg_or_im (terms ! 3) 255 st) (\<lambda>a2 st. code_qb ps (qb_base op') a0 a1 a2 st))))"

definition op_qba :: "SOURCEFILE \<Rightarrow> string list \<Rightarrow> asm \<Rightarrow> op_step" where
  "op_qba ps terms st =
     (if length terms \<noteq> 2 then error st
      else
        andThen (GetJmpOffset (terms ! 1) st) (\<lambda>a0 st.
          gen_ok ps (push_bit 27 0xF OR branch_bits (pa_Value a0) OR push_bit 24 1) st))"

text \<open>The tested bit: \<open>Rtest.Tnn\<close> when it is the last operand (\<open>bit_form\<close>), else a register and an operand.\<close>

definition test_bit :: "bool \<Rightarrow> string \<Rightarrow> string \<Rightarrow> asm \<Rightarrow> (PRU_ARG \<times> PRU_ARG, asm) step" where
  "test_bit bit_form t1 t2 st =
     andThen (GetRegister t1 True CHR 0x00 st) (\<lambda>a1 st.
       if bit_form then
         (if pa_Type a1 \<noteq> ARGTYPE_REGISTERBIT then error st else Ret (Some (split_bit a1), st))
       else if pa_Type a1 \<noteq> ARGTYPE_REGISTER then error st
       else andThen (reg_or_im t2 31 st) (\<lambda>a2 st. Ret (Some (a1, a2), st)))"

definition op_bittest :: "SOURCEFILE \<Rightarrow> nat \<Rightarrow> string list \<Rightarrow> asm \<Rightarrow> op_step" where
  "op_bittest ps op' terms st =
     (if length terms \<noteq> 3 \<and> length terms \<noteq> 4 then error st
      else
        andThen (GetJmpOffset (terms ! 1) st) (\<lambda>a0 st.
        andThen (test_bit (length terms = 3) (terms ! 2) (terms ! 3) st) (\<lambda>(a1, a2) st.
          code_qb ps (if op' = OP_QBBS then push_bit 27 0x1A else push_bit 27 0x19) a0 a1 a2 st)))"

definition op_waitbit :: "SOURCEFILE \<Rightarrow> nat \<Rightarrow> string list \<Rightarrow> asm \<Rightarrow> op_step" where
  "op_waitbit ps op' terms st =
     (if length terms < 2 \<or> 3 < length terms then error st
      else
        andThen (test_bit (length terms = 2) (terms ! 1) (terms ! 2) st) (\<lambda>(a1, a2) st.
          code_qb ps (if op' = OP_WBC then push_bit 27 0x1A else push_bit 27 0x19) (arg ARGTYPE_OFFSET 0 0) a1 a2 st))"

section \<open>Fill and zero\<close>

text \<open>The bytes \<open>addr\<close> to \<open>addr + n\<close> of the register file in one transfer from the device \<open>dev\<close>.\<close>

definition xin_bytes :: "u32 \<Rightarrow> u32 \<Rightarrow> u32 \<Rightarrow> u32" where
  "xin_bytes dev addr n =
     push_bit 23 0x5D OR (drop_bit 2 addr AND 0x1F) OR push_bit 5 (addr AND 3) OR push_bit 15 dev OR push_bit 7 (n - 1)"

text \<open>The operands of both: \<open>addr\<close> and \<open>n\<close>, with \<open>0 < n\<close> and \<open>addr + n\<close> within the file.\<close>

definition fill_operands :: "string list \<Rightarrow> asm \<Rightarrow> (u32 \<times> u32, asm) step" where
  "fill_operands terms st =
     andThen (GetImValue (terms ! 1) 0 123 st) (\<lambda>a0 st.
     andThen (GetImValue (terms ! 2) 0 124 st) (\<lambda>a1 st.
       if 124 < pa_Value a0 + pa_Value a1 then error st
       else if pa_Value a1 = 0 then error st
       else Ret (Some (pa_Value a0, pa_Value a1), st)))"

definition op_fill :: "SOURCEFILE \<Rightarrow> string list \<Rightarrow> asm \<Rightarrow> op_step" where
  "op_fill ps terms st =
     (if Core st < CORE_V2 then error st
      else if length terms \<noteq> 3 then error st
      else andThen (fill_operands terms st) (\<lambda>(addr, n) st. gen_ok ps (xin_bytes 254 addr n) st))"

text \<open>The largest field that starts at the byte \<open>addr\<close> and has at most \<open>n\<close> bytes: its size and type.\<close>

definition zero_chunk_little :: "u32 \<Rightarrow> u32 \<Rightarrow> u32 \<times> u32" where
  "zero_chunk_little addr n =
     (let b = addr AND 3 in
      if b = 0 then
        (if 4 \<le> n then (4, FIELDTYPE_31_0) else if 2 \<le> n then (2, FIELDTYPE_15_0) else (1, FIELDTYPE_7_0))
      else if b = 1 then (if 2 \<le> n then (2, FIELDTYPE_23_8) else (1, FIELDTYPE_15_8))
      else if b = 2 then (if 2 \<le> n then (2, FIELDTYPE_31_16) else (1, FIELDTYPE_23_16))
      else (1, FIELDTYPE_31_24))"

definition zero_chunk_big :: "u32 \<Rightarrow> u32 \<Rightarrow> u32 \<times> u32" where
  "zero_chunk_big addr n =
     (let b = addr AND 3 in
      if b = 0 then
        (if 4 \<le> n then (4, FIELDTYPE_31_0) else if 2 \<le> n then (2, FIELDTYPE_31_16) else (1, FIELDTYPE_31_24))
      else if b = 1 then (if 2 \<le> n then (2, FIELDTYPE_23_8) else (1, FIELDTYPE_23_16))
      else if b = 2 then (if 2 \<le> n then (2, FIELDTYPE_15_0) else (1, FIELDTYPE_15_8))
      else (1, FIELDTYPE_7_0))"

definition zero_chunk :: "bool \<Rightarrow> u32 \<Rightarrow> u32 \<Rightarrow> u32 \<times> u32" where
  "zero_chunk big addr n = (if \<not> big then zero_chunk_little addr n else zero_chunk_big addr n)"

lemma zero_chunk_size: "n \<noteq> 0 \<Longrightarrow> fst (zero_chunk big addr n) \<le> n \<and> fst (zero_chunk big addr n) \<noteq> 0"
proof -
  assume "n \<noteq> 0"
  then have "1 \<le> n" by (simp add: word_le_nat_alt Suc_le_eq unat_gt_0)
  then show ?thesis
    by (auto simp: zero_chunk_def zero_chunk_little_def zero_chunk_big_def Let_def)
qed

function zero_loop :: "SOURCEFILE \<Rightarrow> u32 \<Rightarrow> u32 \<Rightarrow> asm \<Rightarrow> op_step" where
  "zero_loop ps addr n st =
     (if n = 0 then Ret (Some (), st)
      else
        (let (sz, field) = zero_chunk (big_endian st) addr n in
         andThen (gen_ok ps (ldi_opcode (addr div 4) field 0) st) (\<lambda>_ st.
           zero_loop ps (addr + sz) (n - sz) st)))"
  by pat_completeness auto
termination
proof (relation "measure (\<lambda>(ps, addr, n, st). unat n)", goal_cases)
  case (2 ps addr n st x sz field y st')
  then have "sz \<le> n" "sz \<noteq> 0" using zero_chunk_size[of n "big_endian st" addr] by (metis fst_conv)+
  then have "0 < unat sz" "unat sz \<le> unat n" by (simp_all add: unat_gt_0 word_le_nat_alt)
  then show ?case by (simp add: unat_sub word_le_nat_alt)
qed simp

declare zero_loop.simps [simp del]

definition op_zero :: "SOURCEFILE \<Rightarrow> string list \<Rightarrow> asm \<Rightarrow> op_step" where
  "op_zero ps terms st =
     (if Core st < CORE_V1 then error st
      else if length terms \<noteq> 3 then error st
      else andThen (fill_operands terms st) (\<lambda>(addr, n) st.
        if CORE_V2 \<le> Core st then gen_ok ps (xin_bytes 255 addr n) st
        else zero_loop ps addr n st))"

section \<open>The dispatch\<close>

definition ProcessOp :: "SOURCEFILE \<Rightarrow> string list \<Rightarrow> asm \<Rightarrow> op_step" where
  "ProcessOp ps terms st =
     (let op' = CheckOpcode (terms ! 0) in
      if op' = 0 then error st
      else if op' \<le> OP_MAX \<or> op' = OP_LMBD \<or> OP_NOP0 \<le> op' then op_arithmetic ps op' terms st
      else if op' = OP_CLR \<or> op' = OP_SET then op_clr_set ps op' terms st
      else if op' = OP_LDI then op_ldi ps terms st
      else if op' = OP_MOV then op_mov ps terms st
      else if op' = OP_SCAN then op_scan ps terms st
      else if op' = OP_MVIB then op_mvi ps 1 terms st
      else if op' = OP_MVIW then op_mvi ps 2 terms st
      else if op' = OP_MVID then op_mvi ps 4 terms st
      else if op' = OP_HALT then op_halt ps terms st
      else if op' = OP_SLP then op_slp ps terms st
      else if op' = OP_SBBO \<or> op' = OP_LBBO \<or> op' = OP_SBCO \<or> op' = OP_LBCO then op_burst ps op' terms st
      else if OP_XIN \<le> op' \<and> op' \<le> OP_SXCHG then op_xfr ps op' terms st
      else if op' = OP_LFC then op_lfc ps terms st
      else if op' = OP_STC then op_stc ps terms st
      else if op' = OP_JAL then op_jal ps terms st
      else if op' = OP_RET then op_ret ps terms st
      else if op' = OP_JMP \<or> op' = OP_CALL then op_jmp ps op' terms st
      else if op' = OP_ILOOP \<or> op' = OP_LOOP then op_loop ps op' terms st
      else if OP_QBGT \<le> op' \<and> op' \<le> OP_QBNE then op_qb ps op' terms st
      else if op' = OP_QBA then op_qba ps terms st
      else if op' = OP_QBBS \<or> op' = OP_QBBC then op_bittest ps op' terms st
      else if op' = OP_WBC \<or> op' = OP_WBS then op_waitbit ps op' terms st
      else if op' = OP_FILL then op_fill ps terms st
      else op_zero ps terms st)"

end
