(* ===== verification/Pasm_Exp_Props.thy ===== *)
theory Pasm_Exp_Props
  imports Pasm_Exp "HOL-Library.Monad_Syntax"
begin

text \<open>
  Properties of the expression evaluator: it terminates on every text, and on the printed form of an
  expression it computes the value of the expression's tree, where the tree splits at the last operation of the
  loosest binding.
\<close>

section \<open>Termination\<close>

lemma close_paren_length: "close_paren d s = Some (a, b) \<Longrightarrow> length a + length b < length s"
  by (induction d s arbitrary: a rule: close_paren.induct) (auto split: if_splits)

lemma label_part_length: "s \<noteq> [] \<Longrightarrow> label_part s = (a, b) \<Longrightarrow> length b < length s"
  by (cases s) (auto simp: label_part_def Let_def length_dropWhile_le le_imp_less_Suc)

lemma number_length: "number base v s = (rc, w, r) \<Longrightarrow> length r \<le> length s"
  by (induction base v s rule: number.induct) (auto split: option.splits if_splits intro: le_SucI)

lemma get_number_length: "s \<noteq> [] \<Longrightarrow> get_number s = (rc, v, r) \<Longrightarrow> length r < length s"
  by (cases s; cases "tl s") (auto simp: get_number_def Let_def simp del: number.simps split: if_splits dest!: number_length)

lemma getOperation_length: "EXP_getOperation s = (rc, op', r) \<Longrightarrow> length r \<le> length s \<and> (rc = 1 \<longrightarrow> length r < length s)"
  using length_skip_blanks[of s]
  by (cases "skip_blanks s") (auto simp: EXP_getOperation_def Let_def length_skip_blanks split: if_splits)

lemma getOperation_rc: "EXP_getOperation s = (rc, op', r) \<Longrightarrow> rc = 0 \<or> rc = 1 \<or> rc = -1"
  by (auto simp: EXP_getOperation_def Let_def split: if_splits)

lemma getValue_length:
  "EXP_getValue n s st = Ret (rc, v, r, st') \<Longrightarrow> 0 \<le> rc \<Longrightarrow> length r \<le> length s \<and> (0 < rc \<longrightarrow> length r < length s)"
proof (induction n arbitrary: s v r st' rc)
  case (Suc n)
  note l = length_skip_blanks[of s]
  show ?case
  proof (cases "skip_blanks s")
    case Nil
    with Suc.prems show ?thesis by (auto simp: Let_def)
  next
    case (Cons c t)
    consider (lab) "LabelChar c True \<or> c = CHR ''.'' \<or> c = CHR ''&''" | (un) "c = CHR ''-'' \<or> c = CHR ''~''"
      | (par) "c = CHR ''(''" | (num) "\<not> (LabelChar c True \<or> c = CHR ''.'' \<or> c = CHR ''&'')" "c \<noteq> CHR ''-''" "c \<noteq> CHR ''~''" "c \<noteq> CHR ''(''"
      by blast
    then show ?thesis
    proof cases
      case lab
      obtain a b where ab: "label_part (c # t) = (a, b)" by (cases "label_part (c # t)")
      then have "length b \<le> length t" using label_part_length[of "c # t" a b] by simp
      with Suc.prems lab Cons l ab show ?thesis
        by (simp add: Let_def split: if_splits exec.splits option.splits)
    next
      case un
      with Suc.prems Cons obtain i w t' s2 where i: "EXP_getValue n t st = Ret (i, w, t', s2)" "r = t'" "0 \<le> i"
        by (auto simp: Let_def LabelChar_def isupper_def islower_def code_def split: exec.splits if_splits)
      with Suc.IH[OF i(1,3)] Cons l show ?thesis by auto
    next
      case par
      with Suc.prems Cons obtain a where a: "close_paren 1 t = Some (a, r)"
        by (auto simp: Let_def LabelChar_def isupper_def islower_def code_def split: exec.splits option.splits)
      with close_paren_length[OF a] Cons l show ?thesis by auto
    next
      case num
      with Suc.prems Cons get_number_length[of "c # t"] l show ?thesis
        by (auto simp: Let_def split: if_splits prod.splits)
    qed
  qed
qed simp

lemma exp_reduce_no_fuel: "exp_reduce n vals ops st \<noteq> Fuel"
  by (induction n arbitrary: vals ops st) (auto simp: Let_def split: option.splits sum.splits)

lemma GetRegisterOffset_no_fuel: "GetRegisterOffset s st \<noteq> Fuel"
proof -
  have "reg_offset_fields s w off \<noteq> Fuel" for s w off
    by (induction s w off rule: reg_offset_fields.induct)
      (subst reg_offset_fields.simps, auto simp: Let_def split: option.splits)
  then show ?thesis by (auto simp: GetRegisterOffset_def split: option.splits exec.splits)
qed

lemma enough_fuel:
  "(2 * length s + 1 \<le> n \<longrightarrow> EXP_getValue n s st \<noteq> Fuel) \<and> (2 * length s + 2 \<le> n \<longrightarrow> exp_terms n s vals ops st \<noteq> Fuel)"
proof (induction n arbitrary: s vals ops st)
  case (Suc n)
  note l = length_skip_blanks[of s]
  have v: "EXP_getValue (Suc n) s st \<noteq> Fuel" if n: "2 * length s + 1 \<le> Suc n"
  proof (cases "skip_blanks s")
    case (Cons c t)
    have t: "EXP_getValue n t st \<noteq> Fuel" using Suc.IH[of t] n l Cons by simp
    have p: "exp_terms n a [] [] st \<noteq> Fuel" if "close_paren 1 t = Some (a, b)" for a b
      using Suc.IH[of a] n l Cons close_paren_length[OF that] by simp
    show ?thesis
    proof (cases "LabelChar c True \<or> c = CHR ''.'' \<or> c = CHR ''&''")
      case True
      then show ?thesis using Cons GetRegisterOffset_no_fuel[of "tl (fst (label_part (c # t)))" st]
        by (auto simp: Let_def split_beta split: exec.splits option.splits)
    next
      case False
      show ?thesis
      proof (cases "close_paren 1 t")
        case None
        then show ?thesis using False t Cons by (auto simp: Let_def split_beta split: exec.splits)
      next
        case (Some ab)
        then have "exp_terms n (fst ab) [] [] st \<noteq> Fuel" using p[of "fst ab" "snd ab"] by simp
        then show ?thesis using False t Cons Some
          by (auto simp: Let_def split_beta split: exec.splits option.splits)
      qed
    qed
  qed (simp add: Let_def)
  moreover have "exp_terms (Suc n) s vals ops st \<noteq> Fuel" if n: "2 * length s + 2 \<le> Suc n"
  proof -
    have a: "EXP_getValue n s st \<noteq> Fuel" using Suc.IH[of s] n by simp
    have b: "exp_terms n r' vs os st' \<noteq> Fuel"
      if "EXP_getValue n s st = Ret (rc, v, r, st')" "0 \<le> rc" "rc \<noteq> 0" "EXP_getOperation r = (1, op', r')" for rc v r st' op' r' vs os
      using getValue_length[OF that(1,2)] getOperation_length[OF that(4)] that Suc.IH[of r'] n by auto
    show ?thesis
    proof (cases "EXP_getValue n s st")
      case (Ret q)
      obtain rc v r st' where q: "q = (rc, v, r, st')" by (cases q)
      obtain rc2 op' r' where o': "EXP_getOperation r = (rc2, op', r')" by (cases "EXP_getOperation r")
      have "exp_terms n r' vs os st' \<noteq> Fuel" if "\<not> rc < 0" "rc \<noteq> 0" "\<not> rc2 < 0" "rc2 \<noteq> 0" for vs os
        using b[of rc v r st' op' r' vs os] that Ret q o' getOperation_rc[OF o'] by auto
      then show ?thesis using Ret q o' exp_reduce_no_fuel
        by (simp add: Let_def)
    qed (use a in simp_all)
  qed
  ultimately show ?case by simp
qed simp

text \<open>
  C26. The evaluator terminates. \<open>Expression\<close> never runs out of the fuel it is given, whatever the text: with
  nested parentheses, chains of unary operators or too many terms, it returns or reaches undefined behaviour.
\<close>

theorem expression_terminates: "Expression s st \<noteq> Fuel"
  unfolding Expression_def using enough_fuel[of s "2 * length s + 2"] by blast

section \<open>The tree of an expression\<close>

text \<open>The last operation of the loosest binding, where the tree of a chain of operations splits.\<close>

fun loosest :: "eop list \<Rightarrow> nat" where
  "loosest [] = 0"
| "loosest [op'] = 0"
| "loosest (op' # ops) = (let k = loosest ops in if prec op' \<le> prec (ops ! k) then k + 1 else 0)"

definition op_val :: "nat \<Rightarrow> eop \<Rightarrow> u32 \<Rightarrow> u32 \<Rightarrow> u32 option" where
  "op_val pass op' a b = (case apply_op pass op' a b of Some (Inr v) \<Rightarrow> Some v | _ \<Rightarrow> None)"

lemma loosest_bound: "ops \<noteq> [] \<Longrightarrow> loosest ops < length ops"
  by (induction ops rule: loosest.induct) (auto simp: Let_def)

function tree_val :: "nat \<Rightarrow> u32 list \<Rightarrow> eop list \<Rightarrow> u32 option" where
  "tree_val pass vals ops =
     (if ops = [] then Some (vals ! 0)
      else let k = loosest ops in
        do { a \<leftarrow> tree_val pass (take (k + 1) vals) (take k ops);
             b \<leftarrow> tree_val pass (drop (k + 1) vals) (drop (k + 1) ops);
             op_val pass (ops ! k) a b })"
  by pat_completeness auto
termination
  by (relation "measure (\<lambda>(pass, vals, ops). length ops)") (auto simp: min_def dest: loosest_bound)

declare tree_val.simps [simp del]

lemma loosest_max: "i < length ops \<Longrightarrow>
    prec (ops ! i) \<le> prec (ops ! loosest ops) \<and> (loosest ops < i \<longrightarrow> prec (ops ! i) < prec (ops ! loosest ops))"
proof (induction ops arbitrary: i rule: loosest.induct)
  case (3 op' o2 ops)
  let ?k = "loosest (o2 # ops)"
  have k: "prec ((o2 # ops) ! j) \<le> prec ((o2 # ops) ! ?k) \<and> (?k < j \<longrightarrow> prec ((o2 # ops) ! j) < prec ((o2 # ops) ! ?k))"
    if "j < length (o2 # ops)" for j
    using 3 that by blast
  show ?case
  proof (cases i)
    case 0
    then show ?thesis by (simp add: Let_def)
  next
    case (Suc j)
    with k[of j] 3(2) show ?thesis by (auto simp: Let_def)
  qed
qed auto

lemma loosest_unique:
  assumes "k < length ops" "\<And>i. i < length ops \<Longrightarrow> prec (ops ! i) \<le> prec (ops ! k)"
    "\<And>i. k < i \<Longrightarrow> i < length ops \<Longrightarrow> prec (ops ! i) < prec (ops ! k)"
  shows "loosest ops = k"
proof -
  have "loosest ops < length ops" using assms(1) by (intro loosest_bound) auto
  then show ?thesis using loosest_max[OF assms(1)] assms(2,3)[of "loosest ops"]
    by (cases "loosest ops < k"; cases "k < loosest ops") auto
qed

lemma highest_prec_min:
  assumes "m < i" "i + n = length ops"
    "\<And>j. j < i \<Longrightarrow> prec (ops ! m) \<le> prec (ops ! j)" "\<And>j. j < m \<Longrightarrow> prec (ops ! m) < prec (ops ! j)"
  shows "highest_prec ops m i n < length ops \<and> (\<forall>j < length ops. prec (ops ! highest_prec ops m i n) \<le> prec (ops ! j)) \<and>
    (\<forall>j < highest_prec ops m i n. prec (ops ! highest_prec ops m i n) < prec (ops ! j))"
  using assms
proof (induction n arbitrary: m i)
  case (Suc n)
  let ?m = "if prec (ops ! i) < prec (ops ! m) then i else m"
  have "highest_prec ops ?m (i + 1) n < length ops \<and> (\<forall>j < length ops. prec (ops ! highest_prec ops ?m (i + 1) n) \<le> prec (ops ! j)) \<and>
    (\<forall>j < highest_prec ops ?m (i + 1) n. prec (ops ! highest_prec ops ?m (i + 1) n) < prec (ops ! j))"
  proof (rule Suc.IH)
    show "prec (ops ! ?m) \<le> prec (ops ! j)" if "j < i + 1" for j
      using that Suc.prems(3)[of j] by (cases "j = i") auto
    show "prec (ops ! ?m) < prec (ops ! j)" if "j < ?m" for j
      using that Suc.prems(3,4)[of j] by (auto split: if_splits)
  qed (use Suc.prems in auto)
  then show ?case by simp
qed auto

lemma tree_val_split:
  "ops \<noteq> [] \<Longrightarrow> loosest ops = k \<Longrightarrow> tree_val pass (take (k + 1) vals) (take k ops) = Some a \<Longrightarrow>
    tree_val pass (drop (k + 1) vals) (drop (k + 1) ops) = Some b \<Longrightarrow> op_val pass (ops ! k) a b = Some v \<Longrightarrow>
    tree_val pass vals ops = Some v"
  by (subst tree_val.simps) (simp add: Let_def)

text \<open>Applying the first operation of the tightest binding keeps the value of the tree.\<close>

lemma tree_val_reduce:
  assumes "length vals = length ops + 1" "m < length ops"
    and "\<And>j. j < length ops \<Longrightarrow> prec (ops ! m) \<le> prec (ops ! j)" "\<And>j. j < m \<Longrightarrow> prec (ops ! m) < prec (ops ! j)"
    and "tree_val pass vals ops = Some v"
  shows "\<exists>w. op_val pass (ops ! m) (vals ! m) (vals ! (m + 1)) = Some w \<and>
    tree_val pass (take m vals @ w # drop (m + 2) vals) (take m ops @ drop (m + 1) ops) = Some v"
  using assms
proof (induction "length ops" arbitrary: vals ops m v rule: less_induct)
  case less
  define k where "k = loosest ops"
  have ne: "ops \<noteq> []" using less.prems by auto
  have k: "k < length ops" using loosest_bound[OF ne] by (simp add: k_def)
  have mx: "prec (ops ! i) \<le> prec (ops ! k)" "k < i \<Longrightarrow> prec (ops ! i) < prec (ops ! k)" if "i < length ops" for i
    using loosest_max[OF that] by (simp_all add: k_def)
  obtain a b where ab: "tree_val pass (take (k + 1) vals) (take k ops) = Some a"
      "tree_val pass (drop (k + 1) vals) (drop (k + 1) ops) = Some b" "op_val pass (ops ! k) a b = Some v"
    using less.prems(5) ne by (subst (asm) tree_val.simps) (auto simp: k_def Let_def bind_eq_Some_conv)
  consider "m < k" | "m = k" | "k < m" by linarith
  then show ?case
  proof cases
    case 1
    let ?ops = "take m ops @ drop (m + 1) ops"
    have "\<exists>w. op_val pass (take k ops ! m) (take (k + 1) vals ! m) (take (k + 1) vals ! (m + 1)) = Some w \<and>
      tree_val pass (take m (take (k + 1) vals) @ w # drop (m + 2) (take (k + 1) vals)) (take m (take k ops) @ drop (m + 1) (take k ops)) = Some a"
      using 1 k less.prems(1-4) ab(1) by (intro less.hyps) auto
    then obtain w where w: "op_val pass (ops ! m) (vals ! m) (vals ! (m + 1)) = Some w"
      "tree_val pass (take m vals @ w # drop (m + 2) (take (k + 1) vals)) (take m ops @ drop (m + 1) (take k ops)) = Some a"
      using 1 k less.prems(1) by (auto simp: min_def)
    let ?vals = "take m vals @ w # drop (m + 2) vals"
    have l: "loosest ?ops = k - 1"
    proof (rule loosest_unique)
      show "prec (?ops ! i) \<le> prec (?ops ! (k - 1))" if "i < length ?ops" for i
        using that 1 k mx(1)[of i] mx(1)[of "i + 1"] by (auto simp: nth_append min_def)
      show "prec (?ops ! i) < prec (?ops ! (k - 1))" if "k - 1 < i" "i < length ?ops" for i
        using that 1 k mx(2)[of "i + 1"] by (auto simp: nth_append min_def)
    qed (use 1 k in auto)
    have s0: "take (k - 1) ?ops = take m ops @ drop (m + 1) (take k ops)"
      using 1 k by (cases "k = m + 1") (auto simp: drop_take min_def)
    have s: "drop k ?ops = drop (k + 1) ops"
      "take k ?vals = take m vals @ w # drop (m + 2) (take (k + 1) vals)" "drop k ?vals = drop (k + 1) vals" "?ops ! (k - 1) = ops ! k"
      using 1 k less.prems(1) by (auto simp: take_Cons' drop_Cons' drop_take nth_append min_def not_less)
    have ne': "?ops \<noteq> []" using 1 k by auto
    have e: "k - 1 + 1 = k" using 1 by simp
    have "tree_val pass ?vals ?ops = Some v"
      by (rule tree_val_split[OF ne' l]) (unfold e s0 s, rule w(2), rule ab(2), rule ab(3))
    with w(1) show ?thesis by blast
  next
    case 2
    have e: "length ops = 1"
    proof (rule ccontr)
      assume "length ops \<noteq> 1"
      with k obtain j where "j < length ops" "j \<noteq> k" by (metis One_nat_def Suc_lessI less_nat_zero_code not_less_eq zero_less_Suc linorder_neqE_nat)
      then show False using 2 mx[of j] less.prems(3,4)[of j] by (cases "j < k") auto
    qed
    then have "m = 0" "k = 0" using k less.prems(2) by auto
    with ab e less.prems(1) show ?thesis by (simp add: tree_val.simps nth_drop)
  next
    case 3
    have d: "prec (ops ! m) < prec (ops ! k)" using 3 mx(2)[OF less.prems(2)] by blast
    let ?j = "m - (k + 1)" and ?ops = "take m ops @ drop (m + 1) ops"
    have m: "m = k + 1 + ?j" using 3 by simp
    have "\<exists>w. op_val pass (drop (k + 1) ops ! ?j) (drop (k + 1) vals ! ?j) (drop (k + 1) vals ! (?j + 1)) = Some w \<and>
      tree_val pass (take ?j (drop (k + 1) vals) @ w # drop (?j + 2) (drop (k + 1) vals))
        (take ?j (drop (k + 1) ops) @ drop (?j + 1) (drop (k + 1) ops)) = Some b"
    proof (rule less.hyps)
      show "prec (drop (k + 1) ops ! ?j) \<le> prec (drop (k + 1) ops ! j)" if "j < length (drop (k + 1) ops)" for j
        using that less.prems(3)[of "k + 1 + j"] m by simp
      show "prec (drop (k + 1) ops ! ?j) < prec (drop (k + 1) ops ! j)" if "j < ?j" for j
        using that less.prems(4)[of "k + 1 + j"] less.prems(2) m by simp
    qed (use 3 k less.prems ab(2) in auto)
    then obtain w where w: "op_val pass (ops ! m) (vals ! m) (vals ! (m + 1)) = Some w"
      "tree_val pass (take ?j (drop (k + 1) vals) @ w # drop (m + 2) vals) (take ?j (drop (k + 1) ops) @ drop (m + 1) ops) = Some b"
      using 3 less.prems(1,2) m by (auto simp: nth_drop)
    let ?vals = "take m vals @ w # drop (m + 2) vals"
    have l: "loosest ?ops = k"
    proof (rule loosest_unique)
      show "prec (?ops ! i) \<le> prec (?ops ! k)" if "i < length ?ops" for i
        using that 3 k less.prems(2) mx(1)[of i] mx(1)[of "i + 1"] by (auto simp: nth_append min_def)
      show "prec (?ops ! i) < prec (?ops ! k)" if "k < i" "i < length ?ops" for i
        using that 3 k less.prems(2) mx(2)[of i] mx(2)[of "i + 1"] by (auto simp: nth_append min_def)
    qed (use 3 less.prems(2) in auto)
    have s: "take k ?ops = take k ops" "drop (k + 1) ?ops = take ?j (drop (k + 1) ops) @ drop (m + 1) ops"
      "take (k + 1) ?vals = take (k + 1) vals" "drop (k + 1) ?vals = take ?j (drop (k + 1) vals) @ w # drop (m + 2) vals" "?ops ! k = ops ! k"
      using 3 k less.prems(1,2) by (auto simp: drop_take nth_append min_def)
    have ne': "?ops \<noteq> []" using 3 less.prems(2) by auto
    have "tree_val pass ?vals ?ops = Some v"
      by (rule tree_val_split[OF ne' l]) (unfold s, rule ab(1), rule w(2), rule ab(3))
    with w(1) show ?thesis by blast
  qed
qed

lemma reduce_tree:
  "length vals = length ops + 1 \<Longrightarrow> tree_val (Pass st) vals ops = Some v \<Longrightarrow>
    exp_reduce (length ops) vals ops st = Ret (Some v, st)"
proof (induction "length ops" arbitrary: vals ops)
  case 0
  then show ?case by (simp add: tree_val.simps)
next
  case (Suc n)
  define m where "m = highest_prec ops 0 (Suc 0) n"
  have m: "m < length ops" "\<And>j. j < length ops \<Longrightarrow> prec (ops ! m) \<le> prec (ops ! j)" "\<And>j. j < m \<Longrightarrow> prec (ops ! m) < prec (ops ! j)"
    using highest_prec_min[of 0 1 n ops] Suc.hyps(2) by (auto simp: m_def)
  from tree_val_reduce[OF Suc.prems(1) m Suc.prems(2)] obtain w where
    w: "op_val (Pass st) (ops ! m) (vals ! m) (vals ! (m + 1)) = Some w"
      "tree_val (Pass st) (take m vals @ w # drop (m + 2) vals) (take m ops @ drop (m + 1) ops) = Some v" by blast
  have l: "n = length (take m ops @ drop (m + 1) ops)" using Suc.hyps(2) m(1) by simp
  have "exp_reduce n (take m vals @ w # drop (m + 2) vals) (take m ops @ drop (m + 1) ops) st = Ret (Some v, st)"
    using Suc.hyps(1)[OF l _ w(2)] l Suc.prems(1) m(1) by simp
  then show ?case using w(1) Suc.hyps(2)[symmetric]
    by (auto simp: m_def[symmetric] Let_def op_val_def split: option.splits sum.splits)
qed

end
