(* ===== verification/Pasm_Op_Frame.thy ===== *)
theory Pasm_Op_Frame
  imports Pasm_Op Pasm_Exp_Props
begin

text \<open>
  What the operand readers and the encoder may change: a reader only counts reports, and at least one when it
  fails; an instruction that fails has only counted reports and generated nothing; one that succeeds keeps the image's
  invariant. The contract of a reader is a locale, interpreted on every reader of the encoder.
\<close>

section \<open>Contracts\<close>

definition more :: "asm \<Rightarrow> asm \<Rightarrow> bool" where
  "more st st' \<longleftrightarrow> (\<exists>k. st' = st\<lparr>Errors := Errors st + k\<rparr>)"

lemma more_refl [simp, intro]: "more st st"
  unfolding more_def by (rule exI[of _ 0]) simp

lemma more_error [simp, intro]: "more st (st\<lparr>Errors := Suc (Errors st)\<rparr>)"
  unfolding more_def by (rule exI[of _ 1]) simp

lemma more_trans [trans]: "more st st' \<Longrightarrow> more st' st'' \<Longrightarrow> more st st''"
proof -
  assume "more st st'" "more st' st''"
  then obtain k l where "st' = st\<lparr>Errors := Errors st + k\<rparr>" "st'' = st'\<lparr>Errors := Errors st' + l\<rparr>" by (auto simp: more_def)
  then show ?thesis unfolding more_def by (intro exI[of _ "k + l"]) simp
qed

lemma more_Errors: "more st st' \<Longrightarrow> Errors st \<le> Errors st'"
  by (auto simp: more_def)

text \<open>A run that at most counts reports; and one that also counts one when it fails.\<close>

definition quiet :: "asm \<Rightarrow> ('a, asm) step \<Rightarrow> bool" where
  "quiet st m \<longleftrightarrow> m \<noteq> Fuel \<and> (\<forall>r st'. m = Ret (r, st') \<longrightarrow> more st st')"

definition reads :: "asm \<Rightarrow> ('a, asm) step \<Rightarrow> bool" where
  "reads st m \<longleftrightarrow> m \<noteq> Fuel \<and> (\<forall>r st'. m = Ret (r, st') \<longrightarrow> more st st' \<and> (r = None \<longrightarrow> Errors st < Errors st'))"

text \<open>The image is whole and the code offset is -1 or a word of it.\<close>

definition image_ok :: "asm \<Rightarrow> bool" where
  "image_ok st \<longleftrightarrow> length (ProgramImage st) = MAX_PROGRAM \<and> -1 \<le> CodeOffset st"

text \<open>An instruction's run: from a state with \<open>P\<close>, a failure has only counted reports, and a success keeps \<open>P\<close>.\<close>

definition emits :: "(asm \<Rightarrow> bool) \<Rightarrow> asm \<Rightarrow> op_step \<Rightarrow> bool" where
  "emits P st m \<longleftrightarrow> (P st \<longrightarrow> m \<noteq> Fuel \<and> (\<forall>r st'. m = Ret (r, st') \<longrightarrow>
     (if r = None then more st st' \<and> Errors st < Errors st' else P st')))"

lemma more_image [simp]: "more st st' \<Longrightarrow> image_ok st' = image_ok st"
  by (auto simp: more_def image_ok_def)

lemma reads_simps [simp]: "reads st (Ret (Some a, st))" "reads st (Ret (None, st\<lparr>Errors := Suc (Errors st)\<rparr>))" "reads st Stuck"
  by (auto simp: reads_def)

lemma emits_error [simp]: "emits P st (Ret (None, st\<lparr>Errors := Suc (Errors st)\<rparr>))" "emits P st Stuck"
  by (auto simp: emits_def)

lemma reads_andThen: "reads st m \<Longrightarrow> (\<And>a st'. m = Ret (Some a, st') \<Longrightarrow> reads st' (k a st')) \<Longrightarrow> reads st (andThen m k)"
  unfolding reads_def andThen_def
  by (auto split: exec.splits option.splits dest: more_trans more_Errors) (metis more_trans more_Errors order_le_less_trans order_less_le_trans)+

definition closed :: "(asm \<Rightarrow> bool) \<Rightarrow> bool" where
  "closed P \<longleftrightarrow> (\<forall>st st'. P st \<longrightarrow> more st st' \<longrightarrow> P st')"

lemma emits_andThen:
  assumes "closed P" "reads st m" "\<And>a st'. m = Ret (Some a, st') \<Longrightarrow> emits P st' (k a st')"
  shows "emits P st (andThen m k)"
proof -
  have "m \<noteq> Fuel" and r: "m = Ret (r, st') \<Longrightarrow> more st st' \<and> (r = None \<longrightarrow> Errors st < Errors st')" for r st'
    using assms(2) by (auto simp: reads_def)
  moreover have "k a st' \<noteq> Fuel \<and> (k a st' = Ret (None, st'') \<longrightarrow> more st st'' \<and> Errors st < Errors st'') \<and> (k a st' = Ret (Some u, st'') \<longrightarrow> P st'')"
    if "m = Ret (Some a, st')" "P st" for a st' st'' u
  proof -
    have m: "more st st'" using r[OF that(1)] by blast
    then have "P st'" using assms(1) that(2) by (auto simp: closed_def)
    with assms(3)[OF that(1)] m show ?thesis
      by (auto simp: emits_def intro: more_trans dest: more_Errors order_le_less_trans)
  qed
  ultimately show ?thesis unfolding emits_def andThen_def by (auto split: exec.splits option.splits)
qed

locale operand_reader =
  fixes read :: "string \<Rightarrow> asm \<Rightarrow> ('a, asm) step"
  assumes reads: "reads st (read t st)"
begin

lemma bind_reads: "(\<And>a st'. read t st = Ret (Some a, st') \<Longrightarrow> reads st' (k a st')) \<Longrightarrow> reads st (andThen (read t st) k)"
  by (rule reads_andThen[OF reads])

lemma bind_emits: "closed P \<Longrightarrow> (\<And>a st'. read t st = Ret (Some a, st') \<Longrightarrow> emits P st' (k a st')) \<Longrightarrow> emits P st (andThen (read t st) k)"
  by (rule emits_andThen[OF _ reads])

lemma not_fuel: "read t st \<noteq> Fuel"
  using reads unfolding reads_def by blast

lemma failure: "read t st = Ret (None, st') \<Longrightarrow> Errors st < Errors st'"
  using reads unfolding reads_def by blast

end

section \<open>The readers\<close>

lemma exp_reduce_quiet: "quiet st (exp_reduce n vals ops st)"
  by (induction n arbitrary: vals ops) (auto simp: quiet_def Let_def split: option.splits sum.splits)

lemma value_more:
  "(EXP_getValue n s st = Ret (rc, v, s', st') \<longrightarrow> more st st') \<and> (exp_terms n s vals ops st = Ret (r, st'') \<longrightarrow> more st st'')"
proof (induction n arbitrary: s st rc v s' st' vals ops r st'')
  case (Suc n)
  have v: "more st st'" if e: "EXP_getValue (Suc n) s st = Ret (rc, v, s', st')" for st'
  proof (cases "skip_blanks s")
    case (Cons c t)
    consider (lab) "LabelChar c True \<or> c = CHR ''.'' \<or> c = CHR ''&''"
      | (oth) "\<not> (LabelChar c True \<or> c = CHR ''.'' \<or> c = CHR ''&'')" by blast
    then show ?thesis
    proof cases
      case lab
      with e Cons show ?thesis
        by (auto simp: Let_def split_beta split: if_splits exec.splits option.splits)
    next
      case oth
      then have "\<not> LabelChar c True" "c \<noteq> CHR ''.''" "c \<noteq> CHR ''&''" by auto
      with e Cons Suc.IH show ?thesis
        by (auto simp: Let_def split_beta split: if_splits exec.splits option.splits)
    qed
  qed (use e in \<open>simp add: Let_def\<close>)
  have t: "more st st''" if e: "exp_terms (Suc n) s vals ops st = Ret (r, st'')"
  proof (cases "MAXTERM \<le> length vals")
    case True
    with e show ?thesis by auto
  next
    case False
    with e obtain rc v s1 st1 where q: "EXP_getValue n s st = Ret (rc, v, s1, st1)"
      by (cases "EXP_getValue n s st") (auto simp: Let_def)
    then have m: "more st st1" using Suc.IH by blast
    obtain rc2 op' s2 where o': "EXP_getOperation s1 = (rc2, op', s2)" by (cases "EXP_getOperation s1")
    have f: "more st1 st''" if "(if length vs \<le> length ops \<or> vs = [] then Ret (None, st1) else exp_reduce (length ops) vs ops st1) = Ret (r, st'')" for vs
      using that exp_reduce_quiet[of st1 "length ops" vs ops] by (auto simp: quiet_def split: if_splits)
    have "more st1 st''"
      using e q o' False f[of vals] f[of "vals @ [v]"] Suc.IH[of s2 st1] by (auto simp: Let_def split: if_splits)
    with m show ?thesis by (rule more_trans)
  qed
  from v t show ?case by blast
qed simp

lemma Expression_quiet: "quiet st (Expression s st)"
  using enough_fuel[of s "2 * length s + 2" st "[]" "[]"] value_more unfolding quiet_def Expression_def by blast

interpretation operand_exp: operand_reader operand_exp
proof
  show "reads st (operand_exp t st)" for t st
    using Expression_quiet[of st t] unfolding operand_exp_def quiet_def reads_def
    by (auto split: exec.splits option.splits dest: more_trans more_Errors intro: more_trans[OF _ more_error] simp: less_Suc_eq_le)
qed

lemma reg_fields_no_fuel: "reg_fields core fb t s w off b \<noteq> Fuel"
  by (induction core fb t s w off b rule: reg_fields.induct)
    (subst reg_fields.simps, auto simp: Let_def split: option.splits)

lemma GetRegister_reads: "reads st (GetRegister t fb c st)"
  by (auto simp: GetRegister_def reg_fields_no_fuel split: option.splits exec.splits)

lemma GetImValue_reads: "reads st (GetImValue t lo hi st)"
  unfolding GetImValue_def Let_def by (auto intro!: operand_exp.bind_reads)

lemma rel_offset_reads: "reads st (rel_offset lo hi t st)"
  unfolding rel_offset_def Let_def by (auto intro!: operand_exp.bind_reads)

lemma letter_number_no_fuel: "letter_number l hi s \<noteq> Fuel"
  by (auto simp: letter_number_def split: option.splits)

interpretation register: operand_reader "\<lambda>t. GetRegister t fb c" for fb c
  by standard (rule GetRegister_reads)

interpretation immediate: operand_reader "\<lambda>t. GetImValue t lo hi" for lo hi
  by standard (rule GetImValue_reads)

interpretation jump: operand_reader GetJmpOffset
  by standard (simp add: GetJmpOffset_def rel_offset_reads)

interpretation loop: operand_reader GetLoopOffset
  by standard (simp add: GetLoopOffset_def rel_offset_reads)

interpretation const_reg: operand_reader GetConstant
  by standard (auto simp: GetConstant_def letter_number_no_fuel split: exec.splits option.splits)

interpretation r0byte: operand_reader GetR0offset
  by standard (auto simp: GetR0offset_def letter_number_no_fuel split: exec.splits option.splits)

interpretation reg_or_im: operand_reader "\<lambda>t. reg_or_im t hi" for hi
  by standard (simp add: reg_or_im_def GetRegister_reads GetImValue_reads)

interpretation count_or_r0: operand_reader count_or_r0
  by standard (simp add: count_or_r0_def r0byte.reads GetImValue_reads)

lemma Offset2Reg_reads: "reads st (Offset2Reg addr sz st)"
  by (auto simp: Offset2Reg_def Let_def)

interpretation mvi_address: operand_reader "mvi_address utmp" for utmp
  by standard (auto simp: mvi_address_def intro!: immediate.bind_reads Offset2Reg_reads)

interpretation mvi_operand: operand_reader "mvi_operand utmp" for utmp
  by standard (auto simp: mvi_operand_def Let_def intro!: mvi_address.bind_reads register.bind_reads)

interpretation mvi_indirect: operand_reader "mvi_indirect utmp" for utmp
  by standard (auto simp: mvi_indirect_def split_beta mvi_address.reads GetRegister_reads)

section \<open>The code image\<close>

definition entry :: "u8 \<Rightarrow> SOURCEFILE \<Rightarrow> int \<Rightarrow> u32 \<Rightarrow> CODEGEN" where
  "entry flags ps off w = \<lparr>cg_Flags = flags, cg_FileIndex = ucast (sf_FileIndex ps), cg_Line = sf_CurrentLine ps,
     cg_AddrOffset = word_of_int off, cg_CodeWord = w\<rparr>"

text \<open>The state after one word at the code offset.\<close>

definition emit :: "SOURCEFILE \<Rightarrow> u32 \<Rightarrow> asm \<Rightarrow> asm" where
  "emit ps w st = st\<lparr>ProgramImage := (ProgramImage st)[nat (CodeOffset st) := entry 3 ps (CodeOffset st) w],
     CodeOffset := CodeOffset st + 1\<rparr>"

lemma emit_simps [simp]: "CodeOffset (emit ps w st) = CodeOffset st + 1" "Core (emit ps w st) = Core st"
  "Options (emit ps w st) = Options st" "Errors (emit ps w st) = Errors st" "Pass (emit ps w st) = Pass st"
  "length (ProgramImage (emit ps w st)) = length (ProgramImage st)" "big_endian (emit ps w st) = big_endian st"
  by (simp_all add: emit_def big_endian_def)

lemma image_ok_emit: "image_ok st \<Longrightarrow> image_ok (emit ps w st)"
  by (simp add: image_ok_def)

lemma GenOp_room:
  "length (ProgramImage st) = MAX_PROGRAM \<Longrightarrow> 0 \<le> CodeOffset st \<Longrightarrow> CodeOffset st < int MAX_PROGRAM \<Longrightarrow>
    GenOp ps w st = Ret (emit ps w st)"
  by (simp add: GenOp_def ValidateOffset_def put_code_def emit_def entry_def)

lemma GenOp_full:
  "int MAX_PROGRAM \<le> CodeOffset st \<Longrightarrow> GenOp ps w st = Ret (Report REP_FATAL st)"
  by (simp add: GenOp_def ValidateOffset_def)

lemma Report_image [simp]: "ProgramImage (Report l st) = ProgramImage st" "CodeOffset (Report l st) = CodeOffset st"
  by (simp_all add: Report_def)

lemma image_ok_Report [simp]: "image_ok (Report l st) = image_ok st"
  by (simp add: image_ok_def)

lemma GenOp_ok: "image_ok st \<Longrightarrow> \<exists>st'. GenOp ps w st = Ret st' \<and> image_ok st'"
proof -
  assume ok: "image_ok st"
  consider "CodeOffset st = -1" | "0 \<le> CodeOffset st" "CodeOffset st < int MAX_PROGRAM" | "int MAX_PROGRAM \<le> CodeOffset st"
    using ok by (force simp: image_ok_def)
  then show ?thesis
  proof cases
    case 1
    then show ?thesis using ok
      by (auto simp: GenOp_def ValidateOffset_def put_code_def Let_def image_ok_def MAX_PROGRAM_def)
  next
    case 2
    then show ?thesis using ok GenOp_room[of st] image_ok_emit by (auto simp: image_ok_def)
  next
    case 3
    then show ?thesis using ok GenOp_full by auto
  qed
qed

lemma gen_ok_Some: "image_ok st \<Longrightarrow> \<exists>st'. gen_ok ps w st = Ret (Some (), st') \<and> image_ok st'"
  using GenOp_ok[of st ps w] by (auto simp: gen_ok_def)

section \<open>The encoder\<close>

lemma if_reads: "(b \<Longrightarrow> reads st m) \<Longrightarrow> (\<not> b \<Longrightarrow> reads st m') \<Longrightarrow> reads st (if b then m else m')"
  by simp

lemma GetRegister_field: "GetRegister t fb c st = Ret (Some a, st') \<Longrightarrow> pa_Field a \<le> 7"
  by (auto simp: GetRegister_def reg_field_type_def split: option.splits exec.splits if_splits)

lemma test_bit_reads: "reads st (test_bit f t1 t2 st)"
  unfolding test_bit_def by (auto intro!: register.bind_reads reg_or_im.bind_reads)

lemma fill_operands_reads: "reads st (fill_operands terms st)"
  unfolding fill_operands_def by (auto intro!: immediate.bind_reads)

text \<open>What a predicate needs to survive every instruction: counted errors do not matter, and one word can be generated.\<close>

locale encoder_invariant =
  fixes P :: "asm \<Rightarrow> bool"
  assumes closed: "closed P"
    and generates: "P st \<Longrightarrow> \<exists>st'. gen_ok ps w st = Ret (Some (), st') \<and> P st'"
begin

lemma gen_ok_emits [simp]: "emits P st (gen_ok ps w st)"
  using generates[of st ps w] by (auto simp: emits_def)

lemma gen_then_emits:
  assumes "\<And>st'. P st' \<Longrightarrow> \<exists>st''. k st' = Ret (Some (), st'') \<and> P st''"
  shows "emits P st (andThen (gen_ok ps w st) (\<lambda>_. k))"
proof (cases "P st")
  case True
  obtain st' where st': "gen_ok ps w st = Ret (Some (), st')" "P st'" using generates[OF True] by blast
  obtain st'' where "k st' = Ret (Some (), st'')" "P st''" using assms[OF st'(2)] by blast
  with st' show ?thesis by (simp add: emits_def)
qed (simp add: emits_def)

lemma zero_loop_Some: "P st \<Longrightarrow> \<exists>st'. zero_loop ps addr n st = Ret (Some (), st') \<and> P st'"
proof (induction ps addr n st rule: zero_loop.induct)
  case (1 ps addr n st)
  show ?case
  proof (cases "n = 0")
    case True
    with 1(2) show ?thesis by (simp add: zero_loop.simps)
  next
    case False
    obtain sz field where z: "zero_chunk (big_endian st) addr n = (sz, field)" by (cases "zero_chunk (big_endian st) addr n")
    obtain st1 where g: "gen_ok ps (ldi_opcode (addr div 4) field 0) st = Ret (Some (), st1)" "P st1"
      using generates[OF 1(2)] by blast
    from 1(1)[OF False z[symmetric] refl g(2)] g z False show ?thesis
      by (subst zero_loop.simps) simp
  qed
qed

lemmas reader_binds = register.bind_emits[OF closed] immediate.bind_emits[OF closed] jump.bind_emits[OF closed]
  loop.bind_emits[OF closed] const_reg.bind_emits[OF closed] r0byte.bind_emits[OF closed] reg_or_im.bind_emits[OF closed]
  count_or_r0.bind_emits[OF closed] mvi_operand.bind_emits[OF closed] mvi_indirect.bind_emits[OF closed]

lemma code_arithmetic_emits [simp]: "emits P st (code_arithmetic ps op' a0 a1 a2 st)"
  by (simp add: code_arithmetic_def)

lemma code_qb_emits [simp]: "emits P st (code_qb ps w a0 a1 a2 st)"
  by (simp add: code_qb_def)

lemma if_emits: "(b \<Longrightarrow> emits P st m) \<Longrightarrow> (\<not> b \<Longrightarrow> emits P st m') \<Longrightarrow> emits P st (if b then m else m')"
  by simp

lemma parse_arithmetic_emits: "emits P st (parse_arithmetic ps op' terms st)"
  unfolding parse_arithmetic_def
  by (auto intro!: register.bind_emits[OF closed] emits_andThen[OF closed if_reads] reg_or_im.reads)

lemma op_arithmetic_emits: "emits P st (op_arithmetic ps op' terms st)"
  by (simp add: op_arithmetic_def parse_arithmetic_emits)

lemma op_clr_set_emits: "emits P st (op_clr_set ps op' terms st)"
  unfolding op_clr_set_def
  by (auto simp: split_bit_def intro!: parse_arithmetic_emits register.bind_emits[OF closed] emits_andThen[OF closed if_reads] register.reads immediate.reads)

lemma op_moves_emits: "emits P st (op_ldi ps terms st)" "emits P st (op_scan ps terms st)"
  unfolding op_ldi_def op_scan_def
  by (auto intro!: register.bind_emits[OF closed] immediate.bind_emits[OF closed] reg_or_im.bind_emits[OF closed])

lemma op_mov_emits: "emits P st (op_mov ps terms st)"
  unfolding op_mov_def
  by (auto intro!: register.bind_emits[OF closed] immediate.bind_emits[OF closed] gen_then_emits generates) (metis GetRegister_field not_less)

lemma op_mvi_plus_emits: "emits P st (op_mvi_plus ps utmp terms st)"
  unfolding op_mvi_plus_def Let_def
  by (auto intro!: mvi_indirect.bind_emits[OF closed] emits_andThen[OF closed if_reads] r0byte.reads)

lemma op_mvi_emits: "emits P st (op_mvi ps utmp terms st)"
  unfolding op_mvi_def Let_def
  by (auto intro!: mvi_operand.bind_emits[OF closed] op_mvi_plus_emits split: option.splits)

lemma op_small_emits:
  "emits P st (op_halt ps terms st)" "emits P st (op_slp ps terms st)"
  "emits P st (op_lfc ps terms st)" "emits P st (op_jal ps terms st)"
  "emits P st (op_ret ps terms st)" "emits P st (op_jmp ps op' terms st)"
  unfolding op_halt_def op_slp_def op_lfc_def op_jal_def op_ret_def op_jmp_def code_jal_def code_jmp_def
  by (auto intro!: reader_binds gen_then_emits generates)

lemma op_burst_emits: "emits P st (op_burst ps op' terms st)"
  unfolding op_burst_def Let_def
  by (auto intro!: reg_or_im.bind_emits[OF closed] count_or_r0.bind_emits[OF closed] emits_andThen[OF closed if_reads] register.bind_reads const_reg.reads)

lemma op_xfr_emits: "emits P st (op_xfr ps op' terms st)"
  unfolding op_xfr_def
  by (auto intro!: immediate.bind_emits[OF closed] count_or_r0.bind_emits[OF closed] emits_andThen[OF closed if_reads] register.bind_reads immediate.reads)

lemma op_stc_emits: "emits P st (op_stc ps terms st)"
  unfolding op_stc_def
  by (auto simp: andThen_assoc intro!: register.bind_emits[OF closed] immediate.bind_emits[OF closed] reg_or_im.bind_emits[OF closed])

lemma op_loop_emits: "emits P st (op_loop ps op' terms st)"
  unfolding op_loop_def
  by (auto intro!: loop.bind_emits[OF closed] emits_andThen[OF closed if_reads] register.reads immediate.bind_reads)

lemma op_qb_emits: "emits P st (op_qb ps op' terms st)" "emits P st (op_qba ps terms st)"
  unfolding op_qb_def op_qba_def by (auto intro!: reader_binds)

lemma op_bit_emits:
  "emits P st (op_bittest ps op' terms st)" "emits P st (op_waitbit ps op' terms st)"
  unfolding op_bittest_def op_waitbit_def
  by (auto intro!: jump.bind_emits[OF closed] emits_andThen[OF closed test_bit_reads])

lemma op_fill_emits:
  "emits P st (op_fill ps terms st)" "emits P st (op_zero ps terms st)"
proof -
  have z: "emits P st (zero_loop ps addr n st)" for addr n st
    using zero_loop_Some[of st ps addr n] by (auto simp: emits_def)
  show "emits P st (op_fill ps terms st)" "emits P st (op_zero ps terms st)"
    unfolding op_fill_def op_zero_def by (auto intro!: emits_andThen[OF closed fill_operands_reads] z)
qed

lemmas op_emits = op_arithmetic_emits op_clr_set_emits op_moves_emits op_mov_emits op_mvi_emits op_small_emits
  op_burst_emits op_xfr_emits op_stc_emits op_loop_emits op_qb_emits op_bit_emits op_fill_emits

lemma ProcessOp_emits: "emits P st (ProcessOp ps terms st)"
  unfolding ProcessOp_def Let_def by (intro if_emits op_emits; simp)

end

interpretation image: encoder_invariant image_ok
  by standard (auto simp: closed_def gen_ok_Some)

text \<open>
  C27. The encoder is total and fails loudly. From a state whose image is whole, \<open>ProcessOp\<close> on any
  opcode and operands returns (or meets undefined behaviour in an operand's text); when it fails it has counted an
  error and changed nothing else, so the image is as before, and when it succeeds the image and the code offset
  are again in order. \<open>GenOp\<close> never writes outside the image.
\<close>

theorem process_op_safe:
  assumes "length (ProgramImage st) = MAX_PROGRAM" "-1 \<le> CodeOffset st"
  shows "ProcessOp ps terms st \<noteq> Fuel \<and>
    (\<forall>st'. ProcessOp ps terms st = Ret (None, st') \<longrightarrow> Errors st < Errors st' \<and> st' = st\<lparr>Errors := Errors st'\<rparr>) \<and>
    (\<forall>st'. ProcessOp ps terms st = Ret (Some (), st') \<longrightarrow> length (ProgramImage st') = MAX_PROGRAM \<and> -1 \<le> CodeOffset st') \<and>
    (\<exists>st'. GenOp ps w st = Ret st' \<and> length (ProgramImage st') = MAX_PROGRAM)"
proof -
  have ok: "image_ok st" using assms by (simp add: image_ok_def)
  have e: "emits image_ok st (ProcessOp ps terms st)" by (rule image.ProcessOp_emits)
  have n: "Errors st < Errors st' \<and> st' = st\<lparr>Errors := Errors st'\<rparr>" if "ProcessOp ps terms st = Ret (None, st')" for st'
    using e ok that by (auto simp: emits_def more_def)
  moreover have "length (ProgramImage st') = MAX_PROGRAM \<and> -1 \<le> CodeOffset st'" if "ProcessOp ps terms st = Ret (Some (), st')" for st'
    using e ok that by (auto simp: emits_def image_ok_def)
  moreover have "\<exists>st'. GenOp ps w st = Ret st' \<and> length (ProgramImage st') = MAX_PROGRAM"
    using GenOp_ok[OF ok, of ps w] by (auto simp: image_ok_def)
  ultimately show ?thesis using e ok by (simp add: emits_def)
qed

theorem process_op_safe_witness:
  "let st = asm_init CORE_V2 0 2 []; ps = source0 in
   ProcessOp ps [''ADD'', ''r1'', ''r2'', ''4''] st \<noteq> Fuel \<and>
   (\<forall>st'. ProcessOp ps [''ADD'', ''r1'', ''r2'', ''4''] st = Ret (Some (), st') \<longrightarrow>
      length (ProgramImage st') = MAX_PROGRAM \<and> -1 \<le> CodeOffset st')"
  using process_op_safe[of "asm_init CORE_V2 0 2 []" "source0" "[''ADD'', ''r1'', ''r2'', ''4'']"]
  by (simp add: Let_def)

end
