(* ===== verification/Pasm_Exp_Print.thy ===== *)
theory Pasm_Exp_Print
  imports Pasm_Exp_Props
begin

text \<open>
  Expressions as trees, their printed form and their value, and the round trip: the evaluator computes, from the
  printed form, the value of the tree.
\<close>

section \<open>Trees, text and values\<close>

datatype eterm = TNum u32 | TLabel string | TNeg eterm | TCompl eterm | TGroup echain
  and echain = Last eterm | Link eterm eop echain

fun op_text :: "eop \<Rightarrow> string" where
  "op_text EOP_MULTIPLY = ''*''"
| "op_text EOP_DIVIDE = ''/''"
| "op_text EOP_MOD = ''%''"
| "op_text EOP_ADD = ''+''"
| "op_text EOP_SUBTRACT = ''-''"
| "op_text EOP_LEFTSHIFT = ''<<''"
| "op_text EOP_RIGHTSHIFT = ''>>''"
| "op_text EOP_AND = ''&''"
| "op_text EOP_XOR = ''^''"
| "op_text EOP_OR = ''|''"

fun term_text :: "eterm \<Rightarrow> string" and chain_text :: "echain \<Rightarrow> string" where
  "term_text (TNum v) = decimal (unat v)"
| "term_text (TLabel name) = name"
| "term_text (TNeg t) = CHR ''-'' # term_text t"
| "term_text (TCompl t) = CHR ''~'' # term_text t"
| "term_text (TGroup c) = CHR ''('' # chain_text c @ [CHR '')'']"
| "chain_text (Last t) = term_text t"
| "chain_text (Link t op' c) = term_text t @ [CHR 0x20] @ op_text op' @ [CHR 0x20] @ chain_text c"

text \<open>A label's name as \<open>ProcessSourceLine\<close> creates them: not empty, of label characters, not too long.\<close>

definition label_name :: "string \<Rightarrow> bool" where
  "label_name s \<longleftrightarrow> s \<noteq> [] \<and> LabelChar (hd s) True \<and> list_all (\<lambda>c. LabelChar c False) s \<and> length s < LABEL_NAME_LEN"

fun chain_ops :: "echain \<Rightarrow> eop list" where
  "chain_ops (Last t) = []"
| "chain_ops (Link t op' c) = op' # chain_ops c"

text \<open>
  The value, where there is one: no division by zero, no shift by 32 or more, no negation of the least \<open>int\<close>,
  every label defined, at most 32 terms in a chain.
\<close>

fun term_val :: "asm \<Rightarrow> eterm \<Rightarrow> u32 option" and chain_vals :: "asm \<Rightarrow> echain \<Rightarrow> u32 list option" where
  "term_val st (TNum v) = Some v"
| "term_val st (TLabel name) = (if label_name name then map_option word_of_int (LabelFind name st) else None)"
| "term_val st (TNeg t) = do { v \<leftarrow> term_val st t; if v = 0x80000000 then None else Some (- v) }"
| "term_val st (TCompl t) = do { v \<leftarrow> term_val st t; Some (NOT v) }"
| "term_val st (TGroup c) = do { vs \<leftarrow> chain_vals st c;
     if MAXTERM < length vs then None else tree_val (Pass st) vs (chain_ops c) }"
| "chain_vals st (Last t) = do { v \<leftarrow> term_val st t; Some [v] }"
| "chain_vals st (Link t op' c) = do { v \<leftarrow> term_val st t; vs \<leftarrow> chain_vals st c; Some (v # vs) }"

definition chain_val :: "asm \<Rightarrow> echain \<Rightarrow> u32 option" where
  "chain_val st c = term_val st (TGroup c)"

section \<open>Numbers\<close>

lemma code_char_of [simp]: "n < 256 \<Longrightarrow> code (char_of n) = n"
  by (simp add: code_def)

lemma digit_value_decimal [simp]: "(d :: nat) < 10 \<Longrightarrow> digit_value (char_of (48 + d)) = Some d"
  by (simp add: digit_value_def isdigit_def)

lemma isdigit_decimal [simp]: "(d :: nat) < 10 \<Longrightarrow> isdigit (char_of (48 + d))"
  by (simp add: isdigit_def)

text \<open>What can follow a number or a label: nothing, or a character that belongs to neither.\<close>

definition stops :: "string \<Rightarrow> bool" where
  "stops r \<longleftrightarrow> r = [] \<or> (\<not> LabelChar (hd r) False \<and> hd r \<noteq> CHR ''.'')"

lemma digit_value_label: "\<not> LabelChar c False \<Longrightarrow> digit_value c = None"
  by (auto simp: digit_value_def LabelChar_def isupper_def islower_def isdigit_def)

lemma number_decimal:
  "number 10 t (decimal n @ r) = number 10 (t * 10 ^ length (decimal n) + of_nat n) r"
proof (induction n arbitrary: t r rule: decimal.induct)
  case (1 n)
  show ?case
  proof (cases "n < 10")
    case False
    have e: "(of_nat (n div 10) * 10 + of_nat (n mod 10) :: u32) = of_nat n"
      using arg_cong[OF div_mult_mod_eq[of n 10], of "of_nat :: nat \<Rightarrow> u32"] by (simp only: of_nat_add of_nat_mult of_nat_numeral)
    let ?t = "t * 10 ^ length (decimal (n div 10)) + of_nat (n div 10)"
    have "number 10 t (decimal n @ r) = number 10 t (decimal (n div 10) @ char_of (48 + n mod 10) # r)"
      using False by (simp add: decimal.simps[of n])
    also have "\<dots> = number 10 ?t (char_of (48 + n mod 10) # r)"
      by (rule 1[OF False])
    also have "\<dots> = number 10 (?t * 10 + of_nat (n mod 10)) r"
      using mod_less_divisor[of 10 n] by (simp del: mod_less_divisor)
    also have "?t * 10 + of_nat (n mod 10) = t * 10 ^ length (decimal n) + of_nat n"
    proof -
      have "length (decimal n) = Suc (length (decimal (n div 10)))" using False by (simp add: decimal.simps[of n])
      then show ?thesis by (simp add: distrib_right mult.assoc add.assoc e power_Suc2 del: power_Suc)
    qed
    finally show ?thesis .
  qed (simp add: decimal.simps)
qed

lemma decimal_digits: "list_all isdigit (decimal n)"
  by (induction n rule: decimal.induct) (subst decimal.simps, auto)

lemma decimal_first: "0 < n \<Longrightarrow> \<exists>(d::nat) ds. decimal n = char_of (48 + d) # ds \<and> 0 < d \<and> d < 10"
proof (induction n rule: decimal.induct)
  case (1 n)
  show ?case
  proof (cases "n < 10")
    case True
    with 1(2) show ?thesis by (intro exI[of _ n]) (simp add: decimal.simps)
  next
    case False
    then obtain d :: nat and ds where "decimal (n div 10) = char_of (48 + d) # ds" "0 < d" "d < 10"
      using 1(1)[OF False] by fastforce
    moreover from this(1) have "decimal n = char_of (48 + d) # (ds @ [char_of (48 + n mod 10)])"
      using False by (simp add: decimal.simps[of n])
    ultimately show ?thesis by blast
  qed
qed

lemma number_stops: "stops r \<Longrightarrow> number b t r = (1, t, r)"
  by (cases r) (auto simp: stops_def digit_value_label)

lemma get_number_decimal:
  assumes "stops r"
  shows "get_number (decimal (unat (v :: u32)) @ r) = (1, v, r)"
proof (cases "v = 0")
  case True
  have "cur r \<noteq> CHR ''x''" "cur r \<noteq> CHR ''b''"
    using assms by (cases r; auto simp: stops_def LabelChar_def islower_def code_def)+
  with True show ?thesis using assms by (simp add: decimal.simps get_number_def number_stops)
next
  case False
  then have "0 < unat v" by (simp add: unat_gt_0)
  from decimal_first[OF this] obtain d :: nat and ds where d: "decimal (unat v) = char_of (48 + d) # ds" "0 < d" "d < 10" by blast
  have dn: "(of_nat d :: u32) \<noteq> 0" using d by (simp add: word_of_nat_eq_0_iff nat_dvd_not_less)
  have "get_number (decimal (unat v) @ r) = number 10 0 (decimal (unat v) @ r)"
    using d dn by (simp add: get_number_def)
  then show ?thesis by (simp add: number_decimal number_stops[OF assms])
qed

section \<open>Parentheses\<close>

definition no_paren :: "string \<Rightarrow> bool" where
  "no_paren s = list_all (\<lambda>c. c \<noteq> CHR ''('' \<and> c \<noteq> CHR '')'') s"

lemma close_no_paren:
  "no_paren s \<Longrightarrow> close_paren d (s @ r) = map_option (\<lambda>(a, b). (s @ a, b)) (close_paren d r)"
  by (induction s; cases "close_paren d r") (auto simp: no_paren_def)

lemma no_paren_labels: "list_all (\<lambda>c. LabelChar c False) s \<Longrightarrow> no_paren s"
  by (induction s) (auto simp: no_paren_def LabelChar_def isupper_def islower_def isdigit_def code_def)

lemma no_paren_decimal: "no_paren (decimal n)"
  using decimal_digits[of n] by (intro no_paren_labels) (auto simp: list_all_iff LabelChar_def)

lemma no_paren_op: "no_paren (op_text o')"
  by (cases o') (simp_all add: no_paren_def)

text \<open>Labels in a tree have no parenthesis.\<close>

lemma close_text:
  "term_val st t \<noteq> None \<Longrightarrow> 0 < d \<Longrightarrow> close_paren d (term_text t @ r) = map_option (\<lambda>(a, b). (term_text t @ a, b)) (close_paren d r)"
  "chain_vals st c \<noteq> None \<Longrightarrow> 0 < d \<Longrightarrow> close_paren d (chain_text c @ r) = map_option (\<lambda>(a, b). (chain_text c @ a, b)) (close_paren d r)"
proof (induction t and c arbitrary: d r and d r)
  case (TLabel name)
  then show ?case by (auto intro!: close_no_paren no_paren_labels simp: label_name_def split: if_splits)
next
  case (TNeg t)
  then show ?case by (cases "close_paren d r") (auto split: bind_splits)
next
  case (TCompl t)
  then show ?case by (cases "close_paren d r") (auto split: bind_splits)
next
  case (TGroup c)
  then have "close_paren (Suc d) (chain_text c @ CHR '')'' # r) = map_option (\<lambda>(a, b). (chain_text c @ a, b)) (close_paren (Suc d) (CHR '')'' # r))"
    by (intro TGroup.IH) (auto split: bind_splits)
  with \<open>0 < d\<close> show ?case by (simp add: option.map_comp comp_def split_beta)
next
  case (Link t op' c)
  then have "chain_vals st c \<noteq> None" "term_val st t \<noteq> None" by (auto split: bind_splits)
  with Link close_no_paren[OF no_paren_op, of d op'] show ?case
    by (simp add: option.map_comp comp_def split_beta)
qed (auto simp: close_no_paren no_paren_decimal option.map_comp comp_def split_beta split: bind_splits)

section \<open>Reading the parts\<close>

lemma label_chars: "label_name s \<Longrightarrow> stops r \<Longrightarrow> label_part (s @ r) = (s, r)"
proof -
  assume l: "label_name s" and r: "stops r"
  let ?p = "\<lambda>c. LabelChar c False \<or> c = CHR ''.''"
  obtain c cs where s: "s = c # cs" "\<forall>x \<in> set cs. ?p x" using l by (cases s) (auto simp: label_name_def list_all_iff)
  have "takeWhile ?p (cs @ r) = cs @ takeWhile ?p r" "dropWhile ?p (cs @ r) = dropWhile ?p r"
    using s(2) by (auto intro: takeWhile_append2 dropWhile_append2)
  moreover have "takeWhile ?p r = []" "dropWhile ?p r = r" using r by (cases r; auto simp: stops_def)+
  ultimately show ?thesis using s(1) by (simp add: label_part_def Let_def)
qed

lemma reg_state_no_addr: "flags AND FLG_REG_ADDR = 0 \<Longrightarrow> reg_state flags state w AND FLG_REG_ADDR = 0"
  by (induction flags state w rule: reg_state.induct)
    (auto simp: Let_def TOKENTYPE_UNRESERVED_def FLG_REG_ADDR_def FLG_REG_POSTINC_def bit.conj_disj_distrib2 split: if_splits)

lemma first_label_char: "LabelChar c True \<Longrightarrow> \<not> blank c \<and> c \<noteq> CHR ''*'' \<and> c \<noteq> CHR ''&''"
  by (auto simp: blank_def LabelChar_def isupper_def islower_def code_def)

lemma label_no_addr: "label_name s \<Longrightarrow> CheckTokenType s AND FLG_REG_ADDR = 0"
proof -
  assume "label_name s"
  then obtain c cs where "s = c # cs" "c \<noteq> CHR ''*''" "c \<noteq> CHR ''&''"
    using first_label_char by (cases s) (auto simp: label_name_def)
  then have "reg_prefix s = Some (FLG_REG_BASE, s)" by (simp add: reg_prefix_def)
  moreover have "reg_state FLG_REG_BASE 0 s AND FLG_REG_ADDR = 0"
    by (rule reg_state_no_addr) (simp add: FLG_REG_BASE_def FLG_REG_ADDR_def)
  moreover have "FLG_OPCODE AND FLG_REG_ADDR = 0" "FLG_DIRECTIVE AND FLG_REG_ADDR = 0"
    by (simp_all add: FLG_OPCODE_def FLG_DIRECTIVE_def FLG_REG_ADDR_def)
  ultimately show ?thesis by (simp add: CheckTokenType_def)
qed

lemma getOperation_text: "EXP_getOperation (CHR 0x20 # op_text o' @ CHR 0x20 # r) = (1, Some o', CHR 0x20 # r)"
  by (cases o') (simp_all add: EXP_getOperation_def skip_blanks_def blank_def Let_def)

lemma getOperation_end: "EXP_getOperation [] = (0, None, [])"
  by (simp add: EXP_getOperation_def skip_blanks_def)

lemma blank_value: "EXP_getValue n (CHR 0x20 # s) st = EXP_getValue n s st"
  by (cases n) (simp_all add: skip_blanks_def blank_def)

lemma blank_terms: "exp_terms n (CHR 0x20 # s) vals ops st = exp_terms n s vals ops st"
  by (cases n) (simp_all add: blank_value)

text \<open>The dispatch on the first character.\<close>

lemma value_unary:
  assumes "c = CHR ''-'' \<or> c = CHR ''~''" and "EXP_getValue n t st = Ret (1, v, r, st)"
  shows "EXP_getValue (Suc n) (c # t) st =
    (if c = CHR ''-'' then if v = 0x80000000 then Stuck else Ret (1, - v, r, st) else Ret (1, NOT v, r, st))"
  using assms by (auto simp: skip_blanks_def blank_def LabelChar_def isupper_def islower_def code_def)

lemma value_group:
  assumes "close_paren 1 t = Some (inner, r)" and "exp_terms n inner [] [] st = Ret (Some v, st)"
  shows "EXP_getValue (Suc n) (CHR ''('' # t) st = Ret (1, v, r, st)"
  using assms by (simp add: skip_blanks_def blank_def LabelChar_def isupper_def islower_def code_def)

lemma value_number:
  assumes "stops r"
  shows "EXP_getValue (Suc n) (decimal (unat (v :: u32)) @ r) st = Ret (1, v, r, st)"
proof -
  have "decimal (unat v) \<noteq> []" by (subst decimal.simps) auto
  then obtain c cs where c: "decimal (unat v) = c # cs" by (cases "decimal (unat v)") auto
  have "isdigit c" using decimal_digits[of "unat v"] c by simp
  then have "\<not> blank c" "\<not> LabelChar c True" "c \<noteq> CHR ''.''" "c \<noteq> CHR ''&''" "c \<noteq> CHR ''-''" "c \<noteq> CHR ''~''" "c \<noteq> CHR ''(''"
    by (auto simp: isdigit_def blank_def LabelChar_def isupper_def islower_def code_def)
  then show ?thesis using get_number_decimal[OF assms, of v] c \<open>isdigit c\<close>
    by (simp add: skip_blanks_def)
qed

lemma value_label:
  assumes "label_name s" "stops r" "LabelFind s st = Some off"
  shows "EXP_getValue (Suc n) (s @ r) st = Ret (1, word_of_int off, r, st)"
proof -
  obtain c cs where c: "s = c # cs" "LabelChar c True" using assms(1) by (cases s) (auto simp: label_name_def)
  then have "\<not> blank c" using first_label_char by blast
  then show ?thesis using c assms label_chars[OF assms(1,2)] label_no_addr[OF assms(1)]
    by (simp add: skip_blanks_def label_name_def)
qed

section \<open>The round trip\<close>

lemma stops_rest: "stops (CHR 0x20 # r)" "stops (CHR '')'' # r)" "stops []"
  by (simp_all add: stops_def LabelChar_def isupper_def islower_def isdigit_def code_def)

lemma chain_length: "chain_vals st c = Some vs \<Longrightarrow> length vs = length (chain_ops c) + 1"
  by (induction c arbitrary: vs rule: chain_ops.induct) (auto split: bind_splits)

declare EXP_getValue.simps [simp del] exp_terms.simps [simp del]

lemma value_text:
  "term_val st t = Some v \<Longrightarrow> stops r \<Longrightarrow> 2 * length (term_text t) + 1 \<le> n \<Longrightarrow>
    EXP_getValue n (term_text t @ r) st = Ret (1, v, r, st)"
  "chain_vals st c = Some vs \<Longrightarrow> length vals + length vs \<le> MAXTERM \<Longrightarrow> length vals = length ops \<Longrightarrow>
    2 * length (chain_text c) + 2 \<le> n \<Longrightarrow>
    exp_terms n (chain_text c) vals ops st = exp_reduce (length (ops @ chain_ops c)) (vals @ vs) (ops @ chain_ops c) st"
proof (induction t and c arbitrary: v r n and vs vals ops n)
  case (TNum w)
  then show ?case by (cases n) (simp_all add: value_number)
next
  case (TLabel s)
  then show ?case by (cases n) (auto simp: value_label split: if_splits)
next
  case (TNeg t)
  then obtain m w where "n = Suc m" "term_val st t = Some w" "w \<noteq> 0x80000000" "v = - w"
    by (cases n) (auto split: bind_splits if_splits)
  with TNeg show ?case using value_unary[of "CHR ''-''" m "term_text t @ r" st w r] by simp
next
  case (TCompl t)
  then obtain m w where "n = Suc m" "term_val st t = Some w" "v = NOT w"
    by (cases n) (auto split: bind_splits)
  with TCompl show ?case using value_unary[of "CHR ''~''" m "term_text t @ r" st w r] by simp
next
  case (TGroup c)
  then obtain m vs where m: "n = Suc m" "chain_vals st c = Some vs" "length vs \<le> MAXTERM" "tree_val (Pass st) vs (chain_ops c) = Some v"
    by (cases n) (auto split: bind_splits if_splits)
  then have "exp_terms m (chain_text c) [] [] st = Ret (Some v, st)"
    using TGroup.IH[of vs "[]" "[]" m] TGroup.prems reduce_tree[of vs "chain_ops c" st v] chain_length[OF m(2)] by simp
  moreover have "close_paren 1 (chain_text c @ CHR '')'' # r) = Some (chain_text c, r)"
    using close_text(2)[of st c 1 "CHR '')'' # r"] m(2) by simp
  ultimately show ?case using value_group m(1) by simp
next
  case (Last t)
  then obtain m v where m: "n = Suc m" "term_val st t = Some v" "vs = [v]" by (cases n) (auto split: bind_splits)
  with Last have "EXP_getValue m (term_text t) st = Ret (1, v, [], st)"
    using Last.IH[of v "[]" m] by (simp add: stops_def)
  with m Last show ?case by (simp add: exp_terms.simps(2) Let_def getOperation_end)
next
  case (Link t o' c)
  then obtain m v ws where m: "n = Suc m" "term_val st t = Some v" "chain_vals st c = Some ws" "vs = v # ws"
    by (cases n) (auto split: bind_splits)
  let ?r = "CHR 0x20 # op_text o' @ CHR 0x20 # chain_text c"
  have "EXP_getValue m (term_text t @ ?r) st = Ret (1, v, ?r, st)"
    using Link.IH(1)[OF m(2), of ?r m] Link.prems m stops_rest by simp
  moreover have "exp_terms m (chain_text c) (vals @ [v]) (ops @ [o']) st =
      exp_reduce (length (ops @ o' # chain_ops c)) (vals @ v # ws) (ops @ o' # chain_ops c) st"
    using Link.IH(2)[OF m(3), of "vals @ [v]" "ops @ [o']" m] Link.prems m by simp
  ultimately show ?case using m Link.prems by (simp add: exp_terms.simps(2) Let_def getOperation_text blank_terms)
qed

lemma expression_tree: "chain_val st c = Some v \<Longrightarrow> Expression (chain_text c) st = Ret (Some v, st)"
proof -
  assume "chain_val st c = Some v"
  then obtain vs where vs: "chain_vals st c = Some vs" "length vs \<le> MAXTERM" "tree_val (Pass st) vs (chain_ops c) = Some v"
    by (auto simp: chain_val_def split: bind_splits if_splits)
  then show ?thesis
    using value_text(2)[OF vs(1), of "[]" "[]" "2 * length (chain_text c) + 2"] reduce_tree[of vs "chain_ops c" st v] chain_length[OF vs(1)]
    by (simp add: Expression_def)
qed

lemma expression_number: "Expression (decimal (unat v)) st = Ret (Some v, st)"
  using expression_tree[of st "Last (TNum v)" v] by (simp add: chain_val_def MAXTERM_def tree_val.simps)

text \<open>
  C7. The evaluator computes the value of the expression. For every expression (numbers, labels, unary
  minus and complement, parentheses, chains of the ten operations) that has a value, \<open>Expression\<close> on its printed
  form returns that value and reports nothing: precedence, left associativity, 32-bit wrap-around and nesting are
  those of the expression's tree.
\<close>

theorem expression_value:
  assumes "chain_val st c = Some v"
  shows "Expression (chain_text c) st = Ret (Some v, st)"
  using assms by (rule expression_tree)

theorem expression_value_witness:
  "Expression ''2 + ~(3 - 1 - 1) * LOOP << 1'' (asm_init CORE_V2 0 2 [(''LOOP'', 9)]) =
     Ret (Some (- 32), asm_init CORE_V2 0 2 [(''LOOP'', 9)])"
proof -
  let ?c = "Link (TNum 2) EOP_ADD (Link (TCompl (TGroup (Link (TNum 3) EOP_SUBTRACT (Link (TNum 1) EOP_SUBTRACT (Last (TNum 1))))))
    EOP_MULTIPLY (Link (TLabel ''LOOP'') EOP_LEFTSHIFT (Last (TNum 1))))"
  have t: "chain_text ?c = ''2 + ~(3 - 1 - 1) * LOOP << 1''"
    by (simp add: decimal.simps char_of_def bit_0)
  have "chain_val (asm_init CORE_V2 0 2 [(''LOOP'', 9)]) ?c = Some (- 32)"
    by (simp add: chain_val_def label_name_def LabelChar_def isupper_def islower_def code_def LABEL_NAME_LEN_def TOKEN_MAX_LEN_def
      LabelFind_def MAXTERM_def tree_val.simps Let_def op_val_def apply_op_def)
  from expression_value[OF this] show ?thesis by (simp only: t)
qed

text \<open>
  An operator without its operand is accepted. A text that ends after a unary minus is the value 0 with no
  report, in either pass: \<open>EXP_getValue\<close> takes the inner "no value" for success.
\<close>

theorem unary_without_operand: "Expression ''-'' st = Ret (Some 0, st) \<and> Expression ''5 - ~'' st = Ret (Some 6, st)"
proof -
  have a: "EXP_getValue (Suc (Suc n)) ''-'' st = Ret (1, 0, [], st)" "EXP_getValue (Suc (Suc n)) ''~'' st = Ret (1, NOT 0, [], st)" for n
    by (simp_all add: EXP_getValue.simps skip_blanks_def blank_def LabelChar_def isupper_def islower_def code_def)
  have b: "EXP_getValue (Suc n) ''5 - ~'' st = Ret (1, 5, '' - ~'', st)" for n
    using value_number[of "'' - ~''" n 5 st] by (simp add: stops_rest decimal.simps char_of_def bit_0)
  have c: "EXP_getOperation '' - ~'' = (1, Some EOP_SUBTRACT, '' ~'')"
    by (simp add: EXP_getOperation_def skip_blanks_def blank_def)
  have "Expression ''-'' st = Ret (Some 0, st)"
    using a(1)[of 1] by (simp add: Expression_def exp_terms.simps MAXTERM_def Let_def getOperation_end numeral_eq_Suc)
  moreover have "Expression ''5 - ~'' st = Ret (Some 6, st)"
    using a(2)[of 8] b[of 10]
    by (simp add: Expression_def exp_terms.simps MAXTERM_def Let_def getOperation_end numeral_eq_Suc c blank_value apply_op_def)
  ultimately show ?thesis by blast
qed

end
