(* ===== verification/Pasm_Text.thy ===== *)
theory Pasm_Text
  imports Pasm_Op_Frame Pasm_Exp_Print
begin

text \<open>
  The printed form of operands and what the readers make of it: registers with their fields and bits, register
  addresses, and decimal immediates.
\<close>

section \<open>Register texts\<close>

text \<open>The fields in the order of their \<open>FIELDTYPE\<close>; the whole register has none.\<close>

definition field_texts :: "string list" where
  "field_texts = [''.b0'', ''.b1'', ''.b2'', ''.b3'', ''.w0'', ''.w1'', ''.w2'', '''']"

definition field_width :: "nat \<Rightarrow> nat" where "field_width f = (if f < 4 then 8 else if f < 7 then 16 else 32)"
definition field_offset :: "nat \<Rightarrow> nat" where "field_offset f = (if f < 4 then f else if f < 7 then f - 4 else 0)"

definition bit_text :: "nat option \<Rightarrow> string" where
  "bit_text b = (case b of None \<Rightarrow> [] | Some k \<Rightarrow> ''.t'' @ decimal k)"

definition reg_text :: "nat \<Rightarrow> nat \<Rightarrow> nat option \<Rightarrow> string" where
  "reg_text n f b = CHR ''r'' # decimal n @ field_texts ! f @ bit_text b"

lemma digits_decimal:
  "0 \<le> v \<Longrightarrow> v * 10 ^ length (decimal n) + int n < 2 ^ 31 \<Longrightarrow>
    digits v (decimal n @ r) = digits (v * 10 ^ length (decimal n) + int n) r"
proof (induction n arbitrary: v r rule: decimal.induct)
  case (1 n)
  show ?case
  proof (cases "n < 10")
    case True
    with 1(3) show ?thesis by (simp add: decimal.simps)
  next
    case False
    let ?m = "n div 10" and ?c = "char_of (48 + n mod 10)"
    have q: "int n = int ?m * 10 + int (n mod 10)" by presburger
    have e: "v * 10 ^ length (decimal n) + int n = (v * 10 ^ length (decimal ?m) + int ?m) * 10 + int (n mod 10)"
      using False by (simp add: decimal.simps[of n] distrib_right mult.assoc q[symmetric])
    have b: "v * 10 ^ length (decimal ?m) + int ?m < 2 ^ 31" "0 \<le> v * 10 ^ length (decimal ?m) + int ?m"
      using 1(2,3) e by auto
    have d: "n mod 10 < 10" by simp
    have "digits v (decimal n @ r) = digits v (decimal ?m @ ?c # r)" using False by (simp add: decimal.simps[of n])
    also have "\<dots> = digits (v * 10 ^ length (decimal ?m) + int ?m) (?c # r)" using 1(1)[OF False 1(2) b(1)] .
    also have "\<dots> = digits (v * 10 ^ length (decimal n) + int n) r"
      using 1(3) d unfolding e by (simp add: Let_def isdigit_decimal del: mod_less_divisor)
    finally show ?thesis .
  qed
qed

lemma digits_stop: "\<not> isdigit (cur r) \<Longrightarrow> digits v r = Some (v, r)"
  by (cases r) simp_all

lemma digits_number: "n < 2 ^ 31 \<Longrightarrow> \<not> isdigit (cur r) \<Longrightarrow> digits 0 (decimal n @ r) = Some (int n, r)"
  using digits_decimal[of 0 n r] digits_stop[of r "int n"] by simp

lemma decimal_cur: "\<exists>c s. decimal n = c # s \<and> isdigit c"
proof -
  have "decimal n \<noteq> []" by (subst decimal.simps) simp
  then show ?thesis using decimal_digits[of n] by (cases "decimal n") auto
qed

lemma isdigit_cur_decimal [simp]: "isdigit (cur (decimal n @ r))"
  using decimal_cur[of n] by auto

lemma not_digit [simp]: "\<not> isdigit (CHR ''.'')" "\<not> isdigit (CHR 0x00)"
  by (simp_all add: isdigit_def code_def)

lemma toupper_letters [simp]: "toupper (CHR ''r'') = CHR ''R''" "toupper (CHR ''b'') = CHR ''B''"
  "toupper (CHR ''w'') = CHR ''W''" "toupper (CHR ''t'') = CHR ''T''"
  by (simp_all add: toupper_def islower_def code_def char_of_def bit_0)

lemma reg_fields_end: "reg_fields core fb (CHR 0x00) [] w off b = Ret (Some (w, off, b))"
  by (simp add: reg_fields.simps)

lemma reg_fields_bit:
  "int k < w \<Longrightarrow> k < 2 ^ 31 \<Longrightarrow> reg_fields core True (CHR 0x00) (CHR ''.'' # CHR ''t'' # decimal k) w off b = Ret (Some (w, off, int k))"
  using digits_number[of k "[]"] isdigit_cur_decimal[of k "[]"]
  by (subst reg_fields.simps) (simp add: Let_def reg_fields_end)

lemma digit_codes [simp]: "code (CHR ''0'') = 48" "code (CHR ''1'') = 49" "code (CHR ''2'') = 50" "code (CHR ''3'') = 51"
  by (simp_all add: code_def)

lemma reg_fields_field:
  assumes "f < 7" "s = [] \<or> hd s = CHR ''.''"
  shows "reg_fields core fb (CHR 0x00) (field_texts ! f @ s) 32 0 b =
    (if s \<noteq> [] \<and> core = CORE_V0 then Ret None
     else reg_fields core fb (CHR 0x00) s (int (field_width f)) (int (field_offset f)) b)"
proof -
  have d: "digits v s = Some (v, s)" for v using assms(2) by (cases s) auto
  have c: "cur s = CHR 0x00 \<longleftrightarrow> s = []" using assms(2) by (cases s) auto
  have "f \<in> {0, 1, 2, 3, 4, 5, 6}" using assms(1) by auto
  then show ?thesis
    by (elim insertE; (simp add: field_texts_def field_width_def field_offset_def reg_fields.simps[of core fb "CHR 0x00" "CHR ''.'' # r" for r]
      isdigit_def Let_def d c)?)
qed

lemma GetRegister_text:
  assumes "n < 32" "f < 8" "\<forall>k. b = Some k \<longrightarrow> k < field_width f \<and> (f = 7 \<or> Core st \<noteq> CORE_V0)"
  shows "GetRegister (reg_text n f b) (b \<noteq> None) (CHR 0x00) st =
    Ret (Some \<lparr>pa_Type = (if b = None then ARGTYPE_REGISTER else ARGTYPE_REGISTERBIT), pa_Value = of_nat n,
      pa_Field = of_nat f, pa_Bit = (case b of None \<Rightarrow> 0 | Some k \<Rightarrow> of_nat k)\<rparr>, st)"
proof -
  have w: "field_width f \<le> 32" by (simp add: field_width_def)
  have s: "bit_text b = [] \<or> hd (bit_text b) = CHR ''.''" by (simp add: bit_text_def split: option.splits)
  have "\<not> isdigit (cur (field_texts ! f @ bit_text b))"
  proof (cases "f = 7")
    case True
    then show ?thesis using s by (cases "bit_text b") (auto simp: field_texts_def)
  next
    case False
    then have "f \<in> {0, 1, 2, 3, 4, 5, 6}" using assms(2) by auto
    then show ?thesis by (elim insertE; simp add: field_texts_def)
  qed
  then have d: "digits 0 (decimal n @ field_texts ! f @ bit_text b) = Some (int n, field_texts ! f @ bit_text b)"
    using assms(1) by (intro digits_number) auto
  have e: "reg_fields (Core st) (b \<noteq> None) (CHR 0x00) (bit_text b) (int (field_width f)) off (-1) =
      Ret (Some (int (field_width f), off, case b of None \<Rightarrow> -1 | Some k \<Rightarrow> int k))" for off
    using assms(3) w reg_fields_bit[of _ "int (field_width f)" "Core st" off "-1"]
    by (auto simp: bit_text_def reg_fields_end split: option.splits)
  have "reg_fields (Core st) (b \<noteq> None) (CHR 0x00) (field_texts ! f @ bit_text b) 32 0 (-1) =
      Ret (Some (int (field_width f), int (field_offset f), case b of None \<Rightarrow> -1 | Some k \<Rightarrow> int k))"
  proof (cases "f = 7")
    case True
    then show ?thesis using e[of 0] by (simp add: field_texts_def field_width_def field_offset_def)
  next
    case False
    then have "f < 7" using assms(2) by simp
    moreover have "bit_text b = [] \<or> Core st \<noteq> CORE_V0" using assms(3) False by (auto simp: bit_text_def split: option.splits)
    ultimately show ?thesis using reg_fields_field[OF _ s, of f "Core st" "b \<noteq> None" "-1"] e by auto
  qed
  moreover have "reg_field_type (int (field_width f)) (int (field_offset f)) = of_nat f"
  proof -
    have "f \<in> {0, 1, 2, 3, 4, 5, 6, 7}" using assms(2) by auto
    then show ?thesis by (elim insertE) (simp_all add: reg_field_type_def field_width_def field_offset_def)
  qed
  ultimately show ?thesis
    using d assms(1) by (auto simp: GetRegister_def reg_text_def split: option.splits)
qed

lemma register_plain:
  "n < 32 \<Longrightarrow> f < 8 \<Longrightarrow> GetRegister (reg_text n f None) False (CHR 0x00) st =
    Ret (Some (arg ARGTYPE_REGISTER (of_nat n) (of_nat f)), st)"
  using GetRegister_text[of n f None st] by simp

text \<open>
  C28. Registers. For every register, every field and every bit of it, the printed form reads back as that
  register, field and bit (on the first core a bit of a field is not accepted).
\<close>

theorem register_round_trip:
  assumes "n < 32" "f < 8" "\<forall>k. b = Some k \<longrightarrow> k < field_width f \<and> (f = 7 \<or> Core st \<noteq> CORE_V0)"
  shows "GetRegister (reg_text n f b) (b \<noteq> None) (CHR 0x00) st =
    Ret (Some \<lparr>pa_Type = (if b = None then ARGTYPE_REGISTER else ARGTYPE_REGISTERBIT), pa_Value = of_nat n,
      pa_Field = of_nat f, pa_Bit = (case b of None \<Rightarrow> 0 | Some k \<Rightarrow> of_nat k)\<rparr>, st)"
  by (rule GetRegister_text[OF assms])

theorem register_round_trip_witness:
  "GetRegister (reg_text 31 5 (Some 15)) True (CHR 0x00) (asm_init CORE_V2 0 1 []) =
    Ret (Some \<lparr>pa_Type = ARGTYPE_REGISTERBIT, pa_Value = 31, pa_Field = 5, pa_Bit = 15\<rparr>, asm_init CORE_V2 0 1 [])"
  using register_round_trip[of 31 5 "Some 15" "asm_init CORE_V2 0 1 []"] by (simp add: field_width_def)

section \<open>Register addresses\<close>

lemma reg_offset_fields_field:
  "f < 8 \<Longrightarrow> reg_offset_fields (field_texts ! f) 32 0 = Ret (Some (int (field_width f), int (field_offset f)))"
proof -
  assume "f < 8"
  then have "f \<in> {0, 1, 2, 3, 4, 5, 6, 7}" by auto
  then show ?thesis
    by (elim insertE) (simp_all add: field_texts_def field_width_def field_offset_def reg_offset_fields.simps isdigit_def Let_def)
qed

lemma unat_small: "m < 2 ^ 32 \<Longrightarrow> unat (of_nat m :: u32) = m"
  by (simp add: unat_of_nat)

lemma offset_word: "n < 32 \<Longrightarrow> k < 4 \<Longrightarrow>
    (word_of_int (int n * 4 + int k) :: u32) AND 3 = of_nat k \<and> (word_of_int (int n * 4 + int k) :: u32) div 4 = of_nat n"
proof -
  assume "n < 32" "k < 4"
  moreover have "\<forall>n\<in>set [0..<32]. \<forall>k\<in>set [0..<4]. (word_of_int (int n * 4 + int k) :: u32) AND 3 = of_nat k \<and>
      (word_of_int (int n * 4 + int k) :: u32) div 4 = of_nat n"
    by code_simp
  ultimately show ?thesis by simp
qed

lemma offset_bound: "n < 32 \<Longrightarrow> k < 4 \<Longrightarrow> w \<le> 4 \<Longrightarrow> k + w \<le> 4 \<Longrightarrow>
    (word_of_int (int n * 4 + int k) :: u32) + of_nat w \<le> 128"
proof -
  assume a: "n < 32" "k < 4" "w \<le> 4" "k + w \<le> 4"
  have "(word_of_int (int n * 4 + int k) :: u32) + of_nat w = of_nat (n * 4 + k + w)" by (simp add: of_nat_mult)
  also have "\<dots> \<le> 128"
    using a unat_small[of "n * 4 + k + w"] by (simp add: word_le_nat_alt del: of_nat_add of_nat_mult)
  finally show ?thesis by simp
qed

text \<open>
  Register addresses. The offset in the register file that \<open>&Rn.field\<close> denotes in an expression converts back
  to the same register and field, for every register and field and for both byte orders.
\<close>

theorem register_address_round_trip:
  assumes "n < 32" "f < 8" "Core st \<noteq> CORE_V0"
  shows "\<exists>a. GetRegisterOffset (reg_text n f None) st = Ret (Some a) \<and> a < 128 \<and>
    Offset2Reg a (of_nat (field_width f div 8)) st = Ret (Some (arg ARGTYPE_REGISTER (of_nat n) (of_nat f)), st)"
proof -
  define k where "k = (if \<not> big_endian st then field_offset f else 4 - field_offset f - field_width f div 8)"
  have f: "f \<in> {0, 1, 2, 3, 4, 5, 6, 7}" using assms(2) by auto
  have ow: "field_offset f + field_width f div 8 \<le> 4" using f by (elim insertE) (simp_all add: field_offset_def field_width_def)
  have k: "k < 4" "k + field_width f div 8 \<le> 4"
    using f by (elim insertE; simp add: k_def field_offset_def field_width_def)+
  have s: "\<not> isdigit (cur (field_texts ! f))" using f by (elim insertE) (simp_all add: field_texts_def)
  let ?a = "word_of_int (int n * 4 + int k) :: u32"
  have "(if \<not> big_endian st then int (field_offset f) else 4 - int (field_offset f) - int (field_width f) div 8) = int k"
    using ow by (simp add: k_def of_nat_diff zdiv_int)
  then have "GetRegisterOffset (reg_text n f None) st = Ret (Some ?a)"
    using assms digits_number[of n "field_texts ! f"] s
    by (simp add: GetRegisterOffset_def reg_text_def bit_text_def reg_offset_fields_field)
  moreover have "?a < 128"
  proof -
    have "?a = of_nat (n * 4 + k)" by (simp add: of_nat_mult)
    also have "\<dots> < 128"
      using assms(1) k(1) unat_small[of "n * 4 + k"] by (simp add: word_less_nat_alt del: of_nat_add of_nat_mult)
    finally show ?thesis by simp
  qed
  moreover have "Offset2Reg ?a (of_nat (field_width f div 8)) st = Ret (Some (arg ARGTYPE_REGISTER (of_nat n) (of_nat f)), st)"
  proof -
    obtain a where a: "a = ?a" by simp
    have A: "a AND 3 = of_nat k" "a div 4 = of_nat n" "\<not> 128 < a + of_nat (field_width f div 8)"
      using offset_word[OF assms(1) k(1)] offset_bound[OF assms(1) k(1) _ k(2)] ow unfolding a by (simp_all add: not_less)
    have "Offset2Reg a (of_nat (field_width f div 8)) st = Ret (Some (arg ARGTYPE_REGISTER (of_nat n) (of_nat f)), st)"
      using f A unfolding Offset2Reg_def Let_def
      by (elim insertE) (simp_all add: k_def field_offset_def field_width_def offset_field_little_def offset_field_big_def)
    then show ?thesis by (simp only: a)
  qed
  ultimately show ?thesis by blast
qed

theorem register_address_round_trip_witness:
  "\<exists>a. GetRegisterOffset (reg_text 30 6 None) (asm_init CORE_V2 0x80 1 []) = Ret (Some a) \<and> a < 128 \<and>
    Offset2Reg a 2 (asm_init CORE_V2 0x80 1 []) = Ret (Some (arg ARGTYPE_REGISTER 30 6), asm_init CORE_V2 0x80 1 [])"
  using register_address_round_trip[of 30 6 "asm_init CORE_V2 0x80 1 []"] by (simp add: field_width_def)

section \<open>Operand texts\<close>

lemma stricmp_second: "stricmp (a # b # s) t \<Longrightarrow> length t \<ge> 2 \<and> tolower (t ! 1) = tolower b"
  by (cases t; cases "tl t") (auto simp: stricmp_def)

lemma tolower_digit: "isdigit c \<Longrightarrow> tolower c = c"
  by (simp add: tolower_def isupper_def isdigit_def)

lemma reserved_second: "\<forall>t \<in> set (tl OpText) \<union> set DotCmds. 2 \<le> length t \<longrightarrow> \<not> isdigit (tolower (t ! 1))"
  by (simp add: OpText_def DotCmds_def isdigit_def tolower_def isupper_def code_def)

lemma find_word_none: "(\<forall>t \<in> set ts. \<not> stricmp w t) \<Longrightarrow> find_word i w ts = 0"
  by (induction ts arbitrary: i) auto

text \<open>A word whose second character is a digit is no opcode and no dot command.\<close>

lemma digit_second: "isdigit b \<Longrightarrow> CheckOpcode (a # b # s) = 0 \<and> \<not> CheckDotCommand (a # b # s)"
proof -
  assume b: "isdigit b"
  have n: "\<not> stricmp (a # b # s) t" if "t \<in> set (tl OpText) \<union> set DotCmds" for t
    using stricmp_second[of a b s t] that reserved_second tolower_digit[OF b] b by metis
  show ?thesis using n find_word_none[of "tl OpText" "a # b # s" 1] by (auto simp: CheckOpcode_def CheckDotCommand_def list_ex_iff)
qed

lemma digit_first: "isdigit a \<Longrightarrow> CheckOpcode (a # s) = 0 \<and> \<not> CheckDotCommand (a # s)"
proof -
  assume a: "isdigit a"
  have f: "\<forall>t \<in> set (tl OpText) \<union> set DotCmds. t \<noteq> [] \<and> \<not> isdigit (tolower (hd t))"
    by (simp add: OpText_def DotCmds_def isdigit_def tolower_def isupper_def code_def)
  have n: "\<not> stricmp (a # s) t" if "t \<in> set (tl OpText) \<union> set DotCmds" for t
    using bspec[OF f that] a tolower_digit[OF a] by (cases t) (auto simp: stricmp_def)
  show ?thesis using n find_word_none[of "tl OpText" "a # s" 1] by (auto simp: CheckOpcode_def CheckDotCommand_def list_ex_iff)
qed

lemma toupper_digit [simp]: "isdigit c \<Longrightarrow> toupper c = c"
  by (simp add: toupper_def islower_def isdigit_def)

lemma decimal_two: "n < 32 \<Longrightarrow> \<exists>a. decimal n = [a] \<and> isdigit a \<or> (\<exists>b. decimal n = [a, b] \<and> isdigit a \<and> isdigit b)"
  by (cases "n < 10") (simp_all add: decimal.simps)

text \<open>A register's text, without a bit, is a register token; a decimal number is no reserved word.\<close>

lemma reg_state_fields: "f < 8 \<Longrightarrow> state = 2 \<or> state = 3 \<Longrightarrow> reg_state FLG_REG_BASE state (field_texts ! f) = FLG_REG_BASE"
proof -
  assume "f < 8" and s: "state = 2 \<or> state = 3"
  then have "f \<in> {0, 1, 2, 3, 4, 5, 6, 7}" by auto
  then show ?thesis using s
    by (elim insertE)
      (auto simp: field_texts_def isdigit_def Let_def toupper_def islower_def code_def char_of_def bit_0)
qed

lemma reg_text_type: "n < 32 \<Longrightarrow> f < 8 \<Longrightarrow> CheckTokenType (reg_text n f None) = FLG_REG_BASE"
proof -
  assume n: "n < 32" and f: "f < 8"
  obtain a s where a: "decimal n = a # s" "isdigit a" using decimal_cur by blast
  have "reg_state FLG_REG_BASE 0 (reg_text n f None) = FLG_REG_BASE"
    using decimal_two[OF n] by (auto simp: reg_text_def bit_text_def Let_def reg_state_fields[OF f])
  then show ?thesis
    using digit_second[OF a(2), of "CHR ''r''" "s @ field_texts ! f"]
    by (simp add: CheckTokenType_def reg_text_def bit_text_def a reg_prefix_def)
qed

lemma reg_text_base [simp]: "n < 32 \<Longrightarrow> f < 8 \<Longrightarrow> is_reg_base (reg_text n f None)"
  by (simp add: is_reg_base_def reg_text_type FLG_REG_BASE_def)

lemma decimal_type: "CheckTokenType (decimal n) = TOKENTYPE_UNRESERVED"
proof -
  obtain a s where a: "decimal n = a # s" "isdigit a" using decimal_cur by blast
  have "a \<noteq> CHR ''*''" "a \<noteq> CHR ''&''" "a \<notin> {CHR ''B'', CHR ''C'', CHR ''R'', CHR ''T'', CHR ''W''}" "a \<noteq> CHR ''S''" "a \<noteq> CHR ''O''"
    using a(2) by (auto simp: isdigit_def code_def)
  then show ?thesis using a digit_first[OF a(2)]
    by (simp add: CheckTokenType_def reg_prefix_def Let_def)
qed

lemma decimal_not_base [simp]: "\<not> is_reg_base (decimal n)"
  by (simp add: is_reg_base_def decimal_type TOKENTYPE_UNRESERVED_def)

lemma decimal_short: "length (decimal (unat (v :: u32))) \<le> 10"
proof -
  have l: "length (decimal n) \<le> k + 1" if "n < 10 ^ (k + 1)" for n k
    using that
  proof (induction k arbitrary: n)
    case (Suc k)
    then show ?case by (cases "n < 10") (simp_all add: decimal.simps[of n] less_mult_imp_div_less)
  qed (simp add: decimal.simps)
  have "unat v < 2 ^ 32" using unsigned_less[of v] by simp
  then have "unat v < 10 ^ (9 + 1)" by simp
  from l[OF this] show ?thesis by simp
qed

lemma immediate_text:
  assumes "lo \<le> v" "v \<le> hi"
  shows "GetImValue (decimal (unat v)) lo hi st = Ret (Some (imm v), st)"
proof -
  have "Expression (decimal (unat v)) st = Ret (Some v, st)"
    using expression_number[of v st] .
  moreover have "cur (decimal (unat v)) \<noteq> CHR ''#''"
    using decimal_cur[of "unat v"] by (auto simp: isdigit_def code_def)
  ultimately show ?thesis
    using assms decimal_short[of v] decimal_type[of "unat v"]
    by (simp add: GetImValue_def operand_exp_def TOKEN_MAX_LEN_def imm_def not_less)
qed

end
