(* ===== verification/Pasm_Encode.thy ===== *)
theory Pasm_Encode
  imports Pasm_Text
begin

text \<open>
  Round trips of the encoder: the fields of the words it generates, read back at their places in the
  instruction, are the operands. \<open>fld p k w\<close> is the field of \<open>k\<close> bits at bit \<open>p\<close>; its rules are the collection
  \<open>enc\<close>.
\<close>

section \<open>Fields of a word\<close>

definition fld :: "nat \<Rightarrow> nat \<Rightarrow> u32 \<Rightarrow> u32" where
  "fld p k w = take_bit k (drop_bit p w)"

lemma bit_fld: "bit (fld p k w) i \<longleftrightarrow> i < k \<and> bit w (p + i)"
  by (simp add: fld_def bit_simps)

lemma bit_small: "unat (x :: u32) < 2 ^ j \<Longrightarrow> j \<le> i \<Longrightarrow> \<not> bit x i"
proof -
  assume x: "unat x < 2 ^ j" "j \<le> i"
  have "\<not> bit (take_bit j (unat x)) i" using x(2) by (simp add: bit_take_bit_iff)
  then show ?thesis using x(1) by (simp add: take_bit_nat_eq_self bit_unsigned_iff)
qed

lemma bit_smallD: "bit x i \<Longrightarrow> unat (x :: u32) < 2 ^ j \<Longrightarrow> i < j"
  using bit_small[of x j i] by linarith

lemma fld_or [enc]: "fld p k (a OR b) = fld p k a OR fld p k b"
  by (simp add: fld_def take_bit_or)

lemma fld_above [enc]: "p + k \<le> q \<Longrightarrow> fld p k (push_bit q x) = 0"
  by (rule bit_word_eqI) (auto simp: bit_fld bit_push_bit_iff)

lemma fld_below: "unat x < 2 ^ j \<Longrightarrow> q + j \<le> p \<Longrightarrow> fld p k (push_bit q x) = 0"
  by (rule bit_word_eqI) (auto simp: bit_fld bit_push_bit_iff dest: bit_smallD)

lemma fld_at: "unat x < 2 ^ k \<Longrightarrow> p + k \<le> 32 \<Longrightarrow> fld p k (push_bit p x) = x"
  by (rule bit_word_eqI) (auto simp: bit_fld bit_push_bit_iff dest: bit_smallD)

lemma fld_below0: "unat x < 2 ^ j \<Longrightarrow> j \<le> p \<Longrightarrow> fld p k x = 0"
  using fld_below[of x j 0 p k] by simp

lemma fld_at0: "unat x < 2 ^ k \<Longrightarrow> k \<le> 32 \<Longrightarrow> fld 0 k x = x"
  using fld_at[of x k 0] by simp

text \<open>The widths that occur: bits, fields (3), register numbers (5), opcodes (7), bytes (8) and halves (16).\<close>

lemmas fld_below_widths [enc] = fld_below[of _ 1, simplified] fld_below[of _ 3, simplified] fld_below[of _ 5, simplified]
  fld_below[of _ 7, simplified] fld_below[of _ 8, simplified] fld_below[of _ 16, simplified]

lemmas fld_below0_widths [enc] = fld_below0[of _ 3, simplified] fld_below0[of _ 5, simplified] fld_below0[of _ 7, simplified]
  fld_below0[of _ 8, simplified]

lemmas fld_at_widths [enc] = fld_at[of _ 1, simplified] fld_at[of _ 3, simplified] fld_at[of _ 5, simplified] fld_at[of _ 7, simplified]
  fld_at[of _ 8, simplified] fld_at[of _ 16, simplified] fld_at0[of _ 5, simplified] fld_at0[of _ 3, simplified]

lemma fld_0 [enc]: "fld p k 0 = 0"
  by (simp add: fld_def)

section \<open>Arithmetic instructions\<close>

text \<open>The opcode, the destination and first source (register, field), the second source (register and field, or byte).\<close>

definition decode_arith :: "u32 \<Rightarrow> u32 \<times> (u32 \<times> u32) \<times> (u32 \<times> u32) \<times> (u32 \<times> u32 + u32)" where
  "decode_arith w = (fld 25 7 w, (fld 0 5 w, fld 5 3 w), (fld 8 5 w, fld 13 3 w),
     if fld 24 1 w = 1 then Inr (fld 16 8 w) else Inl (fld 16 5 w, fld 21 3 w))"

definition is_reg :: "PRU_ARG \<Rightarrow> bool" where
  "is_reg a \<longleftrightarrow> pa_Type a = ARGTYPE_REGISTER \<and> unat (pa_Value a) < 32 \<and> unat (pa_Field a) < 8"

definition src2_ok :: "PRU_ARG \<Rightarrow> bool" where
  "src2_ok a \<longleftrightarrow> is_reg a \<or> (pa_Type a = ARGTYPE_IMMEDIATE \<and> unat (pa_Value a) < 256)"

lemma unat_one: "unat (1 :: u32) < 2" by simp

lemma decode_arith_word:
  assumes "is_reg a0" "is_reg a1" "src2_ok a2" "unat c < 128"
  shows "decode_arith (push_bit 25 c OR dst_bits a0 OR src1_bits a1 OR src2_bits a2) =
    (c, (pa_Value a0, pa_Field a0), (pa_Value a1, pa_Field a1),
     if pa_Type a2 = ARGTYPE_REGISTER then Inl (pa_Value a2, pa_Field a2) else Inr (pa_Value a2))"
proof (cases "pa_Type a2 = ARGTYPE_REGISTER")
  case True
  with assms show ?thesis
    by (simp add: decode_arith_def is_reg_def src2_ok_def dst_bits_def src1_bits_def src2_bits_def enc)
next
  case False
  with assms have "unat (pa_Value a2) < 256" by (auto simp: src2_ok_def is_reg_def)
  with assms False show ?thesis
    by (simp add: decode_arith_def is_reg_def dst_bits_def src1_bits_def src2_bits_def enc del: push_bit_of_1)
qed

section \<open>From text to word and back\<close>

lemma tolower_inj: "isupper c \<or> isdigit c \<Longrightarrow> isupper d \<or> isdigit d \<Longrightarrow> tolower c = tolower d \<Longrightarrow> c = d"
proof -
  assume a: "isupper c \<or> isdigit c" "isupper d \<or> isdigit d" "tolower c = tolower d"
  have v: "code (tolower e) = (if isupper e then code e + 32 else code e)" if "isupper e \<or> isdigit e" for e
    using that by (auto simp: tolower_def code_def isupper_def isdigit_def)
  have "code c = code d" using v[OF a(1)] v[OF a(2)] a by (auto simp: isupper_def isdigit_def split: if_splits)
  then show ?thesis by (simp add: code_def)
qed

lemma stricmp_plain:
  "\<forall>c \<in> set a. isupper c \<or> isdigit c \<Longrightarrow> \<forall>c \<in> set b. isupper c \<or> isdigit c \<Longrightarrow> stricmp a b \<longleftrightarrow> a = b"
  unfolding stricmp_def by (rule inj_on_map_eq_map) (auto simp: inj_on_def intro: tolower_inj)

lemma find_word_nth:
  "j < length ts \<Longrightarrow> distinct ts \<Longrightarrow> (\<And>a b. a \<in> set ts \<Longrightarrow> b \<in> set ts \<Longrightarrow> stricmp a b \<longleftrightarrow> a = b) \<Longrightarrow>
    find_word i (ts ! j) ts = i + j"
proof (induction ts arbitrary: i j)
  case (Cons t ts)
  show ?case
  proof (cases j)
    case 0
    then show ?thesis by (simp add: stricmp_def)
  next
    case (Suc k)
    then have "ts ! k \<in> set ts" "ts ! k \<noteq> t" using Cons.prems by auto
    with Suc Cons.prems Cons.IH[of k "i + 1"] show ?thesis by simp
  qed
qed simp

lemma CheckOpcode_text: "1 \<le> op' \<Longrightarrow> op' \<le> 72 \<Longrightarrow> CheckOpcode (OpText ! op') = op'"
proof -
  assume b: "1 \<le> op'" "op' \<le> 72"
  have d: "distinct (tl OpText)" and l: "length (tl OpText) = 72" by (simp_all add: OpText_def)
  have p: "\<forall>t \<in> set (tl OpText). \<forall>c \<in> set t. isupper c \<or> isdigit c"
    by (simp add: OpText_def isupper_def isdigit_def code_def)
  have n: "OpText ! op' = tl OpText ! (op' - 1)" using nth_tl[of "op' - 1" OpText] l b by simp
  have "find_word 1 (tl OpText ! (op' - 1)) (tl OpText) = 1 + (op' - 1)"
    by (rule find_word_nth[OF _ d]) (use b l p in \<open>auto intro!: stricmp_plain\<close>)
  with n b show ?thesis by (simp add: CheckOpcode_def)
qed

text \<open>A register or an immediate, as the source text has it and as the operand the readers make of it.\<close>

type_synonym source = "nat \<times> nat + u32"

definition source_text :: "source \<Rightarrow> string" where
  "source_text s = (case s of Inl (n, f) \<Rightarrow> reg_text n f None | Inr v \<Rightarrow> decimal (unat v))"

definition source_arg :: "source \<Rightarrow> PRU_ARG" where
  "source_arg s = (case s of Inl (n, f) \<Rightarrow> arg ARGTYPE_REGISTER (of_nat n) (of_nat f) | Inr v \<Rightarrow> imm v)"

definition source_ok :: "u32 \<Rightarrow> source \<Rightarrow> bool" where
  "source_ok hi s = (case s of Inl (n, f) \<Rightarrow> n < 32 \<and> f < 8 | Inr v \<Rightarrow> v \<le> hi)"

definition source_field :: "source \<Rightarrow> u32 \<times> u32 + u32" where
  "source_field s = (case s of Inl (n, f) \<Rightarrow> Inl (of_nat n, of_nat f) | Inr v \<Rightarrow> Inr v)"

lemma reg_reads [simp]: "n < 32 \<Longrightarrow> f < 8 \<Longrightarrow> reg (reg_text n f None) st = Ret (Some (arg ARGTYPE_REGISTER (of_nat n) (of_nat f)), st)"
  by (rule register_plain)

lemma source_reads: "source_ok hi s \<Longrightarrow> reg_or_im (source_text s) hi st = Ret (Some (source_arg s), st)"
  by (auto simp: source_ok_def source_text_def source_arg_def reg_or_im_def immediate_text split: sum.splits)

lemma is_reg_arg: "n < 32 \<Longrightarrow> f < 8 \<Longrightarrow> is_reg (arg ARGTYPE_REGISTER (of_nat n) (of_nat f))"
  by (simp add: is_reg_def unat_small)

lemma src2_ok_source: "source_ok 255 s \<Longrightarrow> src2_ok (source_arg s)"
  by (auto simp: source_ok_def source_arg_def src2_ok_def is_reg_arg imm_def word_le_nat_alt split: sum.splits)

lemma gen_ok_room:
  "length (ProgramImage st) = MAX_PROGRAM \<Longrightarrow> 0 \<le> CodeOffset st \<Longrightarrow> CodeOffset st < int MAX_PROGRAM \<Longrightarrow>
    gen_ok ps w st = Ret (Some (), emit ps w st)"
  by (simp add: gen_ok_def GenOp_room)

text \<open>
  C29. Arithmetic instructions. For each of the fourteen two-source operations, any registers with any fields, and a
  second source that is a register or a byte, \<open>ProcessOp\<close> on the printed operands appends, at a code offset in the image, exactly
  one word to it, and its fields are the operation and the operands.
\<close>

theorem arithmetic_round_trip:
  assumes "1 \<le> op'" "op' \<le> 14" "d < 32" "df < 8" "s < 32" "sf < 8" "source_ok 255 src"
    and "length (ProgramImage st) = MAX_PROGRAM" "0 \<le> CodeOffset st" "CodeOffset st < int MAX_PROGRAM"
  shows "\<exists>w. ProcessOp ps [OpText ! op', reg_text d df None, reg_text s sf None, source_text src] st = Ret (Some (), emit ps w st) \<and>
    decode_arith w = (of_nat (op' - 1), (of_nat d, of_nat df), (of_nat s, of_nat sf), source_field src)"
proof -
  let ?w = "push_bit 25 (of_nat (op' - OP_ADD)) OR dst_bits (arg ARGTYPE_REGISTER (of_nat d) (of_nat df)) OR
    src1_bits (arg ARGTYPE_REGISTER (of_nat s) (of_nat sf)) OR src2_bits (source_arg src)"
  have "ProcessOp ps [OpText ! op', reg_text d df None, reg_text s sf None, source_text src] st = Ret (Some (), emit ps ?w st)"
    using assms by (simp add: ProcessOp_def CheckOpcode_text op_arithmetic_def parse_arithmetic_def source_reads
      code_arithmetic_def gen_ok_room Let_def arith_opcode_def del: One_nat_def)
  moreover have "unat (of_nat (op' - OP_ADD) :: u32) < 128"
    using assms(2) by (subst unat_small) auto
  ultimately show ?thesis
    using decode_arith_word[OF is_reg_arg[OF assms(3,4)] is_reg_arg[OF assms(5,6)] src2_ok_source[OF assms(7)]]
    by (auto simp: source_arg_def source_field_def imm_def split: sum.splits)
qed

theorem arithmetic_round_trip_witness:
  "let st = (asm_init CORE_V2 0 2 [])\<lparr>CodeOffset := 0\<rparr>; ps = source0 in
   \<exists>w. ProcessOp ps [''SUB'', reg_text 3 7 None, reg_text 4 5 None, source_text (Inr 200)] st = Ret (Some (), emit ps w st) \<and>
     decode_arith w = (2, (3, 7), (4, 5), Inr 200)"
  using arithmetic_round_trip[of 3 3 7 4 5 "Inr 200" "(asm_init CORE_V2 0 2 [])\<lparr>CodeOffset := 0\<rparr>" "source0"]
  by (simp add: Let_def source_ok_def source_field_def MAX_PROGRAM_def OpText_def)

end
