(* ===== verification/Pasm_Exec.thy ===== *)
theory Pasm_Exec
  imports Pasm_Encode
begin

text \<open>
  What the generated words do when they are executed: the register file as an abstract machine with one
  instruction, LDI, and the proof that the instruction sequences the assembler substitutes for MOV of an immediate
  and, on the second core, for ZERO have the effect of the instruction they stand for.
\<close>

section \<open>The register file\<close>

type_synonym regs = "nat \<Rightarrow> u32"

text \<open>The field \<open>f\<close> of a register with the value \<open>v\<close>, and a byte of the file in the core's byte order.\<close>

definition put_field :: "nat \<Rightarrow> u32 \<Rightarrow> u32 \<Rightarrow> u32" where
  "put_field f v x = (x AND NOT (push_bit (8 * field_offset f) (mask (field_width f)))) OR
     push_bit (8 * field_offset f) (take_bit (field_width f) v)"

definition byte_place :: "bool \<Rightarrow> nat \<Rightarrow> nat" where
  "byte_place big k = (if big then 3 - k mod 4 else k mod 4)"

definition reg_byte :: "bool \<Rightarrow> regs \<Rightarrow> nat \<Rightarrow> u32" where
  "reg_byte big rf k = fld (8 * byte_place big k) 8 (rf (k div 4))"

text \<open>LDI: the 16-bit immediate at bit 8 to the register at bit 0 with the field at bit 5.\<close>

definition exec_ldi :: "u32 \<Rightarrow> regs \<Rightarrow> regs option" where
  "exec_ldi w rf =
     (if fld 24 8 w = 0x24
      then (let r = unat (fld 0 5 w) in Some (rf(r := put_field (unat (fld 5 3 w)) (fld 8 16 w) (rf r))))
      else None)"

fun exec_ldis :: "u32 list \<Rightarrow> regs \<Rightarrow> regs option" where
  "exec_ldis [] rf = Some rf"
| "exec_ldis (w # ws) rf = (case exec_ldi w rf of None \<Rightarrow> None | Some rf \<Rightarrow> exec_ldis ws rf)"

lemma ldi_head: "fld 24 8 (0x24000000 :: u32) = 0x24" "fld 0 5 (0x24000000 :: u32) = 0" "fld 5 3 (0x24000000 :: u32) = 0"
  "fld 8 16 (0x24000000 :: u32) = 0"
  by (simp_all add: fld_def)

lemma exec_ldi_word:
  assumes "n < 32" "f < 8" "unat v < 65536"
  shows "exec_ldi (ldi_opcode (of_nat n) (of_nat f) v) rf = Some (rf(n := put_field f v (rf n)))"
proof -
  have "unat (of_nat n :: u32) < 32" "unat (of_nat f :: u32) < 8" using assms unat_small[of n] unat_small[of f] by simp_all
  with assms show ?thesis
    by (simp add: exec_ldi_def ldi_opcode_def enc ldi_head unat_small Let_def)
qed

lemma bit_put_field:
  "i < 32 \<Longrightarrow> bit (put_field f v x) i \<longleftrightarrow>
    (if 8 * field_offset f \<le> i \<and> i < 8 * field_offset f + field_width f then bit v (i - 8 * field_offset f) else bit x i)"
  by (auto simp: put_field_def bit_simps)

lemma byte_put_field_zero:
  assumes "j < 4" "field_width f = 8 * k"
  shows "fld (8 * j) 8 (put_field f 0 x) =
    (if field_offset f \<le> j \<and> j < field_offset f + k then 0 else fld (8 * j) 8 x)"
proof (rule bit_word_eqI)
  fix i :: nat assume "i < LENGTH(32)"
  have "bit (put_field f 0 x) (8 * j + i) \<longleftrightarrow> (if field_offset f \<le> j \<and> j < field_offset f + k then False else bit x (8 * j + i))"
    if "i < 8"
  proof -
    have "8 * field_offset f \<le> 8 * j + i \<longleftrightarrow> field_offset f \<le> j" "8 * j + i < 8 * field_offset f + 8 * k \<longleftrightarrow> j < field_offset f + k"
      using that by linarith+
    then show ?thesis using that assms by (subst bit_put_field) auto
  qed
  then show "bit (fld (8 * j) 8 (put_field f 0 x)) i =
      bit (if field_offset f \<le> j \<and> j < field_offset f + k then 0 else fld (8 * j) 8 x) i"
    by (auto simp: bit_fld)
qed

section \<open>MOV of an immediate\<close>

lemma low_half: "(0xFFFF :: u32) = mask 16"
  by (simp add: mask_eq_exp_minus_1)

lemma put_field_whole: "put_field 7 v x = v"
  by (rule bit_word_eqI) (simp add: bit_put_field field_offset_def field_width_def)

lemma put_halves: "put_field 4 (v AND 0xFFFF) (put_field 6 (drop_bit 16 v) x) = v"
  unfolding low_half
  by (rule bit_word_eqI) (auto simp: bit_put_field field_offset_def field_width_def bit_and_iff bit_mask_iff bit_drop_bit_eq)

lemma half_small: "unat (v AND 0xFFFF :: u32) < 65536" "unat (drop_bit 16 (v :: u32)) < 65536"
proof -
  have "v AND 0xFFFF \<le> (0xFFFF :: u32)" by (rule word_and_le1)
  then show "unat (v AND 0xFFFF) < 65536" by (simp add: word_le_nat_alt)
  have "unat v < 2 ^ 32" using unsigned_less[of v] by simp
  then show "unat (drop_bit 16 v) < 65536" unfolding unat_drop_bit_eq by (simp add: drop_bit_eq_div)
qed

lemma field_limit: "f < 8 \<Longrightarrow> unat v < 2 ^ field_width f \<Longrightarrow> v \<le> mov_limit (of_nat f) \<and> (f < 7 \<longrightarrow> unat v < 65536)"
proof -
  assume "f < 8" "unat v < 2 ^ field_width f"
  moreover from this(1) have "f \<in> {0, 1, 2, 3, 4, 5, 6, 7}" by auto
  ultimately show ?thesis
    by (elim insertE) (auto simp: field_width_def mov_limit_def word_le_nat_alt unat_of_nat)
qed

text \<open>
  C30. MOV of an immediate. For every register, field and value that fits the field, the words that MOV generates are LDI
  instructions which, executed, put exactly that value into that field and leave the rest of the register file: a
  whole register with a value over 16 bits takes two of them, and one suffices for every other.
\<close>

theorem mov_immediate_effect:
  assumes "n < 32" "f < 8" "unat v < 2 ^ field_width f"
    and "length (ProgramImage st) = MAX_PROGRAM" "0 \<le> CodeOffset st" "CodeOffset st + 1 < int MAX_PROGRAM"
  shows "\<exists>ws. ProcessOp ps [''MOV'', reg_text n f None, decimal (unat v)] st = Ret (Some (), fold (emit ps) ws st) \<and>
    length ws = (if f = 7 \<and> 0xFFFF < v then 2 else 1) \<and>
    exec_ldis ws rf = Some (rf(n := put_field f v (rf n)))"
proof -
  have o': "CheckOpcode ''MOV'' = 39" using CheckOpcode_text[of 39] by (simp add: OpText_def)
  have l: "v \<le> mov_limit (of_nat f)" "f < 7 \<Longrightarrow> unat v < 65536" using field_limit[OF assms(2,3)] by auto
  have nf: "\<not> FIELDTYPE_31_0 < of_nat f" "(of_nat f :: u32) = 7 \<longleftrightarrow> f = 7"
    using assms(2) unat_small[of f] by (auto simp: word_less_nat_alt not_less dest: arg_cong[where f = unat])
  have run: "ProcessOp ps [''MOV'', reg_text n f None, decimal (unat v)] st =
     (if f = 7 \<and> 0xFFFF < v then
        andThen (gen_ok ps (ldi_opcode (of_nat n) FIELDTYPE_31_16 (drop_bit 16 v)) st) (\<lambda>_ st.
          gen_ok ps (ldi_opcode (of_nat n) FIELDTYPE_15_0 (v AND 0xFFFF)) st)
      else gen_ok ps (ldi_opcode (of_nat n) (of_nat f) v) st)"
    using assms(1,2) nf l(1) by (simp add: ProcessOp_def o' op_mov_def immediate_text imm_def)
  show ?thesis
  proof (cases "f = 7 \<and> 0xFFFF < v")
    case True
    let ?hi = "ldi_opcode (of_nat n) FIELDTYPE_31_16 (drop_bit 16 v)" and ?lo = "ldi_opcode (of_nat n) FIELDTYPE_15_0 (v AND 0xFFFF)"
    have "exec_ldis [?hi, ?lo] rf = Some (rf(n := put_field f v (rf n)))"
      using True assms(1) exec_ldi_word[of n 6 "drop_bit 16 v"] exec_ldi_word[of n 4 "v AND 0xFFFF"] half_small[of v] put_halves[of v "rf n"]
      by (simp add: put_field_whole)
    with True run assms(4-6) show ?thesis
      by (intro exI[of _ "[?hi, ?lo]"]) (simp add: gen_ok_room)
  next
    case False
    have "unat v < 65536"
      using False l(2) assms(2) by (cases "f = 7") (auto simp: word_less_nat_alt)
    then have "exec_ldis [ldi_opcode (of_nat n) (of_nat f) v] rf = Some (rf(n := put_field f v (rf n)))"
      using exec_ldi_word[OF assms(1,2)] by simp
    with False run assms(4-6) show ?thesis
      by (intro exI[of _ "[ldi_opcode (of_nat n) (of_nat f) v]"]) (auto simp: gen_ok_room)
  qed
qed

theorem mov_immediate_effect_witness:
  "let st = (asm_init CORE_V2 0 2 [])\<lparr>CodeOffset := 0\<rparr>; ps = source0 in
   \<exists>ws. ProcessOp ps [''MOV'', reg_text 2 7 None, decimal (unat (0x12345678 :: u32))] st = Ret (Some (), fold (emit ps) ws st) \<and>
     length ws = 2 \<and> exec_ldis ws (\<lambda>_. 0) = Some ((\<lambda>_. 0)(2 := put_field 7 0x12345678 0))"
  using mov_immediate_effect[of 2 7 "0x12345678" "(asm_init CORE_V2 0 2 [])\<lparr>CodeOffset := 0\<rparr>" "source0" "\<lambda>_. 0"]
  by (simp add: Let_def MAX_PROGRAM_def field_width_def del: fun_upd_apply)

section \<open>ZERO\<close>

lemma low_bits: "(a :: u32) AND 3 = of_nat (unat a mod 4)"
proof -
  have "(3 :: u32) = mask 2" by (simp add: mask_eq_exp_minus_1)
  then have "a AND 3 = take_bit 2 a" by (simp add: take_bit_eq_mask)
  also have "\<dots> = of_nat (unat a mod 4)"
    by (simp add: word_unat_eq_iff unat_of_nat unsigned_take_bit_eq take_bit_eq_mod unat_mod)
  finally show ?thesis .
qed

text \<open>A chunk is a field of the register of its first byte, and covers exactly the chunk's bytes of it.\<close>

lemma zero_chunk_field:
  assumes "zero_chunk big addr n = (sz, field)" "n \<noteq> 0"
  obtains f where "field = of_nat f" "f < 8" "field_width f = 8 * unat sz" "0 < unat sz" "unat sz \<le> unat n"
    "unat addr mod 4 + unat sz \<le> 4"
    "field_offset f = (if big then 4 - unat addr mod 4 - unat sz else unat addr mod 4)"
proof -
  have n: "1 \<le> unat n" using assms(2) by (simp add: Suc_le_eq unat_gt_0)
  have le: "4 \<le> n \<longleftrightarrow> 4 \<le> unat n" "2 \<le> n \<longleftrightarrow> 2 \<le> unat n" by (simp_all add: word_le_nat_alt)
  have "unat addr mod 4 \<in> {0, 1, 2, 3}" by auto
  then have "\<exists>f \<in> {0, 1, 2, 3, 4, 5, 6, 7 :: nat}. field = of_nat f \<and> field_width f = 8 * unat sz \<and> 0 < unat sz \<and> unat sz \<le> unat n \<and>
      unat addr mod 4 + unat sz \<le> 4 \<and> field_offset f = (if big then 4 - unat addr mod 4 - unat sz else unat addr mod 4)"
    using assms(1) n
    by (elim insertE)
      (auto simp: zero_chunk_def zero_chunk_little_def zero_chunk_big_def low_bits le field_width_def field_offset_def Let_def split: if_splits)
  then obtain f where "f \<in> {0, 1, 2, 3, 4, 5, 6, 7 :: nat}" "field = of_nat f \<and> field_width f = 8 * unat sz \<and> 0 < unat sz \<and>
      unat sz \<le> unat n \<and> unat addr mod 4 + unat sz \<le> 4 \<and>
      field_offset f = (if big then 4 - unat addr mod 4 - unat sz else unat addr mod 4)" by (rule bexE)
  moreover from this(1) have "f < 8" by auto
  ultimately show thesis by (intro that[of f]) simp_all
qed

text \<open>The bytes from \<open>a\<close> to \<open>b\<close> cleared and the others kept.\<close>

definition zeroed :: "bool \<Rightarrow> nat \<Rightarrow> nat \<Rightarrow> regs \<Rightarrow> regs \<Rightarrow> bool" where
  "zeroed big a b rf rf' \<longleftrightarrow> (\<forall>k. reg_byte big rf' k = (if a \<le> k \<and> k < b then 0 else reg_byte big rf k))"

lemma zeroed_trans: "zeroed big a b rf rf' \<Longrightarrow> zeroed big b c rf' rf'' \<Longrightarrow> a \<le> b \<Longrightarrow> b \<le> c \<Longrightarrow> zeroed big a c rf rf''"
  by (simp add: zeroed_def)

lemma place_window: "0 < s \<Longrightarrow> x + s \<le> 4 \<Longrightarrow> y < (4 :: nat) \<Longrightarrow>
    4 - x - s \<le> 3 - y \<and> 3 - y < 4 - x - s + s \<longleftrightarrow> x \<le> y \<and> y < x + s"
  by linarith

lemma chunk_zeroes:
  assumes f: "field_width f = 8 * s" "0 < s" "a mod 4 + s \<le> 4"
    "field_offset f = (if big then 4 - a mod 4 - s else a mod 4)"
  shows "zeroed big a (a + s) rf (rf(a div 4 := put_field f 0 (rf (a div 4))))"
proof -
  have "reg_byte big (rf(a div 4 := put_field f 0 (rf (a div 4)))) k = (if a \<le> k \<and> k < a + s then 0 else reg_byte big rf k)" for k
  proof (cases "k div 4 = a div 4")
    case True
    then have k: "k = 4 * (a div 4) + k mod 4" "a = 4 * (a div 4) + a mod 4" "k mod 4 < 4"
      by (metis mult_div_mod_eq, simp_all)
    have j: "byte_place big k < 4" by (auto simp: byte_place_def intro: le_less_trans[OF diff_le_self])
    have "field_offset f \<le> byte_place big k \<and> byte_place big k < field_offset f + s \<longleftrightarrow> a mod 4 \<le> k mod 4 \<and> k mod 4 < a mod 4 + s"
      unfolding byte_place_def f(4) using place_window[OF f(2,3) k(3)] by simp
    also have "\<dots> \<longleftrightarrow> a \<le> k \<and> k < a + s" using k by linarith
    finally show ?thesis using True by (simp add: reg_byte_def byte_put_field_zero[OF j f(1)])
  next
    case False
    have "k div 4 = a div 4" if "a \<le> k" "k < a + s"
      using that f(3) mult_div_mod_eq[of 4 a] by (intro div_nat_eqI) (unfold mult_Suc_right, linarith+)
    with False have "\<not> (a \<le> k \<and> k < a + s)" by blast
    with False show ?thesis by (auto simp: reg_byte_def)
  qed
  then show ?thesis by (simp add: zeroed_def)
qed

lemma zero_loop_run:
  "length (ProgramImage st) = MAX_PROGRAM \<Longrightarrow> 0 \<le> CodeOffset st \<Longrightarrow> CodeOffset st + int (unat n) \<le> int MAX_PROGRAM \<Longrightarrow>
   unat addr + unat n \<le> 124 \<Longrightarrow>
   \<exists>ws. zero_loop ps addr n st = Ret (Some (), fold (emit ps) ws st) \<and>
     (\<forall>rf. \<exists>rf'. exec_ldis ws rf = Some rf' \<and> zeroed (big_endian st) (unat addr) (unat addr + unat n) rf rf')"
proof (induction ps addr n st rule: zero_loop.induct)
  case (1 ps addr n st)
  show ?case
  proof (cases "n = 0")
    case True
    then show ?thesis by (intro exI[of _ "[]"]) (auto simp: zero_loop.simps zeroed_def)
  next
    case False
    obtain sz field where z: "zero_chunk (big_endian st) addr n = (sz, field)" by (cases "zero_chunk (big_endian st) addr n")
    from zero_chunk_field[OF z False] obtain f where f: "field = of_nat f" "f < 8" "field_width f = 8 * unat sz" "0 < unat sz"
      "unat sz \<le> unat n" "unat addr mod 4 + unat sz \<le> 4"
      "field_offset f = (if big_endian st then 4 - unat addr mod 4 - unat sz else unat addr mod 4)" .
    let ?w = "ldi_opcode (addr div 4) field 0"
    have u: "unat (addr + sz) = unat addr + unat sz" using 1(5) f(5) by (subst unat_plus_if') (simp add: unat_word_ariths)
    have m: "unat (n - sz) = unat n - unat sz" using f(5) by (simp add: unat_sub word_le_nat_alt)
    have c: "CodeOffset st < int MAX_PROGRAM" using 1(4) f(4,5) by linarith
    have g: "gen_ok ps ?w st = Ret (Some (), emit ps ?w st)"
      by (rule gen_ok_room[OF 1(2,3) c])
    have c2: "CodeOffset (emit ps ?w st) + int (unat (n - sz)) \<le> int MAX_PROGRAM"
      unfolding emit_simps m using 1(4) f(4,5) by linarith
    have l: "length (ProgramImage (emit ps ?w st)) = MAX_PROGRAM" "0 \<le> CodeOffset (emit ps ?w st)" using 1(2,3) by simp_all
    have s: "unat addr + unat sz + unat (n - sz) = unat addr + unat n" unfolding m using f(5) by simp
    from 1(1)[OF False z[symmetric] refl l c2] obtain ws where
      ws: "zero_loop ps (addr + sz) (n - sz) (emit ps ?w st) = Ret (Some (), fold (emit ps) ws (emit ps ?w st))"
      and ex: "\<And>rf. \<exists>rf'. exec_ldis ws rf = Some rf' \<and> zeroed (big_endian st) (unat addr + unat sz) (unat addr + unat n) rf rf'"
      unfolding u emit_simps s using 1(5) by blast
    have d: "addr div 4 = of_nat (unat addr div 4)" by (simp add: word_arith_nat_div)
    have e: "exec_ldi ?w rf = Some (rf(unat addr div 4 := put_field f 0 (rf (unat addr div 4))))" for rf
      using exec_ldi_word[of "unat addr div 4" f 0 rf] 1(5) f(1,2) by (simp add: d)
    have "\<exists>rf'. exec_ldis (?w # ws) rf = Some rf' \<and> zeroed (big_endian st) (unat addr) (unat addr + unat n) rf rf'" for rf
    proof -
      obtain rf' where "exec_ldis ws (rf(unat addr div 4 := put_field f 0 (rf (unat addr div 4)))) = Some rf'"
        "zeroed (big_endian st) (unat addr + unat sz) (unat addr + unat n) (rf(unat addr div 4 := put_field f 0 (rf (unat addr div 4)))) rf'"
        using ex by blast
      with chunk_zeroes[OF f(3,4,6,7), of rf] e f(5) show ?thesis
        by (auto intro: zeroed_trans)
    qed
    moreover have "zero_loop ps addr n st = Ret (Some (), fold (emit ps) (?w # ws) st)"
      using False z g ws by (subst zero_loop.simps) simp
    ultimately show ?thesis by blast
  qed
qed

text \<open>
  C31. ZERO on the second core, which has no transfer instruction for it. For every range of the register file that
  ends by byte 124, the LDI instructions that ZERO generates, executed, clear exactly the bytes of the range, in
  the byte order the assembler was told, and leave every other byte.
\<close>

theorem zero_effect:
  fixes a n :: u32
  assumes "Core st = CORE_V1" "n \<noteq> 0" "unat a + unat n \<le> 124" "a \<le> 123"
    and "length (ProgramImage st) = MAX_PROGRAM" "0 \<le> CodeOffset st" "CodeOffset st + int (unat n) \<le> int MAX_PROGRAM"
  shows "\<exists>ws rf'. ProcessOp ps [''ZERO'', decimal (unat a), decimal (unat n)] st = Ret (Some (), fold (emit ps) ws st) \<and>
    exec_ldis ws rf = Some rf' \<and>
    (\<forall>k. reg_byte (big_endian st) rf' k = (if unat a \<le> k \<and> k < unat a + unat n then 0 else reg_byte (big_endian st) rf k))"
proof -
  have o': "CheckOpcode ''ZERO'' = 47" using CheckOpcode_text[of 47] by (simp add: OpText_def)
  have n: "n \<le> 124" using assms(3) by (simp add: word_le_nat_alt)
  have s: "a + n \<le> 124" using assms(3) by (simp add: word_le_nat_alt unat_plus_if' unat_word_ariths)
  have "fill_operands [''ZERO'', decimal (unat a), decimal (unat n)] st = Ret (Some (a, n), st)"
    using assms(2,4) n s by (simp add: fill_operands_def immediate_text imm_def not_less)
  then have "ProcessOp ps [''ZERO'', decimal (unat a), decimal (unat n)] st = zero_loop ps a n st"
    using assms(1) by (simp add: ProcessOp_def o' op_zero_def)
  with zero_loop_run[OF assms(5-7,3), of ps] show ?thesis unfolding zeroed_def by metis
qed

theorem zero_effect_witness:
  "let st = (asm_init CORE_V1 0x80 2 [])\<lparr>CodeOffset := 0\<rparr>; ps = source0 in
   \<exists>ws rf'. ProcessOp ps [''ZERO'', decimal (unat (5 :: u32)), decimal (unat (6 :: u32))] st = Ret (Some (), fold (emit ps) ws st) \<and>
     exec_ldis ws (\<lambda>_. 0xFFFFFFFF) = Some rf' \<and>
     (\<forall>k. reg_byte (big_endian st) rf' k = (if 5 \<le> k \<and> k < 11 then 0 else reg_byte (big_endian st) (\<lambda>_. 0xFFFFFFFF) k))"
  using zero_effect[of "(asm_init CORE_V1 0x80 2 [])\<lparr>CodeOffset := 0\<rparr>" 6 5 "source0" "\<lambda>_. 0xFFFFFFFF"]
  by (simp add: Let_def MAX_PROGRAM_def)

end
