(* ===== verification/Pasm_Branch.thy ===== *)
theory Pasm_Branch
  imports Pasm_Encode
begin

text \<open>
  Branches to labels: the ten-bit offset and the condition of the quick branches read back from the generated word, the
  range check of the second pass, and the branch that is a program's first instruction.
\<close>

section \<open>The offset field\<close>

definition branch_offset :: "u32 \<Rightarrow> int" where
  "branch_offset w = signed_take_bit 9 (uint (fld 0 8 w OR push_bit 8 (fld 25 2 w)))"

lemma branch_bits_fields: "branch_bits v = take_bit 8 v OR push_bit 25 (take_bit 2 (drop_bit 8 v))"
proof -
  have m: "(0xFF :: u32) = mask 8" "(0x300 :: u32) = push_bit 8 (mask 2)" by (simp_all add: mask_eq_exp_minus_1)
  show ?thesis unfolding branch_bits_def m
    by (rule bit_word_eqI) (auto simp: bit_or_iff bit_and_iff bit_mask_iff bit_push_bit_iff bit_take_bit_iff bit_drop_bit_eq)
qed

lemma unat_take_bit: "unat (take_bit k (x :: u32)) < 2 ^ k"
  by (simp add: unsigned_take_bit_eq)

lemmas take_small = unat_take_bit[of 8, simplified] unat_take_bit[of 2, simplified]

lemmas fld_two [enc] = fld_below[of _ 2, simplified] fld_at[of _ 2, simplified] fld_at0[of _ 8, simplified]

lemma ten_bits: "take_bit 8 v OR push_bit 8 (take_bit 2 (drop_bit 8 v)) = take_bit 10 (v :: u32)"
  by (rule bit_word_eqI) (auto simp: bit_simps)

lemma offset_signed: "-512 \<le> j \<Longrightarrow> j < 512 \<Longrightarrow> signed_take_bit 9 (uint (take_bit 10 (word_of_int j :: u32))) = j"
proof -
  assume j: "-512 \<le> j" "j < 512"
  have "uint (take_bit 10 (word_of_int j :: u32)) = take_bit 10 j"
    by (simp add: unsigned_take_bit_eq uint_word_of_int_eq)
  then have "signed_take_bit 9 (uint (take_bit 10 (word_of_int j :: u32))) = signed_take_bit 9 j"
    by (simp add: signed_take_bit_take_bit)
  also have "\<dots> = j" using j by (intro signed_take_bit_int_eq_self) simp_all
  finally show ?thesis .
qed

section \<open>Labels as operands\<close>

lemma Expression_label: "label_name s \<Longrightarrow> LabelFind s st = Some off \<Longrightarrow> Expression s st = Ret (Some (word_of_int off), st)"
  using expression_tree[of st "Last (TLabel s)" "word_of_int off"] by (simp add: chain_val_def MAXTERM_def tree_val.simps)

lemma sint_label: "0 \<le> t \<Longrightarrow> t < int MAX_PROGRAM \<Longrightarrow> sint (word_of_int t :: u32) = t"
proof -
  assume t: "0 \<le> t" "t < int MAX_PROGRAM"
  have "sint (word_of_int t :: u32) = signed_take_bit 31 t"
    by (simp add: sint_uint uint_word_of_int_eq signed_take_bit_take_bit)
  also have "\<dots> = t" using t by (intro signed_take_bit_int_eq_self) (simp_all add: MAX_PROGRAM_def)
  finally show ?thesis .
qed

lemma jump_label:
  assumes "label_name s" "LabelFind s st = Some t" "0 \<le> t" "t < int MAX_PROGRAM" "-1 \<le> CodeOffset st" "CodeOffset st < int MAX_PROGRAM"
  shows "GetJmpOffset s st =
    (if Pass st = 2 \<and> (t - CodeOffset st < -512 \<or> 511 < t - CodeOffset st) then error st
     else Ret (Some (arg ARGTYPE_OFFSET (word_of_int (t - CodeOffset st)) 0), st))"
proof -
  have "operand_exp s st = Ret (Some (word_of_int t), st)"
    using assms(1,2) by (simp add: operand_exp_def Expression_label label_name_def LABEL_NAME_LEN_def)
  moreover have "sint (word_of_int t :: u32) = t" by (rule sint_label[OF assms(3,4)])
  moreover have "\<not> (t - CodeOffset st < - (2 ^ 31) \<or> 2 ^ 31 \<le> t - CodeOffset st)"
    using assms(3-6) by (simp add: MAX_PROGRAM_def)
  ultimately show ?thesis by (simp add: GetJmpOffset_def rel_offset_def Let_def)
qed

section \<open>Quick branches\<close>

text \<open>The five condition bits: 01, then whether the branch is taken when the source is greater, equal, less.\<close>

definition compare_code :: "nat \<Rightarrow> u32" where
  "compare_code op' = 8 + (if op' \<in> {OP_QBGT, OP_QBGE, OP_QBNE} then 4 else 0) +
     (if op' \<in> {OP_QBEQ, OP_QBGE, OP_QBLE} then 2 else 0) + (if op' \<in> {OP_QBLT, OP_QBLE, OP_QBNE} then 1 else 0)"

lemma qb_base_code: "26 \<le> op' \<Longrightarrow> op' \<le> 31 \<Longrightarrow> qb_base op' = push_bit 27 (compare_code op') \<and> unat (compare_code op') < 32"
proof -
  assume "26 \<le> op'" "op' \<le> 31"
  then have "op' \<in> {26, 27, 28, 29, 30, 31}" by auto
  then show ?thesis by (elim insertE) (simp_all add: qb_base_def compare_code_def)
qed

definition decode_qb :: "u32 \<Rightarrow> u32 \<times> int \<times> (u32 \<times> u32) \<times> (u32 \<times> u32 + u32)" where
  "decode_qb w = (fld 27 5 w, branch_offset w, (fld 8 5 w, fld 13 3 w),
     if fld 24 1 w = 1 then Inr (fld 16 8 w) else Inl (fld 16 5 w, fld 21 3 w))"

lemma decode_qb_word:
  assumes "unat c < 32" "is_reg a1" "src2_ok a2" "-512 \<le> j" "j < 512"
  shows "decode_qb (push_bit 27 c OR branch_bits (word_of_int j) OR src1_bits a1 OR src2_bits a2) =
    (c, j, (pa_Value a1, pa_Field a1), if pa_Type a2 = ARGTYPE_REGISTER then Inl (pa_Value a2, pa_Field a2) else Inr (pa_Value a2))"
proof -
  have j: "signed_take_bit 9 (uint (take_bit 8 (word_of_int j) OR push_bit 8 (take_bit 2 (drop_bit 8 (word_of_int j))) :: u32)) = j"
    unfolding ten_bits by (rule offset_signed[OF assms(4,5)])
  show ?thesis
  proof (cases "pa_Type a2 = ARGTYPE_REGISTER")
    case True
    with assms j show ?thesis
      by (simp add: decode_qb_def branch_offset_def is_reg_def src2_ok_def branch_bits_fields src1_bits_def src2_bits_def enc take_small
        del: take_bit_drop_bit)
  next
    case False
    with assms have "unat (pa_Value a2) < 256" by (auto simp: src2_ok_def is_reg_def)
    with assms False j show ?thesis
      by (simp add: decode_qb_def branch_offset_def is_reg_def branch_bits_fields src1_bits_def src2_bits_def enc take_small
        del: push_bit_of_1 take_bit_drop_bit)
  qed
qed

text \<open>
  C32. Quick branches. In the second pass, at a code offset in the image, a comparing branch to a label within 512 words before and 511
  after it appends one word, whose condition bits are those of the comparison, whose operands are the branch's and whose signed
  ten-bit offset, added to the branch's own offset, is the label; a branch to a label further away is reported
  and generates nothing.
\<close>

theorem quick_branch_round_trip:
  assumes "26 \<le> op'" "op' \<le> 31" "label_name name" "LabelFind name st = Some target" "0 \<le> target" "target < int MAX_PROGRAM"
    and "n < 32" "f < 8" "source_ok 255 src" "Pass st = 2"
    and "length (ProgramImage st) = MAX_PROGRAM" "0 \<le> CodeOffset st" "CodeOffset st < int MAX_PROGRAM"
  shows "if target - CodeOffset st \<in> {-512..511}
    then \<exists>w. ProcessOp ps [OpText ! op', name, reg_text n f None, source_text src] st = Ret (Some (), emit ps w st) \<and>
      decode_qb w = (compare_code op', target - CodeOffset st, (of_nat n, of_nat f), source_field src)
    else ProcessOp ps [OpText ! op', name, reg_text n f None, source_text src] st = error st"
proof -
  let ?d = "target - CodeOffset st"
  let ?w = "qb_base op' OR branch_bits (word_of_int ?d) OR src1_bits (arg ARGTYPE_REGISTER (of_nat n) (of_nat f)) OR src2_bits (source_arg src)"
  note q = qb_base_code[OF assms(1,2)]
  have op: "ProcessOp ps (OpText ! op' # ts) st = op_qb ps op' (OpText ! op' # ts) st" for ts
    using assms(1,2) by (simp add: ProcessOp_def CheckOpcode_text)
  have j: "GetJmpOffset name st = (if ?d < -512 \<or> 511 < ?d then error st else Ret (Some (arg ARGTYPE_OFFSET (word_of_int ?d) 0), st))"
    using jump_label[OF assms(3-6)] assms(10,12,13) by simp
  show ?thesis
  proof (cases "?d \<in> {-512..511}")
    case True
    then have "GetJmpOffset name st = Ret (Some (arg ARGTYPE_OFFSET (word_of_int ?d) 0), st)" using j by auto
    then have "ProcessOp ps [OpText ! op', name, reg_text n f None, source_text src] st = Ret (Some (), emit ps ?w st)"
      unfolding op using assms(7-13) by (simp add: op_qb_def source_reads code_qb_def gen_ok_room)
    moreover have "decode_qb ?w = (compare_code op', ?d, (of_nat n, of_nat f), source_field src)"
      using decode_qb_word[OF conjunct2[OF q] is_reg_arg[OF assms(7,8)] src2_ok_source[OF assms(9)], of ?d] True q
      by (auto simp: source_arg_def source_field_def imm_def split: sum.splits)
    ultimately show ?thesis using True by auto
  next
    case False
    then have "GetJmpOffset name st = error st" using j by auto
    with False show ?thesis unfolding op by (simp add: op_qb_def)
  qed
qed

theorem quick_branch_round_trip_witness:
  "let st = (asm_init CORE_V2 0 2 [(''AGAIN'', 20)])\<lparr>CodeOffset := 40\<rparr>; ps = source0 in
   \<exists>w. ProcessOp ps [''QBNE'', ''AGAIN'', reg_text 3 7 None, source_text (Inr 200)] st = Ret (Some (), emit ps w st) \<and>
     decode_qb w = (13, -20, (3, 7), Inr 200)"
  using quick_branch_round_trip[of 31 "''AGAIN''" "(asm_init CORE_V2 0 2 [(''AGAIN'', 20)])\<lparr>CodeOffset := 40\<rparr>" 20 3 7 "Inr 200"
    "source0"]
  by (simp add: Let_def source_ok_def source_field_def MAX_PROGRAM_def OpText_def LabelFind_def label_name_def LabelChar_def
    isupper_def islower_def code_def LABEL_NAME_LEN_def TOKEN_MAX_LEN_def compare_code_def)

section \<open>A branch as the first instruction\<close>

lemma qba_offset:
  assumes "-512 \<le> d" "d < 512"
  shows "branch_offset (push_bit 27 0xF OR branch_bits (word_of_int d) OR push_bit 24 1) = d"
proof -
  have u: "unat (0xF :: u32) < 32" "unat (1 :: u32) < 2" by simp_all
  have "signed_take_bit 9 (uint (take_bit 8 (word_of_int d) OR push_bit 8 (take_bit 2 (drop_bit 8 (word_of_int d))) :: u32)) = d"
    unfolding ten_bits by (rule offset_signed[OF assms])
  then show ?thesis
    unfolding branch_offset_def branch_bits_fields
    by (simp add: enc take_small u del: take_bit_drop_bit push_bit_numeral push_bit_of_1)
qed

text \<open>Where the first word of a program without an origin goes: after the JMP word on the legacy core V0.\<close>

definition first_place :: "asm \<Rightarrow> nat" where
  "first_place st = (if Core st = CORE_V0 then 9 else 8)"

lemma first_word:
  assumes "CodeOffset st = -1" "length (ProgramImage st) = MAX_PROGRAM"
  shows "\<exists>st'. gen_ok ps w st = Ret (Some (), st') \<and> CodeOffset st' = int (first_place st) + 1 \<and>
    cg_CodeWord (ProgramImage st' ! first_place st) = w"
  using assms
  by (simp add: gen_ok_def GenOp_def ValidateOffset_def put_code_def Report_def MAX_PROGRAM_def Let_def first_place_def)

text \<open>
  C33. A quick branch as the first instruction misses its label. In the second pass, with no origin and no label before
  it, the code offset is still -1 when the operand is read; generating the word makes it 8, or 9 on the legacy
  core V0, which puts a JMP word at 8 first. So the offset encoded for a label at \<open>target\<close> is \<open>target + 1\<close>, and the
  branch lands \<open>place + 1\<close> words past it: nine words too far, ten on V0. This holds for \<open>QBA\<close> and for the comparing
  branches and every label up to 510; a label beyond that is reported as out of range, those the place
  could reach included.
\<close>

theorem first_branch_misses:
  assumes "CodeOffset st = -1" "Pass st = 2" "length (ProgramImage st) = MAX_PROGRAM"
    and "label_name name" "LabelFind name st = Some target" "0 \<le> target" "target < int MAX_PROGRAM"
    and "26 \<le> op'" "op' \<le> 31" "n < 32" "f < 8" "source_ok 255 src"
  defines "place \<equiv> if Core st = CORE_V0 then 9 else 8"
  shows "if target \<le> 510
    then (\<exists>st'. ProcessOp ps [''QBA'', name] st = Ret (Some (), st') \<and> CodeOffset st' = int place + 1 \<and>
        int place + branch_offset (cg_CodeWord (ProgramImage st' ! place)) = target + int place + 1) \<and>
      (\<exists>st'. ProcessOp ps [OpText ! op', name, reg_text n f None, source_text src] st = Ret (Some (), st') \<and>
        CodeOffset st' = int place + 1 \<and>
        decode_qb (cg_CodeWord (ProgramImage st' ! place)) = (compare_code op', target + 1, (of_nat n, of_nat f), source_field src))
    else ProcessOp ps [''QBA'', name] st = error st \<and>
      ProcessOp ps [OpText ! op', name, reg_text n f None, source_text src] st = error st"
proof -
  have place: "place = first_place st" by (simp add: place_def first_place_def)
  let ?d = "target + 1"
  let ?v = "qb_base op' OR branch_bits (word_of_int ?d) OR src1_bits (arg ARGTYPE_REGISTER (of_nat n) (of_nat f)) OR src2_bits (source_arg src)"
  let ?w = "push_bit 27 0xF OR branch_bits (word_of_int ?d) OR push_bit 24 1"
  note q = qb_base_code[OF assms(8,9)]
  have op: "ProcessOp ps (OpText ! op' # ts) st = op_qb ps op' (OpText ! op' # ts) st" for ts
    using assms(8,9) by (simp add: ProcessOp_def CheckOpcode_text)
  have o': "CheckOpcode ''QBA'' = 32" using CheckOpcode_text[of 32] by (simp add: OpText_def)
  have qba: "ProcessOp ps [''QBA'', name] st = op_qba ps [''QBA'', name] st" by (simp add: ProcessOp_def o')
  have j: "GetJmpOffset name st = (if 510 < target then error st else Ret (Some (arg ARGTYPE_OFFSET (word_of_int ?d) 0), st))"
    using jump_label[OF assms(4-7)] assms(1,2,6) by (simp add: MAX_PROGRAM_def)
  show ?thesis
  proof (cases "target \<le> 510")
    case True
    then have j: "GetJmpOffset name st = Ret (Some (arg ARGTYPE_OFFSET (word_of_int ?d) 0), st)" using j by simp
    have "ProcessOp ps [''QBA'', name] st = gen_ok ps ?w st" unfolding qba using j by (simp add: op_qba_def)
    moreover have "branch_offset ?w = ?d" using True assms(6) by (intro qba_offset) simp_all
    moreover have "ProcessOp ps [OpText ! op', name, reg_text n f None, source_text src] st = gen_ok ps ?v st"
      unfolding op using j assms(10-12) by (simp add: op_qb_def source_reads code_qb_def)
    moreover have "decode_qb ?v = (compare_code op', ?d, (of_nat n, of_nat f), source_field src)"
      using decode_qb_word[OF conjunct2[OF q] is_reg_arg[OF assms(10,11)] src2_ok_source[OF assms(12)], of ?d] True assms(6) q
      by (auto simp: source_arg_def source_field_def imm_def split: sum.splits)
    ultimately show ?thesis
      using True first_word[OF assms(1,3), of ps ?w] first_word[OF assms(1,3), of ps ?v] unfolding place by auto
  next
    case False
    then have "GetJmpOffset name st = error st" using j by simp
    with False show ?thesis unfolding op qba by (simp add: op_qb_def op_qba_def)
  qed
qed

theorem first_branch_misses_witness:
  "(\<exists>st'. ProcessOp source0 [''QBA'', ''DONE''] (asm_init CORE_V2 0 2 [(''DONE'', 12)]) = Ret (Some (), st') \<and>
     8 + branch_offset (cg_CodeWord (ProgramImage st' ! 8)) = 21) \<and>
   (\<exists>st'. ProcessOp source0 [''QBA'', ''DONE''] (asm_init CORE_V0 0 2 [(''DONE'', 12)]) = Ret (Some (), st') \<and>
     9 + branch_offset (cg_CodeWord (ProgramImage st' ! 9)) = 22) \<and>
   ProcessOp source0 [''QBA'', ''DONE''] (asm_init CORE_V2 0 2 [(''DONE'', 515)]) =
     error (asm_init CORE_V2 0 2 [(''DONE'', 515)])"
  using first_branch_misses[of "asm_init CORE_V2 0 2 [(''DONE'', 12)]" "''DONE''" 12 26 0 0 "Inr 0" "source0"]
    first_branch_misses[of "asm_init CORE_V0 0 2 [(''DONE'', 12)]" "''DONE''" 12 26 0 0 "Inr 0" "source0"]
    first_branch_misses[of "asm_init CORE_V2 0 2 [(''DONE'', 515)]" "''DONE''" 515 26 0 0 "Inr 0" "source0"]
  by (auto simp: LabelFind_def label_name_def LabelChar_def isupper_def islower_def code_def LABEL_NAME_LEN_def TOKEN_MAX_LEN_def
    MAX_PROGRAM_def source_ok_def)

end
