(* ===== verification/Pasm_Tables.thy ===== *)
theory Pasm_Tables
  imports Pasm_Op
begin

text \<open>
  The assembler's symbol tables: labels, equates (\<open>#define\<close>), macros, structures and scopes with their
  assignments, and the check that a name is free (\<open>CheckName\<close> of \<open>pasm.c\<close>), which every table's create function makes.

  An entry of \<open>sfArray\<close> is the source's name, its directory and its \<open>InUse\<close> mark; the file that is being read is the
  record \<open>SOURCEFILE\<close>. A conditional's flags are the two of \<open>ccStateFlags\<close> (accepting code, \<open>#else\<close> used); the list has the \<open>ccDepth\<close>
  entries in use, the outermost first.

  A table is the list of its records, the newest first, as the C lists are. A pointer into a table is the
  name of the record, which is unique in it; to follow a pointer to a record that is gone is undefined (\<open>Stuck\<close>).
  Allocation does not fail here. An equate's \<open>Busy\<close> mark is an argument of the one function that uses it.
\<close>

section \<open>Records\<close>

type_synonym EQUATE = "string \<times> string"

record MACRO =
  mc_Name :: string
  mc_InUse :: bool
  mc_Id :: nat
  mc_Required :: nat
  mc_Expands :: nat
  mc_Args :: "(string \<times> string) list"
  mc_Labels :: "string list"
  mc_Code :: "string list"

record ELEM =
  el_Name :: string
  el_Offset :: u32
  el_Size :: u32

record STRUCT =
  st_Name :: string
  st_TotalSize :: u32
  st_Elems :: "ELEM list"

record ASSIGN =
  as_Name :: string
  as_BaseReg :: string
  as_TotalSize :: u32
  as_Elems :: "(ELEM \<times> string) list"

record SCOPE =
  sc_Name :: string
  sc_Open :: bool
  sc_pParent :: "string option"
  sc_pAssignList :: "ASSIGN list"

record pasm =
  core :: asm
  pEqList :: "EQUATE list"
  ccStateFlags :: "(bool \<times> bool) list"
  pMacroList :: "MACRO list"
  MacroId :: nat
  pStructList :: "STRUCT list"
  pStructCurrent :: "string option"
  pScopeList :: "SCOPE list"
  pScopeCurrent :: "string option"
  sfArray :: "(string \<times> string \<times> bool) list"
  OpenFiles :: nat

text \<open>The state before the first pass.\<close>

definition pasm_init :: "nat \<Rightarrow> u32 \<Rightarrow> pasm" where
  "pasm_init c options = \<lparr>core = asm_init c options 0 [], pEqList = [], ccStateFlags = [], pMacroList = [], MacroId = 0,
     pStructList = [], pStructCurrent = None, pScopeList = [], pScopeCurrent = None, sfArray = [], OpenFiles = 0\<rparr>"

definition STRUCT_NAME_LEN :: nat where "STRUCT_NAME_LEN = TOKEN_MAX_LEN"
definition STRUCT_MAX_ELEM :: nat where "STRUCT_MAX_ELEM = 64"
definition SCOPE_NAME_LEN :: nat where "SCOPE_NAME_LEN = TOKEN_MAX_LEN"
definition MACRO_NAME_LEN :: nat where "MACRO_NAME_LEN = TOKEN_MAX_LEN"

type_synonym 'a pstep = "('a, pasm) step"

section \<open>Steps on the whole state\<close>

definition rep :: "level \<Rightarrow> pasm \<Rightarrow> pasm" where
  "rep l s = s\<lparr>core := Report l (core s)\<rparr>"

abbreviation fail :: "pasm \<Rightarrow> ('a option \<times> pasm) exec" where
  "fail s \<equiv> Ret (None, rep REP_ERROR s)"

abbreviation ok :: "pasm \<Rightarrow> (unit option \<times> pasm) exec" where
  "ok s \<equiv> Ret (Some (), s)"

text \<open>A step of the assembler proper.\<close>

definition on_core :: "(asm \<Rightarrow> ('a, asm) step) \<Rightarrow> pasm \<Rightarrow> 'a pstep" where
  "on_core m s = (case m (core s) of Ret (r, st) \<Rightarrow> Ret (r, s\<lparr>core := st\<rparr>) | Stuck \<Rightarrow> Stuck | Fuel \<Rightarrow> Fuel)"

lemma rep_simps [simp]: "core (rep l s) = Report l (core s)" "pEqList (rep l s) = pEqList s" "pMacroList (rep l s) = pMacroList s"
  "pStructList (rep l s) = pStructList s" "pStructCurrent (rep l s) = pStructCurrent s" "pScopeList (rep l s) = pScopeList s"
  "pScopeCurrent (rep l s) = pScopeCurrent s" "MacroId (rep l s) = MacroId s" "ccStateFlags (rep l s) = ccStateFlags s"
  "sfArray (rep l s) = sfArray s" "OpenFiles (rep l s) = OpenFiles s"
  by (simp_all add: rep_def)

lemma on_core_Ret [simp]: "m (core s) = Ret (r, st) \<Longrightarrow> on_core m s = Ret (r, s\<lparr>core := st\<rparr>)"
  by (simp add: on_core_def)

abbreviation label_char :: "char \<Rightarrow> bool" where "label_char c \<equiv> LabelChar c False"
abbreviation label_or_dot :: "char \<Rightarrow> bool" where "label_or_dot c \<equiv> LabelChar c False \<or> c = CHR ''.''"

section \<open>Lookup\<close>

definition EquateFind :: "string \<Rightarrow> pasm \<Rightarrow> string option" where
  "EquateFind name s = map_of (pEqList s) name"

definition MacroFind :: "string \<Rightarrow> pasm \<Rightarrow> MACRO option" where
  "MacroFind name s = find (\<lambda>m. mc_Name m = name) (pMacroList s)"

definition StructFind :: "string \<Rightarrow> pasm \<Rightarrow> STRUCT option" where
  "StructFind name s = find (\<lambda>t. st_Name t = name) (pStructList s)"

definition ScopeFind :: "string \<Rightarrow> pasm \<Rightarrow> SCOPE option" where
  "ScopeFind name s = find (\<lambda>c. sc_Name c = name) (pScopeList s)"

text \<open>The open scopes only, the newest first.\<close>

definition AssignFind :: "string \<Rightarrow> pasm \<Rightarrow> ASSIGN option" where
  "AssignFind name s = find (\<lambda>a. as_Name a = name) (concat (map sc_pAssignList (filter sc_Open (pScopeList s))))"

definition CheckEquate :: "string \<Rightarrow> pasm \<Rightarrow> bool" where "CheckEquate name s = (EquateFind name s \<noteq> None)"
definition CheckMacro :: "string \<Rightarrow> pasm \<Rightarrow> bool" where "CheckMacro name s = (MacroFind name s \<noteq> None)"

definition CheckStruct :: "string \<Rightarrow> pasm \<Rightarrow> bool" where
  "CheckStruct name s = (StructFind name s \<noteq> None \<or> AssignFind name s \<noteq> None \<or> ScopeFind name s \<noteq> None)"

text \<open>Is the name free?\<close>

definition name_free :: "string \<Rightarrow> pasm \<Rightarrow> bool" where
  "name_free name s \<longleftrightarrow> CheckTokenType name = TOKENTYPE_UNRESERVED \<and> LabelFind name (core s) = None \<and>
     \<not> CheckEquate name s \<and> \<not> CheckStruct name s \<and> \<not> CheckMacro name s"

definition CheckName :: "string \<Rightarrow> pasm \<Rightarrow> unit pstep" where
  "CheckName name s = (if name_free name s then ok s else fail s)"

section \<open>Labels\<close>

definition LabelCreate :: "string \<Rightarrow> int \<Rightarrow> pasm \<Rightarrow> unit pstep" where
  "LabelCreate label val s =
     (if LABEL_NAME_LEN \<le> length label then fail s
      else andThen (CheckName label s) (\<lambda>_ s.
        ok (s\<lparr>core := (core s)\<lparr>pLabelList := (label, val) # pLabelList (core s)\<rparr>\<rparr>)))"

section \<open>The tables do not share names\<close>

text \<open>
  Every name of a table: the tables' own names are distinct and no name is in two of them. Assignments are
  left out: those of a closed scope do not count.
\<close>

definition table_names :: "pasm \<Rightarrow> string list" where
  "table_names s = map fst (pLabelList (core s)) @ map fst (pEqList s) @ map mc_Name (pMacroList s) @
     map st_Name (pStructList s) @ map sc_Name (pScopeList s)"

lemma find_name_None: "find (\<lambda>x. f x = n) xs = None \<longleftrightarrow> n \<notin> set (map f xs)"
  by (auto simp: find_None_iff)

lemma find_name: "distinct (map f xs) \<Longrightarrow> x \<in> set xs \<Longrightarrow> find (\<lambda>y. f y = f x) xs = Some x"
  by (induction xs) auto

lemma find_name_SomeD: "find (\<lambda>x. f x = n) xs = Some x \<Longrightarrow> x \<in> set xs \<and> f x = n"
  by (induction xs) (auto split: if_splits)

lemma name_free_fresh: "name_free n s \<Longrightarrow> n \<notin> set (table_names s)"
  by (auto simp: name_free_def table_names_def LabelFind_def CheckEquate_def EquateFind_def CheckStruct_def CheckMacro_def
    StructFind_def ScopeFind_def MacroFind_def map_of_eq_None_iff find_None_iff)

lemma CheckName_Some: "CheckName n s = Ret (Some u, s') \<longleftrightarrow> name_free n s \<and> s' = s"
  by (auto simp: CheckName_def)

end
