(* ===== verification/Pasm_Struct.thy ===== *)
theory Pasm_Struct
  imports Pasm_Tables
begin

text \<open>
  Structures and scopes (\<open>pasmstruct.c\<close>): the declaration of a structure, its assignment to registers, the scopes
  that assignments live in, and the substitution of structure names and of SIZE and OFFSET in an
  instruction's parameters.

  A command that returns -1 gives \<open>None\<close>, one that returns 0 gives \<open>Some ()\<close>.
\<close>

section \<open>Scopes\<close>

text \<open>The first open scope from the current one on, along the parents.\<close>

function open_from :: "SCOPE list \<Rightarrow> string option \<Rightarrow> string option exec" where
  "open_from [] None = Ret None"
| "open_from [] (Some n) = Stuck"
| "open_from (c # cs) None = Ret None"
| "open_from (c # cs) (Some n) =
     (if sc_Name c = n then (if sc_Open c then Ret (Some n) else open_from cs (sc_pParent c)) else open_from cs (Some n))"
  by pat_completeness auto
termination by (relation "measure (\<lambda>(cs, n). length cs)") auto

definition scope_update :: "string \<Rightarrow> (SCOPE \<Rightarrow> SCOPE) \<Rightarrow> SCOPE list \<Rightarrow> SCOPE list" where
  "scope_update name f cs = map (\<lambda>c. if sc_Name c = name then f c else c) cs"

definition ScopeClose :: "string \<Rightarrow> pasm \<Rightarrow> unit pstep" where
  "ScopeClose name s =
     (let cs = scope_update name (\<lambda>c. c\<lparr>sc_Open := False\<rparr>) (pScopeList s) in
      case open_from cs (pScopeCurrent s) of
        Ret cur' \<Rightarrow> ok (s\<lparr>pScopeList := cs, pScopeCurrent := cur'\<rparr>)
      | Stuck \<Rightarrow> Stuck | Fuel \<Rightarrow> Fuel)"

definition ScopeCreate :: "string \<Rightarrow> pasm \<Rightarrow> unit pstep" where
  "ScopeCreate name s =
     andThen (CheckName name s) (\<lambda>_ s.
       if SCOPE_NAME_LEN \<le> length name then fail s
       else ok (s\<lparr>pScopeList := \<lparr>sc_Name = name, sc_Open = True, sc_pParent = pScopeCurrent s, sc_pAssignList = []\<rparr> # pScopeList s,
                  pScopeCurrent := Some name\<rparr>))"

definition ScopeEnter :: "string \<Rightarrow> pasm \<Rightarrow> unit pstep" where
  "ScopeEnter name s = (if Core (core s) = CORE_V0 then fail s else ScopeCreate name s)"

definition ScopeLeave :: "string \<Rightarrow> pasm \<Rightarrow> unit pstep" where
  "ScopeLeave name s =
     (case ScopeFind name s of
        None \<Rightarrow> fail s
      | Some c \<Rightarrow> if \<not> sc_Open c then fail s else ScopeClose name s)"

definition ScopeUsing :: "string \<Rightarrow> pasm \<Rightarrow> unit pstep" where
  "ScopeUsing name s =
     (case ScopeFind name s of
        None \<Rightarrow> fail s
      | Some c \<Rightarrow>
          if sc_Open c then fail s
          else ok (s\<lparr>pScopeList := scope_update name (\<lambda>c. c\<lparr>sc_Open := True\<rparr>) (pScopeList s), pScopeCurrent := Some name\<rparr>))"

definition StructInit :: "pasm \<Rightarrow> unit pstep" where
  "StructInit s = (case ScopeCreate ''_ROOT_'' s of Ret (_, s) \<Rightarrow> ok s | Stuck \<Rightarrow> Stuck | Fuel \<Rightarrow> Fuel)"

text \<open>\<open>ScopeDestroy\<close> of the list's head, as often as there are scopes.\<close>

definition ScopeDestroy :: "pasm \<Rightarrow> unit pstep" where
  "ScopeDestroy s =
     (case pScopeList s of
        [] \<Rightarrow> Stuck
      | c # cs \<Rightarrow>
          andThen (if sc_Open c then ScopeClose (sc_Name c) s else ok s) (\<lambda>_ s. ok (s\<lparr>pScopeList := tl (pScopeList s)\<rparr>)))"

fun destroy_scopes :: "nat \<Rightarrow> pasm \<Rightarrow> unit pstep" where
  "destroy_scopes 0 s = ok s"
| "destroy_scopes (Suc n) s = andThen (ScopeDestroy s) (\<lambda>_ s. destroy_scopes n s)"

definition StructCleanup :: "pasm \<Rightarrow> unit pstep" where
  "StructCleanup s = andThen (destroy_scopes (length (pScopeList s)) s) (\<lambda>_ s. ok (s\<lparr>pStructList := []\<rparr>))"

section \<open>Declaring a structure\<close>

definition StructCreate :: "string \<Rightarrow> pasm \<Rightarrow> unit pstep" where
  "StructCreate name s =
     andThen (CheckName name s) (\<lambda>_ s.
       if STRUCT_NAME_LEN \<le> length name then fail s
       else ok (s\<lparr>pStructList := \<lparr>st_Name = name, st_TotalSize = 0, st_Elems = []\<rparr> # pStructList s\<rparr>))"

text \<open>After a failure the current structure is the null pointer that \<open>StructCreate\<close> returned.\<close>

definition StructNew :: "string \<Rightarrow> pasm \<Rightarrow> unit pstep" where
  "StructNew name s =
     (if pStructCurrent s \<noteq> None then fail s
      else if Core (core s) = CORE_V0 then fail s
      else andThen (StructCreate name s) (\<lambda>_ s. ok (s\<lparr>pStructCurrent := Some name\<rparr>)))"

definition StructEnd :: "pasm \<Rightarrow> unit pstep" where
  "StructEnd s =
     (case pStructCurrent s of
        None \<Rightarrow> fail s
      | Some name \<Rightarrow>
          (case StructFind name s of
             None \<Rightarrow> Stuck
           | Some t \<Rightarrow>
               if st_Elems t = [] then fail (s\<lparr>pStructCurrent := None\<rparr>)
               else ok (s\<lparr>pStructCurrent := None\<rparr>)))"

definition add_elem :: "string \<Rightarrow> u32 \<Rightarrow> STRUCT \<Rightarrow> STRUCT" where
  "add_elem name sz t =
     t\<lparr>st_Elems := st_Elems t @ [\<lparr>el_Name = name, el_Offset = st_TotalSize t, el_Size = sz\<rparr>],
       st_TotalSize := st_TotalSize t + sz\<rparr>"

definition struct_update :: "string \<Rightarrow> (STRUCT \<Rightarrow> STRUCT) \<Rightarrow> STRUCT list \<Rightarrow> STRUCT list" where
  "struct_update name f ts = map (\<lambda>t. if st_Name t = name then f t else t) ts"

text \<open>A reserved word is reported and then counts as success.\<close>

definition StructAddElement :: "string \<Rightarrow> u32 \<Rightarrow> pasm \<Rightarrow> unit pstep" where
  "StructAddElement name sz s =
     (case pStructCurrent s of
        None \<Rightarrow> fail s
      | Some cur' \<Rightarrow>
          if STRUCT_NAME_LEN \<le> length name then fail s
          else if CheckTokenType name \<noteq> TOKENTYPE_UNRESERVED then ok (rep REP_ERROR s)
          else
            (case StructFind cur' s of
               None \<Rightarrow> Stuck
             | Some t \<Rightarrow>
                 if length (st_Elems t) = STRUCT_MAX_ELEM then fail s
                 else if name \<in> set (map el_Name (st_Elems t)) then fail s
                 else ok (s\<lparr>pStructList := struct_update cur' (add_elem name sz) (pStructList s)\<rparr>)))"

section \<open>Assigning a structure to registers\<close>

text \<open>The name of the register or field at \<open>off\<close> in the register file.\<close>

definition field_suffix :: "bool \<Rightarrow> nat \<Rightarrow> nat \<Rightarrow> string" where
  "field_suffix big b sz =
     (if sz = 4 then []
      else if sz = 2 then ''.w'' @ decimal (if \<not> big then b else 2 - b)
      else ''.b'' @ decimal (if \<not> big then b else 3 - b))"

definition GetRegname :: "u32 \<Rightarrow> u32 \<Rightarrow> pasm \<Rightarrow> string pstep" where
  "GetRegname off sz s =
     (if off mod 4 + sz > 4 then fail s
      else Ret (Some (CHR ''R'' # decimal (unat (off div 4)) @ field_suffix (big_endian (core s)) (unat (off mod 4)) (unat sz)), s))"

text \<open>The byte after a register field.\<close>

definition field_end :: "bool \<Rightarrow> u32 \<Rightarrow> u32" where
  "field_end big field =
     (if \<not> big then
        (if field = FIELDTYPE_7_0 then 1
         else if field = FIELDTYPE_15_8 \<or> field = FIELDTYPE_15_0 then 2
         else if field = FIELDTYPE_23_16 \<or> field = FIELDTYPE_23_8 then 3 else 4)
      else
        (if field = FIELDTYPE_31_24 then 1
         else if field = FIELDTYPE_23_16 \<or> field = FIELDTYPE_31_16 then 2
         else if field = FIELDTYPE_15_8 \<or> field = FIELDTYPE_23_8 then 3 else 4))"

text \<open>The names of the elements' registers from \<open>off\<close> on: the alignment pass, and again the pass that creates them.\<close>

fun map_elems :: "ELEM list \<Rightarrow> u32 \<Rightarrow> pasm \<Rightarrow> (ELEM \<times> string) list pstep" where
  "map_elems [] off s = Ret (Some [], s)"
| "map_elems (e # es) off s =
     andThen (GetRegname off (el_Size e) s) (\<lambda>name s.
     andThen (map_elems es (off + el_Size e) s) (\<lambda>ms s. Ret (Some ((e, name) # ms), s)))"

definition AssignCreate :: "string \<Rightarrow> ASSIGN \<Rightarrow> string \<Rightarrow> pasm \<Rightarrow> unit pstep" where
  "AssignCreate scope a name s =
     andThen (CheckName name s) (\<lambda>_ s.
       if STRUCT_NAME_LEN \<le> length name then fail s
       else ok (s\<lparr>pScopeList := scope_update scope (\<lambda>c. c\<lparr>sc_pAssignList := a # sc_pAssignList c\<rparr>) (pScopeList s)\<rparr>))"

text \<open>
  The base register of a structure without elements is the empty name here; the source leaves it uninitialised. Only
  a structure whose \<open>.ends\<close> has reported an error has no elements.
\<close>

definition StructAssign :: "string \<Rightarrow> string \<Rightarrow> string \<Rightarrow> string \<Rightarrow> pasm \<Rightarrow> unit pstep" where
  "StructAssign structName rsName reName defName s =
     (if pStructCurrent s \<noteq> None then fail s
      else (case pScopeCurrent s of
          None \<Rightarrow> fail s
        | Some scope \<Rightarrow>
            let rangeCheck = (reName \<noteq> ''*'') in
            andThen (on_core (reg rsName) s) (\<lambda>rs s.
            andThen (if rangeCheck then on_core (reg reName) s else Ret (Some rs, s)) (\<lambda>re s.
              case StructFind structName s of
                None \<Rightarrow> fail s
              | Some t \<Rightarrow>
                  let big = big_endian (core s);
                      startOff = pa_Value rs * 4 + field_byte big (pa_Field rs);
                      endOff = pa_Value re * 4 + field_end big (pa_Field re) in
                  if rangeCheck \<and> startOff + st_TotalSize t \<noteq> endOff then fail s
                  else
                    andThen (map_elems (st_Elems t) startOff s) (\<lambda>ms s.
                      AssignCreate scope \<lparr>as_Name = defName, as_BaseReg = (case ms of [] \<Rightarrow> [] | (_, r) # _ \<Rightarrow> r),
                        as_TotalSize = st_TotalSize t, as_Elems = ms\<rparr> defName s)))))"

section \<open>Names in parameters\<close>

text \<open>A name up to the first dot; what follows the dot, if there is one.\<close>

definition split_dot :: "string \<Rightarrow> string \<times> string option" where
  "split_dot s = (let n = takeWhile (\<lambda>c. c \<noteq> CHR ''.'') s in
     (n, if length n = length s then None else Some (drop (length n + 1) s)))"

definition StructNameCheck :: "string \<Rightarrow> pasm \<Rightarrow> string option" where
  "StructNameCheck source s =
     (if STRUCT_NAME_LEN \<le> length (fst (split_dot source)) then None
      else (case AssignFind (fst (split_dot source)) s of
          None \<Rightarrow> None
        | Some a \<Rightarrow>
            (case snd (split_dot source) of
               None \<Rightarrow> Some (as_BaseReg a)
             | Some more' \<Rightarrow>
                 if STRUCT_NAME_LEN \<le> length (fst (split_dot source)) + 1 + length (fst (split_dot more')) then None
                 else map_option snd (find (\<lambda>(e, r). el_Name e = fst (split_dot more')) (as_Elems a)))))"

datatype svo = SVO_SIZEOF | SVO_OFFSET

text \<open>The subfield \<open>Bn\<close> or \<open>Wn\<close>: its size and its digit, as C computes it from a character that may be none.\<close>

definition ext_field :: "string \<Rightarrow> (u32 \<times> u32) option" where
  "ext_field ext =
     (let val = of_nat (code (cur (tl ext))) - 48 in
      if 2 < length ext then None
      else if toupper (cur ext) = CHR ''B'' then Some (1, val)
      else if toupper (cur ext) = CHR ''W'' then Some (2, val)
      else None)"

definition GetFinalSize :: "string \<Rightarrow> u32 \<Rightarrow> u32 option" where
  "GetFinalSize ext sz =
     (case ext_field ext of None \<Rightarrow> None | Some (w, val) \<Rightarrow> if val + w > sz then None else Some w)"

definition GetFinalOffset :: "string \<Rightarrow> u32 \<Rightarrow> u32 \<Rightarrow> bool \<Rightarrow> u32 option" where
  "GetFinalOffset ext sz off big =
     (case ext_field ext of
        None \<Rightarrow> None
      | Some (w, val) \<Rightarrow> if val + w > sz then None else Some (off + (if big then sz - val - w else val)))"

definition elem_value :: "svo \<Rightarrow> bool \<Rightarrow> string option \<Rightarrow> ELEM \<Rightarrow> u32 option" where
  "elem_value cmd big ext e =
     (case (cmd, ext) of
        (SVO_SIZEOF, Some x) \<Rightarrow> GetFinalSize x (el_Size e)
      | (SVO_SIZEOF, None) \<Rightarrow> Some (el_Size e)
      | (SVO_OFFSET, Some x) \<Rightarrow> GetFinalOffset x (el_Size e) (el_Offset e) big
      | (SVO_OFFSET, None) \<Rightarrow> Some (el_Offset e))"

text \<open>The operand in a structure or assignment of this size with these elements.\<close>

definition operand_value :: "svo \<Rightarrow> bool \<Rightarrow> string \<Rightarrow> string option \<Rightarrow> u32 \<Rightarrow> ELEM list \<Rightarrow> u32 option" where
  "operand_value cmd big name2 ext tsize es =
     (if name2 = [] then Some (if cmd = SVO_SIZEOF then tsize else 0)
      else (case find (\<lambda>e. el_Name e = name2) es of None \<Rightarrow> None | Some e \<Rightarrow> elem_value cmd big ext e))"

definition StructValueOperand :: "string \<Rightarrow> svo \<Rightarrow> pasm \<Rightarrow> u32 option" where
  "StructValueOperand source cmd s =
     (let (name, more') = split_dot source;
          (name2, ext) = (case more' of None \<Rightarrow> ([], None) | Some m \<Rightarrow> split_dot m);
          big = big_endian (core s) in
      if STRUCT_NAME_LEN \<le> length name then None
      else if STRUCT_NAME_LEN \<le> length name2 then None
      else (case AssignFind name s of
          Some a \<Rightarrow> operand_value cmd big name2 ext (as_TotalSize a) (map fst (as_Elems a))
        | None \<Rightarrow>
            (case StructFind name s of
               Some t \<Rightarrow> operand_value cmd big name2 ext (st_TotalSize t) (st_Elems t)
             | None \<Rightarrow> None)))"

section \<open>StructParamProcess\<close>

text \<open>\<open>sprintf\<close> with \<open>%d\<close> of an unsigned value.\<close>

definition int_text :: "u32 \<Rightarrow> string" where
  "int_text v = (if sint v < 0 then CHR ''-'' # decimal (nat (- sint v)) else decimal (unat v))"

text \<open>A candidate name: label characters with at most one dot.\<close>

definition cand_name :: "string \<Rightarrow> string" where
  "cand_name src =
     (let n = takeWhile label_char src; r = dropWhile label_char src in
      if cur r = CHR ''.'' then n @ CHR ''.'' # takeWhile label_char (tl r) else n)"

text \<open>The operand of SIZE or OFFSET in parentheses, and the rest.\<close>

definition paren_operand :: "string \<Rightarrow> pasm \<Rightarrow> (string \<times> string) pstep" where
  "paren_operand src s =
     (let src = skip_blanks src in
      if cur src \<noteq> CHR ''('' then fail s
      else
        (let src = skip_blanks (tl src);
             name = takeWhile label_or_dot src;
             rest = skip_blanks (dropWhile label_or_dot src) in
         if STRUCT_NAME_LEN \<le> length name then Stuck
         else if name = [] then fail s
         else if cur rest \<noteq> CHR '')'' then fail s
         else Ret (Some (name, tl rest), s)))"

text \<open>One item of the parameter: what replaces it and the rest. The source is not empty.\<close>

definition param_item :: "string \<Rightarrow> pasm \<Rightarrow> (string \<times> string) pstep" where
  "param_item src s =
     (if isdigit (cur src) then
        Ret (Some (cur src # takeWhile label_char (tl src), dropWhile label_char (tl src)), s)
      else if \<not> LabelChar (cur src) True then Ret (Some ([cur src], tl src), s)
      else
        (let name = cand_name src; rest = drop (length name) src in
         if STRUCT_NAME_LEN \<le> length name then fail s
         else if name = ''SIZE'' \<or> name = ''OFFSET'' then
           andThen (paren_operand rest s) (\<lambda>(x, rest) s.
             case StructValueOperand x (if name = ''SIZE'' then SVO_SIZEOF else SVO_OFFSET) s of
               None \<Rightarrow> fail s
             | Some v \<Rightarrow> Ret (Some (CHR 0x20 # int_text v @ [CHR 0x20], rest), s))
         else
           (let new' = (case StructNameCheck name s of None \<Rightarrow> name | Some r \<Rightarrow> r) in
            if cur rest = CHR ''.'' then
              Ret (Some (new' @ CHR ''.'' # takeWhile label_or_dot (tl rest), dropWhile label_or_dot (tl rest)), s)
            else Ret (Some (new', rest), s))))"

lemma cand_name_first: "LabelChar (cur src) True \<Longrightarrow> src \<noteq> [] \<Longrightarrow> 0 < length (cand_name src)"
  by (cases src) (auto simp: cand_name_def LabelChar_def Let_def)

lemma length_dropWhile_tl: "src \<noteq> [] \<Longrightarrow> length (dropWhile P (tl src)) < length src"
  by (cases src) (auto intro: le_less_trans[OF length_dropWhile_le])

lemma paren_operand_shorter: "paren_operand src s = Ret (Some (x, rest), s') \<Longrightarrow> length rest < length src"
proof -
  assume a: "paren_operand src s = Ret (Some (x, rest), s')"
  let ?a = "skip_blanks src" and ?b = "skip_blanks (tl (skip_blanks src))"
  have c: "cur ?a = CHR ''(''" "rest = tl (skip_blanks (dropWhile label_or_dot ?b))"
    using a by (auto simp: paren_operand_def Let_def split: if_splits)
  have "?a \<noteq> []" using c(1) by auto
  then have "length (tl ?a) < length src" using length_skip_blanks[of src] by (cases ?a) auto
  moreover have "length rest \<le> length (tl ?a)"
    using c(2) length_skip_blanks[of "dropWhile label_or_dot ?b"] length_dropWhile_le[of label_or_dot ?b] length_skip_blanks[of "tl ?a"]
    by (simp add: le_diff_conv)
  ultimately show ?thesis by simp
qed

lemma param_item_shorter: "param_item src s = Ret (Some (x, rest), s') \<Longrightarrow> src \<noteq> [] \<Longrightarrow> length rest < length src"
proof -
  assume a: "param_item src s = Ret (Some (x, rest), s')" and n: "src \<noteq> []"
  show ?thesis
  proof (cases "isdigit (cur src) \<or> \<not> LabelChar (cur src) True")
    case True
    with a n show ?thesis by (auto simp: param_item_def length_dropWhile_tl split: if_splits)
  next
    case False
    let ?r = "drop (length (cand_name src)) src"
    have r: "length ?r < length src" using cand_name_first[of src] False n by (cases src) auto
    then have "length (dropWhile label_or_dot (tl ?r)) < length src"
      using length_dropWhile_le[of label_or_dot "tl ?r"] by simp
    moreover have "length rest' < length src" if "paren_operand ?r s = Ret (Some (y, rest'), s'')" for y rest' s''
      using paren_operand_shorter[OF that] r by simp
    ultimately show ?thesis
      using a False r
      by (auto simp: param_item_def Let_def andThen_Ret split: if_splits option.splits)
  qed
qed

text \<open>The loop, with the text already built in the buffer \<open>substr\<close> of twice a token's length.\<close>

definition SUBSTR_LEN :: nat where "SUBSTR_LEN = TOKEN_MAX_LEN * 2"

function param_loop :: "string \<Rightarrow> string \<Rightarrow> pasm \<Rightarrow> string pstep" where
  "param_loop src out s =
     (if src = [] then
        (if SUBSTR_LEN \<le> length out then Stuck
         else if TOKEN_MAX_LEN \<le> length out + 1 then Ret (None, s)
         else Ret (Some out, s))
      else
        (case param_item src s of
           Ret (Some (x, rest), s) \<Rightarrow>
             if SUBSTR_LEN < length out + length x then Stuck else param_loop rest (out @ x) s
         | Ret (None, s) \<Rightarrow> Ret (None, s)
         | Stuck \<Rightarrow> Stuck | Fuel \<Rightarrow> Fuel))"
  by pat_completeness auto
termination
  by (relation "measure (\<lambda>(src, out, s). length src)") (auto dest: param_item_shorter)

declare param_loop.simps [simp del]

definition StructParamProcess :: "string \<Rightarrow> pasm \<Rightarrow> string pstep" where
  "StructParamProcess source s = param_loop source [] s"

end
