(* ===== verification/Pasm_Struct_Props.thy ===== *)
theory Pasm_Struct_Props
  imports Pasm_Struct Pasm_Text
begin

text \<open>
  Structures: the layout of a declared structure, and the registers an assignment maps it to. The names an
  assignment stores are read back by \<open>GetRegister\<close> as the fields that lie at the elements' offsets in the register file, in
  either byte order.
\<close>

section \<open>Register names\<close>

text \<open>The field of \<open>sz\<close> bytes at byte \<open>b\<close> of a register.\<close>

definition field_at :: "bool \<Rightarrow> nat \<Rightarrow> nat \<Rightarrow> nat" where
  "field_at big b sz =
     (if sz = 4 then 7 else if sz = 2 then 4 + (if big then 2 - b else b) else (if big then 3 - b else b))"

lemma sizes_cases: "sz \<in> {1, 2, 4 :: nat} \<Longrightarrow> b + sz \<le> 4 \<Longrightarrow>
    (sz = 1 \<and> b = 0) \<or> (sz = 1 \<and> b = 1) \<or> (sz = 1 \<and> b = 2) \<or> (sz = 1 \<and> b = 3) \<or>
    (sz = 2 \<and> b = 0) \<or> (sz = 2 \<and> b = 1) \<or> (sz = 2 \<and> b = 2) \<or> (sz = 4 \<and> b = 0)"
  by auto

lemma field_at_props:
  assumes "sz \<in> {1, 2, 4}" "b + sz \<le> 4"
  shows "field_at big b sz < 8 \<and> field_width (field_at big b sz) = 8 * sz \<and>
    field_suffix big b sz = field_texts ! field_at big b sz \<and> field_byte big (of_nat (field_at big b sz)) = of_nat b"
  using sizes_cases[OF assms]
  by (elim disjE conjE)
    (auto simp: field_at_def field_width_def field_suffix_def field_texts_def field_byte_def decimal.simps char_of_def bit_0)

lemma GetRegister_upper: "GetRegister (CHR ''R'' # t) fb c st = GetRegister (CHR ''r'' # t) fb c st"
  by (simp add: GetRegister_def toupper_def islower_def code_def char_of_def bit_0)

lemma GetRegname_reads:
  assumes "GetRegname off sz s = Ret (Some r, s')" "unat sz \<in> {1, 2, 4}" "unat off < 128"
  shows "s' = s \<and> (\<exists>n f. n < 32 \<and> f < 8 \<and> field_width f = 8 * unat sz \<and>
    reg r st = Ret (Some (arg ARGTYPE_REGISTER (of_nat n) (of_nat f)), st) \<and>
    of_nat n * 4 + field_byte (big_endian (core s)) (of_nat f) = off)"
proof -
  let ?b = "unat off mod 4" and ?n = "unat off div 4"
  have m: "unat (off mod 4) = ?b" "unat (off div 4) = ?n" by (simp_all add: unat_mod unat_div)
  have s: "s' = s" and ok: "\<not> off mod 4 + sz > 4"
    and r: "r = CHR ''R'' # decimal ?n @ field_suffix (big_endian (core s)) ?b (unat sz)"
    using assms(1) by (auto simp: GetRegname_def m split: if_splits)
  have b: "?b + unat sz \<le> 4"
  proof -
    have "unat (off mod 4 + sz) = ?b + unat sz"
      using assms(2) by (subst unat_plus_if') (auto simp: m)
    moreover have "unat (off mod 4 + sz) \<le> 4" using ok by (simp add: not_less word_le_nat_alt)
    ultimately show ?thesis by simp
  qed
  let ?f = "field_at (big_endian (core s)) ?b (unat sz)"
  note p = field_at_props[OF assms(2) b, of "big_endian (core s)"]
  have n: "?n < 32" using assms(3) by simp
  have "reg r st = reg (reg_text ?n ?f None) st"
    using p by (simp add: r GetRegister_upper reg_text_def bit_text_def)
  then have "reg r st = Ret (Some (arg ARGTYPE_REGISTER (of_nat ?n) (of_nat ?f)), st)"
    using register_plain[OF n, of ?f st] p by simp
  moreover have "of_nat ?n * 4 + (of_nat ?b :: u32) = off"
  proof -
    have "of_nat (?n * 4 + ?b) = off" by simp
    then show ?thesis by (simp only: of_nat_add of_nat_mult) simp
  qed
  ultimately show ?thesis using s p n by metis
qed

section \<open>Layout\<close>

definition prefix_sum :: "ELEM list \<Rightarrow> nat \<Rightarrow> nat" where
  "prefix_sum es i = sum_list (map (\<lambda>e. unat (el_Size e)) (take i es))"

text \<open>A declared structure: sizes of the three commands, consecutive offsets, distinct names, at most 64 elements.\<close>

definition layout_ok :: "STRUCT \<Rightarrow> bool" where
  "layout_ok t \<longleftrightarrow> length (st_Elems t) \<le> STRUCT_MAX_ELEM \<and> distinct (map el_Name (st_Elems t)) \<and>
     (\<forall>e \<in> set (st_Elems t). unat (el_Size e) \<in> {1, 2, 4}) \<and>
     (\<forall>i < length (st_Elems t). unat (el_Offset (st_Elems t ! i)) = prefix_sum (st_Elems t) i) \<and>
     unat (st_TotalSize t) = prefix_sum (st_Elems t) (length (st_Elems t))"

lemma prefix_sum_bound: "\<forall>e \<in> set es. unat (el_Size e) \<in> {1, 2, 4} \<Longrightarrow> prefix_sum es i \<le> 4 * length es"
proof (induction es arbitrary: i)
  case (Cons e es)
  show ?case
  proof (cases i)
    case (Suc j)
    have "prefix_sum es j \<le> 4 * length es" "unat (el_Size e) \<le> 4" using Cons by auto
    with Suc show ?thesis by (simp add: prefix_sum_def)
  qed (simp add: prefix_sum_def)
qed (simp add: prefix_sum_def)

lemma layout_ok_create: "layout_ok \<lparr>st_Name = n, st_TotalSize = 0, st_Elems = []\<rparr>"
  by (simp add: layout_ok_def prefix_sum_def)

lemma layout_ok_add:
  assumes "layout_ok t" "length (st_Elems t) \<noteq> STRUCT_MAX_ELEM" "name \<notin> set (map el_Name (st_Elems t))" "unat sz \<in> {1, 2, 4}"
  shows "layout_ok (add_elem name sz t)"
proof -
  let ?es = "st_Elems t"
  have l: "length ?es < STRUCT_MAX_ELEM" using assms(1,2) by (simp add: layout_ok_def)
  have "prefix_sum ?es (length ?es) \<le> 4 * length ?es"
    using assms(1) by (intro prefix_sum_bound) (simp add: layout_ok_def)
  then have "unat (st_TotalSize t) \<le> 256" using assms(1) l by (simp add: layout_ok_def STRUCT_MAX_ELEM_def)
  then have "unat (st_TotalSize t + sz) = unat (st_TotalSize t) + unat sz"
    using assms(4) by (subst unat_plus_if') auto
  with assms l show ?thesis
    by (auto simp: layout_ok_def add_elem_def prefix_sum_def nth_append less_Suc_eq)
qed

section \<open>Assignment\<close>

lemma map_elems_reads:
  assumes "map_elems es off s = Ret (Some ms, s')" "\<forall>e \<in> set es. unat (el_Size e) \<in> {1, 2, 4}"
    "unat off + prefix_sum es (length es) \<le> 128"
  shows "s' = s \<and> map fst ms = es \<and> (\<forall>i < length es. \<exists>n f. n < 32 \<and> f < 8 \<and> field_width f = 8 * unat (el_Size (es ! i)) \<and>
    reg (snd (ms ! i)) st = Ret (Some (arg ARGTYPE_REGISTER (of_nat n) (of_nat f)), st) \<and>
    unat (of_nat n * 4 + field_byte (big_endian (core s)) (of_nat f)) = unat off + prefix_sum es i)"
  using assms
proof (induction es arbitrary: off ms s')
  case Nil
  then show ?case by simp
next
  case (Cons e es)
  obtain r s1 ms1 where r: "GetRegname off (el_Size e) s = Ret (Some r, s1)"
    and t: "map_elems es (off + el_Size e) s1 = Ret (Some ms1, s')" and ms: "ms = (e, r) # ms1"
    using Cons.prems(1) by (auto simp: andThen_Ret)
  have e: "unat (el_Size e) \<in> {1, 2, 4}" using Cons.prems(2) by simp
  have p: "prefix_sum (e # es) (Suc i) = unat (el_Size e) + prefix_sum es i" for i by (simp add: prefix_sum_def)
  have b: "unat off + unat (el_Size e) + prefix_sum es (length es) \<le> 128" using Cons.prems(3) p[of "length es"] by simp
  have off: "unat (off + el_Size e) = unat off + unat (el_Size e)"
    using b by (subst unat_plus_if') simp
  have lt: "unat off < 128" using b e by auto
  note g = GetRegname_reads[OF r e lt, of st]
  have s1: "s1 = s" using g by blast
  have IH: "s' = s" "map fst ms1 = es"
    "\<forall>i < length es. \<exists>n f. n < 32 \<and> f < 8 \<and> field_width f = 8 * unat (el_Size (es ! i)) \<and>
      reg (snd (ms1 ! i)) st = Ret (Some (arg ARGTYPE_REGISTER (of_nat n) (of_nat f)), st) \<and>
      unat (of_nat n * 4 + field_byte (big_endian (core s)) (of_nat f)) = unat off + unat (el_Size e) + prefix_sum es i"
    using Cons.IH[of "off + el_Size e" ms1 s'] t s1 Cons.prems(2) b off by auto
  have "\<exists>n f. n < 32 \<and> f < 8 \<and> field_width f = 8 * unat (el_Size ((e # es) ! i)) \<and>
      reg (snd (ms ! i)) st = Ret (Some (arg ARGTYPE_REGISTER (of_nat n) (of_nat f)), st) \<and>
      unat (of_nat n * 4 + field_byte (big_endian (core s)) (of_nat f)) = unat off + prefix_sum (e # es) i"
    if "i < length (e # es)" for i
  proof (cases i)
    case 0
    obtain n f where nf: "n < 32" "f < 8" "field_width f = 8 * unat (el_Size e)"
      "reg r st = Ret (Some (arg ARGTYPE_REGISTER (of_nat n) (of_nat f)), st)"
      "of_nat n * 4 + field_byte (big_endian (core s)) (of_nat f) = off" using g by blast
    have "unat (of_nat n * 4 + field_byte (big_endian (core s)) (of_nat f)) = unat off" unfolding nf(5) ..
    with nf(1-4) 0 ms show ?thesis by (intro exI[of _ n] exI[of _ f]) (simp add: prefix_sum_def)
  next
    case (Suc j)
    with that IH(3) p[of j] ms show ?thesis by (simp add: add.assoc)
  qed
  with IH ms show ?case by simp
qed

section \<open>Scopes\<close>

fun parents_ok :: "SCOPE list \<Rightarrow> bool" where
  "parents_ok [] = True"
| "parents_ok (c # cs) \<longleftrightarrow> sc_Name c \<notin> set (map sc_Name cs) \<and>
     (case sc_pParent c of None \<Rightarrow> True | Some p \<Rightarrow> p \<in> set (map sc_Name cs)) \<and> parents_ok cs"

text \<open>The current scope is an open one.\<close>

definition current_ok :: "SCOPE list \<Rightarrow> string option \<Rightarrow> bool" where
  "current_ok cs n \<longleftrightarrow> (case n of None \<Rightarrow> True | Some n \<Rightarrow> \<exists>c \<in> set cs. sc_Name c = n \<and> sc_Open c)"

definition scopes_ok :: "pasm \<Rightarrow> bool" where
  "scopes_ok s \<longleftrightarrow> parents_ok (pScopeList s) \<and> current_ok (pScopeList s) (pScopeCurrent s)"

definition structs_ok :: "pasm \<Rightarrow> bool" where
  "structs_ok s \<longleftrightarrow> parents_ok (pScopeList s) \<and> current_ok (pScopeList s) (pScopeCurrent s) \<and>
     (\<forall>t \<in> set (pStructList s). layout_ok t) \<and> distinct (map st_Name (pStructList s)) \<and>
     (\<forall>n. pStructCurrent s = Some n \<longrightarrow> n \<in> set (map st_Name (pStructList s)))"

lemma parents_ok_update:
  "(\<And>c. sc_Name (f c) = sc_Name c \<and> sc_pParent (f c) = sc_pParent c) \<Longrightarrow> parents_ok (scope_update n f cs) = parents_ok cs"
proof -
  assume f: "\<And>c. sc_Name (f c) = sc_Name c \<and> sc_pParent (f c) = sc_pParent c"
  have n: "sc_Name ` set (scope_update n f ds) = sc_Name ` set ds" for ds
  proof -
    have "map sc_Name (scope_update n f ds) = map sc_Name ds" using f by (simp add: scope_update_def)
    then show ?thesis by (metis set_map)
  qed
  show ?thesis
  proof (induction cs)
    case (Cons c cs)
    have "scope_update n f (c # cs) = (if sc_Name c = n then f c else c) # scope_update n f cs" by (simp add: scope_update_def)
    with Cons show ?case using f n[of cs] by (auto split: option.splits)
  qed (simp add: scope_update_def)
qed

lemma open_from_ok:
  "parents_ok cs \<Longrightarrow> n = None \<or> the n \<in> set (map sc_Name cs) \<Longrightarrow> \<exists>r. open_from cs n = Ret r \<and> current_ok cs r"
proof (induction cs n rule: open_from.induct)
  case (4 c cs n)
  show ?case
  proof (cases "sc_Name c = n")
    case True
    show ?thesis
    proof (cases "sc_Open c")
      case False
      have p: "sc_pParent c = None \<or> the (sc_pParent c) \<in> set (map sc_Name cs)"
        using 4(3) by (auto split: option.splits)
      obtain r where "open_from cs (sc_pParent c) = Ret r" "current_ok cs r"
        using 4(1)[OF True False] 4(3) p by auto
      with True False show ?thesis by (auto simp: current_ok_def split: option.splits)
    qed (use True in \<open>auto simp: current_ok_def\<close>)
  next
    case False
    obtain r where "open_from cs (Some n) = Ret r" "current_ok cs r" using 4(2)[OF False] 4(3,4) False by auto
    with False show ?thesis by (auto simp: current_ok_def split: option.splits)
  qed
qed (auto simp: current_ok_def)

lemma current_name: "current_ok cs n \<Longrightarrow> n = None \<or> the n \<in> set (map sc_Name cs)"
  by (auto simp: current_ok_def split: option.splits)

lemma close_ok:
  assumes "parents_ok (pScopeList s)" "current_ok (pScopeList s) (pScopeCurrent s)"
  shows "\<exists>r. ScopeClose name s = ok (s\<lparr>pScopeList := scope_update name (\<lambda>c. c\<lparr>sc_Open := False\<rparr>) (pScopeList s), pScopeCurrent := r\<rparr>) \<and>
    current_ok (scope_update name (\<lambda>c. c\<lparr>sc_Open := False\<rparr>) (pScopeList s)) r"
proof -
  let ?cs = "scope_update name (\<lambda>c. c\<lparr>sc_Open := False\<rparr>) (pScopeList s)"
  have n: "map sc_Name ?cs = map sc_Name (pScopeList s)" by (simp add: scope_update_def)
  obtain r where "open_from ?cs (pScopeCurrent s) = Ret r" "current_ok ?cs r"
    using open_from_ok[of ?cs "pScopeCurrent s"] current_name[OF assms(2)] assms(1) parents_ok_update[of "\<lambda>c. c\<lparr>sc_Open := False\<rparr>"]
    unfolding n by auto
  then show ?thesis by (auto simp: ScopeClose_def Let_def)
qed

lemma parents_ok_distinct: "parents_ok cs \<Longrightarrow> distinct (map sc_Name cs)"
  by (induction cs) auto

lemma destroy_ok:
  assumes "parents_ok (pScopeList s)" "current_ok (pScopeList s) (pScopeCurrent s)" "pScopeList s \<noteq> []"
  shows "\<exists>s'. ScopeDestroy s = ok s' \<and> parents_ok (pScopeList s') \<and> current_ok (pScopeList s') (pScopeCurrent s') \<and>
    Suc (length (pScopeList s')) = length (pScopeList s) \<and> pStructCurrent s' = pStructCurrent s"
proof -
  obtain c cs where l: "pScopeList s = c # cs" using assms(3) by (cases "pScopeList s") auto
  have c: "sc_Name c \<notin> set (map sc_Name cs)" "parents_ok cs" using assms(1) l by auto
  show ?thesis
  proof (cases "sc_Open c")
    case True
    obtain r where r: "ScopeClose (sc_Name c) s =
        ok (s\<lparr>pScopeList := scope_update (sc_Name c) (\<lambda>c. c\<lparr>sc_Open := False\<rparr>) (pScopeList s), pScopeCurrent := r\<rparr>)"
      "current_ok (scope_update (sc_Name c) (\<lambda>c. c\<lparr>sc_Open := False\<rparr>) (pScopeList s)) r"
      using close_ok[OF assms(1,2)] by blast
    have u: "scope_update (sc_Name c) (\<lambda>c. c\<lparr>sc_Open := False\<rparr>) (c # cs) = c\<lparr>sc_Open := False\<rparr> # cs"
      unfolding scope_update_def by (simp, rule map_idI) (use c(1) in \<open>force simp: image_iff\<close>)
    have "current_ok cs r" using r(2) unfolding l u by (auto simp: current_ok_def split: option.splits)
    with True r(1) l c(2) u show ?thesis by (simp add: ScopeDestroy_def)
  next
    case False
    have "current_ok cs (pScopeCurrent s)" using assms(2) False l by (auto simp: current_ok_def split: option.splits)
    with False l c(2) show ?thesis by (simp add: ScopeDestroy_def)
  qed
qed

lemma destroy_scopes_ok:
  "parents_ok (pScopeList s) \<Longrightarrow> current_ok (pScopeList s) (pScopeCurrent s) \<Longrightarrow> n = length (pScopeList s) \<Longrightarrow>
    \<exists>s'. destroy_scopes n s = ok s' \<and> pScopeList s' = [] \<and> pScopeCurrent s' = None \<and> pStructCurrent s' = pStructCurrent s"
proof (induction n arbitrary: s)
  case 0
  then show ?case by (auto simp: current_ok_def split: option.splits)
next
  case (Suc n)
  then have "pScopeList s \<noteq> []" by auto
  then obtain s1 where s1: "ScopeDestroy s = ok s1" "parents_ok (pScopeList s1)" "current_ok (pScopeList s1) (pScopeCurrent s1)"
    "Suc (length (pScopeList s1)) = length (pScopeList s)" "pStructCurrent s1 = pStructCurrent s" using destroy_ok Suc.prems(1,2) by blast
  moreover have "n = length (pScopeList s1)" using s1(4) Suc.prems(3) by simp
  ultimately obtain s' where "destroy_scopes n s1 = ok s'" "pScopeList s' = []" "pScopeCurrent s' = None" "pStructCurrent s' = pStructCurrent s1"
    using Suc.IH[of s1] by blast
  with s1(1,5) show ?case by simp
qed

section \<open>The commands\<close>

datatype scmd = Enter string | Leave string | Using string | Struct string | Element string u32 | Ends
  | Assign string string string string

fun exec_cmd :: "scmd \<Rightarrow> pasm \<Rightarrow> unit pstep" where
  "exec_cmd (Enter n) s = ScopeEnter n s"
| "exec_cmd (Leave n) s = ScopeLeave n s"
| "exec_cmd (Using n) s = ScopeUsing n s"
| "exec_cmd (Struct n) s = StructNew n s"
| "exec_cmd (Element n sz) s = StructAddElement n sz s"
| "exec_cmd Ends s = StructEnd s"
| "exec_cmd (Assign st rs re n) s = StructAssign st rs re n s"

text \<open>The sizes are those of \<open>.u8\<close>, \<open>.u16\<close> and \<open>.u32\<close>.\<close>

fun cmd_ok :: "scmd \<Rightarrow> bool" where
  "cmd_ok (Element n sz) = (unat sz \<in> {1, 2, 4})"
| "cmd_ok _ = True"

inductive after_cmds :: "pasm \<Rightarrow> pasm \<Rightarrow> bool" where
  start: "StructInit s = ok s' \<Longrightarrow> after_cmds s s'"
| step: "after_cmds s s1 \<Longrightarrow> cmd_ok c \<Longrightarrow> exec_cmd c s1 = Ret (r, s2) \<Longrightarrow> after_cmds s s2"

inductive_cases after_cmdsE: "after_cmds s s'"

lemma map_elems_state: "map_elems es off s = Ret (Some ms, s') \<Longrightarrow> s' = s"
  by (induction es arbitrary: off ms s s') (auto simp: andThen_Ret GetRegname_def split: if_splits)

lemma map_elems_fail: "map_elems es off s = Ret (None, s') \<Longrightarrow> s' = rep REP_ERROR s"
proof (induction es arbitrary: off)
  case (Cons e es)
  then show ?case by (auto simp: andThen_Ret GetRegname_def split: if_splits)
qed simp

lemma scopes_ok_rep [simp]: "scopes_ok (rep l s) = scopes_ok s"
  by (simp add: scopes_ok_def)

lemma structs_ok_rep [simp]: "structs_ok (rep l s) = structs_ok s"
  by (simp add: structs_ok_def)

lemma structs_ok_core [simp]: "structs_ok (s\<lparr>core := st\<rparr>) = structs_ok s"
  by (simp add: structs_ok_def)

lemma bex_update: "(\<exists>x \<in> set (scope_update n f cs). P x) \<longleftrightarrow> (\<exists>x \<in> set cs. P (if sc_Name x = n then f x else x))"
  by (induction cs) (auto simp: scope_update_def)

lemma current_ok_update_assign:
  "current_ok (scope_update n (\<lambda>c. c\<lparr>sc_pAssignList := a # sc_pAssignList c\<rparr>) cs) m = current_ok cs m"
  unfolding current_ok_def bex_update by (auto split: option.splits)

lemma scopes_ok_scope:
  assumes "scopes_ok s"
  shows "ScopeCreate n s = Ret (r, s') \<Longrightarrow> scopes_ok s'" "ScopeLeave n s = Ret (r, s') \<Longrightarrow> scopes_ok s'"
    "ScopeUsing n s = Ret (r, s') \<Longrightarrow> scopes_ok s'"
proof -
  assume a: "ScopeCreate n s = Ret (r, s')"
  show "scopes_ok s'"
  proof (cases "name_free n s")
    case True
    have "n \<notin> set (map sc_Name (pScopeList s))" using name_free_fresh[OF True] by (simp add: table_names_def)
    moreover have "pScopeCurrent s = None \<or> the (pScopeCurrent s) \<in> set (map sc_Name (pScopeList s))"
      using assms current_name by (simp add: scopes_ok_def)
    ultimately show ?thesis
      using a assms True by (auto simp: ScopeCreate_def CheckName_def scopes_ok_def current_ok_def split: if_splits option.splits)
  qed (use a assms in \<open>auto simp: ScopeCreate_def CheckName_def\<close>)
next
  assume a: "ScopeLeave n s = Ret (r, s')"
  have p: "parents_ok (pScopeList s)" "current_ok (pScopeList s) (pScopeCurrent s)" using assms by (simp_all add: scopes_ok_def)
  from close_ok[OF this, of n] a assms show "scopes_ok s'"
    by (auto simp: ScopeLeave_def scopes_ok_def parents_ok_update split: option.splits if_splits)
next
  assume a: "ScopeUsing n s = Ret (r, s')"
  show "scopes_ok s'"
  proof (cases "ScopeFind n s")
    case (Some c)
    then have "c \<in> set (pScopeList s)" "sc_Name c = n" by (auto simp: ScopeFind_def dest: find_name_SomeD)
    then have "current_ok (scope_update n (\<lambda>c. c\<lparr>sc_Open := True\<rparr>) (pScopeList s)) (Some n)"
      unfolding current_ok_def by (auto simp: bex_update intro!: bexI[of _ c])
    with a Some assms show ?thesis by (auto simp: ScopeUsing_def scopes_ok_def parents_ok_update split: if_splits)
  qed (use a assms in \<open>auto simp: ScopeUsing_def\<close>)
qed

text \<open>What the scope commands leave alone.\<close>

lemma scope_cmds_frame:
  "ScopeCreate n s = Ret (r, s') \<Longrightarrow> pStructList s' = pStructList s \<and> pStructCurrent s' = pStructCurrent s"
  "ScopeLeave n s = Ret (r, s') \<Longrightarrow> pStructList s' = pStructList s \<and> pStructCurrent s' = pStructCurrent s"
  "ScopeUsing n s = Ret (r, s') \<Longrightarrow> pStructList s' = pStructList s \<and> pStructCurrent s' = pStructCurrent s"
  by (auto simp: ScopeCreate_def ScopeLeave_def ScopeUsing_def ScopeClose_def CheckName_def Let_def andThen_Ret
      split: if_splits option.splits exec.splits)

lemma structs_ok_scopes: "structs_ok s \<longleftrightarrow> scopes_ok s \<and> (\<forall>t \<in> set (pStructList s). layout_ok t) \<and>
    distinct (map st_Name (pStructList s)) \<and> (\<forall>n. pStructCurrent s = Some n \<longrightarrow> n \<in> set (map st_Name (pStructList s)))"
  by (auto simp: structs_ok_def scopes_ok_def)

lemma structs_ok_scope:
  assumes "structs_ok s"
  shows "ScopeCreate n s = Ret (r, s') \<Longrightarrow> structs_ok s'" "ScopeLeave n s = Ret (r, s') \<Longrightarrow> structs_ok s'"
    "ScopeUsing n s = Ret (r, s') \<Longrightarrow> structs_ok s'"
  using assms scopes_ok_scope[of s n r s'] scope_cmds_frame[of n s r s'] by (simp_all add: structs_ok_scopes)

lemma structs_ok_struct:
  assumes "structs_ok s"
  shows "StructNew n s = Ret (r, s') \<Longrightarrow> structs_ok s'" "StructEnd s = Ret (r, s') \<Longrightarrow> structs_ok s'"
    "StructAddElement n sz s = Ret (r, s') \<Longrightarrow> unat sz \<in> {1, 2, 4} \<Longrightarrow> structs_ok s'"
proof -
  assume "StructNew n s = Ret (r, s')"
  with assms show "structs_ok s'"
    using name_free_fresh[of n s]
    by (auto simp: StructNew_def StructCreate_def CheckName_def structs_ok_def layout_ok_create andThen_Ret table_names_def split: if_splits)
next
  assume "StructEnd s = Ret (r, s')"
  with assms show "structs_ok s'" by (auto simp: StructEnd_def structs_ok_def split: option.splits if_splits)
next
  assume a: "StructAddElement n sz s = Ret (r, s')" and sz: "unat sz \<in> {1, 2, 4}"
  show "structs_ok s'"
  proof (cases "\<exists>cur' t. pStructCurrent s = Some cur' \<and> StructFind cur' s = Some t \<and> length (st_Elems t) \<noteq> STRUCT_MAX_ELEM \<and>
      n \<notin> set (map el_Name (st_Elems t)) \<and> s' = s\<lparr>pStructList := struct_update cur' (add_elem n sz) (pStructList s)\<rparr>")
    case True
    then obtain cur' t where t: "pStructCurrent s = Some cur'" "StructFind cur' s = Some t" "length (st_Elems t) \<noteq> STRUCT_MAX_ELEM"
      "n \<notin> set (map el_Name (st_Elems t))" and s': "s' = s\<lparr>pStructList := struct_update cur' (add_elem n sz) (pStructList s)\<rparr>" by blast
    let ?f = "\<lambda>u. if st_Name u = cur' then add_elem n sz u else u"
    have m: "t \<in> set (pStructList s)" "st_Name t = cur'" using find_name_SomeD[of st_Name cur'] t(2) by (auto simp: StructFind_def)
    have "layout_ok (?f u)" if "u \<in> set (pStructList s)" for u
    proof (cases "st_Name u = cur'")
      case True
      have "distinct (map st_Name (pStructList s))" using assms by (simp add: structs_ok_def)
      then have "u = t" using True m that by (auto simp: distinct_map dest: inj_onD)
      then show ?thesis using layout_ok_add[OF _ t(3,4) sz] assms m by (simp add: structs_ok_def)
    qed (use that assms in \<open>simp add: structs_ok_def\<close>)
    moreover have "map st_Name (map ?f (pStructList s)) = map st_Name (pStructList s)" by (auto simp: add_elem_def)
    moreover have "\<forall>u \<in> set (map ?f (pStructList s)). layout_ok u"
      using calculation(1) by (metis (no_types, lifting) imageE set_map)
    moreover have "st_Name ` set (map ?f (pStructList s)) = st_Name ` set (pStructList s)"
      using calculation(2) by (metis (no_types, lifting) set_map)
    ultimately show ?thesis using assms s' unfolding structs_ok_def struct_update_def
      by (simp del: map_map list.map_comp set_map)
  next
    case False
    with a assms show ?thesis by (auto simp: StructAddElement_def split: option.splits if_splits)
  qed
qed

lemma structs_ok_assign: "structs_ok s \<Longrightarrow> AssignCreate scope a n s = Ret (r, s') \<Longrightarrow> structs_ok s'"
  by (auto simp: AssignCreate_def CheckName_def structs_ok_def current_ok_update_assign parents_ok_update andThen_Ret split: if_splits)

lemma on_core_RetD: "on_core m s = Ret (r, s') \<Longrightarrow> \<exists>st. s' = s\<lparr>core := st\<rparr> \<and> m (core s) = Ret (r, st)"
  by (auto simp: on_core_def split: exec.splits)

lemma reg_state: "reg t st = Ret (Some a, st') \<Longrightarrow> st' = st"
  by (auto simp: GetRegister_def split: option.splits exec.splits if_splits)

lemma on_core_reg: "on_core (reg t) s = Ret (Some a, s') \<Longrightarrow> s' = s \<and> reg t (core s) = Ret (Some a, core s)"
  by (auto dest!: on_core_RetD dest: reg_state)

text \<open>What an assignment that succeeds has done.\<close>

lemma StructAssign_Some:
  assumes "StructAssign st rs re n s = Ret (Some (), s')"
  obtains scope a b t ms where "pScopeCurrent s = Some scope" "reg rs (core s) = Ret (Some a, core s)"
    "re \<noteq> ''*'' \<Longrightarrow> reg re (core s) = Ret (Some b, core s)" "StructFind st s = Some t"
    "re \<noteq> ''*'' \<Longrightarrow> pa_Value a * 4 + field_byte (big_endian (core s)) (pa_Field a) + st_TotalSize t =
      pa_Value b * 4 + field_end (big_endian (core s)) (pa_Field b)"
    "map_elems (st_Elems t) (pa_Value a * 4 + field_byte (big_endian (core s)) (pa_Field a)) s = Ret (Some ms, s)"
    "AssignCreate scope \<lparr>as_Name = n, as_BaseReg = (case ms of [] \<Rightarrow> [] | (_, r) # _ \<Rightarrow> r),
      as_TotalSize = st_TotalSize t, as_Elems = ms\<rparr> n s = Ret (Some (), s')"
proof -
  obtain scope a b t ms sa where o': "pScopeCurrent s = Some scope" "reg rs (core s) = Ret (Some a, core s)"
    "re \<noteq> ''*'' \<longrightarrow> reg re (core s) = Ret (Some b, core s)" "StructFind st s = Some t"
    "re \<noteq> ''*'' \<longrightarrow> pa_Value a * 4 + field_byte (big_endian (core s)) (pa_Field a) + st_TotalSize t =
      pa_Value b * 4 + field_end (big_endian (core s)) (pa_Field b)"
    "map_elems (st_Elems t) (pa_Value a * 4 + field_byte (big_endian (core s)) (pa_Field a)) s = Ret (Some ms, sa)"
    "AssignCreate scope \<lparr>as_Name = n, as_BaseReg = (case ms of [] \<Rightarrow> [] | (_, r) # _ \<Rightarrow> r),
      as_TotalSize = st_TotalSize t, as_Elems = ms\<rparr> n sa = Ret (Some (), s')"
    using assms by (auto simp: StructAssign_def Let_def andThen_Ret split: option.splits if_splits dest!: on_core_reg)
  from map_elems_state[OF o'(6)] o' show thesis by (intro that) auto
qed

definition kept :: "'a pstep \<Rightarrow> bool" where
  "kept m \<longleftrightarrow> (\<forall>r s'. m = Ret (r, s') \<longrightarrow> structs_ok s')"

lemma kept_simps [simp]: "kept (Ret (r, s)) = structs_ok s" "kept Stuck"
  by (simp_all add: kept_def)

lemma kept_andThen: "kept m \<Longrightarrow> (\<And>a s'. structs_ok s' \<Longrightarrow> kept (k a s')) \<Longrightarrow> kept (andThen m k)"
  unfolding kept_def andThen_def by (fastforce split: exec.splits option.splits)

lemma kept_on_core [simp]: "structs_ok s \<Longrightarrow> kept (on_core m s)"
  by (auto simp: kept_def dest: on_core_RetD)

lemma kept_map_elems: "structs_ok s \<Longrightarrow> kept (map_elems es off s)"
  by (induction es arbitrary: off s) (auto simp: GetRegname_def intro!: kept_andThen)

lemma kept_assign: "structs_ok s \<Longrightarrow> kept (AssignCreate scope a n s)"
  using structs_ok_assign by (auto simp: kept_def)

lemma kept_StructAssign: "structs_ok s \<Longrightarrow> kept (StructAssign st rs re n s)"
  unfolding StructAssign_def Let_def
  by (auto intro!: kept_andThen kept_map_elems kept_assign split: option.splits)

lemma structs_ok_cmd: "structs_ok s \<Longrightarrow> cmd_ok c \<Longrightarrow> exec_cmd c s = Ret (r, s') \<Longrightarrow> structs_ok s'"
proof (cases c)
  case (Assign st rs re n)
  assume "structs_ok s" "exec_cmd c s = Ret (r, s')"
  with Assign kept_StructAssign[of s st rs re n] show ?thesis by (simp add: kept_def)
qed (auto simp: ScopeEnter_def dest: structs_ok_scope structs_ok_struct split: if_splits)

lemma cmd_not_stuck: "structs_ok s \<Longrightarrow> (\<forall>st rs re n. c \<noteq> Assign st rs re n) \<Longrightarrow> \<exists>r s'. exec_cmd c s = Ret (r, s')"
proof (cases c)
  case (Leave n)
  assume "structs_ok s"
  then show ?thesis using close_ok[of s n] Leave by (auto simp: ScopeLeave_def structs_ok_def split: option.splits)
next
  case (Element n sz)
  assume "structs_ok s"
  then show ?thesis using Element find_name_None[of st_Name _ "pStructList s"]
    by (auto simp: StructAddElement_def structs_ok_def StructFind_def split: option.splits)
next
  case Ends
  assume "structs_ok s"
  then show ?thesis using Ends find_name_None[of st_Name _ "pStructList s"]
    by (auto simp: StructEnd_def structs_ok_def StructFind_def split: option.splits)
qed (auto simp: ScopeEnter_def ScopeCreate_def CheckName_def ScopeUsing_def StructNew_def StructCreate_def split: option.splits)

text \<open>
  A structure left open by \<open>.struct\<close> without \<open>.ends\<close> stays the current one when \<open>StructCleanup\<close> frees it. While the
  pointer dangles no structure can be created, and it stays until a command follows it.
\<close>

definition dangling :: "string \<Rightarrow> pasm \<Rightarrow> bool" where
  "dangling m s \<longleftrightarrow> scopes_ok s \<and> pStructList s = [] \<and> pStructCurrent s = Some m"

lemma dangling_rep [simp]: "dangling m (rep l s) = dangling m s"
  by (simp add: dangling_def scopes_ok_def)

text \<open>The commands that follow the current structure's pointer.\<close>

fun follows_current :: "scmd \<Rightarrow> bool" where
  "follows_current (Element n sz) = (length n < STRUCT_NAME_LEN \<and> CheckTokenType n = TOKENTYPE_UNRESERVED)"
| "follows_current Ends = True"
| "follows_current _ = False"

lemma dangling_cmd: "dangling m s \<Longrightarrow> exec_cmd c s = Ret (r, s') \<Longrightarrow> dangling m s'"
proof (cases c)
  case (Enter n)
  assume "dangling m s" "exec_cmd c s = Ret (r, s')"
  with Enter scopes_ok_scope(1)[of s n r s'] scope_cmds_frame(1)[of n s r s'] show ?thesis
    by (auto simp: dangling_def ScopeEnter_def scopes_ok_def split: if_splits)
next
  case (Leave n)
  assume "dangling m s" "exec_cmd c s = Ret (r, s')"
  with Leave scopes_ok_scope(2)[of s n r s'] scope_cmds_frame(2)[of n s r s'] show ?thesis by (auto simp: dangling_def)
next
  case (Using n)
  assume "dangling m s" "exec_cmd c s = Ret (r, s')"
  with Using scopes_ok_scope(3)[of s n r s'] scope_cmds_frame(3)[of n s r s'] show ?thesis by (auto simp: dangling_def)
next
  case (Struct n)
  assume "dangling m s" "exec_cmd c s = Ret (r, s')"
  with Struct show ?thesis by (auto simp: dangling_def StructNew_def scopes_ok_def)
next
  case (Element n sz)
  assume "dangling m s" "exec_cmd c s = Ret (r, s')"
  with Element show ?thesis by (auto simp: dangling_def StructAddElement_def StructFind_def scopes_ok_def split: if_splits)
next
  case (Assign st rs re n)
  assume "dangling m s" "exec_cmd c s = Ret (r, s')"
  with Assign show ?thesis by (auto simp: dangling_def StructAssign_def scopes_ok_def)
qed (auto simp: dangling_def StructEnd_def StructFind_def)

lemma dangling_stuck: "dangling m s \<Longrightarrow> (\<forall>st rs re n. c \<noteq> Assign st rs re n) \<Longrightarrow> exec_cmd c s = Stuck \<longleftrightarrow> follows_current c"
proof (cases c)
  case (Leave n)
  assume "dangling m s"
  then show ?thesis using close_ok[of s n] Leave
    by (auto simp: ScopeLeave_def dangling_def scopes_ok_def split: option.splits)
qed (auto simp: dangling_def StructEnd_def StructFind_def StructAddElement_def StructNew_def ScopeEnter_def ScopeCreate_def
    CheckName_def ScopeUsing_def split: option.splits)

lemma StructInit_dangling:
  assumes "pScopeList s = []" "pStructList s = []" "pStructCurrent s = Some m" "pScopeCurrent s = None" "StructInit s = ok s'"
  shows "dangling m s'"
  using assms
  by (cases "name_free ''_ROOT_'' s")
    (auto simp: StructInit_def ScopeCreate_def CheckName_def dangling_def scopes_ok_def current_ok_def SCOPE_NAME_LEN_def TOKEN_MAX_LEN_def)

lemma after_cmds_dangling:
  "after_cmds s s' \<Longrightarrow> pScopeList s = [] \<Longrightarrow> pStructList s = [] \<Longrightarrow> pStructCurrent s = Some m \<Longrightarrow> pScopeCurrent s = None \<Longrightarrow> dangling m s'"
  by (induction rule: after_cmds.induct) (auto intro: StructInit_dangling dangling_cmd)

lemma StructInit_ok:
  assumes "pScopeList s = []" "pStructList s = []" "pStructCurrent s = None" "pScopeCurrent s = None" "StructInit s = ok s'"
  shows "structs_ok s'"
  using assms
  by (cases "name_free ''_ROOT_'' s")
    (auto simp: StructInit_def ScopeCreate_def CheckName_def structs_ok_def current_ok_def SCOPE_NAME_LEN_def TOKEN_MAX_LEN_def)

lemma after_cmds_ok:
  "after_cmds s s' \<Longrightarrow> pScopeList s = [] \<Longrightarrow> pStructList s = [] \<Longrightarrow> pStructCurrent s = None \<Longrightarrow> pScopeCurrent s = None \<Longrightarrow> structs_ok s'"
  by (induction rule: after_cmds.induct) (auto intro: StructInit_ok structs_ok_cmd)

text \<open>
  C36. The structure tables stay sound. After \<open>StructInit\<close> and any sequence of structure and scope commands,
  failed ones included: every structure has consecutive offsets, distinct element names, and the size of its
  elements; the current scope is an open scope of the table; and \<open>StructCleanup\<close> empties the tables and leaves no
  current scope, but it leaves the current structure's pointer as it is. A further command (other than an assignment, whose register
  texts may overflow an \<open>int\<close>) follows a dangling pointer exactly when the pass began with such a pointer left by an
  unterminated structure of the pass before, and the command is \<open>.ends\<close> or an element with an unreserved name that fits: then
  it reads and writes the structure \<open>StructCleanup\<close> has freed. When the pass begins with no current structure, none does.
\<close>

theorem structure_tables_sound:
  assumes "after_cmds s0 s" "pScopeList s0 = []" "pStructList s0 = []" "pScopeCurrent s0 = None"
  shows "(\<forall>t \<in> set (pStructList s). layout_ok t) \<and>
    (\<forall>n. pScopeCurrent s = Some n \<longrightarrow> (\<exists>c \<in> set (pScopeList s). sc_Name c = n \<and> sc_Open c)) \<and>
    (\<forall>c. (\<forall>st rs re n. c \<noteq> Assign st rs re n) \<longrightarrow> (exec_cmd c s = Stuck \<longleftrightarrow> pStructCurrent s0 \<noteq> None \<and> follows_current c)) \<and>
    (\<exists>s'. StructCleanup s = ok s' \<and> pScopeList s' = [] \<and> pStructList s' = [] \<and> pScopeCurrent s' = None \<and>
      pStructCurrent s' = pStructCurrent s)"
proof -
  have ok: "if pStructCurrent s0 = None then structs_ok s else dangling (the (pStructCurrent s0)) s"
    using after_cmds_ok[OF assms(1-3) _ assms(4)] after_cmds_dangling[OF assms(1-3) _ assms(4)] by auto
  then have sc: "scopes_ok s" "\<forall>t \<in> set (pStructList s). layout_ok t"
    by (auto simp: structs_ok_scopes dangling_def split: if_splits)
  then have p: "parents_ok (pScopeList s)" "current_ok (pScopeList s) (pScopeCurrent s)" by (simp_all add: scopes_ok_def)
  from destroy_scopes_ok[OF p refl] obtain s' where "destroy_scopes (length (pScopeList s)) s = ok s'"
    "pScopeList s' = []" "pScopeCurrent s' = None" "pStructCurrent s' = pStructCurrent s" by blast
  then have "\<exists>s'. StructCleanup s = ok s' \<and> pScopeList s' = [] \<and> pStructList s' = [] \<and> pScopeCurrent s' = None \<and>
      pStructCurrent s' = pStructCurrent s"
    by (simp add: StructCleanup_def)
  moreover have "exec_cmd c s = Stuck \<longleftrightarrow> pStructCurrent s0 \<noteq> None \<and> follows_current c" if "\<forall>st rs re n. c \<noteq> Assign st rs re n" for c
    using cmd_not_stuck[OF _ that, of s] dangling_stuck[OF _ that, of "the (pStructCurrent s0)" s] ok by (auto split: if_splits)
  ultimately show ?thesis using sc p by (auto simp: current_ok_def)
qed

text \<open>Names that no reserved word and no register can be.\<close>

lemma free_first: "c \<in> {CHR ''_'', CHR ''P'', CHR ''y'', CHR ''v''} \<Longrightarrow> CheckTokenType (c # w) = TOKENTYPE_UNRESERVED"
proof -
  assume c: "c \<in> {CHR ''_'', CHR ''P'', CHR ''y'', CHR ''v''}"
  have f: "\<forall>t \<in> set (tl OpText) \<union> set DotCmds. t \<noteq> [] \<and> code (tolower (hd t)) \<notin> {95, 112, 121, 118}"
    by (simp add: OpText_def DotCmds_def tolower_def isupper_def code_def)
  have tc: "code (tolower c) \<in> {95, 112, 121, 118}" using c by (auto simp: tolower_def isupper_def code_def)
  have n: "\<not> stricmp (c # w) t" if "t \<in> set (tl OpText) \<union> set DotCmds" for t
    using bspec[OF f that] tc by (cases t) (auto simp: stricmp_def)
  have "CheckOpcode (c # w) = 0 \<and> \<not> CheckDotCommand (c # w)"
    using n find_word_none[of "tl OpText" "c # w" 1] by (auto simp: CheckOpcode_def CheckDotCommand_def list_ex_iff)
  moreover have "toupper c \<notin> {CHR ''B'', CHR ''C'', CHR ''R'', CHR ''T'', CHR ''W''}"
    using c by (auto simp: toupper_def islower_def code_def char_of_def bit_0)
  ultimately show ?thesis using c by (auto simp: CheckTokenType_def reg_prefix_def Let_def)
qed

lemmas table_defs = name_free_def CheckName_def LabelFind_def CheckEquate_def EquateFind_def CheckStruct_def StructFind_def
  AssignFind_def ScopeFind_def CheckMacro_def MacroFind_def STRUCT_NAME_LEN_def SCOPE_NAME_LEN_def TOKEN_MAX_LEN_def
  STRUCT_MAX_ELEM_def free_first

text \<open>The structure \<open>Point\<close> with the elements \<open>v\<close> (4 bytes) and \<open>y\<close> (2 bytes), declared in a fresh assembler.\<close>

definition point :: STRUCT where
  "point = \<lparr>st_Name = ''Point'', st_TotalSize = 6, st_Elems =
     [\<lparr>el_Name = ''v'', el_Offset = 0, el_Size = 4\<rparr>, \<lparr>el_Name = ''y'', el_Offset = 4, el_Size = 2\<rparr>]\<rparr>"

definition point_state :: pasm where
  "point_state = (pasm_init CORE_V2 0)\<lparr>pStructList := [point], pScopeCurrent := Some ''_ROOT_'',
     pScopeList := [\<lparr>sc_Name = ''_ROOT_'', sc_Open = True, sc_pParent = None, sc_pAssignList = []\<rparr>]\<rparr>"

lemma point_declared: "after_cmds (pasm_init CORE_V2 0) point_state"
proof -
  let ?root = "[\<lparr>sc_Name = ''_ROOT_'', sc_Open = True, sc_pParent = None, sc_pAssignList = []\<rparr>]"
  let ?s = "\<lambda>es n c. (pasm_init CORE_V2 0)\<lparr>pStructList := [\<lparr>st_Name = ''Point'', st_TotalSize = n, st_Elems = es\<rparr>],
    pStructCurrent := c, pScopeCurrent := Some ''_ROOT_'', pScopeList := ?root\<rparr>"
  let ?x = "\<lparr>el_Name = ''v'', el_Offset = 0, el_Size = 4\<rparr>" and ?y = "\<lparr>el_Name = ''y'', el_Offset = 4, el_Size = 2\<rparr>"
  note d = table_defs pasm_init_def asm_init_def
  have "StructInit (pasm_init CORE_V2 0) = ok ((pasm_init CORE_V2 0)\<lparr>pScopeCurrent := Some ''_ROOT_'', pScopeList := ?root\<rparr>)"
    by (simp add: StructInit_def ScopeCreate_def d)
  note s0 = after_cmds.start[OF this]
  have "exec_cmd (Struct ''Point'') ((pasm_init CORE_V2 0)\<lparr>pScopeCurrent := Some ''_ROOT_'', pScopeList := ?root\<rparr>) = ok (?s [] 0 (Some ''Point''))"
    by (simp add: StructNew_def StructCreate_def d)
  note s1 = after_cmds.step[OF s0 _ this, simplified cmd_ok.simps, OF TrueI]
  have "exec_cmd (Element ''v'' 4) (?s [] 0 (Some ''Point'')) = ok (?s [?x] 4 (Some ''Point''))"
    by (simp add: StructAddElement_def struct_update_def add_elem_def d)
  note s2 = after_cmds.step[OF s1 _ this]
  have "exec_cmd (Element ''y'' 2) (?s [?x] 4 (Some ''Point'')) = ok (?s [?x, ?y] 6 (Some ''Point''))"
    by (simp add: StructAddElement_def struct_update_def add_elem_def d)
  note s3 = after_cmds.step[OF s2 _ this]
  have "exec_cmd Ends (?s [?x, ?y] 6 (Some ''Point'')) = ok (?s [?x, ?y] 6 None)"
    by (simp add: StructEnd_def d)
  note s4 = after_cmds.step[OF s3 _ this]
  have "?s [?x, ?y] 6 None = point_state" by (simp add: point_state_def point_def pasm_init_def)
  with s4 show ?thesis by simp
qed

text \<open>A second pass after a first one that ended inside \<open>.struct Point\<close>.\<close>

definition open_state :: pasm where
  "open_state = (pasm_init CORE_V2 0)\<lparr>pStructCurrent := Some ''Point''\<rparr>"

lemma open_start:
  "after_cmds open_state (open_state\<lparr>pScopeCurrent := Some ''_ROOT_'',
     pScopeList := [\<lparr>sc_Name = ''_ROOT_'', sc_Open = True, sc_pParent = None, sc_pAssignList = []\<rparr>]\<rparr>)"
  by (rule after_cmds.start) (simp add: StructInit_def ScopeCreate_def table_defs pasm_init_def asm_init_def open_state_def)

theorem structure_tables_sound_witness:
  "layout_ok point \<and> exec_cmd Ends point_state \<noteq> Stuck \<and>
   (\<exists>s'. StructCleanup point_state = ok s' \<and> pScopeList s' = [] \<and> pStructList s' = [] \<and> pScopeCurrent s' = None) \<and>
   exec_cmd (Element ''v'' 4) (open_state\<lparr>pScopeCurrent := Some ''_ROOT_'',
     pScopeList := [\<lparr>sc_Name = ''_ROOT_'', sc_Open = True, sc_pParent = None, sc_pAssignList = []\<rparr>]\<rparr>) = Stuck"
proof (intro conjI)
  note t = structure_tables_sound[OF point_declared] structure_tables_sound[OF open_start]
  show "layout_ok point" "exec_cmd Ends point_state \<noteq> Stuck"
    "\<exists>s'. StructCleanup point_state = ok s' \<and> pScopeList s' = [] \<and> pStructList s' = [] \<and> pScopeCurrent s' = None"
    using t(1) by (auto simp: pasm_init_def point_state_def)
  have "follows_current (Element ''v'' 4)" by (simp add: free_first STRUCT_NAME_LEN_def TOKEN_MAX_LEN_def)
  then show "exec_cmd (Element ''v'' 4) (open_state\<lparr>pScopeCurrent := Some ''_ROOT_'',
     pScopeList := [\<lparr>sc_Name = ''_ROOT_'', sc_Open = True, sc_pParent = None, sc_pAssignList = []\<rparr>]\<rparr>) = Stuck"
    using t(2) by (simp add: pasm_init_def open_state_def del: exec_cmd.simps)
qed

section \<open>The registers of an assignment\<close>

lemma digits_nonneg: "digits v s = Some (w, r) \<Longrightarrow> 0 \<le> v \<Longrightarrow> 0 \<le> w"
  by (induction v s rule: digits.induct) (auto simp: Let_def isdigit_def split: if_splits)

lemma reg_bound: "reg t st = Ret (Some a, st') \<Longrightarrow> unat (pa_Value a) \<le> 31"
proof -
  assume "reg t st = Ret (Some a, st')"
  then obtain v r where v: "digits 0 (tl t) = Some (v, r)" "v \<le> 31" "pa_Value a = word_of_int v"
    by (auto simp: GetRegister_def split: option.splits exec.splits if_splits)
  from digits_nonneg[OF v(1)] v(2,3) show ?thesis
    by (auto simp: unsigned_of_int take_bit_int_eq_self)
qed

lemma field_byte_le: "unat (field_byte big f) \<le> 3" "unat (field_end big f) \<le> 4"
  by (simp_all add: field_byte_def field_end_def)

lemma unat_offset: "unat v \<le> 31 \<Longrightarrow> unat (b :: u32) \<le> 4 \<Longrightarrow> unat (v * 4 + b :: u32) = unat v * 4 + unat b"
proof -
  assume a: "unat v \<le> 31" "unat b \<le> 4"
  have "unat (v * 4) = unat v * 4" using a(1) by (simp add: unat_word_ariths(2))
  then show ?thesis using a by (subst unat_plus_if') auto
qed

lemma layout_total: "layout_ok t \<Longrightarrow> unat (st_TotalSize t) \<le> 256"
  using prefix_sum_bound[of "st_Elems t" "length (st_Elems t)"] by (simp add: layout_ok_def STRUCT_MAX_ELEM_def)

lemma find_assign:
  assumes "c \<in> set cs" "sc_Name c = scope" "sc_Open c" "as_Name a = n"
    "find (\<lambda>a. as_Name a = n) (concat (map sc_pAssignList (filter sc_Open cs))) = None"
  shows "find (\<lambda>a. as_Name a = n) (concat (map sc_pAssignList (filter sc_Open
    (scope_update scope (\<lambda>c. c\<lparr>sc_pAssignList := a # sc_pAssignList c\<rparr>) cs)))) = Some a"
  using assms
proof (induction cs)
  case (Cons d cs)
  have f: "find P (xs @ ys) = (case find P xs of None \<Rightarrow> find P ys | Some x \<Rightarrow> Some x)" for P and xs ys :: "ASSIGN list"
    by (induction xs) auto
  show ?case
  proof (cases "sc_Name d = scope \<and> sc_Open d")
    case True
    with Cons.prems(4) show ?thesis by (simp add: scope_update_def)
  next
    case False
    then have c: "c \<in> set cs" using Cons.prems(1-3) by auto
    show ?thesis
    proof (cases "sc_Open d")
      case True
      then have "find (\<lambda>a. as_Name a = n) (sc_pAssignList d) = None"
          "find (\<lambda>a. as_Name a = n) (concat (map sc_pAssignList (filter sc_Open cs))) = None"
        using Cons.prems(5) by (simp_all add: f split: option.splits)
      with Cons.IH[OF c Cons.prems(2-4)] True False show ?thesis by (simp add: scope_update_def f)
    next
      case False
      with Cons.IH[OF c Cons.prems(2-4)] Cons.prems(5) show ?thesis by (auto simp: scope_update_def)
    qed
  qed
qed simp

text \<open>
  C37. An assignment's registers. When \<open>.assign\<close> with a register range succeeds, the assignment is found under
  its name with the structure's elements, and the register stored for each element is a register or field that
  \<open>GetRegister\<close> reads as one of exactly the element's size, at the place in the register file that is the range's first
  byte plus the element's offset, in the byte order of the core.
\<close>

theorem assigned_registers:
  assumes "structs_ok s" "StructAssign st rs re n s = Ret (Some (), s')" "re \<noteq> ''*''" "StructFind st s = Some t"
  shows "\<exists>a b. AssignFind n s' = Some a \<and> map fst (as_Elems a) = st_Elems t \<and> reg rs (core s) = Ret (Some b, core s) \<and>
    (\<forall>i < length (st_Elems t). \<exists>k f. k < 32 \<and> f < 8 \<and> field_width f = 8 * unat (el_Size (st_Elems t ! i)) \<and>
      reg (snd (as_Elems a ! i)) (core s) = Ret (Some (arg ARGTYPE_REGISTER (of_nat k) (of_nat f)), core s) \<and>
      unat (of_nat k * 4 + field_byte (big_endian (core s)) (of_nat f)) =
        unat (pa_Value b * 4 + field_byte (big_endian (core s)) (pa_Field b)) + unat (el_Offset (st_Elems t ! i)))"
proof -
  obtain scope b e t' ms where o': "pScopeCurrent s = Some scope" "reg rs (core s) = Ret (Some b, core s)"
    "reg re (core s) = Ret (Some e, core s)" "StructFind st s = Some t'"
    "pa_Value b * 4 + field_byte (big_endian (core s)) (pa_Field b) + st_TotalSize t' =
      pa_Value e * 4 + field_end (big_endian (core s)) (pa_Field e)"
    "map_elems (st_Elems t') (pa_Value b * 4 + field_byte (big_endian (core s)) (pa_Field b)) s = Ret (Some ms, s)"
    "AssignCreate scope \<lparr>as_Name = n, as_BaseReg = (case ms of [] \<Rightarrow> [] | (_, r) # _ \<Rightarrow> r),
      as_TotalSize = st_TotalSize t', as_Elems = ms\<rparr> n s = Ret (Some (), s')"
    using StructAssign_Some[OF assms(2)] assms(3) by metis
  have t: "t' = t" using o'(4) assms(4) by simp
  have lay: "layout_ok t" using assms(1,4) find_name_SomeD[of st_Name st "pStructList s" t]
    by (simp add: structs_ok_def StructFind_def)
  let ?off = "pa_Value b * 4 + field_byte (big_endian (core s)) (pa_Field b)"
  have u: "unat ?off \<le> 127" "unat (pa_Value e * 4 + field_end (big_endian (core s)) (pa_Field e)) \<le> 128"
    using unat_offset[OF reg_bound[OF o'(2)], of "field_byte (big_endian (core s)) (pa_Field b)"] reg_bound[OF o'(2)]
      unat_offset[OF reg_bound[OF o'(3)], of "field_end (big_endian (core s)) (pa_Field e)"] reg_bound[OF o'(3)]
      field_byte_le(1)[of "big_endian (core s)" "pa_Field b"] field_byte_le(2)[of "big_endian (core s)" "pa_Field e"]
    by linarith+
  have "unat (?off + st_TotalSize t) = unat ?off + unat (st_TotalSize t)"
    using u(1) layout_total[OF lay] by (subst unat_plus_if') auto
  then have bound: "unat ?off + prefix_sum (st_Elems t) (length (st_Elems t)) \<le> 128"
    using u(2) o'(5) lay unfolding t by (simp add: layout_ok_def)
  have sizes: "\<forall>x \<in> set (st_Elems t). unat (el_Size x) \<in> {1, 2, 4}" using lay by (simp add: layout_ok_def)
  note m = map_elems_reads[OF o'(6)[unfolded t] sizes bound, of "core s"]
  let ?a = "\<lparr>as_Name = n, as_BaseReg = (case ms of [] \<Rightarrow> [] | (_, r) # _ \<Rightarrow> r), as_TotalSize = st_TotalSize t, as_Elems = ms\<rparr>"
  have "AssignFind n s' = Some ?a"
  proof -
    obtain c where c: "c \<in> set (pScopeList s)" "sc_Name c = scope" "sc_Open c"
      using assms(1) o'(1) by (auto simp: structs_ok_def current_ok_def)
    have "name_free n s" "s' = s\<lparr>pScopeList := scope_update scope (\<lambda>c. c\<lparr>sc_pAssignList := ?a # sc_pAssignList c\<rparr>) (pScopeList s)\<rparr>"
      using o'(7) t by (auto simp: AssignCreate_def andThen_Ret CheckName_def split: if_splits)
    then show ?thesis
      using find_assign[OF c, of ?a n] by (simp add: AssignFind_def name_free_def CheckStruct_def)
  qed
  moreover have "unat (el_Offset (st_Elems t ! i)) = prefix_sum (st_Elems t) i" if "i < length (st_Elems t)" for i
    using lay that by (simp add: layout_ok_def)
  ultimately show ?thesis using m o'(2) by (intro exI[of _ ?a] exI[of _ b]) auto
qed

theorem assigned_registers_witness:
  "\<exists>s' a. StructAssign ''Point'' ''r3'' ''r4.w0'' ''P'' point_state = Ret (Some (), s') \<and> AssignFind ''P'' s' = Some a \<and>
    map fst (as_Elems a) = st_Elems point"
proof -
  have r: "reg ''r3'' (core point_state) = Ret (Some (arg ARGTYPE_REGISTER 3 7), core point_state)"
      "reg ''r4.w0'' (core point_state) = Ret (Some (arg ARGTYPE_REGISTER 4 4), core point_state)"
    using register_plain[of 3 7 "core point_state"] register_plain[of 4 4 "core point_state"]
    by (simp_all add: reg_text_def bit_text_def field_texts_def decimal.simps char_of_def bit_0)
  have g: "StructFind ''Point'' point_state = Some point" "\<not> big_endian (core point_state)"
    by (simp_all add: StructFind_def point_state_def point_def pasm_init_def big_endian_def)
  have "\<exists>s'. StructAssign ''Point'' ''r3'' ''r4.w0'' ''P'' point_state = Ret (Some (), s')"
    using r g
    by (simp add: StructAssign_def point_state_def pasm_init_def AssignCreate_def table_defs point_def GetRegname_def
      field_byte_def field_end_def Let_def asm_init_def)
  then obtain s' where s': "StructAssign ''Point'' ''r3'' ''r4.w0'' ''P'' point_state = Ret (Some (), s')" by blast
  have "structs_ok point_state" by (rule after_cmds_ok[OF point_declared]) (simp_all add: pasm_init_def)
  from assigned_registers[OF this s' _ g(1)] s' show ?thesis by auto
qed

end
