(* ===== verification/Pasm_Line.thy ===== *)
theory Pasm_Line
  imports Pasm_Struct
begin

text \<open>
  A source line: its parts (\<open>ParseSourceLine\<close> of \<open>pasm.c\<close>) and the dot commands (\<open>DotCommand\<close> of \<open>pasmdot.c\<close>). Reading
  a macro's body, which takes further lines from the source, is an argument of \<open>DotCommand\<close>.
\<close>

section \<open>The parts of a line\<close>

text \<open>The label where there is one, the two dot command flags and the terms: the command and its parameters.\<close>

record SRCLINE =
  sl_Label :: "string option"
  sl_Dot1 :: bool
  sl_Dot2 :: bool
  sl_Term :: "string list"

definition MAX_TOKENS :: nat where "MAX_TOKENS = 12"

definition param_start :: "char \<Rightarrow> bool" where
  "param_start c = (label_char c \<or> c \<in> {CHR ''.'', CHR ''#'', CHR ''-'', CHR ''('', CHR 0x22, CHR ''&'', CHR ''*''})"

text \<open>One parameter from its first character on, up to the character that ends it; \<open>dot\<close>: a dot name, which a blank ends too.\<close>

definition param_text :: "bool \<Rightarrow> string \<Rightarrow> string \<times> string" where
  "param_text dot r =
     (let p = (\<lambda>c. c \<noteq> CHR '','' \<and> \<not> (dot \<and> blank c)) in
      (rev (dropWhile blank (rev (takeWhile p r))), tl (dropWhile p r)))"

definition param_length :: "bool \<Rightarrow> string \<Rightarrow> nat" where
  "param_length dot r = length (takeWhile (\<lambda>c. c \<noteq> CHR '','' \<and> \<not> (dot \<and> blank c)) r)"

lemma param_text_shorter: "r \<noteq> [] \<Longrightarrow> length (snd (param_text dot (skip_blanks r))) < length r"
proof -
  assume "r \<noteq> []"
  have "length (snd (param_text dot (skip_blanks r))) \<le> length (skip_blanks r) - 1"
    by (auto simp: param_text_def Let_def diff_le_mono length_dropWhile_le)
  moreover have "length (skip_blanks r) - 1 < length r"
    using \<open>r \<noteq> []\<close> length_skip_blanks[of r] by (cases r) auto
  ultimately show ?thesis by simp
qed

text \<open>The parameters: \<open>terms\<close> are the ones read so far, the command included. \<open>None\<close> is a reported error.\<close>

function parse_params :: "string list \<Rightarrow> bool \<Rightarrow> string \<Rightarrow> (string list \<times> bool) option" where
  "parse_params terms dot2 r =
     (if r = [] then Some (terms, dot2)
      else if length terms = MAX_TOKENS then None
      else
        (let r' = skip_blanks r; dot = (length terms = 1 \<and> cur r' = CHR ''.'') in
         if \<not> param_start (cur r') then None
         else if TOKEN_MAX_LEN \<le> param_length dot r' then None
         else parse_params (terms @ [fst (param_text dot r')]) (dot2 \<or> dot) (snd (param_text dot r'))))"
  by pat_completeness auto
termination by (relation "measure (\<lambda>(terms, dot2, r). length r)") (auto intro: param_text_shorter)

declare parse_params.simps [simp del]

text \<open>The command or label a line starts with, and the rest.\<close>

definition parse_word :: "string \<Rightarrow> (string \<times> string) option" where
  "parse_word src =
     (if \<not> (LabelChar (cur src) True \<or> cur src = CHR ''.'') then None
      else if TOKEN_MAX_LEN \<le> length (takeWhile label_or_dot src) then None
      else Some (takeWhile label_or_dot src, dropWhile label_or_dot src))"

definition parse_command :: "string option \<Rightarrow> string \<Rightarrow> string \<Rightarrow> SRCLINE option" where
  "parse_command label cmd rest =
     (if rest \<noteq> [] \<and> \<not> blank (cur rest) then None
      else map_option (\<lambda>(terms, dot2). \<lparr>sl_Label = label, sl_Dot1 = (cur cmd = CHR ''.''), sl_Dot2 = dot2, sl_Term = terms\<rparr>)
        (parse_params [cmd] False rest))"

definition parse_line :: "string \<Rightarrow> SRCLINE option" where
  "parse_line src =
     (case parse_word src of
        None \<Rightarrow> None
      | Some (w, rest) \<Rightarrow>
          if cur rest = CHR '':'' then
            (if tl rest = [] then Some \<lparr>sl_Label = Some w, sl_Dot1 = False, sl_Dot2 = False, sl_Term = []\<rparr>
             else (case parse_word (skip_blanks (tl rest)) of
                 None \<Rightarrow> None
               | Some (w', rest') \<Rightarrow> if cur rest' = CHR '':'' then None else parse_command (Some w) w' rest'))
          else parse_command None w rest)"

definition ParseSourceLine :: "string \<Rightarrow> pasm \<Rightarrow> SRCLINE pstep" where
  "ParseSourceLine src s = (case parse_line src of None \<Rightarrow> fail s | Some sl \<Rightarrow> Ret (Some sl, s))"

section \<open>Dot commands\<close>

text \<open>The result of a command that generates no line, and of one that generates one.\<close>

abbreviation "no_line s \<equiv> Ret (Some None, s)"

definition ret0 :: "unit pstep \<Rightarrow> string option pstep" where
  "ret0 m = andThen m (\<lambda>_ s. no_line s)"

text \<open>The name of \<open>.main\<close> against the source's: the rest of both, or no match.\<close>

fun main_match :: "string \<Rightarrow> string \<Rightarrow> (string \<times> string) option" where
  "main_match [] src = Some ([], src)"
| "main_match (c # name) src =
     (if c = CHR 0x22 then Some (c # name, src)
      else if toupper c \<noteq> toupper (cur src) then None
      else main_match name (tl src))"

definition dot_main :: "SOURCEFILE \<Rightarrow> string \<Rightarrow> pasm \<Rightarrow> string option pstep" where
  "dot_main ps name s =
     (let quoted = (cur name = CHR 0x22) in
      case main_match (if quoted then tl name else name) (sf_SourceName ps) of
        None \<Rightarrow> no_line (rep REP_WARN1 s)
      | Some (r, src) \<Rightarrow>
          if src \<noteq> [] \<and> cur src \<noteq> CHR ''.'' then no_line (rep REP_WARN1 s)
          else if (if r = [] then quoted else tl r \<noteq> [] \<or> \<not> quoted) then fail s
          else no_line s)"

definition dot_origin :: "string \<Rightarrow> pasm \<Rightarrow> string option pstep" where
  "dot_origin t s =
     andThen (on_core (operand_exp t) s) (\<lambda>v s.
       let val = sint v; st = core s in
       if Core st = CORE_V0 then fail s
       else if val < CodeOffset st then fail s
       else
         (let st = (if 0 \<le> CodeOffset st then Report REP_WARN1 st else st);
              st = (if EntryPoint st < 0 then st\<lparr>EntryPoint := val\<rparr> else st) in
          no_line (s\<lparr>core := st\<lparr>CodeOffset := val\<rparr>\<rparr>)))"

definition dot_entrypoint :: "string \<Rightarrow> pasm \<Rightarrow> string option pstep" where
  "dot_entrypoint t s =
     andThen (on_core (operand_exp t) s) (\<lambda>v s.
       if Core (core s) = CORE_V0 then fail s
       else if HaveEntry (core s) then fail s
       else no_line (s\<lparr>core := (core s)\<lparr>EntryPoint := sint v, HaveEntry := True\<rparr>\<rparr>))"

definition dot_setcallreg :: "string \<Rightarrow> pasm \<Rightarrow> string option pstep" where
  "dot_setcallreg t s =
     (if Core (core s) = CORE_V0 then fail s
      else if Pass (core s) = 1 \<and> Options (core s) AND OPTION_RETREGSET \<noteq> 0 then fail s
      else if 0 \<le> CodeOffset (core s) then fail s
      else andThen (on_core (reg t) s) (\<lambda>r s.
        if pa_Field r \<in> {FIELDTYPE_15_0, FIELDTYPE_23_8, FIELDTYPE_31_16} \<and> pa_Value r < 31
        then no_line (s\<lparr>core := (core s)\<lparr>RetRegValue := pa_Value r, RetRegField := pa_Field r,
               Options := Options (core s) OR OPTION_RETREGSET\<rparr>\<rparr>)
        else fail s))"

definition dot_codeword :: "SOURCEFILE \<Rightarrow> string \<Rightarrow> pasm \<Rightarrow> string option pstep" where
  "dot_codeword ps t s =
     andThen (on_core (operand_exp t) s) (\<lambda>w s. ret0 (on_core (gen_ok ps w) s))"

definition dot_ret :: "pasm \<Rightarrow> string option pstep" where
  "dot_ret s =
     (if Options (core s) AND OPTION_RETREGSET \<noteq> 0 then fail s
      else if CORE_V1 < Core (core s) then fail s
      else Ret (Some (Some ''jmp     r30.w0''), s))"

abbreviation (input) "DOTCMD_MAIN \<equiv> (1 :: nat)"
abbreviation (input) "DOTCMD_END \<equiv> (2 :: nat)"
abbreviation (input) "DOTCMD_PROC \<equiv> (3 :: nat)"
abbreviation (input) "DOTCMD_RET \<equiv> (4 :: nat)"
abbreviation (input) "DOTCMD_ORIGIN \<equiv> (5 :: nat)"
abbreviation (input) "DOTCMD_ENTRYPOINT \<equiv> (6 :: nat)"
abbreviation (input) "DOTCMD_STRUCT \<equiv> (7 :: nat)"
abbreviation (input) "DOTCMD_ENDS \<equiv> (8 :: nat)"
abbreviation (input) "DOTCMD_U32 \<equiv> (9 :: nat)"
abbreviation (input) "DOTCMD_U16 \<equiv> (10 :: nat)"
abbreviation (input) "DOTCMD_U8 \<equiv> (11 :: nat)"
abbreviation (input) "DOTCMD_ASSIGN \<equiv> (12 :: nat)"
abbreviation (input) "DOTCMD_SETCALLREG \<equiv> (13 :: nat)"
abbreviation (input) "DOTCMD_ENTER \<equiv> (14 :: nat)"
abbreviation (input) "DOTCMD_LEAVE \<equiv> (15 :: nat)"
abbreviation (input) "DOTCMD_USING \<equiv> (16 :: nat)"
abbreviation (input) "DOTCMD_MACRO \<equiv> (17 :: nat)"
abbreviation (input) "DOTCMD_MPARAM \<equiv> (18 :: nat)"
abbreviation (input) "DOTCMD_ENDM \<equiv> (19 :: nat)"
abbreviation (input) "DOTCMD_CODEWORD \<equiv> (20 :: nat)"

text \<open>The number of operands each command expects; the numbers are those of the table, from 1.\<close>

definition dot_terms :: "nat \<Rightarrow> nat" where
  "dot_terms i = (if i = DOTCMD_END \<or> i = DOTCMD_RET \<or> i = DOTCMD_ENDS then 1 else if i = DOTCMD_ASSIGN then 5 else 2)"

text \<open>Every command but \<open>.macro\<close>, which alone reads on in the source.\<close>

definition plain_dot :: "SOURCEFILE \<Rightarrow> nat \<Rightarrow> string list \<Rightarrow> pasm \<Rightarrow> string option pstep" where
  "plain_dot ps i terms s =
     (let t = terms ! 1 in
      if i = DOTCMD_MAIN then dot_main ps t s
      else if i = DOTCMD_END then no_line s
      else if i = DOTCMD_PROC then Ret (Some (Some (CHR ''.'' # t @ '':'')), s)
      else if i = DOTCMD_RET then dot_ret s
      else if i = DOTCMD_ORIGIN then dot_origin t s
      else if i = DOTCMD_ENTRYPOINT then dot_entrypoint t s
      else if i = DOTCMD_STRUCT then ret0 (StructNew t s)
      else if i = DOTCMD_ENDS then ret0 (StructEnd s)
      else if i = DOTCMD_U32 then ret0 (StructAddElement t 4 s)
      else if i = DOTCMD_U16 then ret0 (StructAddElement t 2 s)
      else if i = DOTCMD_U8 then ret0 (StructAddElement t 1 s)
      else if i = DOTCMD_ASSIGN then ret0 (StructAssign t (terms ! 2) (terms ! 3) (terms ! 4) s)
      else if i = DOTCMD_SETCALLREG then dot_setcallreg t s
      else if i = DOTCMD_ENTER then ret0 (ScopeEnter t s)
      else if i = DOTCMD_LEAVE then ret0 (ScopeLeave t s)
      else if i = DOTCMD_USING then ret0 (ScopeUsing t s)
      else dot_codeword ps t s)"

text \<open>A step that may read on in the source file has the file in its result.\<close>

type_synonym 'a fstep = "('a \<times> SOURCEFILE \<times> pasm) exec"

definition keep_file :: "SOURCEFILE \<Rightarrow> 'a pstep \<Rightarrow> 'a option fstep" where
  "keep_file ps m = (case m of Ret (r, s) \<Rightarrow> Ret (r, ps, s) | Stuck \<Rightarrow> Stuck | Fuel \<Rightarrow> Fuel)"

definition DotCommand ::
  "(string \<Rightarrow> SOURCEFILE \<Rightarrow> pasm \<Rightarrow> unit option fstep) \<Rightarrow> string list \<Rightarrow> SOURCEFILE \<Rightarrow> pasm \<Rightarrow> string option option fstep" where
  "DotCommand MacroEnter terms ps s =
     (let i = find_word 1 (terms ! 0) DotCmds in
      if i = 0 \<or> i = DOTCMD_MPARAM \<or> i = DOTCMD_ENDM \<or> length terms \<noteq> dot_terms i then keep_file ps (fail s)
      else if i = DOTCMD_MACRO then
        (case MacroEnter (terms ! 1) ps s of
           Ret (r, ps, s) \<Rightarrow> Ret (map_option (\<lambda>_. None) r, ps, s)
         | Stuck \<Rightarrow> Stuck | Fuel \<Rightarrow> Fuel)
      else keep_file ps (plain_dot ps i terms s))"

end
