(* ===== verification/Pasm_PP.thy ===== *)
theory Pasm_PP
  imports Pasm_Tables
begin

text \<open>
  The preprocessor (\<open>pasmpp.c\<close>): reading a line of text without its comments, the equates and their expansion, and the
  conditionals.

  A character that C reads as an \<open>int\<close> is an option: \<open>None\<close> is -1, the end of the file (and the character 0xFF,
  which as a signed \<open>char\<close> is -1 too).
\<close>

section \<open>Lines of text\<close>

definition ReadCharacter :: "SOURCEFILE \<Rightarrow> char option \<times> SOURCEFILE" where
  "ReadCharacter ps =
     (case dropWhile (\<lambda>c. c = CHR 0x0D) (sf_FilePtr ps) of
        [] \<Rightarrow> (None, ps\<lparr>sf_FilePtr := []\<rparr>)
      | c # r \<Rightarrow> (if c = CHR 0xFF then None else Some c,
          ps\<lparr>sf_FilePtr := r, sf_LastChar := c,
             sf_CurrentLine := (if sf_LastChar ps = CHR 0x0A then sf_CurrentLine ps + 1 else sf_CurrentLine ps)\<rparr>))"

text \<open>The loops that read on: over leading white space, to the end of the line, to the end of a comment.\<close>

fun skip_white :: "nat \<Rightarrow> char option \<Rightarrow> SOURCEFILE \<Rightarrow> (char option \<times> SOURCEFILE) exec" where
  "skip_white 0 c ps = Fuel"
| "skip_white (Suc n) c ps =
     (if c = Some CHR 0x20 \<or> c = Some CHR 0x09 \<or> c = Some CHR 0x0A
      then (let (c, ps) = ReadCharacter ps in skip_white n c ps) else Ret (c, ps))"

fun skip_line :: "nat \<Rightarrow> char option \<Rightarrow> SOURCEFILE \<Rightarrow> (char option \<times> SOURCEFILE) exec" where
  "skip_line 0 c ps = Fuel"
| "skip_line (Suc n) c ps =
     (if c = Some CHR 0x00 \<or> c = None \<or> c = Some CHR 0x0A then Ret (c, ps)
      else (let (c, ps) = ReadCharacter ps in skip_line n c ps))"

text \<open>\<open>c\<close> is the character at hand; the loop ends only on a star followed by a slash.\<close>

fun skip_comment :: "nat \<Rightarrow> char option \<Rightarrow> SOURCEFILE \<Rightarrow> SOURCEFILE exec" where
  "skip_comment 0 c ps = Fuel"
| "skip_comment (Suc n) c ps =
     (if c = None \<or> c = Some CHR ''*'' then
        (let (c, ps) = ReadCharacter ps in if c = Some CHR ''/'' then Ret ps else skip_comment n c ps)
      else (let (c, ps) = ReadCharacter ps in skip_comment n c ps))"

text \<open>
  The line: what is read so far and the flags for a slash, an open quote and a backslash just seen. The result is the
  line, the character that ended it and whether a quote is open; \<open>None\<close> for a line that is too long.
\<close>

fun text_line :: "nat \<Rightarrow> nat \<Rightarrow> char option \<Rightarrow> string \<Rightarrow> bool \<Rightarrow> bool \<Rightarrow> bool \<Rightarrow> SOURCEFILE \<Rightarrow>
    ((string \<times> char option \<times> bool) option \<times> SOURCEFILE) exec" where
  "text_line 0 MaxLen c dst comment quote continue ps = Fuel"
| "text_line (Suc n) MaxLen c dst comment quote continue ps =
     (let quote = (if c = Some CHR 0x22 then \<not> quote else quote); comment = (\<not> quote \<and> comment) in
      if (comment \<and> c = Some CHR ''/'') \<or> (\<not> quote \<and> c = Some CHR '';'') then
        (case skip_line n c ps of
           Ret (c', ps) \<Rightarrow> Ret (Some (if c = Some CHR ''/'' then butlast dst else dst, c', quote), ps)
         | Stuck \<Rightarrow> Stuck | Fuel \<Rightarrow> Fuel)
      else if comment \<and> c = Some CHR ''*'' then
        (case skip_comment n c ps of
           Ret ps \<Rightarrow> (let (c, ps) = ReadCharacter ps in text_line n MaxLen c (butlast dst) False quote continue ps)
         | Stuck \<Rightarrow> Stuck | Fuel \<Rightarrow> Fuel)
      else if continue \<and> c = Some CHR 0x0A then
        (let (c, ps) = ReadCharacter ps in text_line n MaxLen c (butlast dst) comment quote False ps)
      else
        (case c of
           None \<Rightarrow> Ret (Some (dst, c, quote), ps)
         | Some d \<Rightarrow>
             if d = CHR 0x00 \<or> d = CHR 0x0A then Ret (Some (dst, c, quote), ps)
             else if MaxLen \<le> length dst + 1 then Ret (None, ps)
             else (let (c', ps) = ReadCharacter ps in
               text_line n MaxLen c' (dst @ [d]) (d = CHR ''/'') quote (d = CHR 0x5C) ps)))"

text \<open>The line without trailing white space, and whether the file ended; the source is read on in any case.\<close>

definition GetTextLine :: "nat \<Rightarrow> nat \<Rightarrow> SOURCEFILE \<Rightarrow> pasm \<Rightarrow> ((string \<times> bool) option \<times> SOURCEFILE \<times> pasm) exec" where
  "GetTextLine n MaxLen ps s =
     (case ReadCharacter ps of (c, ps) \<Rightarrow>
      case skip_white n c ps of
        Ret (c, ps) \<Rightarrow>
          (case text_line n MaxLen c [] False False False ps of
             Ret (None, ps) \<Rightarrow> Ret (None, ps, rep REP_ERROR s)
           | Ret (Some (dst, c, quote), ps) \<Rightarrow>
               (let dst = rev (dropWhile blank (rev dst)) in
                Ret (Some (dst, dst = [] \<and> c = None), ps, if quote then rep REP_ERROR s else s))
           | Stuck \<Rightarrow> Stuck | Fuel \<Rightarrow> Fuel)
      | Stuck \<Rightarrow> Stuck | Fuel \<Rightarrow> Fuel)"

section \<open>Equates\<close>

definition EQUATE_NAME_LEN :: nat where "EQUATE_NAME_LEN = TOKEN_MAX_LEN"
definition EQUATE_DATA_LEN :: nat where "EQUATE_DATA_LEN = 256"

definition EquateCreate :: "string \<Rightarrow> string \<Rightarrow> pasm \<Rightarrow> unit pstep" where
  "EquateCreate name val s =
     andThen (CheckName name s) (\<lambda>_ s.
       if EQUATE_NAME_LEN \<le> length name then fail s
       else if EQUATE_DATA_LEN \<le> length val then fail s
       else ok (s\<lparr>pEqList := (name, val) # pEqList s\<rparr>))"

definition EquateDestroy :: "string \<Rightarrow> string \<Rightarrow> pasm \<Rightarrow> pasm" where
  "EquateDestroy name val s = s\<lparr>pEqList := remove1 (name, val) (pEqList s)\<rparr>"

text \<open>The name a directive starts with, if it is one and not too long.\<close>

definition good_name :: "string \<Rightarrow> bool" where
  "good_name n = (LabelChar (cur n) True \<and> list_all label_char n \<and> length n < EQUATE_NAME_LEN)"

definition EquateProcess :: "string \<Rightarrow> pasm \<Rightarrow> unit pstep" where
  "EquateProcess src s =
     (let src = skip_blanks src; name = takeWhile (\<lambda>c. \<not> blank c) src; val = skip_blanks (dropWhile (\<lambda>c. \<not> blank c) src);
          val = (if val = [] then ''1'' else val) in
      if \<not> good_name name then fail s
      else andThen (CheckName name s) (\<lambda>_ s.
        (case EquateFind name s of
           Some old \<Rightarrow>
             if old = val then ok s
             else (let s = rep REP_WARN1 (EquateDestroy name old s) in ok (s\<lparr>pEqList := (name, val) # pEqList s\<rparr>))
         | None \<Rightarrow> ok (s\<lparr>pEqList := (name, val) # pEqList s\<rparr>))))"

definition UndefProcess :: "string \<Rightarrow> pasm \<Rightarrow> unit pstep" where
  "UndefProcess src s =
     (let name = skip_blanks src in
      if \<not> good_name name then fail s
      else (case EquateFind name s of
          None \<Rightarrow> ok (rep REP_WARN1 s)
        | Some old \<Rightarrow> ok (EquateDestroy name old s)))"

section \<open>Conditionals\<close>

definition CC_MAX_DEPTH :: nat where "CC_MAX_DEPTH = 8"

definition IfDefProcess :: "string \<Rightarrow> bool \<Rightarrow> pasm \<Rightarrow> unit pstep" where
  "IfDefProcess src fTrue s =
     (let cc = ccStateFlags s; name = skip_blanks src in
      if length cc = CC_MAX_DEPTH then fail s
      else if cc \<noteq> [] \<and> \<not> fst (last cc) then ok (s\<lparr>ccStateFlags := cc @ [(False, False)]\<rparr>)
      else if \<not> good_name name then fail s
      else ok (s\<lparr>ccStateFlags := cc @ [((EquateFind name s \<noteq> None) = fTrue, False)]\<rparr>))"

definition ElseProcess :: "string \<Rightarrow> pasm \<Rightarrow> unit pstep" where
  "ElseProcess src s =
     (let cc = ccStateFlags s in
      if src \<noteq> [] then fail s
      else if cc = [] \<or> snd (last cc) then fail s
      else ok (s\<lparr>ccStateFlags := butlast cc @ [(\<not> fst (last cc) \<and> list_all fst (butlast cc), True)]\<rparr>))"

definition EndifProcess :: "string \<Rightarrow> pasm \<Rightarrow> unit pstep" where
  "EndifProcess src s =
     (if src \<noteq> [] then fail s
      else if ccStateFlags s = [] then fail s
      else ok (s\<lparr>ccStateFlags := butlast (ccStateFlags s)\<rparr>))"

definition ppCleanup :: "pasm \<Rightarrow> pasm" where
  "ppCleanup s = s\<lparr>ccStateFlags := [], pEqList := []\<rparr>"

section \<open>Expansion of equates\<close>

datatype wf = WF_READY | WF_NONLABEL | WF_QUOTED | WF_LABEL

lemma free_equates: "word \<notin> set busy \<Longrightarrow> map_of eqs word = Some d \<Longrightarrow>
    card (fst ` set eqs - set (word # busy)) < card (fst ` set eqs - set busy)"
proof -
  assume "word \<notin> set busy" "map_of eqs word = Some d"
  then have "word \<in> fst ` set eqs - set busy" by (auto dest: map_of_SomeD intro: rev_image_eqI)
  moreover have "fst ` set eqs - set (word # busy) = (fst ` set eqs - set busy) - {word}" by auto
  ultimately show ?thesis by (simp only:) (rule card_Diff1_less, auto)
qed

lemma label_not_end: "LabelChar (cur src) f \<Longrightarrow> src \<noteq> []"
  by (cases src) (auto simp: LabelChar_def isupper_def islower_def isdigit_def code_def split: if_splits)

lemma quote_not_end: "cur src = CHR 0x22 \<Longrightarrow> src \<noteq> []"
  by (cases src) auto

text \<open>
  The loop of \<open>ParseSource\<close>: the state of the word, the word, the source and the output. \<open>busy\<close> are the equates
  whose \<open>Busy\<close> mark is set. The result is the output, or \<open>None\<close> for a line that is too long, and the number of
  errors reported.
\<close>

function parse_chars :: "EQUATE list \<Rightarrow> nat \<Rightarrow> string list \<Rightarrow> wf \<Rightarrow> string \<Rightarrow> string \<Rightarrow> string \<Rightarrow> string option \<times> nat" where
  "parse_chars eqs MaxLen busy flag word src dst =
     (let c = cur src;
          emit = (\<lambda>flag dst.
            if src = [] then (Some dst, if flag = WF_QUOTED then 1 else 0)
            else if MaxLen \<le> length dst + 1 then (None, 1)
            else parse_chars eqs MaxLen busy flag [] (tl src) (dst @ [c])) in
      case flag of
        WF_READY \<Rightarrow>
          if c = CHR 0x22 then emit WF_QUOTED dst
          else if LabelChar c True then parse_chars eqs MaxLen busy WF_LABEL [c] (tl src) dst
          else emit (if label_char c then WF_NONLABEL else WF_READY) dst
      | WF_NONLABEL \<Rightarrow>
          emit (if c = CHR 0x22 then WF_QUOTED else if \<not> label_char c then WF_READY else WF_NONLABEL) dst
      | WF_QUOTED \<Rightarrow> emit (if c = CHR 0x22 then WF_READY else WF_QUOTED) dst
      | WF_LABEL \<Rightarrow>
          if length word < TOKEN_MAX_LEN - 1 \<and> label_char c
          then parse_chars eqs MaxLen busy WF_LABEL (word @ [c]) (tl src) dst
          else
            (let flag = (if c = CHR 0x22 then WF_QUOTED else WF_READY) in
             if word \<notin> set busy \<and> map_of eqs word \<noteq> None then
               (case parse_chars eqs MaxLen (word # busy) WF_READY [] (the (map_of eqs word)) dst of
                  (None, n) \<Rightarrow> (None, n)
                | (Some dst, n) \<Rightarrow> (case emit flag dst of (r, m) \<Rightarrow> (r, n + m)))
             else if MaxLen - 1 < length dst + length word then (None, 1)
             else emit flag (dst @ word)))"
  by pat_completeness auto

termination
  by (relation "measures [\<lambda>(eqs, MaxLen, busy, flag, word, src, dst). card (fst ` set eqs - set busy),
      \<lambda>(eqs, MaxLen, busy, flag, word, src, dst). length src]")
    (auto simp: free_equates dest: label_not_end quote_not_end simp del: set_simps)

declare parse_chars.simps [simp del]

definition ParseSource :: "string \<Rightarrow> nat \<Rightarrow> pasm \<Rightarrow> string pstep" where
  "ParseSource src MaxLen s =
     (case parse_chars (pEqList s) MaxLen [] WF_READY [] src [] of
        (r, n) \<Rightarrow> Ret (r, (rep REP_ERROR ^^ n) s))"

end
