(* ===== verification/Pasm_Macro.thy ===== *)
theory Pasm_Macro
  imports Pasm_Line Pasm_PP
begin

text \<open>
  Macros (\<open>pasmmacro.c\<close>): reading a macro's parameters and body, and building the lines of an expansion. Taking a line
  from the source and processing an expanded line are arguments here; the driver provides them.
\<close>

definition MACRO_MAX_ARGS :: nat where "MACRO_MAX_ARGS = 8"
definition MACRO_MAX_LINES :: nat where "MACRO_MAX_LINES = 128"
definition MACRO_MAX_LABELS :: nat where "MACRO_MAX_LABELS = 32"
definition MACRO_SOURCE_LINE :: nat where "MACRO_SOURCE_LINE = 256"

definition macro_update :: "string \<Rightarrow> (MACRO \<Rightarrow> MACRO) \<Rightarrow> pasm \<Rightarrow> pasm" where
  "macro_update name f s = s\<lparr>pMacroList := map (\<lambda>m. if mc_Name m = name then f m else m) (pMacroList s)\<rparr>"

definition MacroCreate :: "string \<Rightarrow> pasm \<Rightarrow> unit pstep" where
  "MacroCreate name s =
     andThen (CheckName name s) (\<lambda>_ s.
       if MACRO_NAME_LEN \<le> length name then fail s
       else ok (s\<lparr>pMacroList := \<lparr>mc_Name = name, mc_InUse = True, mc_Id = MacroId s, mc_Required = 0, mc_Expands = 0,
                    mc_Args = [], mc_Labels = [], mc_Code = []\<rparr> # pMacroList s, MacroId := MacroId s + 1\<rparr>))"

definition MacroCleanup :: "pasm \<Rightarrow> pasm" where
  "MacroCleanup s = s\<lparr>pMacroList := [], MacroId := 0\<rparr>"

section \<open>Parameters\<close>

definition arg_char :: "char \<Rightarrow> bool" where "arg_char c = (\<not> blank c \<and> c \<noteq> CHR ''='')"

text \<open>
  One parameter, a name with an optional default: the macro with it and whether an error was reported. A text that
  goes on after a complete parameter is an error, but the parameter is there.
\<close>

definition MacroAddArg :: "string \<Rightarrow> MACRO \<Rightarrow> (MACRO \<times> bool) exec" where
  "MacroAddArg text m =
     (let name = takeWhile arg_char (skip_blanks text);
          rest = skip_blanks (dropWhile arg_char (skip_blanks text));
          val = takeWhile arg_char (skip_blanks (tl rest));
          rest' = dropWhile arg_char (skip_blanks (tl rest)) in
      if length (mc_Args m) = MACRO_MAX_ARGS then Ret (m, True)
      else if name \<noteq> [] \<and> \<not> (LabelChar (cur name) True \<and> list_all label_char (tl name)) then Ret (m, True)
      else if TOKEN_MAX_LEN < length name then Ret (m, True)
      else if length name = TOKEN_MAX_LEN then Stuck
      else if name = [] then Ret (m, True)
      else if name \<in> set (map fst (mc_Args m)) then Ret (m, True)
      else if cur rest = CHR ''='' then
        (if \<not> list_all label_or_dot val \<or> TOKEN_MAX_LEN < length val then Ret (m, True)
         else if length val = TOKEN_MAX_LEN then Stuck
         else if val = [] then Ret (m, True)
         else Ret (m\<lparr>mc_Args := mc_Args m @ [(name, val)]\<rparr>, rest' \<noteq> []))
      else if mc_Required m < length (mc_Args m) then Ret (m, True)
      else Ret (m\<lparr>mc_Args := mc_Args m @ [(name, [])], mc_Required := mc_Required m + 1\<rparr>, rest \<noteq> []))"

fun macro_args :: "string \<Rightarrow> string list \<Rightarrow> pasm \<Rightarrow> unit pstep" where
  "macro_args name [] s = ok s"
| "macro_args name (t # ts) s =
     (case MacroFind name s of
        None \<Rightarrow> Stuck
      | Some m \<Rightarrow>
          (case MacroAddArg t m of
             Ret (m', bad) \<Rightarrow>
               (let s = macro_update name (\<lambda>_. m') s in macro_args name ts (if bad then rep REP_ERROR s else s))
           | Stuck \<Rightarrow> Stuck | Fuel \<Rightarrow> Fuel))"

section \<open>Reading a macro\<close>

text \<open>What \<open>GetSourceLine\<close> returns: a line, 0 at the end of the file, or -1.\<close>

datatype got = Line string | EndFile | BadLine

definition macro_label :: "string \<Rightarrow> string \<Rightarrow> pasm \<Rightarrow> unit pstep" where
  "macro_label name lbl s =
     (case MacroFind name s of
        None \<Rightarrow> Stuck
      | Some m \<Rightarrow>
          if length (mc_Labels m) = MACRO_MAX_LABELS then ok (rep REP_ERROR s)
          else ok (macro_update name (\<lambda>m. m\<lparr>mc_Labels := mc_Labels m @ [lbl]\<rparr>) s))"

definition macro_code :: "string \<Rightarrow> string \<Rightarrow> pasm \<Rightarrow> unit pstep" where
  "macro_code name src s =
     (case MacroFind name s of
        None \<Rightarrow> Stuck
      | Some m \<Rightarrow>
          if length (mc_Code m) = MACRO_MAX_LINES then ok (rep REP_ERROR s)
          else ok (macro_update name (\<lambda>m. m\<lparr>mc_Code := mc_Code m @ [src]\<rparr>) s))"

text \<open>A line of the body: \<open>True\<close> for \<open>.endm\<close>. A dot command other than the three is dropped.\<close>

definition macro_line :: "string \<Rightarrow> string \<Rightarrow> SRCLINE \<Rightarrow> pasm \<Rightarrow> bool pstep" where
  "macro_line name src sl s =
     andThen (case sl_Label sl of None \<Rightarrow> ok s | Some l \<Rightarrow> macro_label name l s) (\<lambda>_ s.
       if sl_Term sl \<noteq> [] \<and> sl_Dot1 sl then
         (if stricmp (sl_Term sl ! 0) ''.mparam'' then
            (if length (sl_Term sl) = 1 then Ret (Some False, rep REP_ERROR s)
             else andThen (macro_args name (tl (sl_Term sl)) s) (\<lambda>_ s. Ret (Some False, s)))
          else if stricmp (sl_Term sl ! 0) ''.macro'' then Ret (Some False, rep REP_ERROR s)
          else if stricmp (sl_Term sl ! 0) ''.endm'' then Ret (Some True, macro_update name (\<lambda>m. m\<lparr>mc_InUse := False\<rparr>) s)
          else Ret (Some False, s))
       else andThen (macro_code name src s) (\<lambda>_ s. Ret (Some False, s)))"

text \<open>Too many errors to go on.\<close>

definition disaster :: "pasm \<Rightarrow> bool" where
  "disaster s = (FatalError (core s) \<or> 25 \<le> Errors (core s))"

fun macro_lines :: "(SOURCEFILE \<Rightarrow> pasm \<Rightarrow> got fstep) \<Rightarrow> nat \<Rightarrow> string \<Rightarrow> SOURCEFILE \<Rightarrow> pasm \<Rightarrow> unit option fstep" where
  "macro_lines get 0 name ps s = Fuel"
| "macro_lines get (Suc n) name ps s =
     (if disaster s then Ret (None, ps, s)
      else (case get ps s of
          Ret (EndFile, ps, s) \<Rightarrow> Ret (None, ps, rep REP_ERROR s)
        | Ret (BadLine, ps, s) \<Rightarrow> macro_lines get n name ps s
        | Ret (Line src, ps, s) \<Rightarrow>
            (case ParseSourceLine src s of
               Ret (None, s) \<Rightarrow> macro_lines get n name ps s
             | Ret (Some sl, s) \<Rightarrow>
                 (case macro_line name src sl s of
                    Ret (Some True, s) \<Rightarrow> Ret (Some (), ps, s)
                  | Ret (_, s) \<Rightarrow> macro_lines get n name ps s
                  | Stuck \<Rightarrow> Stuck | Fuel \<Rightarrow> Fuel)
             | Stuck \<Rightarrow> Stuck | Fuel \<Rightarrow> Fuel)
        | Stuck \<Rightarrow> Stuck | Fuel \<Rightarrow> Fuel))"

definition MacroEnter ::
  "(SOURCEFILE \<Rightarrow> pasm \<Rightarrow> got fstep) \<Rightarrow> nat \<Rightarrow> string \<Rightarrow> SOURCEFILE \<Rightarrow> pasm \<Rightarrow> unit option fstep" where
  "MacroEnter get n name ps s =
     (if Core (core s) = CORE_V0 then Ret (None, ps, rep REP_ERROR s)
      else (case MacroCreate name s of
          Ret (Some _, s) \<Rightarrow> macro_lines get n name ps s
        | Ret (None, s) \<Rightarrow> Ret (None, ps, s)
        | Stuck \<Rightarrow> Stuck | Fuel \<Rightarrow> Fuel))"

section \<open>Expanding a macro\<close>

text \<open>What replaces a name: the argument given, else its default; else, for a label, a name of this expansion; else itself.\<close>

definition macro_subst :: "MACRO \<Rightarrow> string list \<Rightarrow> string \<Rightarrow> string" where
  "macro_subst m terms name =
     (case find (\<lambda>(i, a, d). a = name) (enumerate 0 (mc_Args m)) of
        Some (i, a, d) \<Rightarrow> if length terms \<le> i + 1 then d else terms ! (i + 1)
      | None \<Rightarrow>
          if name \<in> set (mc_Labels m)
          then CHR ''_'' # name @ CHR ''_'' # decimal (mc_Id m) @ CHR ''_'' # decimal (mc_Expands m) @ ''_''
          else name)"

text \<open>
  A line of the body, from its next character on: \<open>name\<close> is a name begun, \<open>out\<close> the text so far in a buffer of
  256 characters. \<open>_strncat\<close> writes its terminator after a buffer that it has filled.
\<close>

fun macro_text :: "MACRO \<Rightarrow> string list \<Rightarrow> string \<Rightarrow> string \<Rightarrow> string \<Rightarrow> string option exec" where
  "macro_text m terms name [] out =
     (let out = (if name = [] then out else out @ macro_subst m terms name) in
      if MACRO_SOURCE_LINE \<le> length out then Stuck
      else if length out = MACRO_SOURCE_LINE - 1 then Ret None
      else Ret (Some out))"
| "macro_text m terms name (c # src) out =
     (if LabelChar c (name = []) then
        (if length name = MACRO_NAME_LEN - 1 then Ret None else macro_text m terms (name @ [c]) src out)
      else
        (let out = (if name = [] then out else out @ macro_subst m terms name) in
         if MACRO_SOURCE_LINE \<le> length out then Stuck
         else if length out = MACRO_SOURCE_LINE - 1 then Ret None
         else macro_text m terms [] src (out @ [c])))"

text \<open>The lines one by one; a line that fails, in its text or when it is processed, ends the expansion.\<close>

fun macro_expand :: "(string \<Rightarrow> SOURCEFILE \<Rightarrow> pasm \<Rightarrow> bool fstep) \<Rightarrow> MACRO \<Rightarrow> string list \<Rightarrow> string list \<Rightarrow>
    SOURCEFILE \<Rightarrow> pasm \<Rightarrow> bool fstep" where
  "macro_expand line m terms [] ps s = Ret (True, ps, s)"
| "macro_expand line m terms (code' # codes) ps s =
     (case macro_text m terms [] code' [] of
        Ret None \<Rightarrow> Ret (False, ps, rep REP_ERROR s)
      | Ret (Some []) \<Rightarrow> macro_expand line m terms codes ps s
      | Ret (Some src) \<Rightarrow>
          (case line src ps s of
             Ret (True, ps, s) \<Rightarrow> macro_expand line m terms codes ps s
           | Ret (False, ps, s) \<Rightarrow> Ret (False, ps, rep REP_ERROR s)
           | Stuck \<Rightarrow> Stuck | Fuel \<Rightarrow> Fuel)
      | Stuck \<Rightarrow> Stuck | Fuel \<Rightarrow> Fuel)"

definition ProcessMacro :: "(string \<Rightarrow> SOURCEFILE \<Rightarrow> pasm \<Rightarrow> bool fstep) \<Rightarrow> string list \<Rightarrow> SOURCEFILE \<Rightarrow> pasm \<Rightarrow> bool fstep" where
  "ProcessMacro line terms ps s =
     (case MacroFind (terms ! 0) s of
        None \<Rightarrow> Ret (False, ps, s)
      | Some m \<Rightarrow>
          if mc_InUse m then Ret (False, ps, rep REP_ERROR s)
          else if length terms \<le> mc_Required m then Ret (False, ps, rep REP_ERROR s)
          else if length (mc_Args m) < length terms - 1 then Ret (False, ps, rep REP_ERROR s)
          else
            (let m = m\<lparr>mc_Expands := mc_Expands m + 1, mc_InUse := True\<rparr> in
             case macro_expand line m terms (mc_Code m) ps (macro_update (mc_Name m) (\<lambda>_. m) s) of
               Ret (r, ps, s) \<Rightarrow> Ret (r, ps, macro_update (mc_Name m) (\<lambda>m. m\<lparr>mc_InUse := False\<rparr>) s)
             | Stuck \<Rightarrow> Stuck | Fuel \<Rightarrow> Fuel))"

end
