(* ===== verification/Pasm_Driver.thy ===== *)
theory Pasm_Driver
  imports Pasm_Macro
begin

text \<open>
  The driver: source files and \<open>#include\<close> (\<open>pasmpp.c\<close>, \<open>path_utils.c\<close>), source lines (\<open>ProcessSourceLine\<close>), source
  files (\<open>ProcessSourceFile\<close>) and the two passes of \<open>main\<close> (\<open>pasm.c\<close>).

  The file system is a parameter: the readable files and their contents. \<open>is_definite\<close>, \<open>dirname\<close> and
  \<open>basename\<close> are those of the Unix build.
\<close>

record files =
  readable :: "string \<Rightarrow> string option"
  include_dirs :: "string list"

section \<open>Paths\<close>

definition is_definite :: "string \<Rightarrow> bool" where
  "is_definite name = (cur name = CHR ''/'' \<or> cur name = CHR ''.'')"

definition strip_slashes :: "string \<Rightarrow> string" where
  "strip_slashes s = rev (dropWhile (\<lambda>c. c = CHR ''/'') (rev s))"

text \<open>POSIX \<open>basename\<close> and \<open>dirname\<close>.\<close>

definition base_name :: "string \<Rightarrow> string" where
  "base_name s =
     (if s = [] then ''.'' else if strip_slashes s = [] then ''/''
      else rev (takeWhile (\<lambda>c. c \<noteq> CHR ''/'') (rev (strip_slashes s))))"

definition dir_name :: "string \<Rightarrow> string" where
  "dir_name s =
     (let d = rev (dropWhile (\<lambda>c. c \<noteq> CHR ''/'') (rev (strip_slashes s))) in
      if s \<noteq> [] \<and> strip_slashes s = [] then ''/''
      else if d = [] then ''.'' else if strip_slashes d = [] then ''/'' else strip_slashes d)"

definition get_dirname :: "string \<Rightarrow> nat \<Rightarrow> string option" where
  "get_dirname name sz = (if sz \<le> length name then None else Some (dir_name name))"

definition get_basename :: "string \<Rightarrow> nat \<Rightarrow> string option" where
  "get_basename name sz = (if sz \<le> length (base_name name) then None else Some (base_name name))"

text \<open>The first include directory that has the file: 0 and the name, -1 for none, 1 for a name that is too long.\<close>

fun get_absolute :: "files \<Rightarrow> string \<Rightarrow> nat \<Rightarrow> string list \<Rightarrow> (int \<times> string) exec" where
  "get_absolute fs name sz [] = Ret (-1, name)"
| "get_absolute fs name sz (d # ds) =
     (if sz \<le> length d + length name then Ret (1, name)
      else if sz < length d + 1 + length name + 1 then Stuck
      else if readable fs (d @ CHR ''/'' # name) \<noteq> None then Ret (0, d @ CHR ''/'' # name)
      else get_absolute fs name sz ds)"

section \<open>Source files\<close>

definition SOURCE_NAME :: nat where "SOURCE_NAME = 64"
definition SOURCE_BASE_DIR :: nat where "SOURCE_BASE_DIR = 256"
definition SOURCEFILE_MAX :: nat where "SOURCEFILE_MAX = 64"

fun find_source :: "nat \<Rightarrow> string \<Rightarrow> string \<Rightarrow> (string \<times> string \<times> bool) list \<Rightarrow> nat option" where
  "find_source i name dir [] = None"
| "find_source i name dir ((n, d, used) # xs) =
     (if \<not> used \<and> n = name \<and> d = dir then Some i else find_source (i + 1) name dir xs)"

text \<open>The record of a file by its resolved name, and the mark it leaves in \<open>sfArray\<close>. A failure is fatal.\<close>

definition open_source :: "files \<Rightarrow> string \<Rightarrow> pasm \<Rightarrow> SOURCEFILE pstep" where
  "open_source fs filename s =
     (case (get_dirname filename SOURCE_BASE_DIR, get_basename filename SOURCE_NAME) of
        (Some dir, Some name) \<Rightarrow>
          (case find_source 0 name dir (sfArray s) of
             None \<Rightarrow>
               if length (sfArray s) = SOURCEFILE_MAX then Ret (None, rep REP_FATAL s)
               else (let i = length (sfArray s); s = s\<lparr>sfArray := sfArray s @ [(name, dir, True)]\<rparr> in
                 case readable fs filename of
                   None \<Rightarrow> Ret (None, rep REP_FATAL s)
                 | Some body \<Rightarrow> Ret (Some (source_file i (length (ccStateFlags s)) dir name body), s\<lparr>OpenFiles := OpenFiles s + 1\<rparr>))
           | Some i \<Rightarrow>
               (let s = s\<lparr>sfArray := (sfArray s)[i := (name, dir, True)]\<rparr> in
                case readable fs filename of
                  None \<Rightarrow> Ret (None, rep REP_FATAL s)
                | Some body \<Rightarrow> Ret (Some (source_file i (length (ccStateFlags s)) dir name body), s\<lparr>OpenFiles := OpenFiles s + 1\<rparr>)))
      | _ \<Rightarrow> Ret (None, rep REP_FATAL s))"

definition InitSourceFile :: "files \<Rightarrow> string \<Rightarrow> bool \<Rightarrow> pasm \<Rightarrow> SOURCEFILE pstep" where
  "InitSourceFile fs filename use_include_path s =
     (if OpenFiles s = 15 then Ret (None, rep REP_FATAL s)
      else
        (case (if use_include_path \<and> \<not> is_definite filename
               then get_absolute fs filename SOURCE_BASE_DIR (include_dirs fs) else Ret (0, filename)) of
           Ret (r, filename) \<Rightarrow>
             if r \<noteq> 0 then Ret (None, rep REP_FATAL s)
             else andThen (open_source fs filename s) (\<lambda>ps s.
               Ret (Some ps, if 10 < OpenFiles s then rep REP_WARN1 s else s))
         | Stuck \<Rightarrow> Stuck | Fuel \<Rightarrow> Fuel))"

definition CloseSourceFile :: "SOURCEFILE \<Rightarrow> pasm \<Rightarrow> pasm" where
  "CloseSourceFile ps s = (let i = unat (sf_FileIndex ps) in
     s\<lparr>OpenFiles := OpenFiles s - 1, sfArray := (sfArray s)[i := (fst (sfArray s ! i), fst (snd (sfArray s ! i)), False)]\<rparr>)"

section \<open>Including a file\<close>

text \<open>The name up to the terminator, after \<open>start\<close>; a colon keeps one character before it.\<close>

fun include_name :: "char \<Rightarrow> string \<Rightarrow> nat \<Rightarrow> string \<Rightarrow> (string \<times> nat \<times> string) option" where
  "include_name term' name oldidx [] = None"
| "include_name term' name oldidx (c # src) =
     (let (name, oldidx) = (if c = CHR '':'' \<and> name \<noteq> [] then ([last name], 1) else (name, oldidx)) in
      if c = term' then Some (name, oldidx, src)
      else if SOURCE_BASE_DIR - 1 \<le> length name then None
      else include_name term' (name @ [c]) oldidx src)"

definition LoadInclude ::
  "files \<Rightarrow> (SOURCEFILE \<Rightarrow> pasm \<Rightarrow> bool fstep) \<Rightarrow> string \<Rightarrow> SOURCEFILE \<Rightarrow> pasm \<Rightarrow> (bool \<times> pasm) exec" where
  "LoadInclude fs file src ps s =
     (let src = skip_blanks src; quoted = (cur src = CHR 0x22); rest = tl src;
          term' = (if quoted then CHR 0x22 else CHR ''>'');
          start = (if \<not> quoted \<or> cur rest = CHR ''/'' \<or> cur rest = CHR 0x5C then [] else sf_SourceBaseDir ps @ ''/'') in
      if \<not> quoted \<and> cur src \<noteq> CHR ''<'' then Ret (False, rep REP_ERROR s)
      else if quoted \<and> SOURCE_BASE_DIR \<le> length (sf_SourceBaseDir ps) + 1 then Stuck
      else (case include_name term' start (length start) rest of
          None \<Rightarrow> Ret (False, rep REP_ERROR s)
        | Some (name, oldidx, after) \<Rightarrow>
            if after \<noteq> [] \<or> length name = oldidx then Ret (False, rep REP_ERROR s)
            else (case InitSourceFile fs name (\<not> quoted) s of
                Ret (None, s) \<Rightarrow> Ret (False, s)
              | Ret (Some ps', s) \<Rightarrow>
                  (case file ps' s of
                     Ret (r, ps', s) \<Rightarrow> Ret (r \<or> Pass (core s) \<noteq> 2, CloseSourceFile ps' s)
                   | Stuck \<Rightarrow> Stuck | Fuel \<Rightarrow> Fuel)
              | Stuck \<Rightarrow> Stuck | Fuel \<Rightarrow> Fuel)))"

section \<open>GetSourceLine\<close>

definition skipping :: "pasm \<Rightarrow> bool" where
  "skipping s = (ccStateFlags s \<noteq> [] \<and> \<not> fst (last (ccStateFlags s)))"

text \<open>The word of a directive, of at most 127 characters, and what follows its blank.\<close>

definition directive_word :: "string \<Rightarrow> string \<times> string" where
  "directive_word src =
     (let w = takeWhile (\<lambda>c. \<not> blank c) (take (TOKEN_MAX_LEN - 2) (tl src)); word = cur src # w; rest = drop (length word) src in
      (word, if length w < TOKEN_MAX_LEN - 2 then tl rest else rest))"

text \<open>A directive: whether the next line is to be read, or an error returned.\<close>

definition directive :: "(string \<Rightarrow> SOURCEFILE \<Rightarrow> pasm \<Rightarrow> (bool \<times> pasm) exec) \<Rightarrow> string \<Rightarrow> SOURCEFILE \<Rightarrow> pasm \<Rightarrow> (bool \<times> pasm) exec" where
  "directive load src ps s =
     (let (word, rest) = directive_word src;
          result = (\<lambda>m. case m of Ret (r, s) \<Rightarrow> Ret (r \<noteq> None, s) | Stuck \<Rightarrow> Stuck | Fuel \<Rightarrow> Fuel);
          always = (\<lambda>m. case m of Ret (r, s) \<Rightarrow> Ret (True, s) | Stuck \<Rightarrow> Stuck | Fuel \<Rightarrow> Fuel) in
      if \<not> (isupper (cur src) \<or> islower (cur src)) then Ret (False, rep REP_ERROR s)
      else if stricmp word ''ifdef'' then result (IfDefProcess rest True s)
      else if stricmp word ''ifndef'' then result (IfDefProcess rest False s)
      else if stricmp word ''else'' then result (ElseProcess rest s)
      else if stricmp word ''endif'' then result (EndifProcess rest s)
      else if skipping s then Ret (True, s)
      else if stricmp word ''error'' then Ret (True, rep REP_ERROR s)
      else if stricmp word ''warn'' then Ret (True, rep REP_WARN1 s)
      else if stricmp word ''note'' then Ret (True, rep REP_INFO s)
      else if stricmp word ''include'' then load rest ps s
      else if stricmp word ''define'' then always (EquateProcess rest s)
      else if stricmp word ''undef'' then always (UndefProcess rest s)
      else Ret (False, rep REP_ERROR s))"

definition RAW_SOURCE_MAX :: nat where "RAW_SOURCE_MAX = 16384"

text \<open>A line whose expansion fails, or is empty, is returned as the end of the file.\<close>

fun GetSourceLine ::
  "(string \<Rightarrow> SOURCEFILE \<Rightarrow> pasm \<Rightarrow> (bool \<times> pasm) exec) \<Rightarrow> nat \<Rightarrow> nat \<Rightarrow> SOURCEFILE \<Rightarrow> pasm \<Rightarrow> got fstep" where
  "GetSourceLine load MaxLen 0 ps s = Fuel"
| "GetSourceLine load MaxLen (Suc n) ps s =
     (case GetTextLine n RAW_SOURCE_MAX ps s of
        Ret (None, ps, s) \<Rightarrow> Ret (BadLine, ps, s)
      | Ret (Some (src, eof), ps, s) \<Rightarrow>
          if src = [] \<and> eof then
            Ret (EndFile, ps, if sf_ccDepthIn ps \<noteq> length (ccStateFlags s) then rep REP_ERROR s else s)
          else if src = [] then GetSourceLine load MaxLen n ps s
          else if hd src = CHR ''#'' then
            (case directive load (tl src) ps s of
               Ret (True, s) \<Rightarrow> GetSourceLine load MaxLen n ps s
             | Ret (False, s) \<Rightarrow> Ret (BadLine, ps, s)
             | Stuck \<Rightarrow> Stuck | Fuel \<Rightarrow> Fuel)
          else if skipping s then GetSourceLine load MaxLen n ps s
          else (case ParseSource src MaxLen s of
              Ret (None, s) \<Rightarrow> Ret (EndFile, ps, s)
            | Ret (Some dst, s) \<Rightarrow> Ret (if dst = [] then EndFile else Line dst, ps, s)
            | Stuck \<Rightarrow> Stuck | Fuel \<Rightarrow> Fuel)
      | Stuck \<Rightarrow> Stuck | Fuel \<Rightarrow> Fuel)"

section \<open>ProcessSourceLine\<close>

text \<open>The terms after the substitution of structure names, or an error.\<close>

fun struct_params :: "string list \<Rightarrow> pasm \<Rightarrow> string list pstep" where
  "struct_params [] s = Ret (Some [], s)"
| "struct_params (t # ts) s =
     (case StructParamProcess t s of
        Ret (None, s) \<Rightarrow> fail s
      | Ret (Some t, s) \<Rightarrow> andThen (struct_params ts s) (\<lambda>ts s. Ret (Some (t # ts), s))
      | Stuck \<Rightarrow> Stuck | Fuel \<Rightarrow> Fuel)"

definition line_label :: "SOURCEFILE \<Rightarrow> string option \<Rightarrow> pasm \<Rightarrow> unit pstep" where
  "line_label ps label s =
     (case label of
        None \<Rightarrow> ok s
      | Some l \<Rightarrow>
          (case ValidateOffset ps (core s) of
             Ret (True, st) \<Rightarrow>
               (let s = s\<lparr>core := st\<rparr> in
                if Pass st = 1 then
                  (case LabelCreate l (CodeOffset st) s of Ret (_, s) \<Rightarrow> ok s | Stuck \<Rightarrow> Stuck | Fuel \<Rightarrow> Fuel)
                else ok s)
           | Ret (False, st) \<Rightarrow> Ret (None, s\<lparr>core := st\<rparr>)
           | Stuck \<Rightarrow> Stuck | Fuel \<Rightarrow> Fuel))"

text \<open>An instruction that is not accepted leaves the word 0xFFFFFFFF in its place.\<close>

definition line_op :: "SOURCEFILE \<Rightarrow> string list \<Rightarrow> pasm \<Rightarrow> (bool \<times> pasm) exec" where
  "line_op ps terms s =
     (case on_core (ProcessOp ps terms) s of
        Ret (Some _, s) \<Rightarrow> Ret (True, s)
      | Ret (None, s) \<Rightarrow>
          (case on_core (gen_ok ps 0xFFFFFFFF) s of Ret (_, s) \<Rightarrow> Ret (False, s) | Stuck \<Rightarrow> Stuck | Fuel \<Rightarrow> Fuel)
      | Stuck \<Rightarrow> Stuck | Fuel \<Rightarrow> Fuel)"

text \<open>The command of a line: a dot command, a macro or an instruction. \<open>line\<close> is the next round, or the expansion of a macro.\<close>

definition line_command ::
  "(string \<Rightarrow> SOURCEFILE \<Rightarrow> pasm \<Rightarrow> bool fstep) \<Rightarrow> (string \<Rightarrow> SOURCEFILE \<Rightarrow> pasm \<Rightarrow> unit option fstep) \<Rightarrow>
    bool \<Rightarrow> string list \<Rightarrow> SOURCEFILE \<Rightarrow> pasm \<Rightarrow> bool fstep" where
  "line_command line enter dot terms ps s =
     (if dot then
        (case DotCommand enter terms ps s of
           Ret (None, ps, s) \<Rightarrow> Ret (False, ps, s)
         | Ret (Some None, ps, s) \<Rightarrow> Ret (True, ps, s)
         | Ret (Some (Some src), ps, s) \<Rightarrow> line src ps s
         | Stuck \<Rightarrow> Stuck | Fuel \<Rightarrow> Fuel)
      else if CheckMacro (terms ! 0) s then ProcessMacro line terms ps s
      else (case line_op ps terms s of Ret (r, s) \<Rightarrow> Ret (r, ps, s) | Stuck \<Rightarrow> Stuck | Fuel \<Rightarrow> Fuel))"

text \<open>The terms of a line, with the structure names replaced unless it is a macro's.\<close>

definition line_terms :: "string list \<Rightarrow> pasm \<Rightarrow> string list pstep" where
  "line_terms terms s = (if CheckMacro (terms ! 0) s then Ret (Some terms, s) else struct_params terms s)"

definition line_rest ::
  "(string \<Rightarrow> SOURCEFILE \<Rightarrow> pasm \<Rightarrow> bool fstep) \<Rightarrow> (string \<Rightarrow> SOURCEFILE \<Rightarrow> pasm \<Rightarrow> unit option fstep) \<Rightarrow>
    SRCLINE \<Rightarrow> SOURCEFILE \<Rightarrow> pasm \<Rightarrow> bool fstep" where
  "line_rest line enter sl ps s =
     (if sl_Term sl = [] then Ret (True, ps, s)
      else (case line_terms (sl_Term sl) s of
          Ret (None, s) \<Rightarrow> Ret (False, ps, s)
        | Ret (Some terms, s) \<Rightarrow> line_command line enter (sl_Dot1 sl) terms ps s
        | Stuck \<Rightarrow> Stuck | Fuel \<Rightarrow> Fuel))"

text \<open>One round of \<open>ProcessSourceLine\<close>.\<close>

definition line_step ::
  "(string \<Rightarrow> SOURCEFILE \<Rightarrow> pasm \<Rightarrow> bool fstep) \<Rightarrow> (string \<Rightarrow> SOURCEFILE \<Rightarrow> pasm \<Rightarrow> unit option fstep) \<Rightarrow>
    string \<Rightarrow> SOURCEFILE \<Rightarrow> pasm \<Rightarrow> bool fstep" where
  "line_step line enter src ps s =
     (case ParseSourceLine src s of
        Ret (None, s) \<Rightarrow> Ret (False, ps, s)
      | Ret (Some sl, s) \<Rightarrow>
          (case line_label ps (sl_Label sl) s of
             Ret (None, s) \<Rightarrow> Ret (False, ps, s)
           | Ret (Some _, s) \<Rightarrow> line_rest line enter sl ps s
           | Stuck \<Rightarrow> Stuck | Fuel \<Rightarrow> Fuel)
      | Stuck \<Rightarrow> Stuck | Fuel \<Rightarrow> Fuel)"

section \<open>ProcessSourceFile\<close>

definition MAX_SOURCE_LINE :: nat where "MAX_SOURCE_LINE = 8192"

fun file_loop :: "(SOURCEFILE \<Rightarrow> pasm \<Rightarrow> got fstep) \<Rightarrow> (string \<Rightarrow> SOURCEFILE \<Rightarrow> pasm \<Rightarrow> bool fstep) \<Rightarrow>
    nat \<Rightarrow> SOURCEFILE \<Rightarrow> pasm \<Rightarrow> bool fstep" where
  "file_loop get line 0 ps s = Fuel"
| "file_loop get line (Suc n) ps s =
     (if disaster s then Ret (False, ps, s)
      else (case get ps s of
          Ret (EndFile, ps, s) \<Rightarrow> Ret (True, ps, s)
        | Ret (BadLine, ps, s) \<Rightarrow> file_loop get line n ps s
        | Ret (Line src, ps, s) \<Rightarrow>
            (case line src ps s of
               Ret (r, ps, s) \<Rightarrow> if \<not> r \<and> Pass (core s) = 2 then Ret (False, ps, s) else file_loop get line n ps s
             | Stuck \<Rightarrow> Stuck | Fuel \<Rightarrow> Fuel)
        | Stuck \<Rightarrow> Stuck | Fuel \<Rightarrow> Fuel))"

fun ProcessSourceLine :: "files \<Rightarrow> nat \<Rightarrow> string \<Rightarrow> SOURCEFILE \<Rightarrow> pasm \<Rightarrow> bool fstep"
  and ProcessSourceFile :: "files \<Rightarrow> nat \<Rightarrow> SOURCEFILE \<Rightarrow> pasm \<Rightarrow> bool fstep"
where
  "ProcessSourceLine fs 0 src ps s = Fuel"
| "ProcessSourceLine fs (Suc n) src ps s =
     line_step (ProcessSourceLine fs n)
       (MacroEnter (GetSourceLine (LoadInclude fs (ProcessSourceFile fs n)) MACRO_SOURCE_LINE n) n) src ps s"
| "ProcessSourceFile fs 0 ps s = Fuel"
| "ProcessSourceFile fs (Suc n) ps s =
     file_loop (GetSourceLine (LoadInclude fs (ProcessSourceFile fs n)) MAX_SOURCE_LINE n) (ProcessSourceLine fs n) n ps s"

section \<open>The two passes\<close>

fun create_equates :: "(string \<times> string) list \<Rightarrow> pasm \<Rightarrow> pasm exec" where
  "create_equates [] s = Ret s"
| "create_equates ((name, val) # eqs) s =
     (case EquateCreate name val s of Ret (_, s) \<Rightarrow> create_equates eqs s | Stuck \<Rightarrow> Stuck | Fuel \<Rightarrow> Fuel)"

definition begin_pass :: "pasm \<Rightarrow> pasm" where
  "begin_pass s = s\<lparr>core := (core s)\<lparr>Pass := Pass (core s) + 1, CodeOffset := -1, HaveEntry := False, EntryPoint := -1\<rparr>\<rparr>"

definition end_pass :: "pasm \<Rightarrow> pasm exec" where
  "end_pass s = (case StructCleanup (ppCleanup s) of Ret (_, s) \<Rightarrow> Ret (MacroCleanup s) | Stuck \<Rightarrow> Stuck | Fuel \<Rightarrow> Fuel)"

text \<open>One pass; \<open>False\<close> when the main source can not be opened, which ends the loop at once.\<close>

definition run_pass :: "files \<Rightarrow> nat \<Rightarrow> (string \<times> string) list \<Rightarrow> string \<Rightarrow> pasm \<Rightarrow> (bool \<times> pasm) exec" where
  "run_pass fs n eqs infile s =
     (case create_equates eqs (begin_pass s) of
        Ret s \<Rightarrow>
          (case StructInit s of
             Ret (_, s) \<Rightarrow>
               (case InitSourceFile fs infile False s of
                  Ret (None, s) \<Rightarrow> Ret (False, s)
                | Ret (Some ps, s) \<Rightarrow>
                    (case ProcessSourceFile fs n ps s of
                       Ret (_, ps, s) \<Rightarrow>
                         (case end_pass (CloseSourceFile ps s) of Ret s \<Rightarrow> Ret (True, s) | Stuck \<Rightarrow> Stuck | Fuel \<Rightarrow> Fuel)
                     | Stuck \<Rightarrow> Stuck | Fuel \<Rightarrow> Fuel)
                | Stuck \<Rightarrow> Stuck | Fuel \<Rightarrow> Fuel)
           | Stuck \<Rightarrow> Stuck | Fuel \<Rightarrow> Fuel)
      | Stuck \<Rightarrow> Stuck | Fuel \<Rightarrow> Fuel)"

text \<open>
  The two passes, from a state in which nothing has been counted, and the check that both end at the same offset (one
  more error when they do not).
\<close>

definition two_passes :: "files \<Rightarrow> nat \<Rightarrow> (string \<times> string) list \<Rightarrow> string \<Rightarrow> pasm \<Rightarrow> pasm exec" where
  "two_passes fs n eqs infile s =
     (case run_pass fs n eqs infile s of
        Ret (done1, s1) \<Rightarrow>
          (case (if done1 \<and> Errors (core s1) = 0 then run_pass fs n eqs infile s1 else Ret (done1, s1)) of
             Ret (_, s2) \<Rightarrow>
               (let off1 = (if done1 then CodeOffset (core s1) else 0) in
                Ret (if off1 \<noteq> CodeOffset (core s2) then s2\<lparr>core := (core s2)\<lparr>Errors := Errors (core s2) + 1\<rparr>\<rparr> else s2))
           | Stuck \<Rightarrow> Stuck | Fuel \<Rightarrow> Fuel)
      | Stuck \<Rightarrow> Stuck | Fuel \<Rightarrow> Fuel)"

end
