(* ===== verification/Pasm_Ends.thy ===== *)
theory Pasm_Ends
  imports Pasm_Driver "HOL-Library.Sublist"
begin

text \<open>
  Runs that end. The functions of the driver and of the preprocessor that follow the source text take fuel; here a run is a family of
  runs, one for each amount of fuel, and it ends when all that have enough agree on a result other than \<open>Fuel\<close>. The rules
  follow the ways the code composes its steps; the loops over the text end because each round takes a character from the source,
  and a comment ends where its end mark is.
\<close>

section \<open>Enough fuel\<close>

definition ends :: "(nat \<Rightarrow> 'a exec) \<Rightarrow> ('a \<Rightarrow> bool) \<Rightarrow> bool" where
  "ends m P \<longleftrightarrow> (\<exists>v. v \<noteq> Fuel \<and> (\<forall>x. v = Ret x \<longrightarrow> P x) \<and> (\<exists>N. \<forall>n\<ge>N. m n = v))"

definition grows :: "(nat \<Rightarrow> nat) \<Rightarrow> bool" where
  "grows f \<longleftrightarrow> (\<forall>c. \<exists>N. \<forall>n\<ge>N. c \<le> f n)"

lemma grows_id [simp]: "grows (\<lambda>n. n)"
  by (auto simp: grows_def)

lemma grows_less [simp]: "grows f \<Longrightarrow> grows (\<lambda>n. f n - 1)"
  unfolding grows_def
proof
  fix c assume "\<forall>c. \<exists>N. \<forall>n\<ge>N. c \<le> f n"
  then obtain N where "\<forall>n\<ge>N. c + 1 \<le> f n" by blast
  then show "\<exists>N. \<forall>n\<ge>N. c \<le> f n - 1" by (intro exI[of _ N]) fastforce
qed

lemmas grows_Suc [simp] = grows_less[unfolded One_nat_def]

lemma ends_const: "v \<noteq> Fuel \<Longrightarrow> (\<And>x. v = Ret x \<Longrightarrow> P x) \<Longrightarrow> ends (\<lambda>_. v) P"
  by (auto simp: ends_def)

lemma ends_Ret [simp]: "P x \<Longrightarrow> ends (\<lambda>_. Ret x) P" and ends_Stuck [simp]: "ends (\<lambda>_. Stuck) P"
  by (auto simp: ends_def)

lemma ends_mono: "ends m P \<Longrightarrow> (\<And>x. P x \<Longrightarrow> Q x) \<Longrightarrow> ends m Q"
  unfolding ends_def by blast

lemma ends_later:
  assumes "\<And>n. N \<le> n \<Longrightarrow> m n = m' n" "ends m' P"
  shows "ends m P"
proof -
  obtain v N' where v: "v \<noteq> Fuel" "\<forall>x. v = Ret x \<longrightarrow> P x" "\<forall>n\<ge>N'. m' n = v" using assms(2) unfolding ends_def by blast
  then have "\<forall>n\<ge>max N N'. m n = v" using assms(1) by simp
  with v(1,2) show ?thesis unfolding ends_def by blast
qed

text \<open>A function by recursion over its fuel, in a round with fuel left.\<close>

lemma ends_round:
  assumes "grows f" "ends (\<lambda>n. m n (Suc (f n - 1))) P"
  shows "ends (\<lambda>n. m n (f n)) P"
proof -
  obtain N where "\<forall>n\<ge>N. 1 \<le> f n" using assms(1) unfolding grows_def by blast
  then show ?thesis using assms(2) by (intro ends_later[of N "\<lambda>n. m n (f n)" "\<lambda>n. m n (Suc (f n - 1))"]) auto
qed

lemma ends_fuel: "grows f \<Longrightarrow> (\<And>g. grows g \<Longrightarrow> ends (\<lambda>n. m n (Suc (g n))) P) \<Longrightarrow> ends (\<lambda>n. m n (f n)) P"
  by (rule ends_round) (auto dest: grows_less)

lemma ends_Suc: "ends (\<lambda>n. m (Suc n)) P \<Longrightarrow> ends m P"
proof -
  assume "ends (\<lambda>n. m (Suc n)) P"
  then obtain v N where v: "v \<noteq> Fuel" "\<forall>x. v = Ret x \<longrightarrow> P x" "\<forall>n\<ge>N. m (Suc n) = v" unfolding ends_def by blast
  have "m n = v" if "Suc N \<le> n" for n
    using v(3)[rule_format, of "n - 1"] that by (cases n) simp_all
  with v(1,2) show ?thesis unfolding ends_def by blast
qed

lemma ends_bind:
  assumes "ends m P" "\<And>x. P x \<Longrightarrow> ends (\<lambda>n. k n x) Q"
  shows "ends (\<lambda>n. case m n of Stuck \<Rightarrow> Stuck | Fuel \<Rightarrow> Fuel | Ret x \<Rightarrow> k n x) Q"
proof -
  obtain v N where v: "v \<noteq> Fuel" "\<forall>x. v = Ret x \<longrightarrow> P x" "\<forall>n\<ge>N. m n = v" using assms(1) unfolding ends_def by blast
  have e: "ends (\<lambda>n. case v of Stuck \<Rightarrow> Stuck | Fuel \<Rightarrow> Fuel | Ret x \<Rightarrow> k n x) Q"
    using v(1,2) assms(2) by (cases v) simp_all
  show ?thesis by (rule ends_later[OF _ e, of N]) (simp only: v(3))
qed

text \<open>The same after a step without fuel.\<close>

lemma ends_step:
  assumes "m \<noteq> Fuel" "\<And>x. m = Ret x \<Longrightarrow> ends (\<lambda>n. k n x) Q"
  shows "ends (\<lambda>n. case m of Stuck \<Rightarrow> Stuck | Fuel \<Rightarrow> Fuel | Ret x \<Rightarrow> k n x) Q"
  using assms by (cases m) simp_all

text \<open>Choices that do not depend on the fuel.\<close>

lemma ends_if [simp]: "ends (\<lambda>n. if b then m n else m' n) P = (if b then ends m P else ends m' P)"
  by simp

lemma ends_cases [simp]:
  "ends (\<lambda>n. case o' of None \<Rightarrow> m n | Some y \<Rightarrow> k y n) P = (case o' of None \<Rightarrow> ends m P | Some y \<Rightarrow> ends (k y) P)"
  "ends (\<lambda>n. case p of (a, b) \<Rightarrow> h a b n) P = (case p of (a, b) \<Rightarrow> ends (h a b) P)"
  "ends (\<lambda>n. case g of Line l \<Rightarrow> k' l n | EndFile \<Rightarrow> m n | BadLine \<Rightarrow> m' n) P =
     (case g of Line l \<Rightarrow> ends (k' l) P | EndFile \<Rightarrow> ends m P | BadLine \<Rightarrow> ends m' P)"
  "ends (\<lambda>n. case c of True \<Rightarrow> m n | False \<Rightarrow> m' n) P = (case c of True \<Rightarrow> ends m P | False \<Rightarrow> ends m' P)"
  by (simp_all split: option.split prod.split got.split bool.split)

lemma ends_result: "ends m P \<Longrightarrow> \<exists>v N. v \<noteq> Fuel \<and> (\<forall>n\<ge>N. m n = v)"
  unfolding ends_def by blast

section \<open>The source text\<close>

text \<open>What is left to read, and what is left with the character at hand.\<close>

definition unread :: "SOURCEFILE \<Rightarrow> string" where
  "unread ps = filter (\<lambda>c. c \<noteq> CHR 0x0D) (sf_FilePtr ps)"

definition at_hand :: "char option \<Rightarrow> SOURCEFILE \<Rightarrow> string" where
  "at_hand c ps = (case c of None \<Rightarrow> [] | Some d \<Rightarrow> [d]) @ unread ps"

text \<open>Every comment that could start in the text has an end mark after it.\<close>

definition comments_close :: "string \<Rightarrow> bool" where
  "comments_close t \<longleftrightarrow> (\<forall>a b. t = a @ ''/*'' @ b \<longrightarrow> sublist ''*/'' (CHR ''*'' # b))"

lemma comments_close_suffix: "comments_close t \<Longrightarrow> suffix t' t \<Longrightarrow> comments_close t'"
  unfolding comments_close_def suffix_def by (metis append.assoc)

lemma drop_skipped: "filter (\<lambda>c. \<not> p c) xs = filter (\<lambda>c. \<not> p c) (dropWhile p xs)"
  by (induction xs) auto

lemma ReadCharacter_unread:
  assumes "ReadCharacter ps = (c, ps')"
  shows "unread ps' = tl (unread ps)" "unread ps = [] \<Longrightarrow> c = None"
    "unread ps = d # r \<Longrightarrow> c = (if d = CHR 0xFF then None else Some d)"
proof -
  have u: "unread ps = filter (\<lambda>c. c \<noteq> CHR 0x0D) (dropWhile (\<lambda>c. c = CHR 0x0D) (sf_FilePtr ps))"
    unfolding unread_def by (rule drop_skipped)
  have h: "dropWhile (\<lambda>c. c = CHR 0x0D) (sf_FilePtr ps) = e # r \<Longrightarrow> e \<noteq> CHR 0x0D" for e r
    using hd_dropWhile[of "\<lambda>c. c = CHR 0x0D" "sf_FilePtr ps"] by force
  have "unread ps' = tl (unread ps) \<and> (unread ps = [] \<longrightarrow> c = None) \<and>
      (\<forall>d r. unread ps = d # r \<longrightarrow> c = (if d = CHR 0xFF then None else Some d))"
    using assms h unfolding u
    by (cases "dropWhile (\<lambda>c. c = CHR 0x0D) (sf_FilePtr ps)")
      (auto simp: ReadCharacter_def unread_def simp del: dropWhile_eq_Nil_conv)
  then show "unread ps' = tl (unread ps)" "unread ps = [] \<Longrightarrow> c = None" "unread ps = d # r \<Longrightarrow> c = (if d = CHR 0xFF then None else Some d)"
    by blast+
qed

lemma read_suffix:
  assumes "ReadCharacter ps = (c, ps')"
  shows "suffix (at_hand c ps') (unread ps)" "suffix (unread ps') (unread ps)" "unread ps \<noteq> [] \<Longrightarrow> length (unread ps') < length (unread ps)"
  using ReadCharacter_unread[OF assms] by (cases "unread ps"; auto simp: at_hand_def suffix_def)+

text \<open>Reading on from a character at hand: less is left.\<close>

lemma read_less:
  assumes "ReadCharacter ps = (c', ps')"
  shows "length (at_hand c' ps') < length (at_hand (Some d) ps)" "suffix (at_hand c' ps') (at_hand (Some d) ps)"
proof -
  have "suffix (at_hand c' ps') (unread ps)" by (rule read_suffix(1)[OF assms])
  then show "length (at_hand c' ps') < length (at_hand (Some d) ps)" "suffix (at_hand c' ps') (at_hand (Some d) ps)"
    using suffix_length_le by (fastforce simp: at_hand_def suffix_def)+
qed

lemma unread_at_hand [simp]: "suffix (unread ps) (at_hand c ps)"
  by (auto simp: at_hand_def suffix_def)

section \<open>The loops over the text\<close>

abbreviation (input) "left_of c ps \<equiv> (\<lambda>(c', ps'). suffix (at_hand c' ps') (at_hand c ps) \<and> suffix (unread ps') (unread ps))"

lemma ends_left:
  assumes "ends m (left_of c' ps')" "ReadCharacter ps = (c', ps')"
  shows "ends m (left_of (Some d) ps)"
  using assms(1) read_less(2)[OF assms(2), of d] read_suffix(2)[OF assms(2)]
  by (elim ends_mono) (auto dest: suffix_order.trans)

lemma ends_unread: "ends m (\<lambda>(r, ps). suffix (unread ps) t) \<Longrightarrow> suffix t t' \<Longrightarrow> ends m (\<lambda>(r, ps). suffix (unread ps) t')"
  by (erule ends_mono) (auto dest: suffix_order.trans)

lemma skip_white_ends: "grows f \<Longrightarrow> ends (\<lambda>n. skip_white (f n) c ps) (left_of c ps)"
proof (induction "length (at_hand c ps)" arbitrary: c ps f rule: less_induct)
  case less
  obtain c' ps' where r: "ReadCharacter ps = (c', ps')" by (cases "ReadCharacter ps")
  have on: "ends (\<lambda>n. skip_white (f n - 1) c' ps') (left_of c ps)" if "c = Some d" for d
    unfolding that by (rule ends_left[OF less.hyps[OF read_less(1)[OF r, of d, folded that] grows_less[OF less.prems]] r])
  show ?case by (rule ends_round[where m = "\<lambda>_ k. skip_white k c ps", OF less.prems]) (use on in \<open>auto simp: r\<close>)
qed

lemma skip_line_ends: "grows f \<Longrightarrow> ends (\<lambda>n. skip_line (f n) c ps) (left_of c ps)"
proof (induction "length (at_hand c ps)" arbitrary: c ps f rule: less_induct)
  case less
  obtain c' ps' where r: "ReadCharacter ps = (c', ps')" by (cases "ReadCharacter ps")
  have on: "ends (\<lambda>n. skip_line (f n - 1) c' ps') (left_of c ps)" if "c = Some d" for d
    unfolding that by (rule ends_left[OF less.hyps[OF read_less(1)[OF r, of d, folded that] grows_less[OF less.prems]] r])
  show ?case by (rule ends_round[where m = "\<lambda>_ k. skip_line k c ps", OF less.prems]) (use on in \<open>cases c; auto simp: r\<close>)
qed

text \<open>The character the loop over a comment takes a missing one for.\<close>

abbreviation (input) "star_or c \<equiv> (case c of None \<Rightarrow> CHR ''*'' | Some d \<Rightarrow> d)"

lemma sublist_end_mark: "sublist ''*/'' (d # e # r) \<longleftrightarrow> (d = CHR ''*'' \<and> e = CHR ''/'') \<or> sublist ''*/'' (e # r)"
  by (auto simp: sublist_Cons_right)

lemma skip_comment_ends:
  "grows f \<Longrightarrow> sublist ''*/'' (star_or c # unread ps) \<Longrightarrow> ends (\<lambda>n. skip_comment (f n) c ps) (\<lambda>ps'. suffix (unread ps') (unread ps))"
proof (induction "length (unread ps)" arbitrary: c ps f rule: less_induct)
  case less
  obtain c' ps' where r: "ReadCharacter ps = (c', ps')" by (cases "ReadCharacter ps")
  obtain e u where u: "unread ps = e # u" using less.prems(2) by (cases "unread ps") (auto simp: sublist_Cons_right)
  have c': "c' = (if e = CHR 0xFF then None else Some e)" "unread ps' = u" using ReadCharacter_unread[OF r] u by auto
  have on: "ends (\<lambda>n. skip_comment (f n - 1) c' ps') (\<lambda>ps'. suffix (unread ps') (unread ps))"
    if "\<not> (star_or c = CHR ''*'' \<and> c' = Some CHR ''/'')"
  proof (rule ends_mono[OF less.hyps])
    have "sublist ''*/'' (e # u)" using less.prems(2) that c'(1) unfolding u sublist_end_mark by auto
    then show "sublist ''*/'' (star_or c' # unread ps')" unfolding c' by (auto simp: sublist_Cons_right)
  qed (use less.prems in \<open>auto simp: c' u suffix_def\<close>)
  show ?case by (rule ends_round[where m = "\<lambda>_ k. skip_comment k c ps", OF less.prems(1)]) (use on in \<open>cases c; auto simp: r c' u suffix_def\<close>)
qed

text \<open>The star after a slash at hand.\<close>

lemma comment_at_hand:
  assumes "comments_close (CHR ''/'' # unread ps)" "ReadCharacter ps = (Some CHR ''*'', ps')"
  shows "sublist ''*/'' (CHR ''*'' # unread ps')"
proof -
  obtain r where "unread ps = CHR ''*'' # r" "unread ps' = r"
    using ReadCharacter_unread[OF assms(2)] by (cases "unread ps") (auto split: if_split_asm)
  then show ?thesis using assms(1) unfolding comments_close_def by simp
qed

lemma text_line_ends:
  "grows f \<Longrightarrow> comments_close (at_hand c ps) \<Longrightarrow> \<not> (comment \<and> cont) \<Longrightarrow>
    (comment \<Longrightarrow> c = Some CHR ''*'' \<Longrightarrow> sublist ''*/'' (CHR ''*'' # unread ps)) \<Longrightarrow>
    ends (\<lambda>n. text_line (f n) M c dst comment quote cont ps) (\<lambda>(r, ps'). suffix (unread ps') (unread ps))"
proof (induction "length (at_hand c ps)" arbitrary: c dst comment quote cont ps f rule: less_induct)
  case less
  let ?post = "\<lambda>(r :: (string \<times> char option \<times> bool) option, ps'). suffix (unread ps') (unread ps)"
  note f = less.prems(1) grows_less[OF less.prems(1)]
  note close = less.prems(2)
  show ?case
  proof (cases c)
    case None
    show ?thesis by (rule ends_round[where m = "\<lambda>_ k. text_line k M c dst comment quote cont ps", OF f(1)]) (use None in \<open>simp add: Let_def at_hand_def\<close>)
  next
    case (Some d)
    obtain c' ps' where r: "ReadCharacter ps = (c', ps')" by (cases "ReadCharacter ps")
    note l = read_less[OF r, of d, folded Some]
    have next': "ends (\<lambda>n. text_line (f n - 1) M c' dst' com quo con ps') ?post"
      if "com \<longrightarrow> d = CHR ''/''" "\<not> (com \<and> con)" for dst' com quo con
    proof (rule ends_unread[OF less.hyps[OF l(1) f(2)] read_suffix(2)[OF r]])
      show "\<not> (com \<and> con)" by (rule that)
      show "comments_close (at_hand c' ps')" by (rule comments_close_suffix[OF close l(2)])
      show "sublist ''*/'' (CHR ''*'' # unread ps')" if "com" "c' = Some CHR ''*''"
        using comment_at_hand close r that \<open>com \<longrightarrow> d = CHR ''/''\<close> by (simp add: Some at_hand_def)
    qed
    have after: "ends (\<lambda>n. case skip_comment (f n - Suc 0) c ps of
         Ret ps \<Rightarrow> (let (c, ps) = ReadCharacter ps in text_line (f n - Suc 0) M c (butlast dst) False quo cont ps)
       | Stuck \<Rightarrow> Stuck | Fuel \<Rightarrow> Fuel) ?post" if "comment" "d = CHR ''*''" for quo
    proof (rule ends_bind[OF skip_comment_ends[OF f(2)[unfolded One_nat_def]]])
      show "sublist ''*/'' (star_or c # unread ps)" using less.prems(4) that by (simp add: Some)
    next
      fix ps1 assume s: "suffix (unread ps1) (unread ps)"
      obtain c2 ps2 where r2: "ReadCharacter ps1 = (c2, ps2)" by (cases "ReadCharacter ps1")
      have s2: "suffix (at_hand c2 ps2) (unread ps)" using read_suffix(1)[OF r2] s by (rule suffix_order.trans)
      then have s3: "suffix (at_hand c2 ps2) (at_hand c ps)" "length (at_hand c2 ps2) < length (at_hand c ps)"
        using suffix_length_le[OF s2] by (auto simp: Some at_hand_def suffix_def)
      note less.hyps[OF s3(2) f(2)[unfolded One_nat_def] comments_close_suffix[OF close s3(1)], of False]
      then show "ends (\<lambda>n. let (c, ps) = ReadCharacter ps1 in text_line (f n - Suc 0) M c (butlast dst) False quo cont ps) ?post"
        by (simp add: r2 ends_unread[OF _ suffix_order.trans[OF read_suffix(2)[OF r2] s]])
    qed
    have goes_on: "d = CHR 0x0A \<Longrightarrow> cont \<Longrightarrow> ends (\<lambda>n. text_line (f n - Suc 0) M c' (butlast dst) (\<not> quo \<and> comment) quo False ps') ?post" for quo
      using next' less.prems(3) by simp
    have line: "ends (\<lambda>n. case skip_line (f n - 1) c ps of
        Ret (c', ps) \<Rightarrow> Ret (Some (dst', c', quo), ps) | Stuck \<Rightarrow> Stuck | Fuel \<Rightarrow> Fuel) ?post" for dst' quo
      by (rule ends_bind[OF skip_line_ends[OF f(2)]]) auto
    show ?thesis
      by (rule ends_round[where m = "\<lambda>_ k. text_line k M c dst comment quote cont ps", OF f(1)]) (use next' goes_on after line in \<open>simp add: Some Let_def r\<close>)
  qed
qed

section \<open>Lines of text\<close>

lemma GetTextLine_ends:
  assumes "grows f" "comments_close (unread ps)"
  shows "ends (\<lambda>n. GetTextLine (f n) M ps s) (\<lambda>(r, ps', s'). (s' = s \<or> s' = rep REP_ERROR s) \<and> suffix (unread ps') (unread ps) \<and>
    (length (unread ps') < length (unread ps) \<or> unread ps = [] \<and> r = Some ([], True)))"
proof -
  obtain c ps1 where r: "ReadCharacter ps = (c, ps1)" by (cases "ReadCharacter ps")
  note u = ReadCharacter_unread[OF r]
  show ?thesis
  proof (cases "unread ps = []")
    case True
    then have c: "c = None" "unread ps1 = []" using u(1,2) by simp_all
    have w: "ends (\<lambda>n. skip_white (f n) c ps1) (\<lambda>x. x = (None, ps1))"
      by (rule ends_round[where m = "\<lambda>_ k. skip_white k c ps1", OF assms(1)]) (simp add: c)
    have t: "ends (\<lambda>n. text_line (f n) M None [] False False False ps1) (\<lambda>x. x = (Some ([], None, False), ps1))"
      by (rule ends_round[where m = "\<lambda>_ k. text_line k M None [] False False False ps1", OF assms(1)]) (simp add: Let_def)
    show ?thesis
      unfolding GetTextLine_def r prod.case
      by (rule ends_bind[OF w]) (auto intro!: ends_bind[OF t] simp: True c Let_def)
  next
    case False
    have l: "length (unread ps1) < length (unread ps)" by (rule read_suffix(3)[OF r False])
    have p: "suffix (unread ps') (unread ps) \<and> length (unread ps') < length (unread ps)" if "suffix (unread ps') (unread ps1)" for ps'
      using l suffix_length_le[OF that] suffix_order.trans[OF that read_suffix(2)[OF r]] by simp
    have t: "ends (\<lambda>n. case text_line (f n) M c' [] False False False ps' of
             Ret (None, ps) \<Rightarrow> Ret (None, ps, rep REP_ERROR s)
           | Ret (Some (dst, c, quote), ps) \<Rightarrow>
               (let dst = rev (dropWhile blank (rev dst)) in
                Ret (Some (dst, dst = [] \<and> c = None), ps, if quote then rep REP_ERROR s else s))
           | Stuck \<Rightarrow> Stuck | Fuel \<Rightarrow> Fuel) (\<lambda>(r, ps', s'). (s' = s \<or> s' = rep REP_ERROR s) \<and> suffix (unread ps') (unread ps) \<and>
      (length (unread ps') < length (unread ps) \<or> unread ps = [] \<and> r = Some ([], True)))"
      if "left_of c ps1 (c', ps')" for c' ps'
    proof (rule ends_bind[OF text_line_ends[OF assms(1)]])
      have "suffix (at_hand c' ps') (unread ps)" using that read_suffix(1)[OF r] by (auto dest: suffix_order.trans)
      then show "comments_close (at_hand c' ps')" by (rule comments_close_suffix[OF assms(2)])
      fix x :: "(string \<times> char option \<times> bool) option \<times> SOURCEFILE" assume "case x of (r, ps'') \<Rightarrow> suffix (unread ps'') (unread ps')"
      then show "ends (\<lambda>n. case x of (None, ps) \<Rightarrow> Ret (None, ps, rep REP_ERROR s)
           | (Some (dst, c, quote), ps) \<Rightarrow>
               (let dst = rev (dropWhile blank (rev dst)) in
                Ret (Some (dst, dst = [] \<and> c = None), ps, if quote then rep REP_ERROR s else s)))
          (\<lambda>(r, ps', s'). (s' = s \<or> s' = rep REP_ERROR s) \<and> suffix (unread ps') (unread ps) \<and>
            (length (unread ps') < length (unread ps) \<or> unread ps = [] \<and> r = Some ([], True)))"
        using that p suffix_order.trans by (fastforce simp: Let_def split: option.split)
    qed simp_all
    show ?thesis
      unfolding GetTextLine_def r prod.case by (rule ends_bind[OF skip_white_ends[OF assms(1)]]) (use t in auto)
  qed
qed

end
