(* ===== verification/Pasm_Inv.thy ===== *)
theory Pasm_Inv
  imports Pasm_Driver
begin

text \<open>
  Invariants of the whole assembler. The locale \<open>assembler_invariant\<close> states what a predicate on the state has to survive:
  each operation of the tables, the encoder and the preprocessor on its own. Inside it the predicate is shown to survive
  everything the driver composes of them: directives and includes, macros and their expansion, source lines, source files
  and both passes.
\<close>

section \<open>Runs that keep a predicate\<close>

definition keeps :: "('s \<Rightarrow> bool) \<Rightarrow> ('a \<times> 's) exec \<Rightarrow> bool" where
  "keeps I m \<longleftrightarrow> (\<forall>r s. m = Ret (r, s) \<longrightarrow> I s)"

definition keeps_file :: "(pasm \<Rightarrow> bool) \<Rightarrow> 'a fstep \<Rightarrow> bool" where
  "keeps_file I m \<longleftrightarrow> (\<forall>r ps s. m = Ret (r, ps, s) \<longrightarrow> I s)"

lemma keeps_simps [simp]: "keeps I (Ret (r, s)) = I s" "keeps I Stuck" "keeps I Fuel"
  by (auto simp: keeps_def)

lemma keeps_file_simps [simp]: "keeps_file I (Ret (r, ps, s)) = I s" "keeps_file I Stuck" "keeps_file I Fuel"
  by (auto simp: keeps_file_def)

lemma keepsD: "keeps I m \<Longrightarrow> m = Ret (r, s) \<Longrightarrow> I s"
  by (simp add: keeps_def)

lemma keeps_fileD: "keeps_file I m \<Longrightarrow> m = Ret (r, ps, s) \<Longrightarrow> I s"
  by (simp add: keeps_file_def)

lemma keeps_bind: "keeps I m \<Longrightarrow> (\<And>r s. I s \<Longrightarrow> keeps J (k (r, s))) \<Longrightarrow>
    keeps J (case m of Stuck \<Rightarrow> Stuck | Fuel \<Rightarrow> Fuel | Ret x \<Rightarrow> k x)"
  by (cases m) (auto simp: keeps_def)

lemma keeps_file_bind: "keeps I m \<Longrightarrow> (\<And>r s. I s \<Longrightarrow> keeps_file J (k (r, s))) \<Longrightarrow>
    keeps_file J (case m of Stuck \<Rightarrow> Stuck | Fuel \<Rightarrow> Fuel | Ret x \<Rightarrow> k x)"
  by (cases m) (auto simp: keeps_def)

lemma file_keeps_bind: "keeps_file I m \<Longrightarrow> (\<And>r ps s. I s \<Longrightarrow> keeps J (k (r, ps, s))) \<Longrightarrow>
    keeps J (case m of Stuck \<Rightarrow> Stuck | Fuel \<Rightarrow> Fuel | Ret x \<Rightarrow> k x)"
  by (cases m) (auto simp: keeps_file_def)

lemma file_bind: "keeps_file I m \<Longrightarrow> (\<And>r ps s. I s \<Longrightarrow> keeps_file J (k (r, ps, s))) \<Longrightarrow>
    keeps_file J (case m of Stuck \<Rightarrow> Stuck | Fuel \<Rightarrow> Fuel | Ret x \<Rightarrow> k x)"
  by (cases m) (auto simp: keeps_file_def)

lemma keeps_andThen: "keeps I m \<Longrightarrow> (\<And>a s. I s \<Longrightarrow> keeps I (k a s)) \<Longrightarrow> keeps I (andThen m k)"
  by (auto simp: keeps_def andThen_Ret)

lemma keeps_if: "(b \<Longrightarrow> keeps I x) \<Longrightarrow> (\<not> b \<Longrightarrow> keeps I y) \<Longrightarrow> keeps I (if b then x else y)"
  by simp

lemmas binds = keeps_bind keeps_file_bind file_keeps_bind file_bind

section \<open>The contract\<close>

locale assembler_invariant =
  fixes I :: "pasm \<Rightarrow> bool"
  assumes report: "I s \<Longrightarrow> I (rep l s)"
    and flags: "I s \<Longrightarrow> I (s\<lparr>ccStateFlags := cc\<rparr>)"
    and source_table: "I s \<Longrightarrow> I (s\<lparr>sfArray := sf\<rparr>)" "I s \<Longrightarrow> I (s\<lparr>OpenFiles := k\<rparr>)"
    and equate_create: "I s \<Longrightarrow> keeps I (EquateCreate name val s)"
    and equate_define: "I s \<Longrightarrow> keeps I (EquateProcess src s)"
    and equate_undefine: "I s \<Longrightarrow> keeps I (UndefProcess src s)"
    and label: "I s \<Longrightarrow> keeps I (LabelCreate lab v s)"
    and offset: "I s \<Longrightarrow> ValidateOffset ps (core s) = Ret (b, st) \<Longrightarrow> I (s\<lparr>core := st\<rparr>)"
    and gen: "I s \<Longrightarrow> keeps I (on_core (gen_ok ps w) s)"
    and opcode: "I s \<Longrightarrow> keeps I (on_core (ProcessOp ps terms) s)"
    and dot: "I s \<Longrightarrow> keeps I (plain_dot ps i terms s)"
    and parameter: "I s \<Longrightarrow> keeps I (StructParamProcess t s)"
    and macro_create: "I s \<Longrightarrow> keeps I (MacroCreate name s)"
    and macro_change: "I s \<Longrightarrow> (\<And>m. mc_Name m = name \<Longrightarrow> mc_Name (f m) = name) \<Longrightarrow> I (macro_update name f s)"
    and pass_begin: "I s \<Longrightarrow> I (begin_pass s)"
    and struct_init: "I s \<Longrightarrow> keeps I (StructInit s)"
    and clean: "I s \<Longrightarrow> I (ppCleanup s)" "I s \<Longrightarrow> keeps I (StructCleanup s)" "I s \<Longrightarrow> I (MacroCleanup s)"
    and offset_error: "I s \<Longrightarrow> I (s\<lparr>core := (core s)\<lparr>Errors := Errors (core s) + 1\<rparr>\<rparr>)"
begin

section \<open>Text and directives\<close>

lemma reports: "I s \<Longrightarrow> I ((rep l ^^ n) s)"
  by (induction n) (simp_all add: report)

lemma parse_source: "I s \<Longrightarrow> keeps I (ParseSource src k s)"
  by (simp add: ParseSource_def reports split: prod.split)

lemma text_line: "I s \<Longrightarrow> keeps_file I (GetTextLine n k ps s)"
  by (auto simp: GetTextLine_def report Let_def split: prod.split exec.split option.split)

lemma parse_line: "I s \<Longrightarrow> keeps I (ParseSourceLine src s)"
  by (simp add: ParseSourceLine_def report split: option.split)

lemma open_found: "I s \<Longrightarrow> keeps I (case readable fs name of
      None \<Rightarrow> Ret (None, rep REP_FATAL s) | Some body \<Rightarrow> Ret (Some (f body), s\<lparr>OpenFiles := k\<rparr>))"
  by (simp add: report source_table split: option.split)

lemma open_source_keeps: "I s \<Longrightarrow> keeps I (open_source fs name s)"
  unfolding open_source_def Let_def
  by (cases "get_dirname name SOURCE_BASE_DIR"; cases "get_basename name SOURCE_NAME")
    (simp_all add: report open_found[OF source_table(1)] split: option.split)

lemma open_file: "I s \<Longrightarrow> keeps I (InitSourceFile fs name inc s)"
proof -
  assume i: "I s"
  have k: "keeps I (andThen (open_source fs f s) (\<lambda>ps s. Ret (Some ps, if 10 < OpenFiles s then rep REP_WARN1 s else s)))" for f
    by (rule keeps_andThen[OF open_source_keeps[OF i]]) (simp add: report)
  show ?thesis
    unfolding InitSourceFile_def using i by (simp add: report k split: exec.split prod.split)
qed

lemma close_file: "I s \<Longrightarrow> I (CloseSourceFile ps s)"
  using source_table(1)[OF source_table(2), of s] by (simp add: CloseSourceFile_def Let_def)

lemma conditionals: "I s \<Longrightarrow> keeps I (IfDefProcess src b s)" "I s \<Longrightarrow> keeps I (ElseProcess src s)" "I s \<Longrightarrow> keeps I (EndifProcess src s)"
  by (simp_all add: IfDefProcess_def ElseProcess_def EndifProcess_def report flags Let_def)

lemma load_include:
  assumes "\<And>ps s. I s \<Longrightarrow> keeps_file I (file ps s)" "I s"
  shows "keeps I (LoadInclude fs file src ps s)"
proof -
  have "keeps I (case InitSourceFile fs name inc s of
      Ret (None, s) \<Rightarrow> Ret (False, s)
    | Ret (Some ps', s) \<Rightarrow> (case file ps' s of Ret (r, ps', s) \<Rightarrow> Ret (r \<or> Pass (core s) \<noteq> 2, CloseSourceFile ps' s) | Stuck \<Rightarrow> Stuck | Fuel \<Rightarrow> Fuel)
    | Stuck \<Rightarrow> Stuck | Fuel \<Rightarrow> Fuel)" for name inc
    by (rule keeps_bind[OF open_file[OF assms(2)]])
      (auto split: option.split intro!: file_keeps_bind[OF assms(1)] close_file)
  then show ?thesis
    unfolding LoadInclude_def Let_def using assms(2) by (auto simp: report split: option.split)
qed

lemma directive_keeps:
  assumes "\<And>src ps s. I s \<Longrightarrow> keeps I (load src ps s)" "I s"
  shows "keeps I (directive load src ps s)"
proof -
  have r: "keeps I m \<Longrightarrow> keeps I (case m of Stuck \<Rightarrow> Stuck | Fuel \<Rightarrow> Fuel | Ret x \<Rightarrow> Ret (g (fst x), snd x))"
    for m :: "('b \<times> pasm) exec" and g :: "'b \<Rightarrow> bool"
    by (erule keeps_bind) simp
  show ?thesis
    unfolding directive_def Let_def case_prod_unfold
    by (intro keeps_if r conditionals equate_define equate_undefine assms) (simp_all add: report assms(2))
qed

lemma source_line:
  assumes "\<And>src ps s. I s \<Longrightarrow> keeps I (load src ps s)"
  shows "I s \<Longrightarrow> keeps_file I (GetSourceLine load k n ps s)"
proof (induction n arbitrary: ps s)
  case (Suc n)
  show ?case
    unfolding GetSourceLine.simps
    by (rule file_bind[OF text_line[OF Suc.prems]])
      (auto intro!: keeps_file_bind[OF directive_keeps[OF assms]] keeps_file_bind[OF parse_source] Suc.IH
        simp: report split: option.split bool.split prod.split)
qed simp

section \<open>Macros\<close>

lemma macro_args_keep: "I s \<Longrightarrow> keeps I (macro_args name ts s)"
proof (induction ts arbitrary: s)
  case (Cons t ts)
  show ?case
  proof (cases "MacroFind name s")
    case (Some m)
    show ?thesis
    proof (cases "MacroAddArg t m")
      case (Ret x)
      obtain m' bad where x: "x = (m', bad)" by (cases x)
      have "mc_Name m = name" using Some by (auto simp: MacroFind_def dest: find_name_SomeD)
      moreover have "mc_Name m' = mc_Name m"
        using Ret unfolding x MacroAddArg_def Let_def by (simp split: if_split_asm) auto
      ultimately have "I (macro_update name (\<lambda>_. m') s)" using Cons.prems by (intro macro_change) simp_all
      then show ?thesis using Some Ret x Cons.IH report by (simp add: Let_def)
    qed (use Some in simp_all)
  qed simp
qed simp

lemma macro_line_keeps: "I s \<Longrightarrow> keeps I (macro_line name src sl s)"
  unfolding macro_line_def
  by (rule keeps_andThen)
    (auto simp: macro_label_def macro_code_def report macro_change intro!: keeps_andThen macro_args_keep split: option.split)

lemma macro_lines_keep:
  assumes "\<And>ps s. I s \<Longrightarrow> keeps_file I (get ps s)"
  shows "I s \<Longrightarrow> keeps_file I (macro_lines get n name ps s)"
proof (induction n arbitrary: ps s)
  case (Suc n)
  show ?case
    using Suc.prems unfolding macro_lines.simps
    by (auto intro!: file_bind[OF assms[OF Suc.prems]] keeps_file_bind[OF parse_line] keeps_file_bind[OF macro_line_keeps] Suc.IH
        simp: report split: option.split got.split bool.split)
qed simp

lemma macro_enter:
  assumes "\<And>ps s. I s \<Longrightarrow> keeps_file I (get ps s)" "I s"
  shows "keeps_file I (MacroEnter get n name ps s)"
  unfolding MacroEnter_def using assms(2)
  by (auto intro!: keeps_file_bind[OF macro_create] macro_lines_keep[OF assms(1)] simp: report split: option.split)

lemma macro_expand_keeps:
  assumes "\<And>src ps s. I s \<Longrightarrow> keeps_file I (line src ps s)"
  shows "I s \<Longrightarrow> keeps_file I (macro_expand line m terms codes ps s)"
proof (induction codes arbitrary: ps s)
  case (Cons c codes)
  show ?case
  proof (cases "macro_text m terms [] c []")
    case (Ret r)
    show ?thesis
    proof (cases r)
      case (Some src)
      show ?thesis
      proof (cases src)
        case (Cons x xs)
        have "keeps_file I (case line (x # xs) ps s of
            Ret (True, ps, s) \<Rightarrow> macro_expand line m terms codes ps s
          | Ret (False, ps, s) \<Rightarrow> Ret (False, ps, rep REP_ERROR s)
          | Stuck \<Rightarrow> Stuck | Fuel \<Rightarrow> Fuel)"
          by (rule file_bind[OF assms[OF Cons.prems]]) (auto simp: report Cons.IH split: bool.split)
        then show ?thesis using Ret Some Cons by simp
      qed (use Ret Some Cons in simp)
    qed (use Ret Cons in \<open>simp add: report\<close>)
  qed simp_all
qed simp

lemma process_macro:
  assumes "\<And>src ps s. I s \<Longrightarrow> keeps_file I (line src ps s)" "I s"
  shows "keeps_file I (ProcessMacro line terms ps s)"
proof (cases "MacroFind (terms ! 0) s")
  case (Some m)
  let ?m = "m\<lparr>mc_Expands := mc_Expands m + 1, mc_InUse := True\<rparr>"
  have i: "I (macro_update (mc_Name m) (\<lambda>_. ?m) s)" by (rule macro_change[OF assms(2)]) simp
  have "keeps_file I (case macro_expand line ?m terms (mc_Code ?m) ps (macro_update (mc_Name ?m) (\<lambda>_. ?m) s) of
      Ret (r, ps, s) \<Rightarrow> Ret (r, ps, macro_update (mc_Name ?m) (\<lambda>m. m\<lparr>mc_InUse := False\<rparr>) s)
    | Stuck \<Rightarrow> Stuck | Fuel \<Rightarrow> Fuel)"
    by (rule file_bind[OF macro_expand_keeps[OF assms(1)]]) (use i in \<open>auto simp: macro_change\<close>)
  then show ?thesis using Some assms(2) unfolding ProcessMacro_def Let_def by (simp add: report)
qed (use assms(2) in \<open>simp add: ProcessMacro_def\<close>)

section \<open>Lines, files and passes\<close>

lemma struct_params_keep: "I s \<Longrightarrow> keeps I (struct_params ts s)"
proof (induction ts arbitrary: s)
  case (Cons t ts)
  show ?case
    unfolding struct_params.simps
    by (rule keeps_bind[OF parameter[OF Cons.prems]]) (auto simp: report intro!: keeps_andThen Cons.IH split: option.split)
qed simp

lemma line_label_keeps: "I s \<Longrightarrow> keeps I (line_label ps lab s)"
proof (cases lab)
  case (Some l)
  assume i: "I s"
  show ?thesis
  proof (cases "ValidateOffset ps (core s)")
    case (Ret x)
    obtain b st where x: "x = (b, st)" by (cases x)
    have "I (s\<lparr>core := st\<rparr>)" by (rule offset[OF i Ret[unfolded x]])
    then show ?thesis
      unfolding line_label_def Some option.case Ret x exec.case prod.case
      by (cases b) (auto simp: Let_def intro!: keeps_bind[OF label])
  qed (simp_all add: line_label_def Some)
qed (simp add: line_label_def)

lemma line_op_keeps: "I s \<Longrightarrow> keeps I (line_op ps terms s)"
  unfolding line_op_def by (rule keeps_bind[OF opcode]) (auto intro!: keeps_bind[OF gen] split: option.split)

lemma keep_file_keeps: "keeps I m \<Longrightarrow> keeps_file I (keep_file ps m)"
  unfolding keep_file_def by (erule keeps_file_bind) simp

lemma dot_command:
  assumes "\<And>name ps s. I s \<Longrightarrow> keeps_file I (enter name ps s)" "I s"
  shows "keeps_file I (DotCommand enter terms ps s)"
  unfolding DotCommand_def Let_def using assms(2)
  by (auto intro!: keep_file_keeps dot file_bind[OF assms(1)] simp: report)

lemma line_command_keeps:
  assumes line: "\<And>src ps s. I s \<Longrightarrow> keeps_file I (line src ps s)"
    and enter: "\<And>name ps s. I s \<Longrightarrow> keeps_file I (enter name ps s)" and i: "I s"
  shows "keeps_file I (line_command line enter dot terms ps s)"
proof -
  have "keeps_file I (case DotCommand enter terms ps s of
          Ret (None, ps, s) \<Rightarrow> Ret (False, ps, s)
        | Ret (Some None, ps, s) \<Rightarrow> Ret (True, ps, s)
        | Ret (Some (Some src), ps, s) \<Rightarrow> line src ps s
        | Stuck \<Rightarrow> Stuck | Fuel \<Rightarrow> Fuel)"
    by (rule file_bind[OF dot_command[OF enter i]]) (auto intro!: line split: option.split)
  moreover have "keeps_file I (ProcessMacro line terms ps s)" by (rule process_macro[OF line i])
  moreover have "keeps_file I (case line_op ps terms s of Ret (r, s) \<Rightarrow> Ret (r, ps, s) | Stuck \<Rightarrow> Stuck | Fuel \<Rightarrow> Fuel)"
    by (rule keeps_file_bind[OF line_op_keeps[OF i]]) simp
  ultimately show ?thesis by (simp add: line_command_def)
qed

lemma line_terms_keep: "I s \<Longrightarrow> keeps I (line_terms ts s)"
  by (simp add: line_terms_def struct_params_keep)

lemma line_rest_keeps:
  assumes line: "\<And>src ps s. I s \<Longrightarrow> keeps_file I (line src ps s)"
    and enter: "\<And>name ps s. I s \<Longrightarrow> keeps_file I (enter name ps s)" and i: "I s"
  shows "keeps_file I (line_rest line enter sl ps s)"
  unfolding line_rest_def using i
  by (auto intro!: keeps_file_bind[OF line_terms_keep] line_command_keeps[OF line enter] split: option.split)

lemma line_step_keeps:
  assumes line: "\<And>src ps s. I s \<Longrightarrow> keeps_file I (line src ps s)"
    and enter: "\<And>name ps s. I s \<Longrightarrow> keeps_file I (enter name ps s)" and i: "I s"
  shows "keeps_file I (line_step line enter src ps s)"
  unfolding line_step_def
  by (rule keeps_file_bind[OF parse_line[OF i]])
    (auto intro!: keeps_file_bind[OF line_label_keeps] line_rest_keeps[OF line enter] split: option.split)

lemma file_loop_keeps:
  assumes get: "\<And>ps s. I s \<Longrightarrow> keeps_file I (get ps s)" and line: "\<And>src ps s. I s \<Longrightarrow> keeps_file I (line src ps s)"
  shows "I s \<Longrightarrow> keeps_file I (file_loop get line n ps s)"
proof (induction n arbitrary: ps s)
  case (Suc n)
  show ?case
    unfolding file_loop.simps using Suc.prems
    by (auto intro!: file_bind[OF get[OF Suc.prems]] file_bind[OF line] Suc.IH split: got.split)
qed simp

lemma process_source:
  "(\<forall>src ps s. I s \<longrightarrow> keeps_file I (ProcessSourceLine fs n src ps s)) \<and> (\<forall>ps s. I s \<longrightarrow> keeps_file I (ProcessSourceFile fs n ps s))"
proof (induction n)
  case (Suc n)
  have line: "I s \<Longrightarrow> keeps_file I (ProcessSourceLine fs n src ps s)" and sfile: "I s \<Longrightarrow> keeps_file I (ProcessSourceFile fs n ps s)"
    for src ps s using Suc by blast+
  have get: "I s \<Longrightarrow> keeps_file I (GetSourceLine (LoadInclude fs (ProcessSourceFile fs n)) k n ps s)" for k ps s
    by (rule source_line) (rule load_include[OF sfile])
  have "I s \<Longrightarrow> keeps_file I (ProcessSourceLine fs (Suc n) src ps s)" for src ps s
    unfolding ProcessSourceLine.simps by (rule line_step_keeps[OF line macro_enter[OF get]])
  moreover have "I s \<Longrightarrow> keeps_file I (ProcessSourceFile fs (Suc n) ps s)" for ps s
    unfolding ProcessSourceFile.simps by (rule file_loop_keeps[OF get line])
  ultimately show ?case by blast
qed simp

lemmas source_line_keeps = process_source[THEN conjunct1, rule_format]
lemmas source_file_keeps = process_source[THEN conjunct2, rule_format]

lemma create_equates_keep: "I s \<Longrightarrow> create_equates eqs s = Ret s' \<Longrightarrow> I s'"
proof (induction eqs s rule: create_equates.induct)
  case (2 name val eqs s)
  from "2.prems"(2) obtain r s1 where s1: "EquateCreate name val s = Ret (r, s1)" "create_equates eqs s1 = Ret s'"
    by (auto split: exec.splits)
  then show ?case using "2.IH"[OF s1(1) refl] keepsD[OF equate_create[OF "2.prems"(1)] s1(1)] by blast
qed simp

lemma end_pass_keeps: "I s \<Longrightarrow> end_pass s = Ret s' \<Longrightarrow> I s'"
  using clean(2)[OF clean(1), of s] clean(3) by (auto simp: end_pass_def keeps_def split: exec.splits prod.splits)

lemma run_pass_keeps:
  assumes "I s"
  shows "keeps I (run_pass fs n eqs infile s)"
proof (cases "create_equates eqs (begin_pass s)")
  case (Ret s1)
  have i: "I s1" by (rule create_equates_keep[OF pass_begin[OF assms] Ret])
  have e: "keeps I (case end_pass (CloseSourceFile ps s) of Ret s \<Rightarrow> Ret (True, s) | Stuck \<Rightarrow> Stuck | Fuel \<Rightarrow> Fuel)" if "I s" for ps s
    using end_pass_keeps[OF close_file[OF that, of ps]] by (auto split: exec.split)
  show ?thesis
    unfolding run_pass_def Ret exec.case
    by (rule keeps_bind[OF struct_init[OF i]])
      (auto intro!: keeps_bind[OF open_file] file_keeps_bind[OF source_file_keeps] e split: option.split)
qed (simp_all add: run_pass_def)

lemma two_passes_keep:
  assumes "I s" "two_passes fs n eqs infile s = Ret s'"
  shows "I s'"
proof -
  have p: "keeps I (run_pass fs n eqs infile s)" by (rule run_pass_keeps[OF assms(1)])
  show ?thesis
    using assms(2) keepsD[OF p] keepsD[OF run_pass_keeps]
    by (auto simp: two_passes_def Let_def offset_error[simplified] split: exec.splits if_splits)
qed

end

end
