(* ===== verification/Pasm_Inv_Props.thy ===== *)
theory Pasm_Inv_Props
  imports Pasm_Inv Pasm_Op_Frame Pasm_Struct_Props
begin

text \<open>
  Two invariants of the whole assembler, as interpretations of the contract \<open>assembler_invariant\<close>: the image is whole and errors
  are never forgotten; and the tables do not share names.
\<close>

section \<open>The image and the error counts\<close>

text \<open>From \<open>e\<close> errors on: the image is whole, the errors are still counted, a fatal error is among them.\<close>

definition asm_ok :: "nat \<Rightarrow> asm \<Rightarrow> bool" where
  "asm_ok e st \<longleftrightarrow> image_ok st \<and> e \<le> Errors st \<and> (FatalError st \<longrightarrow> 0 < Errors st)"

lemma asm_ok_Report [simp]: "asm_ok e st \<Longrightarrow> asm_ok e (Report l st)"
  by (auto simp: asm_ok_def image_ok_def Report_def)

lemma asm_ok_error [simp]: "asm_ok e st \<Longrightarrow> asm_ok e (st\<lparr>Errors := Suc (Errors st)\<rparr>)"
  by (simp add: asm_ok_def image_ok_def)

lemma asm_ok_more: "asm_ok e st \<Longrightarrow> more st st' \<Longrightarrow> asm_ok e st'"
  by (auto simp: asm_ok_def more_def image_ok_def)

lemma asm_ok_simps [simp]: "asm_ok e (st\<lparr>EntryPoint := v\<rparr>) = asm_ok e st" "asm_ok e (st\<lparr>HaveEntry := b\<rparr>) = asm_ok e st"
  "asm_ok e (st\<lparr>RetRegValue := w, RetRegField := x, Options := y\<rparr>) = asm_ok e st"
  "asm_ok e (st\<lparr>pLabelList := ls\<rparr>) = asm_ok e st"
  "asm_ok e st \<Longrightarrow> -1 \<le> c \<Longrightarrow> asm_ok e (st\<lparr>CodeOffset := c\<rparr>)"
  by (auto simp: asm_ok_def image_ok_def)

lemma pLabelList_Report [simp]: "pLabelList (Report l st) = pLabelList st"
  by (simp add: Report_def)

lemma put_code_asm_ok: "put_code f ps w st = Ret st' \<Longrightarrow> asm_ok e st \<Longrightarrow> asm_ok e st' \<and> pLabelList st' = pLabelList st"
  by (cases "wr_at (ProgramImage st) (CodeOffset st) \<lparr>cg_Flags = f, cg_FileIndex = ucast (sf_FileIndex ps), cg_Line = sf_CurrentLine ps,
      cg_AddrOffset = word_of_int (CodeOffset st), cg_CodeWord = w\<rparr>")
    (auto simp: put_code_def asm_ok_def image_ok_def dest: wr_at_length)

lemma ValidateOffset_asm_ok:
  assumes "asm_ok e st" "ValidateOffset ps st = Ret (b, st')"
  shows "asm_ok e st' \<and> pLabelList st' = pLabelList st"
proof (cases "CodeOffset st = -1")
  case True
  let ?s = "if EntryPoint st < 0 then st\<lparr>CodeOffset := 8, EntryPoint := 8\<rparr> else st\<lparr>CodeOffset := 8\<rparr>"
  have s: "asm_ok e ?s" "pLabelList ?s = pLabelList st" using assms(1) by simp_all
  show ?thesis
  proof (cases "Core st = CORE_V0")
    case False
    then have "st' = Report REP_WARN1 ?s \<or> st' = Report REP_FATAL (Report REP_WARN1 ?s)"
      using assms(2) True by (simp add: ValidateOffset_def Let_def split: if_split_asm)
    then show ?thesis using s by auto
  next
    case C: True
    then obtain st1 where "put_code 1 ps 0x21000900 ?s = Ret st1" "st' = st1 \<or> st' = Report REP_FATAL st1"
      using assms(2) True by (simp add: ValidateOffset_def Let_def split: if_split_asm exec.split_asm)
    then show ?thesis using put_code_asm_ok[of 1 ps "0x21000900" ?s st1 e] s by auto
  qed
next
  case False
  then have "st' = st \<or> st' = Report REP_FATAL st" using assms(2) by (simp add: ValidateOffset_def split: if_split_asm)
  then show ?thesis using assms(1) by auto
qed

lemma GenOp_asm_ok:
  assumes "asm_ok e st" "GenOp ps w st = Ret st'"
  shows "asm_ok e st' \<and> pLabelList st' = pLabelList st"
proof -
  obtain b st1 where v: "ValidateOffset ps st = Ret (b, st1)" using assms(2) by (auto simp: GenOp_def split: exec.splits)
  note o' = ValidateOffset_asm_ok[OF assms(1) v]
  have "if b then put_code 3 ps w st1 = Ret st' else st1 = st'" using assms(2) v by (cases b) (simp_all add: GenOp_def)
  then show ?thesis using o' put_code_asm_ok[of 3 ps w st1 st' e] by (cases b) auto
qed

lemma gen_ok_asm_ok: "asm_ok e st \<Longrightarrow> gen_ok ps w st = Ret (r, st') \<Longrightarrow> asm_ok e st' \<and> pLabelList st' = pLabelList st"
  using GenOp_asm_ok[of e st ps w st'] by (simp add: gen_ok_def split: exec.split_asm)

interpretation sound: encoder_invariant "\<lambda>st. asm_ok e st \<and> pLabelList st = ls" for e ls
proof
  show "closed (\<lambda>st. asm_ok e st \<and> pLabelList st = ls)"
    by (auto simp: closed_def asm_ok_more) (auto simp: more_def)
  show "\<exists>st'. gen_ok ps w st = Ret (Some (), st') \<and> asm_ok e st' \<and> pLabelList st' = ls" if "asm_ok e st \<and> pLabelList st = ls" for st ps w
    using that gen_ok_Some[of st ps w] gen_ok_asm_ok[of e st ps w "Some ()"] by (auto simp: asm_ok_def)
qed

lemma ProcessOp_asm_ok:
  assumes "asm_ok e st" "ProcessOp ps terms st = Ret (r, st')"
  shows "asm_ok e st' \<and> pLabelList st' = pLabelList st"
  using sound.ProcessOp_emits[of e "pLabelList st" st ps terms] assms asm_ok_more[of e st st']
  by (cases r) (auto simp: emits_def more_def)

lemma reads_asm_ok:
  assumes "reads st m" "m = Ret (r, st')" "asm_ok e st"
  shows "asm_ok e st' \<and> pLabelList st' = pLabelList st"
  using assms asm_ok_more[of e st st'] by (auto simp: reads_def more_def)

section \<open>Operations that leave the names alone\<close>

text \<open>The image and the errors are in order, and the tables hold exactly the names \<open>ns\<close>.\<close>

definition steady :: "nat \<Rightarrow> string list \<Rightarrow> pasm \<Rightarrow> bool" where
  "steady e ns s \<longleftrightarrow> asm_ok e (core s) \<and> table_names s = ns"

definition pasm_ok :: "nat \<Rightarrow> pasm \<Rightarrow> bool" where
  "pasm_ok e s \<longleftrightarrow> asm_ok e (core s) \<and> distinct (table_names s)"

lemma pasm_ok_steady: "pasm_ok e s \<Longrightarrow> steady e (table_names s) s"
  by (simp add: pasm_ok_def steady_def)

lemma steady_pasm_ok: "pasm_ok e s \<Longrightarrow> (\<And>ns. steady e ns s \<Longrightarrow> keeps (steady e ns) m) \<Longrightarrow> keeps (pasm_ok e) m"
proof -
  assume ok: "pasm_ok e s" and "\<And>ns. steady e ns s \<Longrightarrow> keeps (steady e ns) m"
  then have k: "keeps (steady e (table_names s)) m" using pasm_ok_steady by blast
  show ?thesis using keepsD[OF k] ok by (auto simp: keeps_def steady_def pasm_ok_def)
qed

lemma steady_core: "steady e ns s \<Longrightarrow> asm_ok e st \<and> pLabelList st = pLabelList (core s) \<Longrightarrow> steady e ns (s\<lparr>core := st\<rparr>)"
  by (auto simp: steady_def table_names_def)

lemma steady_fields [simp]: "steady e ns (s\<lparr>ccStateFlags := cc\<rparr>) = steady e ns s" "steady e ns (s\<lparr>sfArray := sf\<rparr>) = steady e ns s"
  "steady e ns (s\<lparr>OpenFiles := k\<rparr>) = steady e ns s" "steady e ns (s\<lparr>pScopeCurrent := c\<rparr>) = steady e ns s"
  "steady e ns (s\<lparr>pStructCurrent := t\<rparr>) = steady e ns s"
  by (simp_all add: steady_def table_names_def)

lemma steady_rep [simp]: "steady e ns s \<Longrightarrow> steady e ns (rep l s)"
  unfolding rep_def by (rule steady_core) (auto simp: steady_def)

lemma steady_update [simp]:
  "(\<And>c. sc_Name (f c) = sc_Name c) \<Longrightarrow> steady e ns (s\<lparr>pScopeList := scope_update n f (pScopeList s)\<rparr>) = steady e ns s"
  "(\<And>t. st_Name (g t) = st_Name t) \<Longrightarrow> steady e ns (s\<lparr>pStructList := struct_update n g (pStructList s)\<rparr>) = steady e ns s"
proof -
  have "map sc_Name (scope_update n f cs) = map sc_Name cs" if "\<And>c. sc_Name (f c) = sc_Name c" for cs
    using that by (simp add: scope_update_def)
  moreover have "map st_Name (struct_update n g ts) = map st_Name ts" if "\<And>t. st_Name (g t) = st_Name t" for ts
    using that by (simp add: struct_update_def)
  ultimately show "(\<And>c. sc_Name (f c) = sc_Name c) \<Longrightarrow> steady e ns (s\<lparr>pScopeList := scope_update n f (pScopeList s)\<rparr>) = steady e ns s"
    "(\<And>t. st_Name (g t) = st_Name t) \<Longrightarrow> steady e ns (s\<lparr>pStructList := struct_update n g (pStructList s)\<rparr>) = steady e ns s"
    by (simp_all add: steady_def table_names_def)
qed

lemma on_core_steady:
  assumes "\<And>r st. m (core s) = Ret (r, st) \<Longrightarrow> asm_ok e (core s) \<Longrightarrow> asm_ok e st \<and> pLabelList st = pLabelList (core s)" "steady e ns s"
  shows "keeps (steady e ns) (on_core m s)"
proof (cases "m (core s)")
  case (Ret x)
  obtain r st where x: "x = (r, st)" by (cases x)
  have "asm_ok e (core s)" using assms(2) by (simp add: steady_def)
  from steady_core[OF assms(2) assms(1)[OF Ret[unfolded x] this]] show ?thesis using Ret x by (simp add: on_core_def)
qed (simp_all add: on_core_def)

lemma on_core_reads: "(\<And>st. reads st (m st)) \<Longrightarrow> steady e ns s \<Longrightarrow> keeps (steady e ns) (on_core m s)"
  by (rule on_core_steady) (auto dest: reads_asm_ok)

lemmas expression_steady = on_core_reads[of "operand_exp t" for t, OF operand_exp.reads]
lemmas register_steady = on_core_reads[of "GetRegister t fb c" for t fb c, OF GetRegister_reads]

lemma gen_steady: "steady e ns s \<Longrightarrow> keeps (steady e ns) (on_core (gen_ok ps w) s)"
  by (rule on_core_steady) (auto dest: gen_ok_asm_ok)

lemma opcode_steady: "steady e ns s \<Longrightarrow> keeps (steady e ns) (on_core (ProcessOp ps terms) s)"
  by (rule on_core_steady) (auto dest: ProcessOp_asm_ok)

lemma close_steady: "steady e ns s \<Longrightarrow> keeps (steady e ns) (ScopeClose n s)"
proof -
  assume "steady e ns s"
  moreover have "s\<lparr>pScopeList := cs, pScopeCurrent := c\<rparr> = s\<lparr>pScopeCurrent := c\<rparr>\<lparr>pScopeList := cs\<rparr>" for cs c by simp
  ultimately show ?thesis
    using steady_update(1)[of "\<lambda>c. c\<lparr>sc_Open := False\<rparr>" e ns n "s\<lparr>pScopeCurrent := c\<rparr>" for c]
    by (simp add: ScopeClose_def Let_def split: exec.split)
qed

lemma map_elems_steady: "steady e ns s \<Longrightarrow> keeps (steady e ns) (map_elems es off s)"
  by (induction es arbitrary: off s) (auto simp: GetRegname_def intro!: keeps_andThen)

lemma assign_create_steady: "steady e ns s \<Longrightarrow> keeps (steady e ns) (AssignCreate c a n s)"
  by (simp add: AssignCreate_def CheckName_def)

lemma assign_steady: "steady e ns s \<Longrightarrow> keeps (steady e ns) (StructAssign st rs re n s)"
  unfolding StructAssign_def Let_def
  by (auto intro!: keeps_andThen register_steady map_elems_steady assign_create_steady split: option.split)

lemma paren_operand_steady: "steady e ns s \<Longrightarrow> keeps (steady e ns) (paren_operand src s)"
  unfolding paren_operand_def Let_def by (intro keeps_if) simp_all

lemma param_item_steady: "steady e ns s \<Longrightarrow> keeps (steady e ns) (param_item src s)"
  unfolding param_item_def Let_def
  by (intro keeps_if keeps_andThen[OF paren_operand_steady]) (simp_all split: option.split prod.split)

lemma param_loop_steady: "steady e ns s \<Longrightarrow> keeps (steady e ns) (param_loop src out s)"
proof (induction src out s rule: param_loop.induct)
  case (1 src out s)
  show ?case
  proof (cases "src = []")
    case False
    show ?thesis
    proof (cases "param_item src s")
      case (Ret x)
      obtain r s1 where x: "x = (r, s1)" by (cases x)
      have "steady e ns s1" using keepsD[OF param_item_steady[OF "1.prems"]] Ret x by blast
      moreover have "keeps (steady e ns) (param_loop rest (out @ y) s1)"
        if "r = Some (y, rest)" "\<not> SUBSTR_LEN < length out + length y" "steady e ns s1" for y rest
        using "1.IH"[OF False Ret x[symmetric] that(1) refl that(2,3)] .
      ultimately show ?thesis using Ret x False
        by (subst param_loop.simps) (auto split: option.split)
    qed (use False in \<open>simp_all add: param_loop.simps\<close>)
  qed (use 1 in \<open>simp add: param_loop.simps\<close>)
qed

lemma dot_steady: "steady e ns s \<Longrightarrow> keeps (steady e ns) (dot_main ps t s)" "steady e ns s \<Longrightarrow> keeps (steady e ns) (dot_ret s)"
  "steady e ns s \<Longrightarrow> keeps (steady e ns) (dot_entrypoint t s)" "steady e ns s \<Longrightarrow> keeps (steady e ns) (dot_setcallreg t s)"
  "steady e ns s \<Longrightarrow> keeps (steady e ns) (dot_codeword ps t s)" "steady e ns s \<Longrightarrow> keeps (steady e ns) (dot_origin t s)"
proof -
  assume ok: "steady e ns s"
  have c: "steady e ns s \<Longrightarrow> asm_ok e (core s)" for s by (simp add: steady_def)
  show "keeps (steady e ns) (dot_main ps t s)" using ok by (simp add: dot_main_def Let_def split: option.split prod.split)
  show "keeps (steady e ns) (dot_ret s)" using ok by (simp add: dot_ret_def)
  show "keeps (steady e ns) (dot_entrypoint t s)" unfolding dot_entrypoint_def
    by (rule keeps_andThen[OF expression_steady[OF ok]]) (auto intro!: steady_core intro: c)
  show "keeps (steady e ns) (dot_setcallreg t s)"
    unfolding dot_setcallreg_def using ok
    by (intro keeps_if keeps_andThen[OF register_steady]) (auto intro!: steady_core simp: c)
  show "keeps (steady e ns) (dot_codeword ps t s)"
    unfolding dot_codeword_def ret0_def by (intro keeps_andThen[OF expression_steady[OF ok]] keeps_andThen[OF gen_steady]) simp_all
  show "keeps (steady e ns) (dot_origin t s)"
    unfolding dot_origin_def
  proof (rule keeps_andThen[OF expression_steady[OF ok]])
    fix v s assume k: "steady e ns s"
    then have "-1 \<le> CodeOffset (core s)" by (simp add: steady_def asm_ok_def image_ok_def)
    then show "keeps (steady e ns) (let val = sint v; st = core s in
       if Core st = CORE_V0 then fail s
       else if val < CodeOffset st then fail s
       else
         (let st = (if 0 \<le> CodeOffset st then Report REP_WARN1 st else st);
              st = (if EntryPoint st < 0 then st\<lparr>EntryPoint := val\<rparr> else st) in
          no_line (s\<lparr>core := st\<lparr>CodeOffset := val\<rparr>\<rparr>)))"
      using k c[OF k] by (simp add: Let_def steady_core)
  qed
qed

section \<open>Operations on the tables\<close>

lemma remove1_names: "distinct (map f xs) \<Longrightarrow> distinct (map f (remove1 x xs)) \<and> f ` set (remove1 x xs) \<subseteq> f ` set xs"
proof (induction xs)
  case (Cons y ys)
  have "f ` set (remove1 x ys) \<subseteq> f ` set ys" using set_remove1_subset[of x ys] by blast
  with Cons show ?case by auto
qed simp

lemma distinct_fewer:
  assumes "distinct (a @ b @ c @ d @ f)" "distinct b'" "set b' \<subseteq> set b" "distinct c'" "set c' \<subseteq> set c"
    "distinct d'" "set d' \<subseteq> set d" "distinct f'" "set f' \<subseteq> set f"
  shows "distinct (a @ b' @ c' @ d' @ f')"
  using assms by (simp add: disjoint_iff subset_iff) blast

lemma fewer_names:
  assumes "pasm_ok e s" "pLabelList (core s') = pLabelList (core s)" "asm_ok e (core s')"
    and "distinct (map fst (pEqList s'))" "fst ` set (pEqList s') \<subseteq> fst ` set (pEqList s)"
    and "distinct (map mc_Name (pMacroList s'))" "mc_Name ` set (pMacroList s') \<subseteq> mc_Name ` set (pMacroList s)"
    and "distinct (map st_Name (pStructList s'))" "st_Name ` set (pStructList s') \<subseteq> st_Name ` set (pStructList s)"
    and "distinct (map sc_Name (pScopeList s'))" "sc_Name ` set (pScopeList s') \<subseteq> sc_Name ` set (pScopeList s)"
  shows "pasm_ok e s'"
proof -
  have d: "distinct (map fst (pLabelList (core s)) @ map fst (pEqList s) @ map mc_Name (pMacroList s) @
      map st_Name (pStructList s) @ map sc_Name (pScopeList s))"
    using assms(1) by (simp only: pasm_ok_def table_names_def)
  have "distinct (table_names s')"
    unfolding table_names_def assms(2) by (rule distinct_fewer[OF d]) (use assms(4-) in simp_all)
  then show ?thesis using assms(3) by (simp add: pasm_ok_def)
qed

lemma pasm_ok_tables: "pasm_ok e s \<Longrightarrow> distinct (map fst (pEqList s)) \<and> distinct (map mc_Name (pMacroList s)) \<and>
    distinct (map st_Name (pStructList s)) \<and> distinct (map sc_Name (pScopeList s)) \<and> asm_ok e (core s)"
  by (simp add: pasm_ok_def table_names_def)

lemma pasm_ok_rep [simp]: "pasm_ok e s \<Longrightarrow> pasm_ok e (rep l s)"
  by (simp add: pasm_ok_def table_names_def)

lemma new_name:
  assumes "pasm_ok e s" "name_free n s"
  shows "pasm_ok e (s\<lparr>pEqList := (n, v) # pEqList s\<rparr>)" "pasm_ok e (s\<lparr>core := (core s)\<lparr>pLabelList := (n, i) # pLabelList (core s)\<rparr>\<rparr>)"
    "mc_Name m = n \<Longrightarrow> pasm_ok e (s\<lparr>pMacroList := m # pMacroList s, MacroId := k\<rparr>)"
    "st_Name t = n \<Longrightarrow> pasm_ok e (s\<lparr>pStructList := t # pStructList s\<rparr>)"
    "sc_Name c = n \<Longrightarrow> pasm_ok e (s\<lparr>pScopeList := c # pScopeList s, pScopeCurrent := q\<rparr>)"
  using assms(1) name_free_fresh[OF assms(2)] by (auto simp: pasm_ok_def table_names_def)

lemma creates:
  assumes "pasm_ok e s"
  shows "keeps (pasm_ok e) (EquateCreate n v s)" "keeps (pasm_ok e) (LabelCreate n i s)" "keeps (pasm_ok e) (MacroCreate n s)"
    "keeps (pasm_ok e) (StructCreate n s)" "keeps (pasm_ok e) (ScopeCreate n s)"
  using assms new_name[OF assms, of n]
  by (simp_all add: EquateCreate_def LabelCreate_def MacroCreate_def StructCreate_def ScopeCreate_def CheckName_def)

lemma equate_process_ok: "pasm_ok e s \<Longrightarrow> keeps (pasm_ok e) (EquateProcess src s)"
proof -
  assume ok: "pasm_ok e s"
  have "EquateFind n s = None" if "name_free n s" for n using that by (simp add: name_free_def CheckEquate_def)
  then show ?thesis using ok new_name(1)[OF ok] by (simp add: EquateProcess_def Let_def CheckName_def split: option.split)
qed

lemma undef_ok: "pasm_ok e s \<Longrightarrow> keeps (pasm_ok e) (UndefProcess src s)"
proof -
  assume ok: "pasm_ok e s"
  have "pasm_ok e (EquateDestroy n v s)" for n v
    by (rule fewer_names[OF ok]) (use pasm_ok_tables[OF ok] remove1_names[of fst "pEqList s" "(n, v)"] in \<open>simp_all add: EquateDestroy_def\<close>)
  then show ?thesis using ok by (simp add: UndefProcess_def Let_def split: option.split)
qed

lemma macro_update_ok: "pasm_ok e s \<Longrightarrow> (\<And>m. mc_Name m = n \<Longrightarrow> mc_Name (f m) = n) \<Longrightarrow> pasm_ok e (macro_update n f s)"
proof -
  assume ok: "pasm_ok e s" and f: "\<And>m. mc_Name m = n \<Longrightarrow> mc_Name (f m) = n"
  have "map mc_Name (map (\<lambda>m. if mc_Name m = n then f m else m) ms) = map mc_Name ms" for ms using f by simp
  then have "table_names (macro_update n f s) = table_names s" by (simp add: macro_update_def table_names_def del: map_map)
  then show ?thesis using ok by (simp add: pasm_ok_def) (simp add: macro_update_def)
qed

lemma struct_new_ok: "pasm_ok e s \<Longrightarrow> keeps (pasm_ok e) (StructNew n s)"
proof -
  assume ok: "pasm_ok e s"
  have "pasm_ok e (s\<lparr>pStructCurrent := t\<rparr>) = pasm_ok e s" for s t by (simp add: pasm_ok_def table_names_def)
  then show ?thesis using ok by (simp add: StructNew_def keeps_andThen[OF creates(4)])
qed

lemma struct_end_steady: "steady e ns s \<Longrightarrow> keeps (steady e ns) (StructEnd s)"
  by (simp add: StructEnd_def split: option.split)

lemma struct_element_steady: "steady e ns s \<Longrightarrow> keeps (steady e ns) (StructAddElement n w s)"
  by (simp add: StructAddElement_def add_elem_def split: option.split)

lemma scope_steady: "steady e ns s \<Longrightarrow> keeps (steady e ns) (ScopeLeave n s)" "steady e ns s \<Longrightarrow> keeps (steady e ns) (ScopeUsing n s)"
proof -
  assume ok: "steady e ns s"
  have "s\<lparr>pScopeList := cs, pScopeCurrent := c\<rparr> = s\<lparr>pScopeCurrent := c\<rparr>\<lparr>pScopeList := cs\<rparr>" for cs c by simp
  then show "keeps (steady e ns) (ScopeUsing n s)"
    using ok steady_update(1)[of "\<lambda>c. c\<lparr>sc_Open := True\<rparr>" e ns n "s\<lparr>pScopeCurrent := c\<rparr>" for c]
    by (simp add: ScopeUsing_def split: option.split)
  show "keeps (steady e ns) (ScopeLeave n s)" using ok by (simp add: ScopeLeave_def close_steady split: option.split)
qed

lemma plain_dot_ok: "pasm_ok e s \<Longrightarrow> keeps (pasm_ok e) (plain_dot ps i terms s)"
proof -
  assume ok: "pasm_ok e s"
  have r: "keeps (pasm_ok e) m \<Longrightarrow> keeps (pasm_ok e) (ret0 m)" for m unfolding ret0_def by (rule keeps_andThen) simp_all
  note same = steady_pasm_ok[OF ok]
  note cmds = same[OF dot_steady(1)] same[OF dot_steady(2)] same[OF dot_steady(3)] same[OF dot_steady(4)] same[OF dot_steady(5)]
    same[OF dot_steady(6)] same[OF struct_end_steady] same[OF struct_element_steady] same[OF assign_steady]
    same[OF scope_steady(1)] same[OF scope_steady(2)]
  have "keeps (pasm_ok e) (ScopeEnter t s)" for t using ok creates(5) by (simp add: ScopeEnter_def)
  then show ?thesis
    unfolding plain_dot_def Let_def using ok by (intro keeps_if r cmds struct_new_ok) simp_all
qed

lemma scopes_tl: "pasm_ok e s \<Longrightarrow> pasm_ok e (s\<lparr>pScopeList := tl (pScopeList s)\<rparr>)"
proof -
  assume ok: "pasm_ok e s"
  have "sc_Name ` set (tl xs) \<subseteq> sc_Name ` set xs" for xs by (cases xs) auto
  then show ?thesis by (intro fewer_names[OF ok]) (use pasm_ok_tables[OF ok] in \<open>simp_all add: map_tl distinct_tl\<close>)
qed

lemma destroy_scopes_keep: "pasm_ok e s \<Longrightarrow> keeps (pasm_ok e) (destroy_scopes n s)"
proof (induction n arbitrary: s)
  case (Suc n)
  have "keeps (pasm_ok e) (ScopeDestroy s)"
    using Suc.prems steady_pasm_ok[OF Suc.prems close_steady]
    by (auto simp: ScopeDestroy_def scopes_tl intro!: keeps_andThen split: list.split)
  then show ?case using Suc.IH by (auto intro: keeps_andThen)
qed simp

lemma cleanups: "pasm_ok e s \<Longrightarrow> pasm_ok e (ppCleanup s)" "pasm_ok e s \<Longrightarrow> pasm_ok e (MacroCleanup s)"
  "pasm_ok e s \<Longrightarrow> keeps (pasm_ok e) (StructCleanup s)"
proof -
  have p: "pasm_ok e (s\<lparr>pStructList := []\<rparr>)" if "pasm_ok e s" for s
    by (rule fewer_names[OF that]) (use pasm_ok_tables[OF that] in simp_all)
  show "pasm_ok e s \<Longrightarrow> pasm_ok e (ppCleanup s)"
    by (rule fewer_names) (auto simp: ppCleanup_def dest: pasm_ok_tables)
  show "pasm_ok e s \<Longrightarrow> pasm_ok e (MacroCleanup s)"
    by (rule fewer_names) (auto simp: MacroCleanup_def dest: pasm_ok_tables)
  show "pasm_ok e s \<Longrightarrow> keeps (pasm_ok e) (StructCleanup s)"
    unfolding StructCleanup_def by (rule keeps_andThen[OF destroy_scopes_keep]) (simp_all add: p)
qed

section \<open>The invariant\<close>

interpretation whole: assembler_invariant "pasm_ok e" for e
proof
  fix s assume ok: "pasm_ok e s"
  note same = steady_pasm_ok[OF ok]
  show "pasm_ok e (rep l s)" for l using ok by simp
  show "pasm_ok e (s\<lparr>ccStateFlags := cc\<rparr>)" "pasm_ok e (s\<lparr>sfArray := sf\<rparr>)" "pasm_ok e (s\<lparr>OpenFiles := k\<rparr>)" for cc sf k
    using ok by (simp_all add: pasm_ok_def table_names_def)
  show "keeps (pasm_ok e) (EquateCreate n v s)" "keeps (pasm_ok e) (LabelCreate n i s)" "keeps (pasm_ok e) (MacroCreate n s)" for n v i
    using creates[OF ok] by simp_all
  show "keeps (pasm_ok e) (EquateProcess src s)" "keeps (pasm_ok e) (UndefProcess src s)" for src
    using equate_process_ok undef_ok ok by blast+
  show "keeps (pasm_ok e) (on_core (gen_ok ps w) s)" for ps w by (rule same[OF gen_steady])
  show "keeps (pasm_ok e) (on_core (ProcessOp ps terms) s)" for ps terms by (rule same[OF opcode_steady])
  show "keeps (pasm_ok e) (plain_dot ps i terms s)" for ps i terms by (rule plain_dot_ok[OF ok])
  show "keeps (pasm_ok e) (StructParamProcess t s)" for t unfolding StructParamProcess_def by (rule same[OF param_loop_steady])
  show "pasm_ok e (macro_update n f s)" if "\<And>m. mc_Name m = n \<Longrightarrow> mc_Name (f m) = n" for n f by (rule macro_update_ok[OF ok that])
  show "pasm_ok e (ppCleanup s)" "keeps (pasm_ok e) (StructCleanup s)" "pasm_ok e (MacroCleanup s)" using cleanups[OF ok] by blast+
  show "keeps (pasm_ok e) (StructInit s)"
    unfolding StructInit_def by (rule keeps_bind[OF creates(5)[OF ok]]) simp
  show "pasm_ok e (begin_pass s)" using ok by (simp add: begin_pass_def pasm_ok_def table_names_def asm_ok_def image_ok_def)
  show "pasm_ok e (s\<lparr>core := (core s)\<lparr>Errors := Errors (core s) + 1\<rparr>\<rparr>)"
    using ok by (simp add: pasm_ok_def table_names_def)
  show "pasm_ok e (s\<lparr>core := st\<rparr>)" if "ValidateOffset ps (core s) = Ret (b, st)" for ps b st
  proof -
    have a: "asm_ok e (core s)" using ok by (simp add: pasm_ok_def)
    have "table_names (s\<lparr>core := st\<rparr>) = table_names s" using ValidateOffset_asm_ok[OF a that] by (simp add: table_names_def)
    then show ?thesis using ok ValidateOffset_asm_ok[OF a that] by (simp add: pasm_ok_def)
  qed
qed

text \<open>
  C5. The assembler's state stays sound. From a state with a whole image, a fatal error counted if there was one, and tables that do
  not share names, the processing of a source file (its includes and macros, with every error path) ends, if it ends, in
  such a state again, and no error counted before is lost.
\<close>

theorem assembler_state_sound:
  assumes "length (ProgramImage (core s)) = MAX_PROGRAM" "-1 \<le> CodeOffset (core s)" "FatalError (core s) \<longrightarrow> 0 < Errors (core s)"
    and "distinct (table_names s)" "ProcessSourceFile fs n ps s = Ret (r, ps', s')"
  shows "length (ProgramImage (core s')) = MAX_PROGRAM \<and> -1 \<le> CodeOffset (core s') \<and>
    (FatalError (core s') \<longrightarrow> 0 < Errors (core s')) \<and> Errors (core s) \<le> Errors (core s') \<and> distinct (table_names s')"
proof -
  have "pasm_ok (Errors (core s)) s" using assms(1-4) by (simp add: pasm_ok_def asm_ok_def image_ok_def)
  from keeps_fileD[OF whole.source_file_keeps[OF this] assms(5)] show ?thesis by (simp add: pasm_ok_def asm_ok_def image_ok_def)
qed

text \<open>A source with one line, which is not accepted.\<close>

definition bad_source :: SOURCEFILE where "bad_source = source_file 0 0 ''.'' ''a.p'' ''9''"
definition nothing_readable :: files where "nothing_readable = \<lparr>readable = (\<lambda>_. None), include_dirs = []\<rparr>"

lemma bad_line: "parse_chars [] 8192 [] WF_READY [] ''9'' [] = (Some ''9'', 0)" "parse_line ''9'' = None"
  by (simp_all add: parse_chars.simps parse_line_def parse_word_def LabelChar_def code_def isdigit_def isupper_def islower_def Let_def)

lemma bad_source_runs: "\<exists>ps s. ProcessSourceFile nothing_readable 8 bad_source (pasm_init 2 0) = Ret (True, ps, s) \<and> Errors (core s) = 1"
proof -
  have n: "(8::nat) = Suc (Suc (Suc (Suc (Suc (Suc (Suc (Suc 0)))))))" by simp
  show ?thesis
    unfolding n by (simp add: disaster_def pasm_init_def bad_source_def source_file_def GetTextLine_def ReadCharacter_def Let_def
      ParseSource_def bad_line MAX_SOURCE_LINE_def skipping_def blank_def RAW_SOURCE_MAX_def line_step_def ParseSourceLine_def rep_def
      asm_init_def del: replicate.simps)
qed

theorem assembler_state_sound_witness:
  "\<exists>ps s. ProcessSourceFile nothing_readable 8 bad_source (pasm_init 2 0) = Ret (True, ps, s) \<and> Errors (core s) = 1 \<and>
    length (ProgramImage (core s)) = MAX_PROGRAM \<and> distinct (table_names s)"
proof -
  obtain ps s where r: "ProcessSourceFile nothing_readable 8 bad_source (pasm_init 2 0) = Ret (True, ps, s)" "Errors (core s) = 1"
    using bad_source_runs by blast
  have i: "length (ProgramImage (core (pasm_init 2 0))) = MAX_PROGRAM" "-1 \<le> CodeOffset (core (pasm_init 2 0))"
    "\<not> FatalError (core (pasm_init 2 0))" "distinct (table_names (pasm_init 2 0))"
    by (simp_all add: pasm_init_def table_names_def) (simp add: asm_init_def)
  show ?thesis using assembler_state_sound[OF i(1,2) _ i(4) r(1)] i(3) r by blast
qed

lemma two_passes_sound:
  assumes "two_passes fs n eqs infile s = Ret s'" "pasm_ok e s"
  shows "pasm_ok e s'"
  by (rule whole.two_passes_keep[OF assms(2,1)])

lemma pasm_init_ok: "pasm_ok 0 (pasm_init c opts)"
  by (simp add: pasm_ok_def pasm_init_def asm_ok_def image_ok_def table_names_def) (simp add: asm_init_def)

end
