(* ===== verification/Pasm_Frame.thy ===== *)
theory Pasm_Frame
  imports Pasm_Ends Pasm_Inv_Props
begin

text \<open>
  The operations that neither take a macro nor a file: they end, leave the macros and the count of open files alone,
  and assign to structures only names of registers, which contain no letter p. With this a chain of
  \<open>.proc\<close> commands, each of which generates the line that is processed next, gets shorter in every round.
\<close>

section \<open>Texts without the letter p\<close>

definition ps_in :: "string \<Rightarrow> nat" where "ps_in t = length (filter (\<lambda>c. tolower c = CHR ''p'') t)"

lemma ps_in_simps [simp]: "ps_in [] = 0" "ps_in (c # t) = (if tolower c = CHR ''p'' then 1 else 0) + ps_in t"
  "ps_in (t @ u) = ps_in t + ps_in u"
  by (simp_all add: ps_in_def)

lemma ps_in_split: "ps_in (takeWhile P t) + ps_in (dropWhile P t) = ps_in t"
  by (metis ps_in_simps(3) takeWhile_dropWhile_id)

lemma ps_in_less: "ps_in (dropWhile P t) \<le> ps_in t" "ps_in (takeWhile P t) \<le> ps_in t" "ps_in (tl t) \<le> ps_in t" "ps_in (rev t) = ps_in t"
  using ps_in_split[of P t] by (auto simp: ps_in_def rev_filter[symmetric]) (cases t; simp)

definition calm_assign :: "ASSIGN \<Rightarrow> bool" where
  "calm_assign a \<longleftrightarrow> ps_in (as_BaseReg a) = 0 \<and> (\<forall>(e, r) \<in> set (as_Elems a). ps_in r = 0)"

definition calm :: "pasm \<Rightarrow> bool" where
  "calm s \<longleftrightarrow> (\<forall>c \<in> set (pScopeList s). \<forall>a \<in> set (sc_pAssignList c). calm_assign a)"

section \<open>Plain operations\<close>

definition plain :: "pasm \<Rightarrow> ('a \<times> pasm) exec \<Rightarrow> bool" where
  "plain s m \<longleftrightarrow> m \<noteq> Fuel \<and> (\<forall>r s'. m = Ret (r, s') \<longrightarrow> OpenFiles s' = OpenFiles s \<and> pMacroList s' = pMacroList s \<and> (calm s \<longrightarrow> calm s'))"

lemma plain_Stuck [simp]: "plain s Stuck" and plain_Fuel [simp]: "\<not> plain s Fuel"
  by (simp_all add: plain_def)

lemma plain_Ret [simp]: "plain s (Ret (r, s')) \<longleftrightarrow> OpenFiles s' = OpenFiles s \<and> pMacroList s' = pMacroList s \<and> (calm s \<longrightarrow> calm s')"
  by (simp add: plain_def)

lemma plainD: "plain s m \<Longrightarrow> m = Ret (r, s') \<Longrightarrow> OpenFiles s' = OpenFiles s \<and> pMacroList s' = pMacroList s \<and> (calm s \<longrightarrow> calm s')"
  by (simp add: plain_def)

lemma plain_trans:
  assumes "plain s m" "m = Ret (r, s')" "plain s' m'"
  shows "plain s m'"
  using plainD[OF assms(1,2)] assms(3) by (auto simp: plain_def)

lemma plain_andThen: "plain s m \<Longrightarrow> (\<And>a s'. m = Ret (Some a, s') \<Longrightarrow> plain s' (k a s')) \<Longrightarrow> plain s (andThen m k)"
proof (cases m)
  case (Ret x)
  assume p: "plain s m" and k: "\<And>a s'. m = Ret (Some a, s') \<Longrightarrow> plain s' (k a s')"
  obtain r s' where x: "x = (r, s')" by (cases x)
  show ?thesis
  proof (cases r)
    case (Some a)
    show ?thesis using plain_trans[OF p Ret[unfolded x], of "k a s'"] k[of a s'] Ret x Some by simp
  qed (use p Ret x in simp)
qed simp_all

lemma plain_case: "plain s m \<Longrightarrow> (\<And>r s'. m = Ret (r, s') \<Longrightarrow> plain s' (k (r, s'))) \<Longrightarrow>
    plain s (case m of Stuck \<Rightarrow> Stuck | Fuel \<Rightarrow> Fuel | Ret x \<Rightarrow> k x)"
  by (cases m) (auto intro: plain_trans)

lemma plain_if: "(b \<Longrightarrow> plain s x) \<Longrightarrow> (\<not> b \<Longrightarrow> plain s y) \<Longrightarrow> plain s (if b then x else y)"
  by simp

lemma calm_simps [simp]: "calm (s\<lparr>core := st\<rparr>) = calm s" "calm (s\<lparr>pStructCurrent := t\<rparr>) = calm s" "calm (s\<lparr>pStructList := ts\<rparr>) = calm s"
  "calm (s\<lparr>ccStateFlags := cc\<rparr>) = calm s" "calm (s\<lparr>pEqList := es\<rparr>) = calm s" "calm (s\<lparr>pMacroList := ms\<rparr>) = calm s"
  "calm (s\<lparr>MacroId := i\<rparr>) = calm s" "calm (s\<lparr>sfArray := sf\<rparr>) = calm s" "calm (s\<lparr>OpenFiles := k\<rparr>) = calm s"
  "calm (s\<lparr>pScopeCurrent := c\<rparr>) = calm s" "calm (rep l s) = calm s"
  by (simp_all add: calm_def rep_def)

lemma rep_plain [simp]: "calm ((rep l ^^ n) s) = calm s" "OpenFiles ((rep l ^^ n) s) = OpenFiles s" "pMacroList ((rep l ^^ n) s) = pMacroList s"
  by (induction n) simp_all

lemma on_core_plain: "m (core s) \<noteq> Fuel \<Longrightarrow> plain s (on_core m s)"
  by (auto simp: on_core_def split: exec.split)

lemma reads_plain: "(\<And>st. reads st (m st)) \<Longrightarrow> plain s (on_core m s)"
  by (rule on_core_plain) (simp add: reads_def)

lemmas operand_plain = reads_plain[of "operand_exp t" for t, OF operand_exp.reads] reads_plain[of "GetRegister t fb c" for t fb c, OF GetRegister_reads]

lemma gen_not_Fuel: "gen_ok ps w st \<noteq> Fuel" and ValidateOffset_not_Fuel: "ValidateOffset ps st \<noteq> Fuel"
proof -
  have p: "put_code f ps w st \<noteq> Fuel" for f w st by (simp add: put_code_def split: option.split)
  show v: "ValidateOffset ps st \<noteq> Fuel" for st using p by (auto simp: ValidateOffset_def Let_def split: exec.split)
  show "gen_ok ps w st \<noteq> Fuel" using p v by (auto simp: gen_ok_def GenOp_def split: exec.splits bool.split)
qed

lemma names_plain: "plain s (CheckName n s)" "plain s (EquateCreate n v s)" "plain s (LabelCreate n i s)" "plain s (EquateProcess src s)"
  "plain s (UndefProcess src s)" "plain s (IfDefProcess src b s)" "plain s (ElseProcess src s)" "plain s (EndifProcess src s)"
  "plain s (ParseSource src k s)" "plain s (ParseSourceLine src s)"
  by (simp_all add: CheckName_def EquateCreate_def LabelCreate_def EquateProcess_def UndefProcess_def EquateDestroy_def IfDefProcess_def
    ElseProcess_def EndifProcess_def ParseSource_def ParseSourceLine_def Let_def split: option.split prod.split)

section \<open>Scopes and structures\<close>

lemma open_from_not_Fuel: "open_from cs c \<noteq> Fuel"
  by (induction cs c rule: open_from.induct) auto

lemma calm_scope_update: "(\<And>c. sc_pAssignList (f c) = sc_pAssignList c) \<Longrightarrow> calm s \<Longrightarrow> calm (s\<lparr>pScopeList := scope_update n f (pScopeList s)\<rparr>)"
  by (auto simp: calm_def scope_update_def)

lemma scopes_plain: "plain s (ScopeClose n s)" "plain s (ScopeCreate n s)" "plain s (ScopeLeave n s)" "plain s (ScopeUsing n s)"
proof -
  have u: "calm s \<Longrightarrow> (\<And>c. sc_pAssignList (f c) = sc_pAssignList c) \<Longrightarrow>
      calm (s\<lparr>pScopeList := scope_update n f (pScopeList s), pScopeCurrent := c\<rparr>)" for f c s
    using calm_scope_update[of f s n] by (simp add: calm_def)
  show c: "plain s (ScopeClose n s)" using open_from_not_Fuel u by (auto simp: ScopeClose_def Let_def split: exec.split)
  show "plain s (ScopeCreate n s)"
    unfolding ScopeCreate_def by (rule plain_andThen[OF names_plain(1)]) (auto simp: calm_def)
  show "plain s (ScopeLeave n s)" using c by (simp add: ScopeLeave_def split: option.split)
  show "plain s (ScopeUsing n s)" using u by (simp add: ScopeUsing_def split: option.split)
qed

lemma decimal_calm [simp]: "ps_in (decimal n) = 0"
proof (induction n rule: decimal.induct)
  case (1 n)
  have t: "tolower (char_of (48 + k :: nat)) \<noteq> CHR ''p''" if "k < 10" for k
  proof -
    have "k \<in> {0, 1, 2, 3, 4, 5, 6, 7, 8, 9}" using that by auto
    then show ?thesis by (auto simp: tolower_def isupper_def code_def char_of_def)
  qed
  show ?case using 1 t[of n] t[of "n mod 10"] by (subst decimal.simps) auto
qed

lemma GetRegname_calm: "GetRegname off sz s = Ret (Some r, s') \<Longrightarrow> ps_in r = 0"
proof -
  have "tolower (CHR ''R'') \<noteq> CHR ''p''" by (simp add: tolower_def isupper_def code_def char_of_def)
  moreover assume "GetRegname off sz s = Ret (Some r, s')"
  ultimately show ?thesis
    by (auto simp: GetRegname_def field_suffix_def tolower_def[of "CHR ''.''"] tolower_def[of "CHR ''w''"] tolower_def[of "CHR ''b''"]
        isupper_def code_def split: if_split_asm)
qed

lemma map_elems_plain: "plain s (map_elems es off s)"
proof (induction es arbitrary: off s)
  case (Cons e es)
  have "plain s (GetRegname off (el_Size e) s)" by (simp add: GetRegname_def)
  then show ?case unfolding map_elems.simps by (intro plain_andThen Cons.IH) auto
qed simp

lemma map_elems_calm: "map_elems es off s = Ret (Some ms, s') \<Longrightarrow> (e, r) \<in> set ms \<Longrightarrow> ps_in r = 0"
proof (induction es arbitrary: off s ms s')
  case (Cons x es)
  then obtain n s1 ms1 where "GetRegname off (el_Size x) s = Ret (Some n, s1)" "map_elems es (off + el_Size x) s1 = Ret (Some ms1, s')"
      "ms = (x, n) # ms1" by (auto simp: andThen_Ret)
  with Cons show ?case by (auto dest: GetRegname_calm)
qed simp

lemma assign_plain: "plain s (StructAssign t rs re n s)"
proof -
  have a: "calm_assign a \<Longrightarrow> plain s (AssignCreate c a n s)" for a c s
    unfolding AssignCreate_def by (rule plain_andThen[OF names_plain(1)]) (auto simp: calm_def scope_update_def)
  have c: "calm_assign \<lparr>as_Name = n, as_BaseReg = (case ms of [] \<Rightarrow> [] | (_, r) # _ \<Rightarrow> r), as_TotalSize = z, as_Elems = ms\<rparr>"
    if "map_elems es off s1 = Ret (Some ms, s2)" for es off s1 s2 ms z
    using map_elems_calm[OF that] by (cases ms) (auto simp: calm_assign_def)
  have m: "plain s (andThen (map_elems es off s) (\<lambda>ms s. AssignCreate c \<lparr>as_Name = n, as_BaseReg = (case ms of [] \<Rightarrow> [] | (_, r) # _ \<Rightarrow> r),
      as_TotalSize = z, as_Elems = ms\<rparr> n s))" for es off c z s
    by (rule plain_andThen[OF map_elems_plain a[OF c]])
  have r: "plain s (if b then on_core (GetRegister x fb k) s else Ret (Some rs, s))" for b x fb k rs s using operand_plain(2) by simp
  show ?thesis
    unfolding StructAssign_def Let_def
    by (auto split: option.split intro!: plain_andThen[OF operand_plain(2)] plain_andThen[OF r] m)
qed

lemma struct_plain: "plain s (StructNew n s)" "plain s (StructEnd s)" "plain s (StructAddElement n z s)"
proof -
  have c: "plain s (StructCreate n s)" unfolding StructCreate_def by (rule plain_andThen[OF names_plain(1)]) simp
  show "plain s (StructNew n s)" unfolding StructNew_def by (intro plain_if plain_andThen[OF c]) simp_all
  show "plain s (StructEnd s)" "plain s (StructAddElement n z s)"
    by (simp_all add: StructEnd_def StructAddElement_def split: option.split)
qed

section \<open>Structure names in parameters\<close>

lemma paren_operand_plain: "plain s (paren_operand src s)" "paren_operand src s = Ret (Some (x, rest), s') \<Longrightarrow> ps_in rest \<le> ps_in src"
proof -
  show "plain s (paren_operand src s)" by (simp add: paren_operand_def Let_def)
  assume "paren_operand src s = Ret (Some (x, rest), s')"
  then have "rest = tl (skip_blanks (dropWhile label_or_dot (skip_blanks (tl (skip_blanks src)))))"
    by (auto simp: paren_operand_def Let_def split: if_split_asm)
  then show "ps_in rest \<le> ps_in src" unfolding skip_blanks_def by (simp only:) (meson order.trans ps_in_less)
qed

lemma find_elem: "find P xs = Some x \<Longrightarrow> x \<in> set xs"
  by (auto simp: find_Some_iff)

lemma AssignFind_calm: "calm s \<Longrightarrow> AssignFind n s = Some a \<Longrightarrow> calm_assign a"
  by (auto simp: AssignFind_def calm_def dest!: find_elem)

lemma StructNameCheck_calm: "calm s \<Longrightarrow> StructNameCheck n s = Some r \<Longrightarrow> ps_in r = 0"
  by (auto simp: StructNameCheck_def calm_assign_def dest!: find_elem AssignFind_calm split: if_split_asm option.split_asm)

lemma param_item_plain: "plain s (param_item src s)"
  unfolding param_item_def Let_def
  by (intro plain_if plain_andThen[OF paren_operand_plain(1)]) (simp_all split: option.split prod.split)

lemma ps_in_word: "t = takeWhile P u \<Longrightarrow> v = dropWhile P u \<Longrightarrow> ps_in t + ps_in v = ps_in u"
  by (simp add: ps_in_split)

lemma cand_name_prefix: "ps_in (cand_name src) + ps_in (drop (length (cand_name src)) src) = ps_in src"
proof -
  let ?r = "dropWhile label_char src"
  have "src = cand_name src @ drop (length (cand_name src)) src"
  proof (cases "cur ?r = CHR ''.''")
    case True
    then obtain u where u: "?r = CHR ''.'' # u" by (cases ?r) auto
    have "src = takeWhile label_char src @ CHR ''.'' # takeWhile label_char u @ dropWhile label_char u"
      using takeWhile_dropWhile_id[of label_char src, symmetric] unfolding u by simp
    moreover have "cand_name src = takeWhile label_char src @ CHR ''.'' # takeWhile label_char u"
      by (simp add: cand_name_def u)
    ultimately show ?thesis by (metis append.assoc append_Cons append_eq_conv_conj)
  next
    case False
    then show ?thesis by (simp add: cand_name_def Let_def) (metis append_eq_conv_conj takeWhile_dropWhile_id)
  qed
  then show ?thesis by (metis ps_in_simps(3))
qed

lemma param_item_calm:
  assumes "calm s" "src \<noteq> []" "param_item src s = Ret (Some (x, rest), s')"
  shows "ps_in x + ps_in rest \<le> ps_in src"
proof -
  let ?n = "cand_name src" and ?r = "drop (length (cand_name src)) src"
  have hd: "ps_in src = ps_in [cur src] + ps_in (tl src)" using assms(2) by (cases src) auto
  note n = cand_name_prefix[of src]
  have int: "ps_in (CHR 0x20 # int_text v @ [CHR 0x20]) = 0" for v
    by (simp add: int_text_def tolower_def isupper_def code_def)
  consider "isdigit (cur src)" | "\<not> isdigit (cur src)" "\<not> LabelChar (cur src) True"
    | "\<not> isdigit (cur src)" "LabelChar (cur src) True" by blast
  then show ?thesis
  proof cases
    case 1
    then have "x = cur src # takeWhile label_char (tl src)" "rest = dropWhile label_char (tl src)"
      using assms(3) by (simp_all add: param_item_def)
    then show ?thesis using hd ps_in_split[of label_char "tl src"] by simp
  next
    case 2
    then have "x = [cur src]" "rest = tl src" using assms(3) by (simp_all add: param_item_def)
    then show ?thesis using hd by simp
  next
    case 3
    show ?thesis
    proof (cases "?n = ''SIZE'' \<or> ?n = ''OFFSET''")
      case True
      then obtain y v where p: "paren_operand ?r s = Ret (Some (y, rest), s')" "x = CHR 0x20 # int_text v @ [CHR 0x20]"
        using assms(3) 3 by (auto simp: param_item_def Let_def andThen_Ret split: if_split_asm option.split_asm)
      show ?thesis using paren_operand_plain(2)[OF p(1)] int[of v] n unfolding p(2) by simp
    next
      case False
      define new' where "new' = (case StructNameCheck ?n s of None \<Rightarrow> ?n | Some r \<Rightarrow> r)"
      have le: "ps_in new' \<le> ps_in ?n" using StructNameCheck_calm[OF assms(1), of ?n] by (auto simp: new'_def split: option.split)
      show ?thesis
      proof (cases "cur ?r = CHR ''.''")
        case True
        then have "x = new' @ CHR ''.'' # takeWhile label_or_dot (tl ?r)" "rest = dropWhile label_or_dot (tl ?r)"
          using assms(3) 3 False by (auto simp: param_item_def Let_def new'_def split: if_split_asm)
        moreover have "ps_in ?r = ps_in (CHR ''.'' # tl ?r)" using True by (cases ?r) auto
        ultimately show ?thesis using le n ps_in_split[of label_or_dot "tl ?r"] by simp
      next
        case nodot: False
        then have "x = new'" "rest = ?r"
          using assms(3) 3 False nodot by (auto simp: param_item_def Let_def new'_def split: if_split_asm)
        then show ?thesis using le n by simp
      qed
    qed
  qed
qed

lemma param_loop_plain: "plain s (param_loop src out s)"
proof (induction src out s rule: param_loop.induct)
  case (1 src out s)
  show ?case
  proof (cases "src = []")
    case False
    have "plain s (case param_item src s of
           Ret (Some (x, rest), s) \<Rightarrow> if SUBSTR_LEN < length out + length x then Stuck else param_loop rest (out @ x) s
         | Ret (None, s) \<Rightarrow> Ret (None, s) | Stuck \<Rightarrow> Stuck | Fuel \<Rightarrow> Fuel)"
      by (rule plain_case[OF param_item_plain]) (auto split: option.split intro: "1.IH"[OF False _ refl refl refl])
    then show ?thesis using False by (simp add: param_loop.simps[of src])
  qed (simp add: param_loop.simps)
qed

lemma param_loop_calm: "calm s \<Longrightarrow> param_loop src out s = Ret (Some t, s') \<Longrightarrow> ps_in t \<le> ps_in out + ps_in src"
proof (induction src out s rule: param_loop.induct)
  case (1 src out s)
  show ?case
  proof (cases "src = []")
    case True
    then show ?thesis using "1.prems"(2) by (simp add: param_loop.simps split: if_split_asm)
  next
    case False
    then obtain x rest s1 where i: "param_item src s = Ret (Some (x, rest), s1)" "\<not> SUBSTR_LEN < length out + length x"
        "param_loop rest (out @ x) s1 = Ret (Some t, s')"
      using "1.prems"(2) by (subst (asm) param_loop.simps) (auto split: exec.splits option.splits if_split_asm)
    have "calm s1" using plainD[OF param_item_plain i(1)] "1.prems"(1) by simp
    from "1.IH"[OF False i(1) refl refl refl i(2) this i(3)] param_item_calm[OF "1.prems"(1) False i(1)]
    show ?thesis by simp
  qed
qed

text \<open>The substitution of structure names in the terms of a line.\<close>

lemma struct_params_plain: "plain s (struct_params ts s)"
proof (induction ts arbitrary: s)
  case (Cons t ts)
  have "plain s (StructParamProcess t s)" unfolding StructParamProcess_def by (rule param_loop_plain)
  then show ?case
    unfolding struct_params.simps by (rule plain_case) (auto split: option.split intro!: plain_andThen[OF Cons.IH])
qed simp

lemma struct_params_calm: "calm s \<Longrightarrow> struct_params ts s = Ret (Some us, s') \<Longrightarrow> list_all2 (\<lambda>t u. ps_in u \<le> ps_in t) ts us"
proof (induction ts arbitrary: s us s')
  case (Cons t ts)
  then obtain u s1 us1 where u: "StructParamProcess t s = Ret (Some u, s1)" "struct_params ts s1 = Ret (Some us1, s')" "us = u # us1"
    by (auto simp: andThen_Ret split: exec.splits option.splits)
  have "ps_in u \<le> ps_in t" using param_loop_calm[OF Cons.prems(1) u(1)[unfolded StructParamProcess_def]] by simp
  moreover have "calm s1" using plainD[OF param_loop_plain u(1)[unfolded StructParamProcess_def]] Cons.prems(1) by simp
  ultimately show ?case using Cons.IH u by simp
qed simp

lemma line_terms_plain: "plain s (line_terms ts s)"
  by (simp add: line_terms_def struct_params_plain)

lemma line_terms_calm: "calm s \<Longrightarrow> line_terms ts s = Ret (Some us, s') \<Longrightarrow> list_all2 (\<lambda>t u. ps_in u \<le> ps_in t) ts us"
  by (auto simp: line_terms_def struct_params_calm list.rel_refl split: if_split_asm)

section \<open>Dot commands\<close>

abbreviation "ps_sum ts \<equiv> sum_list (map ps_in ts)"

lemma parse_params_calm: "parse_params ts d r = Some (us, d') \<Longrightarrow> ps_sum us \<le> ps_sum ts + ps_in r"
proof (induction ts d r rule: parse_params.induct)
  case (1 ts d r)
  let ?r = "skip_blanks r" and ?dot = "length ts = 1 \<and> cur (skip_blanks r) = CHR ''.''"
  have p: "ps_in (fst (param_text b u)) + ps_in (snd (param_text b u)) \<le> ps_in u" for b u
  proof -
    let ?P = "\<lambda>c. c \<noteq> CHR '','' \<and> \<not> (b \<and> blank c)"
    have "ps_in (rev (dropWhile blank (rev (takeWhile ?P u)))) \<le> ps_in (takeWhile ?P u)"
      by (simp only: ps_in_less(4)) (metis ps_in_less(1,4))
    then show ?thesis using ps_in_less(3)[of "dropWhile ?P u"] ps_in_split[of ?P u] by (simp add: param_text_def Let_def)
  qed
  have b: "ps_in ?r \<le> ps_in r" by (simp add: skip_blanks_def ps_in_less(1))
  show ?case
  proof (cases "r = []")
    case False
    then have n: "length ts \<noteq> MAX_TOKENS" "param_start (cur ?r)" "\<not> TOKEN_MAX_LEN \<le> param_length ?dot ?r"
        "parse_params (ts @ [fst (param_text ?dot ?r)]) (d \<or> ?dot) (snd (param_text ?dot ?r)) = Some (us, d')"
      using "1.prems" by (subst (asm) parse_params.simps; simp add: Let_def split: if_split_asm)+
    then show ?thesis using "1.IH"[OF False n(1) refl refl] p[of ?dot ?r] b by simp
  qed (use "1.prems" in \<open>simp add: parse_params.simps\<close>)
qed

lemma parse_word_calm: "parse_word src = Some (w, rest) \<Longrightarrow> ps_in w + ps_in rest = ps_in src"
  by (auto simp: parse_word_def ps_in_split split: if_split_asm)

lemma parse_command_calm: "parse_command l w rest = Some sl \<Longrightarrow> ps_sum (sl_Term sl) \<le> ps_in w + ps_in rest"
  using parse_params_calm[of "[w]" False rest] by (auto simp: parse_command_def split: if_split_asm)

lemma parse_line_calm: "parse_line src = Some sl \<Longrightarrow> ps_sum (sl_Term sl) \<le> ps_in src"
proof -
  assume a: "parse_line src = Some sl"
  then obtain w rest where w: "parse_word src = Some (w, rest)" by (auto simp: parse_line_def split: option.splits)
  note p = parse_word_calm[OF w]
  have t: "ps_in (skip_blanks (tl rest)) \<le> ps_in rest"
    unfolding skip_blanks_def by (rule order.trans[OF ps_in_less(1) ps_in_less(3)])
  show ?thesis
  proof (cases "cur rest = CHR '':'' \<and> tl rest \<noteq> []")
    case True
    then obtain w' rest' where w': "parse_word (skip_blanks (tl rest)) = Some (w', rest')" "parse_command (Some w) w' rest' = Some sl"
      using a w by (auto simp: parse_line_def split: option.splits if_split_asm)
    show ?thesis using parse_command_calm[OF w'(2)] parse_word_calm[OF w'(1)] p t by simp
  next
    case False
    then show ?thesis using a w p parse_command_calm[of None w rest sl] by (auto simp: parse_line_def split: if_split_asm)
  qed
qed

text \<open>What a chain of generated lines can still do.\<close>

definition dots :: "string \<Rightarrow> nat" where
  "dots src = (case parse_line src of None \<Rightarrow> 0 | Some sl \<Rightarrow> if sl_Dot1 sl then ps_in src + 1 else 0)"

lemma plain_dot_plain: "plain s (plain_dot ps i terms s)"
proof -
  have r: "plain s m \<Longrightarrow> plain s (ret0 m)" for m unfolding ret0_def by (erule plain_andThen) simp
  have g: "plain s (on_core (gen_ok ps w) s)" for w s by (rule on_core_plain[OF gen_not_Fuel])
  have d: "plain s (dot_main ps t s)" "plain s (dot_ret s)" "plain s (dot_entrypoint t s)" "plain s (dot_setcallreg t s)"
      "plain s (dot_codeword ps t s)" "plain s (dot_origin t s)" for t
    unfolding dot_main_def dot_ret_def dot_entrypoint_def dot_setcallreg_def dot_codeword_def dot_origin_def ret0_def Let_def
    by (auto intro!: plain_andThen[OF operand_plain(1)] plain_andThen[OF operand_plain(2)] plain_andThen[OF g] split: option.split)
  show ?thesis
    unfolding plain_dot_def Let_def ScopeEnter_def
    by (intro plain_if r d scopes_plain struct_plain assign_plain) simp_all
qed

lemma plain_dot_line: "plain_dot ps i terms s = Ret (Some (Some src), s') \<Longrightarrow>
    src = ''jmp     r30.w0'' \<or> (i = DOTCMD_PROC \<and> src = CHR ''.'' # terms ! 1 @ '':'')"
  by (auto simp: plain_dot_def Let_def dot_main_def dot_ret_def dot_entrypoint_def dot_setcallreg_def dot_codeword_def dot_origin_def
      ret0_def andThen_Ret split: if_split_asm option.split_asm)

lemma dots_jmp: "dots ''jmp     r30.w0'' = 0"
  by (simp add: dots_def parse_line_def parse_word_def parse_command_def LabelChar_def code_def isdigit_def isupper_def islower_def
    TOKEN_MAX_LEN_def blank_def split: option.split)

lemma proc_word: "find_word 1 w DotCmds = DOTCMD_PROC \<Longrightarrow> 0 < ps_in w"
proof -
  assume "find_word 1 w DotCmds = DOTCMD_PROC"
  then have st: "stricmp w (DotCmds ! 2)" by (simp add: DotCmds_def split: if_split_asm)
  have q: "ps_in t = length (filter (\<lambda>c. c = CHR ''p'') (map tolower t))" for t by (simp add: ps_in_def filter_map comp_def)
  have "ps_in w = ps_in (DotCmds ! 2)" using st unfolding stricmp_def q by (simp only:)
  then show ?thesis by (simp add: DotCmds_def tolower_def isupper_def code_def)
qed

lemma dots_less:
  assumes "parse_line src = Some sl" "sl_Dot1 sl" "list_all2 (\<lambda>t u. ps_in u \<le> ps_in t) (sl_Term sl) terms" "length terms = dot_terms i"
    and "i = find_word 1 (terms ! 0) DotCmds" "plain_dot ps i terms s = Ret (Some (Some src'), s')"
  shows "dots src' < dots src"
proof (cases "src' = ''jmp     r30.w0''")
  case True
  then show ?thesis using assms(1,2) by (simp add: dots_jmp) (simp add: dots_def)
next
  case False
  then have p: "i = DOTCMD_PROC" "src' = CHR ''.'' # terms ! 1 @ '':''" using plain_dot_line[OF assms(6)] by auto
  then obtain t u where t: "terms = [t, u]" using assms(4) by (auto simp: dot_terms_def length_Suc_conv numeral_2_eq_2)
  have "ps_in t + ps_in u \<le> ps_sum (sl_Term sl)" using assms(3) unfolding t by (auto simp: list_all2_Cons2)
  moreover have "0 < ps_in t" using proc_word[of t] assms(5) p t by simp
  ultimately have "ps_in u < ps_in src" using parse_line_calm[OF assms(1)] by simp
  moreover have "ps_in src' = ps_in u" using p t by (simp add: tolower_def isupper_def code_def)
  ultimately show ?thesis using assms(1,2) by (auto simp: dots_def split: option.split)
qed

end
