(* ===== verification/Pasm_Main.thy ===== *)
theory Pasm_Main
  imports Pasm_Driver "HOL-Library.Monad_Syntax"
begin

text \<open>
  The assembler's command line and output files: \<open>main\<close> of \<open>pasm.c\<close> around the two passes, the writers of the
  image (C array, FreeBasic array, hexadecimal image, debug file, binary files of both byte orders) and the annotated
  source listing (\<open>ListFile\<close>, \<open>PrintLine\<close>).

  A file's contents are bytes. The environment says which files can be written; what is written to an open file
  arrives. The raw listing (\<open>.lst\<close>), which \<open>GenOp\<close> writes during pass 2, is only opened. The host is little endian.
\<close>

section \<open>Options\<close>

definition OPTION_BINARY :: u32 where "OPTION_BINARY = 0x1"
definition OPTION_BINARYBIG :: u32 where "OPTION_BINARYBIG = 0x2"
definition OPTION_CARRAY :: u32 where "OPTION_CARRAY = 0x4"
definition OPTION_IMGFILE :: u32 where "OPTION_IMGFILE = 0x8"
definition OPTION_DBGFILE :: u32 where "OPTION_DBGFILE = 0x10"
definition OPTION_LISTING :: u32 where "OPTION_LISTING = 0x20"
definition OPTION_DEBUG :: u32 where "OPTION_DEBUG = 0x40"
definition OPTION_SOURCELISTING :: u32 where "OPTION_SOURCELISTING = 0x200"
definition OPTION_FBARRAY :: u32 where "OPTION_FBARRAY = 0x400"

definition MAXFILE :: nat where "MAXFILE = 256"
definition MAX_CMD_EQUATE :: nat where "MAX_CMD_EQUATE = 8"

record cmdline =
  cl_Options :: u32
  cl_Core :: nat
  cl_Equates :: "(string \<times> string) list"
  nameCArray :: string
  nameCArraySet :: bool
  cl_Dirs :: "string list"

definition cmdline_init :: cmdline where
  "cmdline_init = \<lparr>cl_Options = 0, cl_Core = CORE_NONE, cl_Equates = [], nameCArray = [], nameCArraySet = False, cl_Dirs = []\<rparr>"

text \<open>\<open>add_include_dir\<close> looks for a slash before the start of the name when nothing else is left of it.\<close>

definition add_include_dir :: "string \<Rightarrow> string list \<Rightarrow> string list option" where
  "add_include_dir dirname dirs = (let d = strip_slashes dirname in if d = [] then None else Some (dirs @ [d]))"

text \<open>Characters stored at the start of a buffer, with no terminator of their own.\<close>

definition overlay :: "string \<Rightarrow> string \<Rightarrow> string" where
  "overlay new old = new @ drop (length new) old"

definition parse_equate :: "string \<Rightarrow> cmdline \<Rightarrow> cmdline option" where
  "parse_equate flags c =
     (let name = takeWhile (\<lambda>x. x \<noteq> CHR ''='') flags; rest = dropWhile (\<lambda>x. x \<noteq> CHR ''='') flags in
      if length (cl_Equates c) = MAX_CMD_EQUATE then None
      else if EQUATE_NAME_LEN \<le> length name then None
      else if rest = [] then Some (c\<lparr>cl_Equates := cl_Equates c @ [(name, ''1'')]\<rparr>)
      else if EQUATE_DATA_LEN \<le> length (tl rest) then None
      else Some (c\<lparr>cl_Equates := cl_Equates c @ [(name, overlay (tl rest) ''1'')]\<rparr>))"

definition set_core :: "nat \<Rightarrow> cmdline \<Rightarrow> cmdline option" where
  "set_core k c = (if cl_Core c \<noteq> CORE_NONE then None else Some (c\<lparr>cl_Core := k\<rparr>))"

definition flag_option :: "char \<Rightarrow> u32 option" where
  "flag_option f = map_of
     [(CHR ''E'', OPTION_BIGENDIAN), (CHR ''b'', OPTION_BINARY), (CHR ''B'', OPTION_BINARYBIG), (CHR ''c'', OPTION_CARRAY),
      (CHR ''m'', OPTION_IMGFILE), (CHR ''l'', OPTION_LISTING), (CHR ''L'', OPTION_SOURCELISTING), (CHR ''d'', OPTION_DBGFILE),
      (CHR ''f'', OPTION_FBARRAY), (CHR ''z'', OPTION_DEBUG)] f"

text \<open>The flags of one argument; \<open>Ret None\<close> is the usage message.\<close>

fun parse_flags :: "string \<Rightarrow> cmdline \<Rightarrow> cmdline option exec" where
  "parse_flags [] c = Ret (Some c)"
| "parse_flags (f # flags) c =
     (if f = CHR ''I'' then
        (case add_include_dir flags (cl_Dirs c) of None \<Rightarrow> Stuck | Some ds \<Rightarrow> Ret (Some (c\<lparr>cl_Dirs := ds\<rparr>)))
      else if f = CHR ''D'' then Ret (parse_equate flags c)
      else if f = CHR ''C'' then
        Ret (if EQUATE_DATA_LEN \<le> length flags then None
          else Some (c\<lparr>nameCArray := overlay flags (nameCArray c), nameCArraySet := True\<rparr>))
      else if f = CHR ''V'' then
        (case flags of
           [] \<Rightarrow> Ret None
         | d # flags \<Rightarrow>
             if code d < 48 \<or> 51 < code d then Ret None
             else (case set_core (CORE_V0 + (code d - 48)) c of None \<Rightarrow> Ret None | Some c \<Rightarrow> parse_flags flags c))
      else if f = CHR ''x'' then (case set_core CORE_V0 c of None \<Rightarrow> Ret None | Some c \<Rightarrow> parse_flags flags c)
      else if f = CHR ''X'' then (case set_core CORE_V2 c of None \<Rightarrow> Ret None | Some c \<Rightarrow> parse_flags flags c)
      else
        (case flag_option f of
           None \<Rightarrow> Ret None
         | Some bits \<Rightarrow> parse_flags flags (c\<lparr>cl_Options := cl_Options c OR bits\<rparr>)))"

fun parse_args :: "string list \<Rightarrow> cmdline \<Rightarrow> cmdline option exec" where
  "parse_args [] c = Ret (Some c)"
| "parse_args (a # as) c =
     (if cur a = CHR ''-'' then
        (case parse_flags (tl a) c of Ret (Some c) \<Rightarrow> parse_args as c | r \<Rightarrow> r)
      else parse_args as c)"

text \<open>The input file and the base of the output names; \<open>None\<close> for a third name.\<close>

definition positional :: "string list \<Rightarrow> (string option \<times> string option) option" where
  "positional args =
     (case filter (\<lambda>a. cur a \<noteq> CHR ''-'') args of
        [] \<Rightarrow> Some (None, None) | [i] \<Rightarrow> Some (Some i, None) | [i, out] \<Rightarrow> Some (Some i, Some out) | _ \<Rightarrow> None)"

text \<open>No dot but as one of two.\<close>

fun no_dots :: "string \<Rightarrow> bool" where
  "no_dots [] = True"
| "no_dots [c] = (c \<noteq> CHR ''.'')"
| "no_dots (c # d # s) =
     (if c = CHR ''.'' then (if d = CHR ''.'' then no_dots s else False) else no_dots (d # s))"

section \<open>Text\<close>

definition ascii :: "string \<Rightarrow> u8 list" where "ascii s = map (\<lambda>c. of_nat (code c)) s"

definition nl :: string where "nl = [CHR 0x0A]"

definition hexdig :: "nat \<Rightarrow> char" where
  "hexdig n = char_of (if n < 10 then 48 + n else 87 + n)"

fun hexnum :: "nat \<Rightarrow> string" where
  "hexnum n = (if n < 16 then [hexdig n] else hexnum (n div 16) @ [hexdig (n mod 16)])"

declare hexnum.simps [simp del]

text \<open>\<open>%0<k>x\<close> and \<open>%<k>d\<close>.\<close>

definition hexpad :: "nat \<Rightarrow> nat \<Rightarrow> string" where
  "hexpad k n = (let s = hexnum n in replicate (k - length s) CHR ''0'' @ s)"

definition decpad :: "nat \<Rightarrow> nat \<Rightarrow> string" where
  "decpad k n = (let s = decimal n in replicate (k - length s) CHR '' '' @ s)"

definition hex8 :: "u32 \<Rightarrow> string" where "hex8 w = hexpad 8 (unat w)"

section \<open>The image\<close>

text \<open>The entries of the image below the offset, or a read past it.\<close>

definition image_entries :: "asm \<Rightarrow> CODEGEN list option" where
  "image_entries st =
     (if int (length (ProgramImage st)) < CodeOffset st then None else Some (take (nat (CodeOffset st)) (ProgramImage st)))"

definition array_text :: "string \<Rightarrow> string \<Rightarrow> string \<Rightarrow> u32 list \<Rightarrow> string" where
  "array_text pre mid post ws = concat (map (\<lambda>w. pre @ hex8 w @ mid) (butlast ws)) @ pre @ hex8 (last ws) @ post"

definition carray_text :: "cmdline \<Rightarrow> u32 list \<Rightarrow> string" where
  "carray_text c ws =
     nl @ nl @
     ''/* This file contains the PRU instructions in a C array which are to  */'' @ nl @
     ''/* be downloaded from the host CPU to the PRU instruction memory.     */'' @ nl @
     ''/* This file is generated by the PRU assembler.                       */'' @ nl @
     nl @ ''const unsigned int '' @ (if nameCArraySet c then nameCArray c else ''PRUcode'') @ ''[] =  {'' @ nl @
     array_text ''     0x'' ('','' @ nl) ('' };'' @ nl @ nl) ws"

definition fbarray_text :: "cmdline \<Rightarrow> u32 list \<Rightarrow> string" where
  "fbarray_text c ws =
     nl @ nl @
     [CHR 0x27] @ '' This file contains the PRU instructions in a FB array which are  '' @ nl @
     [CHR 0x27] @ '' to be downloaded from the host CPU to the PRU instruction memory.'' @ nl @
     [CHR 0x27] @ '' This file is generated by the PRU assembler.                     '' @ nl @
     nl @ ''STATIC SHARED AS UINTEGER '' @ (if nameCArraySet c then nameCArray c else ''PRUcode'') @ ''(...) = { _'' @ nl @
     array_text ''  &H'' ('', _'' @ nl) ('' }'' @ nl @ nl) ws"

definition img_text :: "u32 list \<Rightarrow> string" where
  "img_text ws = concat (map (\<lambda>w. hex8 w @ nl) ws)"

definition le16 :: "u16 \<Rightarrow> u8 list" where "le16 w = [ucast w, ucast (drop_bit 8 w)]"

definition le32 :: "u32 \<Rightarrow> u8 list" where
  "le32 w = [ucast w, ucast (drop_bit 8 w), ucast (drop_bit 16 w), ucast (drop_bit 24 w)]"

definition be32 :: "u32 \<Rightarrow> u8 list" where
  "be32 w = [ucast (drop_bit 24 w), ucast (drop_bit 16 w), ucast (drop_bit 8 w), ucast w]"

section \<open>The debug file\<close>

definition DBGFILE_NAMELEN_SHORT :: nat where "DBGFILE_NAMELEN_SHORT = 64"

text \<open>A name copied into a cleared field of a record: \<open>None\<close> when it does not fit.\<close>

definition dbg_name :: "string \<Rightarrow> u8 list option" where
  "dbg_name s = (if DBGFILE_NAMELEN_SHORT \<le> length s then None else Some (ascii s @ replicate (DBGFILE_NAMELEN_SHORT - length s) 0))"

fun dbg_labels :: "(string \<times> int) list \<Rightarrow> u8 list option" where
  "dbg_labels [] = Some []"
| "dbg_labels ((name, value) # ls) =
     do { n \<leftarrow> dbg_name name; rest \<leftarrow> dbg_labels ls; Some (le32 (word_of_int value) @ n @ rest) }"

fun dbg_files :: "(string \<times> string \<times> bool) list \<Rightarrow> u8 list option" where
  "dbg_files [] = Some []"
| "dbg_files ((name, dir, used) # fs) =
     do { n \<leftarrow> dbg_name (if dir = ''./'' \<or> DBGFILE_NAMELEN_SHORT \<le> length name + length dir then name else dir @ name);
          rest \<leftarrow> dbg_files fs; Some (n @ rest) }"

definition dbg_code :: "CODEGEN \<Rightarrow> u8 list" where
  "dbg_code e = [cg_Flags e, 0] @ le16 (cg_FileIndex e) @ le32 (cg_Line e) @ le32 (cg_AddrOffset e) @ le32 (cg_CodeWord e)"

definition dbg_header :: "pasm \<Rightarrow> u8 list" where
  "dbg_header s =
     (let st = core s; labels = length (pLabelList st); nfiles = length (sfArray s);
          off1 = 36 + labels * 68; off2 = off1 + nfiles * 64 in
      concat (map le32 [0x10150003, of_nat labels, 36, of_nat nfiles, of_nat off1, word_of_int (CodeOffset st), of_nat off2,
        word_of_int (EntryPoint st), if big_endian st then 1 else 0]))"

definition dbg_bytes :: "pasm \<Rightarrow> CODEGEN list \<Rightarrow> u8 list option" where
  "dbg_bytes s es =
     do { ls \<leftarrow> dbg_labels (pLabelList (core s)); fs \<leftarrow> dbg_files (sfArray s);
          Some (dbg_header s @ ls @ fs @ concat (map dbg_code es)) }"

section \<open>The annotated listing\<close>

text \<open>\<open>PrintLine\<close>: what is printed, and the rest of the file after a line's end.\<close>

fun print_line :: "string \<Rightarrow> string \<times> string option" where
  "print_line [] = ([], None)"
| "print_line (c # body) =
     (if c = CHR 0x0D then print_line body
      else if c = CHR 0x0A then (nl, Some body)
      else (case print_line body of (out, r) \<Rightarrow> (c # out, r)))"

lemma print_line_shorter: "print_line body = (out, Some rest) \<Longrightarrow> length rest < length body"
  by (induction body arbitrary: out) (auto split: if_splits prod.splits intro: less_SucI)

text \<open>The addresses and words of a line, of those of a file; the first is printed beside the line, the others below it.\<close>

function list_lines :: "(nat \<times> CODEGEN) list \<Rightarrow> nat \<Rightarrow> string \<Rightarrow> string" where
  "list_lines es line body =
     (let here = filter (\<lambda>(a, e). cg_Line e = of_nat line) es;
          word = (\<lambda>(a, e). ''0x'' @ hexpad 4 a @ '' 0x'' @ hex8 (cg_CodeWord e));
          mark = (case here of
              [] \<Rightarrow> decpad 5 line @ '' :                   : ''
            | x # _ \<Rightarrow> decpad 5 line @ '' : '' @ word x @ '' : '') in
      case print_line body of
        (out, None) \<Rightarrow> mark @ out
      | (out, Some rest) \<Rightarrow>
          mark @ out @ concat (map (\<lambda>x. ''      : '' @ word x @ '' : '' @ nl) (tl here)) @ list_lines es (line + 1) rest)"
  by pat_completeness auto

termination by (relation "measure (\<lambda>(es, line, body). length body)") (auto dest: print_line_shorter[OF sym])

declare list_lines.simps [simp del]

text \<open>\<open>GetInfoFromAddr\<close> for every address of the image, of the file with the given index.\<close>

definition file_entries :: "nat \<Rightarrow> CODEGEN list \<Rightarrow> (nat \<times> CODEGEN) list" where
  "file_entries i es =
     filter (\<lambda>(a, e). cg_AddrOffset e = of_nat a \<and> unat (cg_FileIndex e) = i) (enumerate 0 es)"

definition ListFile :: "nat \<Rightarrow> CODEGEN list \<Rightarrow> string \<Rightarrow> string" where
  "ListFile i es text =
     (let fe = file_entries i es in
      (if fe = [] then ''(No Output Generated)'' else ''('' @ decimal (length fe) @ '' Instructions Generated)'') @ nl @ nl @
      list_lines fe 1 text)"

fun list_files :: "files \<Rightarrow> CODEGEN list \<Rightarrow> nat \<Rightarrow> (string \<times> string \<times> bool) list \<Rightarrow> string" where
  "list_files fs es i [] = []"
| "list_files fs es i ((name, dir, used) # rest) =
     (let path = dir @ CHR ''/'' # name in
      ''Source File '' @ decimal (i + 1) @ '' : '' @ [CHR 0x27] @ name @ [CHR 0x27] @ '' '' @
      (case readable fs path of
         Some text \<Rightarrow> ListFile i es text @ nl @ nl
       | None \<Rightarrow> ''(File Not Found '' @ [CHR 0x27] @ path @ [CHR 0x27] @ '')'' @ nl @ nl) @
      list_files fs es (i + 1) rest)"

section \<open>The output files\<close>

text \<open>\<open>outbase\<close> and a suffix in \<open>outfilename\<close>.\<close>

definition out_name :: "string \<Rightarrow> string \<Rightarrow> string option" where
  "out_name outbase suffix = (if MAXFILE \<le> length outbase + length suffix then None else Some (outbase @ suffix))"

text \<open>One writer: nothing without its option; an error when the file can not be opened.\<close>

type_synonym outputs = "(string \<times> u8 list) list"

definition write_file ::
  "(string \<Rightarrow> bool) \<Rightarrow> string \<Rightarrow> u32 \<Rightarrow> u32 \<times> string \<times> u8 list option \<Rightarrow> asm \<times> outputs \<Rightarrow> (asm \<times> outputs) option" where
  "write_file writable outbase opts w r =
     (case w of (bits, suffix, content) \<Rightarrow>
        if opts AND bits = 0 then Some r
        else do { name \<leftarrow> out_name outbase suffix;
                  if \<not> writable name then Some (Report REP_ERROR (fst r), snd r)
                  else do { bytes \<leftarrow> content; Some (fst r, snd r @ [(name, bytes)]) } })"

definition writers :: "files \<Rightarrow> cmdline \<Rightarrow> pasm \<Rightarrow> CODEGEN list \<Rightarrow> (u32 \<times> string \<times> u8 list option) list" where
  "writers fs c s es =
     (let ws = map cg_CodeWord es in
      [(OPTION_CARRAY, ''_bin.h'', Some (ascii (carray_text c ws))),
       (OPTION_FBARRAY, ''.bi'', Some (ascii (fbarray_text c ws))),
       (OPTION_IMGFILE, ''.img'', Some (ascii (img_text ws))),
       (OPTION_DBGFILE, ''.dbg'', dbg_bytes s es),
       (OPTION_SOURCELISTING, ''.txt'', Some (ascii (list_files fs es 0 (sfArray s)))),
       (OPTION_BINARY, ''.bin'', Some (concat (map le32 ws))),
       (OPTION_BINARYBIG, ''.bib'', Some (concat (map be32 ws)))])"

fun write_all :: "(string \<Rightarrow> bool) \<Rightarrow> string \<Rightarrow> u32 \<Rightarrow> (u32 \<times> string \<times> u8 list option) list \<Rightarrow> asm \<times> outputs \<Rightarrow> (asm \<times> outputs) option" where
  "write_all writable outbase opts [] r = Some r"
| "write_all writable outbase opts (w # ws) r =
     do { r \<leftarrow> write_file writable outbase opts w r; write_all writable outbase opts ws r }"

text \<open>
  With a code offset beyond the image every writer that gets to its entries reads past it, the listing only for
  a source file that can be opened.
\<close>

definition writers_past :: "files \<Rightarrow> cmdline \<Rightarrow> pasm \<Rightarrow> (u32 \<times> string \<times> u8 list option) list" where
  "writers_past fs c s =
     map (\<lambda>(bits, suffix, content).
       (bits, suffix, if bits = OPTION_SOURCELISTING \<and> (\<forall>(name, dir, used) \<in> set (sfArray s). readable fs (dir @ CHR ''/'' # name) = None)
                      then content else None)) (writers fs c s [])"

text \<open>The results: with an error, or nothing generated, no file is written and the exit code is 1.\<close>

definition write_outputs :: "files \<Rightarrow> (string \<Rightarrow> bool) \<Rightarrow> cmdline \<Rightarrow> string \<Rightarrow> pasm \<Rightarrow> (int \<times> outputs) exec" where
  "write_outputs fs writable c outbase s =
     (let st = core s in
      if 0 < Errors st \<or> CodeOffset st \<le> 0 then Ret (1, [])
      else
        (case write_all writable outbase (Options st)
            (case image_entries st of Some es \<Rightarrow> writers fs c s es | None \<Rightarrow> writers_past fs c s) (st, []) of
           None \<Rightarrow> Stuck
         | Some (st, out) \<Rightarrow> Ret (if 0 < Errors st then 1 else 0, out)))"

section \<open>main\<close>

definition out_base :: "string option \<Rightarrow> string \<Rightarrow> string" where
  "out_base outfile source = (case outfile of Some out \<Rightarrow> out | None \<Rightarrow> takeWhile (\<lambda>c. c \<noteq> CHR ''.'') source)"

definition default_output :: "u32 \<Rightarrow> u32" where
  "default_output opts =
     (if opts AND (OPTION_BINARY OR OPTION_CARRAY OR OPTION_BINARYBIG OR OPTION_IMGFILE OR OPTION_DBGFILE OR OPTION_FBARRAY) = 0
      then opts OR OPTION_CARRAY else opts)"

text \<open>After the command line: the test opening, the passes and the results.\<close>

definition assemble_file ::
  "files \<Rightarrow> (string \<Rightarrow> bool) \<Rightarrow> nat \<Rightarrow> cmdline \<Rightarrow> string \<Rightarrow> string option \<Rightarrow> (int \<times> outputs) exec" where
  "assemble_file fs writable n c infile outfile =
     (case InitSourceFile fs infile False (pasm_init (cl_Core c) (cl_Options c)) of
        Ret (None, s) \<Rightarrow> Ret (1, [])
      | Ret (Some ps, s) \<Rightarrow>
          (let outbase = out_base outfile (sf_SourceName ps); opts = default_output (cl_Options c);
               s = CloseSourceFile ps s;
               s = s\<lparr>core := asm_init (cl_Core c) opts 0 []\<rparr>;
               listing = (if opts AND OPTION_LISTING = 0 then Some ''-'' else out_name outbase ''.lst'') in
           case listing of
             None \<Rightarrow> Stuck
           | Some name \<Rightarrow>
               if opts AND OPTION_LISTING \<noteq> 0 \<and> \<not> writable name then Ret (1, [])
               else (case two_passes fs n (cl_Equates c) infile s of
                   Ret s \<Rightarrow> write_outputs fs writable c outbase s
                 | Stuck \<Rightarrow> Stuck | Fuel \<Rightarrow> Fuel))
      | Stuck \<Rightarrow> Stuck | Fuel \<Rightarrow> Fuel)"

definition pasm_main :: "files \<Rightarrow> (string \<Rightarrow> bool) \<Rightarrow> nat \<Rightarrow> string list \<Rightarrow> (int \<times> outputs) exec" where
  "pasm_main fs writable n args =
     (case positional args of
        None \<Rightarrow> Ret (1, [])
      | Some (infile, outfile) \<Rightarrow>
          (case parse_args args cmdline_init of
             Ret None \<Rightarrow> Ret (1, [])
           | Ret (Some c) \<Rightarrow>
               (let c = (if cl_Core c = CORE_NONE then c\<lparr>cl_Core := CORE_V1\<rparr> else c) in
                case infile of
                  None \<Rightarrow> Ret (1, [])
                | Some infile \<Rightarrow>
                    if (case outfile of None \<Rightarrow> False | Some out \<Rightarrow> MAXFILE - 5 < length out \<or> \<not> no_dots out) then Ret (1, [])
                    else assemble_file (fs\<lparr>include_dirs := cl_Dirs c\<rparr>) writable n c infile outfile)
           | Stuck \<Rightarrow> Stuck | Fuel \<Rightarrow> Fuel))"

end
