(* ===== verification/Pasm_Main_Props.thy ===== *)
theory Pasm_Main_Props
  imports Pasm_Main Prussdrv_Props
begin

text \<open>
  Properties of the assembler's command line and output files: the limits the command line keeps, the exit code and
  the files written, the writers' bounds, and the way of a program from the assembler through the binary file into
  the PRU's instruction memory by the driver library.
\<close>

section \<open>The command line\<close>

fun equate_fits :: "string \<times> string \<Rightarrow> bool" where
  "equate_fits (name, val) = (length name < 128 \<and> val \<noteq> [] \<and> length val < 256)"

definition cmdline_ok :: "cmdline \<Rightarrow> bool" where
  "cmdline_ok c \<longleftrightarrow> length (cl_Equates c) \<le> 8 \<and> list_all equate_fits (cl_Equates c) \<and>
     length (nameCArray c) < 256 \<and> cl_Core c \<le> 4 \<and> list_all (\<lambda>d. d \<noteq> [] \<and> last d \<noteq> CHR ''/'') (cl_Dirs c)"

lemma overlay_one: "length v < 256 \<Longrightarrow> overlay v ''1'' \<noteq> [] \<and> length (overlay v ''1'') < 256"
  by (cases v) (simp_all add: overlay_def)

lemma parse_equate_adds:
  assumes "parse_equate fl c = Some c'"
  obtains e where "c' = c\<lparr>cl_Equates := cl_Equates c @ [e]\<rparr>" "equate_fits e" "length (cl_Equates c) \<noteq> 8"
proof -
  define name rest where nr: "name = takeWhile (\<lambda>x. x \<noteq> CHR ''='') fl" "rest = dropWhile (\<lambda>x. x \<noteq> CHR ''='') fl"
  have p: "length (cl_Equates c) \<noteq> 8" "length name < 128"
      "c' = c\<lparr>cl_Equates := cl_Equates c @ [(name, if rest = [] then ''1'' else overlay (tl rest) ''1'')]\<rparr>"
      "rest = [] \<or> length (tl rest) < 256"
    using assms[unfolded parse_equate_def nr[symmetric] Let_def MAX_CMD_EQUATE_def EQUATE_NAME_LEN_def TOKEN_MAX_LEN_def EQUATE_DATA_LEN_def]
    by (simp_all split: if_split_asm)
  have "equate_fits (name, if rest = [] then ''1'' else overlay (tl rest) ''1'')"
    using p(2,4) overlay_one[of "tl rest"] by (cases "rest = []") simp_all
  with p(1,3) show thesis by (intro that)
qed

lemma parse_equate_ok: "parse_equate fl c = Some c' \<Longrightarrow> cmdline_ok c \<Longrightarrow> cmdline_ok c'"
  by (elim parse_equate_adds) (simp add: cmdline_ok_def)

lemma strip_slashes_last: "strip_slashes s \<noteq> [] \<Longrightarrow> last (strip_slashes s) \<noteq> CHR ''/''"
  using hd_dropWhile[of "\<lambda>c. c = CHR ''/''" "rev s"] by (simp add: strip_slashes_def last_rev)

lemma parse_flags_ok: "parse_flags fl c = Ret (Some c') \<Longrightarrow> cmdline_ok c \<Longrightarrow> cmdline_ok c'"
proof (induction fl c rule: parse_flags.induct)
  case (2 f fl c)
  consider "f = CHR ''I''" | "f = CHR ''D''" | "f = CHR ''C''" | "f = CHR ''V''" | "f = CHR ''x''" | "f = CHR ''X''"
    | "f \<notin> {CHR ''I'', CHR ''D'', CHR ''C'', CHR ''V'', CHR ''x'', CHR ''X''}" by blast
  then show ?case
  proof cases
    case 1
    then show ?thesis using "2.prems" strip_slashes_last[of fl]
      by (auto simp: add_include_dir_def cmdline_ok_def Let_def split: if_splits)
  next
    case 2
    then show ?thesis using "2.prems" parse_equate_ok by simp
  next
    case 3
    then show ?thesis using "2.prems" by (auto simp: cmdline_ok_def overlay_def EQUATE_DATA_LEN_def split: if_splits)
  next
    case 4
    then obtain d fl' c1 where d: "fl = d # fl'" "\<not> code d < 48" "\<not> 51 < code d" "set_core (CORE_V0 + (code d - 48)) c = Some c1"
        "parse_flags fl' c1 = Ret (Some c')"
      using "2.prems"(1) by (auto split: list.splits if_splits option.splits)
    have "cmdline_ok c1" using d "2.prems"(2) by (auto simp: set_core_def cmdline_ok_def split: if_splits)
    moreover have "cmdline_ok c1 \<Longrightarrow> cmdline_ok c'"
      by (rule "2.IH"(1)[OF _ _ _ 4 d(1) _ d(4) d(5)]) (use 4 d in auto)
    ultimately show ?thesis by blast
  next
    case 5
    then obtain c1 where c1: "set_core CORE_V0 c = Some c1" "parse_flags fl c1 = Ret (Some c')"
      using "2.prems"(1) by (auto split: option.splits)
    have "cmdline_ok c1" using c1 "2.prems"(2) by (auto simp: set_core_def cmdline_ok_def split: if_splits)
    then show ?thesis using "2.IH"(2)[OF _ _ _ _ 5 c1(1) c1(2)] 5 by simp
  next
    case 6
    then obtain c1 where c1: "set_core CORE_V2 c = Some c1" "parse_flags fl c1 = Ret (Some c')"
      using "2.prems"(1) by (auto split: option.splits)
    have "cmdline_ok c1" using c1 "2.prems"(2) by (auto simp: set_core_def cmdline_ok_def split: if_splits)
    then show ?thesis using "2.IH"(3)[OF _ _ _ _ _ 6 c1(1) c1(2)] 6 by simp
  next
    case 7
    then obtain bits where b: "flag_option f = Some bits" "parse_flags fl (c\<lparr>cl_Options := cl_Options c OR bits\<rparr>) = Ret (Some c')"
      using "2.prems"(1) by (auto split: option.splits)
    have "cmdline_ok (c\<lparr>cl_Options := cl_Options c OR bits\<rparr>)" using "2.prems"(2) by (simp add: cmdline_ok_def)
    then show ?thesis using "2.IH"(4)[OF _ _ _ _ _ _ b(1) b(2)] 7 by simp
  qed
qed simp

lemma parse_args_ok: "parse_args as c = Ret (Some c') \<Longrightarrow> cmdline_ok c \<Longrightarrow> cmdline_ok c'"
  by (induction as arbitrary: c) (auto split: if_splits exec.splits option.splits dest: parse_flags_ok)

text \<open>An include directory of slashes only.\<close>

definition bad_dir :: "string \<Rightarrow> bool" where
  "bad_dir fl \<longleftrightarrow> (\<exists>pre dir. fl = pre @ CHR ''I'' # dir \<and> list_all (\<lambda>c. c = CHR ''/'') dir)"

lemma bad_dir_Cons: "bad_dir fl \<Longrightarrow> bad_dir (f # fl)"
  unfolding bad_dir_def by (metis append_Cons)

lemma strip_slashes_empty: "strip_slashes s = [] \<Longrightarrow> list_all (\<lambda>c. c = CHR ''/'') s"
  unfolding strip_slashes_def rev_is_Nil_conv dropWhile_eq_Nil_conv set_rev list_all_iff .

lemma bad_dir_here: "add_include_dir fl ds = None \<Longrightarrow> bad_dir (CHR ''I'' # fl)"
  unfolding bad_dir_def add_include_dir_def Let_def
  by (intro exI[of _ "[]"] exI[of _ fl] conjI strip_slashes_empty) (simp_all split: if_split_asm)

lemma parse_flags_returns: "parse_flags fl c \<noteq> Fuel \<and> (parse_flags fl c = Stuck \<longrightarrow> bad_dir fl)"
proof (induction fl c rule: parse_flags.induct)
  case (2 f fl c)
  consider "f = CHR ''I''" | "f \<in> {CHR ''D'', CHR ''C''}" | "f = CHR ''V''" | "f = CHR ''x''" | "f = CHR ''X''"
    | "f \<notin> {CHR ''I'', CHR ''D'', CHR ''C'', CHR ''V'', CHR ''x'', CHR ''X''}" by blast
  then show ?case
  proof cases
    case 1
    then show ?thesis by (simp add: bad_dir_here split: option.split)
  next
    case 2
    then show ?thesis by auto
  next
    case 3
    then show ?thesis using "2.IH"(1) by (auto intro!: bad_dir_Cons split: list.split option.split)
  next
    case 4
    then show ?thesis using "2.IH"(2) by (auto intro: bad_dir_Cons split: option.split)
  next
    case 5
    then show ?thesis using "2.IH"(3) by (auto intro: bad_dir_Cons split: option.split)
  next
    case 6
    then show ?thesis using "2.IH"(4) by (auto intro: bad_dir_Cons split: option.split)
  qed
qed simp

lemma parse_args_returns:
  "parse_args as c \<noteq> Fuel \<and> (parse_args as c = Stuck \<longrightarrow> (\<exists>a \<in> set as. cur a = CHR ''-'' \<and> bad_dir (tl a)))"
proof (induction as arbitrary: c)
  case (Cons a as)
  show ?case using Cons.IH parse_flags_returns[of "tl a" c] by (auto split: exec.split option.split)
qed simp

text \<open>
  C38. The command line's limits. The reading of the arguments always ends; it faults only on an include directory made
  of slashes alone, and when it accepts, there are at most 8 equates, with names under 128 characters and data that is not
  empty and under 256, the array's name is under 256 characters, the core is a known one, and every include directory has
  a name that does not end in a slash.
\<close>

theorem command_line_limits:
  "parse_args args cmdline_init \<noteq> Fuel \<and>
    (parse_args args cmdline_init = Stuck \<longrightarrow> (\<exists>a \<in> set args. cur a = CHR ''-'' \<and> bad_dir (tl a))) \<and>
    (\<forall>c. parse_args args cmdline_init = Ret (Some c) \<longrightarrow> cmdline_ok c)"
  using parse_args_returns[of args cmdline_init] parse_args_ok[of args cmdline_init]
  by (auto simp: cmdline_ok_def cmdline_init_def)

theorem command_line_limits_witness:
  "parse_args [''-I/''] cmdline_init = Stuck \<and> (\<exists>a \<in> set [''-I/'']. cur a = CHR ''-'' \<and> bad_dir (tl a)) \<and>
    cmdline_ok (cmdline_init\<lparr>cl_Core := 3, cl_Equates := [(''X'', ''25'')]\<rparr>)"
proof -
  have 1: "parse_args [''-I/''] cmdline_init = Stuck" by (simp add: add_include_dir_def strip_slashes_def)
  have 2: "parse_args [''-V2DX=25'', ''a.p''] cmdline_init = Ret (Some (cmdline_init\<lparr>cl_Core := 3, cl_Equates := [(''X'', ''25'')]\<rparr>))"
    by (simp add: cmdline_init_def set_core_def code_def parse_equate_def overlay_def MAX_CMD_EQUATE_def EQUATE_NAME_LEN_def
      TOKEN_MAX_LEN_def EQUATE_DATA_LEN_def)
  show ?thesis using command_line_limits[of "[''-I/'']"] command_line_limits[of "[''-V2DX=25'', ''a.p'']"] 1 2 by simp
qed

section \<open>Exit code and files\<close>

text \<open>The files the options ask for: suffix and contents, in the order they are written.\<close>

definition wanted :: "u32 \<Rightarrow> (u32 \<times> string \<times> u8 list option) list \<Rightarrow> (string \<times> u8 list option) list" where
  "wanted opts ws = map snd (filter (\<lambda>w. opts AND fst w \<noteq> 0) ws)"

lemma write_all_wanted:
  "write_all wr base opts ws (st, out) = Some (st', out') \<longleftrightarrow>
     (\<forall>(suf, content) \<in> set (wanted opts ws). length base + length suf < 256 \<and> (wr (base @ suf) \<longrightarrow> content \<noteq> None)) \<and>
     st' = st\<lparr>Errors := Errors st + length (filter (\<lambda>(suf, content). \<not> wr (base @ suf)) (wanted opts ws))\<rparr> \<and>
     out' = out @ map (\<lambda>(suf, content). (base @ suf, the content)) (filter (\<lambda>(suf, content). wr (base @ suf)) (wanted opts ws))"
proof (induction ws arbitrary: st out)
  case (Cons w ws)
  obtain bits suf content where w: "w = (bits, suf, content)" by (cases w) auto
  show ?case
    using Cons.IH[of st out] Cons.IH[of "Report REP_ERROR st" out] Cons.IH[of st "out @ [(base @ suf, the content)]"]
    by (cases "opts AND bits = 0"; cases "length base + length suf < 256"; cases "wr (base @ suf)"; cases content)
      (simp_all add: w wanted_def write_file_def out_name_def MAXFILE_def)
qed (auto simp: wanted_def)

abbreviation outs :: "files \<Rightarrow> cmdline \<Rightarrow> pasm \<Rightarrow> (string \<times> u8 list option) list" where
  "outs fs c s \<equiv> wanted (Options (core s)) (writers fs c s (take (nat (CodeOffset (core s))) (ProgramImage (core s))))"

text \<open>The writers of a run, whether or not the offset lies in the image: the suffixes are the same.\<close>

definition all_writers :: "files \<Rightarrow> cmdline \<Rightarrow> pasm \<Rightarrow> (u32 \<times> string \<times> u8 list option) list" where
  "all_writers fs c s = (case image_entries (core s) of Some es \<Rightarrow> writers fs c s es | None \<Rightarrow> writers_past fs c s)"

lemma wanted_suffixes: "map fst (wanted opts (all_writers fs c s)) = map fst (wanted opts (writers fs c s es))"
  unfolding all_writers_def wanted_def writers_def writers_past_def Let_def
  by (cases "image_entries (core s)") simp_all

lemma write_outputs_Ret:
  assumes "write_outputs fs wr c base s = Ret (r, out)" "Errors (core s) = 0" "0 < CodeOffset (core s)"
  defines "ws \<equiv> wanted (Options (core s)) (all_writers fs c s)"
  shows "out = map (\<lambda>(suf, content). (base @ suf, the content)) (filter (\<lambda>(suf, content). wr (base @ suf)) ws)"
    and "r = 0 \<longleftrightarrow> filter (\<lambda>(suf, content). \<not> wr (base @ suf)) ws = []" and "r = 0 \<or> r = 1"
    and "\<forall>(suf, content) \<in> set ws. wr (base @ suf) \<longrightarrow> content \<noteq> None"
  using assms(1-3) unfolding ws_def by (auto simp: write_outputs_def all_writers_def[symmetric] Let_def write_all_wanted split: option.splits if_splits)

lemma filter_suffixes:
  "map fst xs = map fst ys \<Longrightarrow> filter (\<lambda>(suf, content). P suf) xs = [] \<longleftrightarrow> (\<forall>(suf, content) \<in> set ys. \<not> P suf)"
proof -
  assume a: "map fst xs = map fst ys"
  have "filter (\<lambda>(suf, content). P suf) xs = [] \<longleftrightarrow> (\<forall>suf \<in> fst ` set xs. \<not> P suf)" by (auto simp: filter_empty_conv)
  also have "fst ` set xs = fst ` set ys" using a by (metis set_map)
  finally show ?thesis by auto
qed

text \<open>
  C39. The exit code and the files. The exit code is 0 or 1; it is 0 exactly when there was no error, something was
  generated and every file the options ask for could be opened. With exit code 0 exactly these files have been written, in order;
  after an error in the program, or when nothing is generated, none is.
\<close>

theorem exit_code_files:
  assumes "write_outputs fs wr c base s = Ret (r, out)"
  shows "(r = 0 \<or> r = 1) \<and>
    (r = 0 \<longleftrightarrow> Errors (core s) = 0 \<and> 0 < CodeOffset (core s) \<and> (\<forall>(suf, content) \<in> set (outs fs c s). wr (base @ suf))) \<and>
    (r = 0 \<longrightarrow> map fst out = map (\<lambda>(suf, content). base @ suf) (outs fs c s)) \<and>
    (0 < Errors (core s) \<or> CodeOffset (core s) \<le> 0 \<longrightarrow> out = [])"
proof (cases "Errors (core s) = 0 \<and> 0 < CodeOffset (core s)")
  case True
  note o' = write_outputs_Ret[OF assms conjunct1[OF True] conjunct2[OF True]]
  let ?ws = "wanted (Options (core s)) (all_writers fs c s)"
  have suf: "map fst ?ws = map fst (outs fs c s)" by (rule wanted_suffixes)
  have r: "r = 0 \<longleftrightarrow> (\<forall>(suf, content) \<in> set (outs fs c s). wr (base @ suf))"
    using o'(2) filter_suffixes[OF suf, of "\<lambda>x. \<not> wr (base @ x)"] by simp
  have "map fst out = map (\<lambda>(suf, content). base @ suf) (outs fs c s)" if "r = 0"
  proof -
    have "filter (\<lambda>(suf, content). wr (base @ suf)) ?ws = ?ws"
      using o'(2) that by (auto simp: filter_empty_conv filter_id_conv)
    then have "map fst out = map (\<lambda>x. base @ x) (map fst ?ws)" unfolding o'(1) by (simp add: case_prod_unfold comp_def)
    also have "\<dots> = map (\<lambda>(suf, content). base @ suf) (outs fs c s)" unfolding suf by (simp add: case_prod_unfold comp_def)
    finally show ?thesis .
  qed
  then show ?thesis using o'(3) r True by auto
next
  case False
  then have "r = 1" "out = []" using assms by (auto simp: write_outputs_def Let_def)
  with False show ?thesis by auto
qed

section \<open>The writers' bounds\<close>

lemma dbg_labels_fit: "dbg_labels ls = None \<longleftrightarrow> list_ex (\<lambda>(name, v). 64 \<le> length name) ls"
  by (induction ls rule: dbg_labels.induct) (auto simp: dbg_name_def DBGFILE_NAMELEN_SHORT_def)

lemma dbg_files_fit: "list_all (\<lambda>(name, d, u). length name < 64) xs \<Longrightarrow> dbg_files xs \<noteq> None"
  by (induction xs rule: dbg_files.induct) (auto simp: dbg_name_def DBGFILE_NAMELEN_SHORT_def)

lemma wanted_all: "(\<forall>w \<in> set (wanted opts ws). P w) \<longleftrightarrow> (\<forall>w \<in> set ws. opts AND fst w \<noteq> 0 \<longrightarrow> P (snd w))"
  by (auto simp: wanted_def)

lemma writers_all:
  assumes "\<And>suf content. suf \<in> {''.bi'', ''.img'', ''.txt'', ''.bin'', ''.bib''} \<Longrightarrow> content \<noteq> None \<Longrightarrow> P (suf, content)"
    and "\<And>text. P (''_bin.h'', Some text) \<longleftrightarrow> A"
  shows "(\<forall>w \<in> set (wanted opts (writers fs c s es)). P w) \<longleftrightarrow>
    (opts AND OPTION_CARRAY \<noteq> 0 \<longrightarrow> A) \<and> (opts AND OPTION_DBGFILE \<noteq> 0 \<longrightarrow> P (''.dbg'', dbg_bytes s es))"
  unfolding wanted_all writers_def Let_def using assms by simp

lemma dbg_bytes_fit:
  assumes "list_all (\<lambda>(name, d, u). length name < 64) (sfArray s)"
  shows "dbg_bytes s es = None \<longleftrightarrow> list_ex (\<lambda>(name, v). 64 \<le> length name) (pLabelList (core s))"
  using dbg_files_fit[OF assms] unfolding dbg_labels_fit[symmetric] by (auto simp: dbg_bytes_def split: Option.bind_splits)

text \<open>The outputs made of the image's entries, and whether no source file can be read again.\<close>

definition image_outputs :: "(u32 \<times> string) set" where
  "image_outputs = {(OPTION_CARRAY, ''_bin.h''), (OPTION_FBARRAY, ''.bi''), (OPTION_IMGFILE, ''.img''), (OPTION_DBGFILE, ''.dbg''),
     (OPTION_BINARY, ''.bin''), (OPTION_BINARYBIG, ''.bib'')}"

definition sources_gone :: "files \<Rightarrow> pasm \<Rightarrow> bool" where
  "sources_gone fs s \<longleftrightarrow> (\<forall>(name, dir, used) \<in> set (sfArray s). readable fs (dir @ CHR ''/'' # name) = None)"

lemmas option_defs = OPTION_CARRAY_def OPTION_FBARRAY_def OPTION_IMGFILE_def OPTION_DBGFILE_def OPTION_BINARY_def
  OPTION_BINARYBIG_def OPTION_SOURCELISTING_def

lemma writers_past_all:
  assumes "\<And>suf text. P (suf, Some text) \<longleftrightarrow> P' suf"
  shows "(\<forall>w \<in> set (wanted opts (writers_past fs c s)). P w) \<longleftrightarrow>
    (\<forall>(bits, suf) \<in> image_outputs. opts AND bits \<noteq> 0 \<longrightarrow> P (suf, None)) \<and>
    (opts AND OPTION_SOURCELISTING \<noteq> 0 \<longrightarrow>
      (if sources_gone fs s then P' ''.txt'' else P (''.txt'', None)))"
proof -
  have o': "OPTION_CARRAY \<noteq> OPTION_SOURCELISTING" "OPTION_FBARRAY \<noteq> OPTION_SOURCELISTING" "OPTION_IMGFILE \<noteq> OPTION_SOURCELISTING"
    "OPTION_DBGFILE \<noteq> OPTION_SOURCELISTING" "OPTION_BINARY \<noteq> OPTION_SOURCELISTING" "OPTION_BINARYBIG \<noteq> OPTION_SOURCELISTING"
    by (simp_all add: option_defs)
  show ?thesis
    unfolding wanted_all writers_past_def writers_def Let_def image_outputs_def sources_gone_def
    using assms o' by auto
qed

text \<open>
  C40. The writers' buffers. For a program without errors that generated something, an output base the command line
  accepts (at most 251 characters) and source names that fit, writing the output faults in exactly three cases: the C
  array is asked for and the base has 250 or 251 characters, so that \<open>_bin.h\<close> does not fit in the name's buffer; the debug file is
  asked for, can be opened, and some label has 64 characters or more, which the debug file's record does not hold; or
  the code offset lies beyond the image (an \<open>.origin\<close> above 16384 with no instruction after it) and an output
  made of the image's entries is asked for and can be opened, the annotated listing counting when one of the
  source files can be read again: then the image is read past its end.
\<close>

theorem writers_in_bounds:
  assumes "Errors (core s) = 0" "0 < CodeOffset (core s)"
    and "length base \<le> 251" "list_all (\<lambda>(name, d, u). length name < 64) (sfArray s)"
  shows "write_outputs fs wr c base s = Stuck \<longleftrightarrow>
    (Options (core s) AND OPTION_CARRAY \<noteq> 0 \<and> 250 \<le> length base) \<or>
    (Options (core s) AND OPTION_DBGFILE \<noteq> 0 \<and> wr (base @ ''.dbg'') \<and> list_ex (\<lambda>(name, v). 64 \<le> length name) (pLabelList (core s))) \<or>
    (int (length (ProgramImage (core s))) < CodeOffset (core s) \<and>
      ((\<exists>(bits, suf) \<in> image_outputs. Options (core s) AND bits \<noteq> 0 \<and> wr (base @ suf)) \<or>
       (Options (core s) AND OPTION_SOURCELISTING \<noteq> 0 \<and> wr (base @ ''.txt'') \<and> \<not> sources_gone fs s)))"
proof -
  let ?es = "take (nat (CodeOffset (core s))) (ProgramImage (core s))"
  let ?P = "\<lambda>(suf, content). length base + length suf < 256 \<and> (wr (base @ suf) \<longrightarrow> content \<noteq> None)"
  have "write_outputs fs wr c base s = Stuck \<longleftrightarrow>
      write_all wr base (Options (core s)) (all_writers fs c s) (core s, []) = None"
    using assms(1,2) by (auto simp: write_outputs_def all_writers_def Let_def split: option.split)
  also have "\<dots> \<longleftrightarrow> \<not> (\<forall>w \<in> set (wanted (Options (core s)) (all_writers fs c s)). ?P w)"
  proof -
    have "write_all wr base (Options (core s)) (all_writers fs c s) (core s, []) \<noteq> None \<longleftrightarrow>
        (\<forall>w \<in> set (wanted (Options (core s)) (all_writers fs c s)). ?P w)"
      unfolding not_None_eq split_paired_Ex write_all_wanted by blast
    then show ?thesis by blast
  qed
  finally have st: "write_outputs fs wr c base s = Stuck \<longleftrightarrow> \<not> (\<forall>w \<in> set (wanted (Options (core s)) (all_writers fs c s)). ?P w)" .
  show ?thesis
  proof (cases "int (length (ProgramImage (core s))) < CodeOffset (core s)")
    case False
    then have "all_writers fs c s = writers fs c s ?es" by (simp add: all_writers_def image_entries_def)
    then show ?thesis unfolding st dbg_bytes_fit[OF assms(4), of ?es, symmetric]
      by (simp only: simp_thms, subst writers_all[where A = "length base < 250"]) (use assms(3) False in auto)
  next
    case True
    then have "all_writers fs c s = writers_past fs c s" by (simp add: all_writers_def image_entries_def)
    then show ?thesis unfolding st
      by (simp only: simp_thms, subst writers_past_all[where P' = "\<lambda>suf. length base + length suf < 256"])
        (use assms(3) True in \<open>auto simp: image_outputs_def\<close>)
  qed
qed

definition final_state :: pasm where
  "final_state = (pasm_init 2 (OPTION_BINARY OR OPTION_CARRAY OR OPTION_DBGFILE))\<lparr>
     core := (asm_init 2 (OPTION_BINARY OR OPTION_CARRAY OR OPTION_DBGFILE) 2 [(''loop'', 8)])\<lparr>CodeOffset := 9, EntryPoint := 8\<rparr>,
     sfArray := [(''main.p'', ''.'', False)]\<rparr>"

definition no_files :: files where "no_files = \<lparr>readable = (\<lambda>_. None), include_dirs = []\<rparr>"

lemma final_core: "Errors (core final_state) = 0" "CodeOffset (core final_state) = 9" "length (ProgramImage (core final_state)) = 16384"
  "Options (core final_state) AND OPTION_BINARY \<noteq> 0" "Options (core final_state) AND OPTION_CARRAY \<noteq> 0"
  "Options (core final_state) AND OPTION_DBGFILE \<noteq> 0" "pLabelList (core final_state) = [(''loop'', 8)]"
  "sfArray final_state = [(''main.p'', ''.'', False)]"
  by (simp_all add: final_state_def asm_init_def MAX_PROGRAM_def OPTION_BINARY_def OPTION_CARRAY_def OPTION_DBGFILE_def del: replicate.simps)

theorem writers_in_bounds_witness:
  "write_outputs no_files (\<lambda>_. True) cmdline_init (replicate 250 (CHR ''a'')) final_state = Stuck \<and>
    write_outputs no_files (\<lambda>_. True) cmdline_init ''main'' final_state \<noteq> Stuck \<and>
    write_outputs no_files (\<lambda>_. True) cmdline_init ''main'' (final_state\<lparr>core := (core final_state)\<lparr>CodeOffset := 20000\<rparr>\<rparr>) = Stuck"
  using writers_in_bounds[of final_state "replicate 250 (CHR ''a'')" no_files "\<lambda>_. True" cmdline_init]
    writers_in_bounds[of final_state "''main''" no_files "\<lambda>_. True" cmdline_init]
    writers_in_bounds[of "final_state\<lparr>core := (core final_state)\<lparr>CodeOffset := 20000\<rparr>\<rparr>" "''main''" no_files "\<lambda>_. True" cmdline_init]
  by (simp add: final_core image_outputs_def del: replicate.simps)

lemma final_returns: "\<exists>r out. write_outputs no_files (\<lambda>_. True) cmdline_init ''main'' final_state = Ret (r, out)"
proof -
  let ?es = "take (nat 9) (ProgramImage (core final_state))"
  have "list_all (\<lambda>(name, d, u). length name < 64) (sfArray final_state)" "\<not> list_ex (\<lambda>(name, v). 64 \<le> length name) (pLabelList (core final_state))"
    by (simp_all add: final_core)
  then have "dbg_bytes final_state ?es \<noteq> None" using dbg_bytes_fit[of final_state ?es] by simp
  then have "\<forall>w \<in> set (outs no_files cmdline_init final_state). case w of (suf, content) \<Rightarrow>
      length ''main'' + length suf < 256 \<and> (True \<longrightarrow> content \<noteq> None)"
    by (subst writers_all[where A = True]) (auto simp: final_core)
  then have "\<exists>st out. write_all (\<lambda>_. True) ''main'' (Options (core final_state)) (writers no_files cmdline_init final_state ?es)
      (core final_state, []) = Some (st, out)"
    unfolding write_all_wanted by (simp add: final_core)
  then show ?thesis by (auto simp: write_outputs_def image_entries_def Let_def final_core)
qed

theorem exit_code_files_witness:
  "\<exists>out. write_outputs no_files (\<lambda>_. True) cmdline_init ''main'' final_state = Ret (0, out) \<and>
    map fst out = map (\<lambda>(suf, content). ''main'' @ suf) (outs no_files cmdline_init final_state)"
proof -
  obtain r out where o': "write_outputs no_files (\<lambda>_. True) cmdline_init ''main'' final_state = Ret (r, out)" using final_returns by blast
  from exit_code_files[OF o'] have "r = 0" by (simp add: final_core case_prod_unfold)
  with exit_code_files[OF o'] o' show ?thesis by simp
qed

section \<open>From the assembler into the instruction memory\<close>

lemma le32_word: "(ucast (ucast w :: u8) :: u32) OR push_bit 8 (ucast (ucast (drop_bit 8 w) :: u8)) OR
    push_bit 16 (ucast (ucast (drop_bit 16 w) :: u8)) OR push_bit 24 (ucast (ucast (drop_bit 24 w) :: u8)) = w"
proof (rule bit_word_eqI)
  fix n assume n: "n < LENGTH(32)"
  then consider "n < 8" | "8 \<le> n" "n < 16" | "16 \<le> n" "n < 24" | "24 \<le> n" by linarith
  then show "bit ((ucast (ucast w :: u8) :: u32) OR push_bit 8 (ucast (ucast (drop_bit 8 w) :: u8)) OR
      push_bit 16 (ucast (ucast (drop_bit 16 w) :: u8)) OR push_bit 24 (ucast (ucast (drop_bit 24 w) :: u8))) n = bit w n"
    using n by cases (auto simp: bit_simps)
qed

lemma le_words_le32: "le_words (concat (map le32 ws) @ rest) = ws @ le_words rest"
  by (induction ws) (simp_all add: le32_def le32_word)

lemma length_le32s: "length (concat (map le32 ws)) = 4 * length ws"
  by (induction ws) (simp_all add: le32_def)

text \<open>
  C6. A program's way into the PRU. The binary file the assembler writes for a program without errors, handed to the
  driver library as it is, puts exactly the code words of the image, in order, into the instruction memory of the chosen PRU,
  between the store that disables it and the one that enables it; a program of more than 2048 words is refused by the
  driver, without a store.
\<close>

theorem binary_loads:
  assumes "write_outputs fs wr c base s = Ret (r, out)" "Errors (core s) = 0" "0 < CodeOffset (core s)"
    and "Options (core s) AND OPTION_BINARY \<noteq> 0" "wr (base @ ''.bin'')"
    and "prunum = 0 \<or> prunum = 1" "length buf = 8192"
  shows "\<exists>bytes. (base @ ''.bin'', bytes) \<in> set out \<and>
    (\<forall>os f d addr. os_file os (os_k d) f = Some (length bytes, bytes) \<longrightarrow>
      (\<exists>d' q. prussdrv_exec_program_at os buf prunum f addr d = Some (d', q) \<and>
        (if CodeOffset (core s) \<le> 2048 then
           q = 0 \<and> stores d' = stores d @ (control_of d prunum, 1) #
             map (\<lambda>k. (iram_of d prunum + 4 * of_nat k, cg_CodeWord (ProgramImage (core s) ! k))) [0..<nat (CodeOffset (core s))] @
             [(control_of d prunum, push_bit 16 (addr div 4) OR 2)]
         else q = -1 \<and> stores d' = stores d)))"
proof -
  note o' = write_outputs_Ret[OF assms(1-3)]
  have im: "CodeOffset (core s) \<le> int (length (ProgramImage (core s)))"
  proof (rule ccontr)
    assume "\<not> CodeOffset (core s) \<le> int (length (ProgramImage (core s)))"
    then have "all_writers fs c s = writers_past fs c s" by (simp add: all_writers_def image_entries_def)
    then have "(''.bin'', None) \<in> set (wanted (Options (core s)) (all_writers fs c s))"
      using assms(4) by (auto simp: wanted_def writers_past_def writers_def Let_def option_defs)
    with o'(4) assms(5) show False by auto
  qed
  then have ws: "all_writers fs c s = writers fs c s (take (nat (CodeOffset (core s))) (ProgramImage (core s)))"
    by (simp add: all_writers_def image_entries_def)
  let ?n = "nat (CodeOffset (core s))"
  let ?ws = "map cg_CodeWord (take ?n (ProgramImage (core s)))" and ?bytes = "concat (map le32 (map cg_CodeWord (take ?n (ProgramImage (core s)))))"
  have len: "length ?ws = ?n" "length ?bytes = 4 * ?n" using im by (simp_all add: length_le32s del: map_map)
  have "(''.bin'', Some ?bytes) \<in> set (outs fs c s)"
    using assms(4) by (auto simp: wanted_def writers_def Let_def simp del: map_map)
  then have "(base @ ''.bin'', ?bytes) \<in> set out" unfolding o'(1) ws using assms(5) by force
  moreover have "\<exists>d' q. prussdrv_exec_program_at os buf prunum f addr d = Some (d', q) \<and>
      (if CodeOffset (core s) \<le> 2048 then
         q = 0 \<and> stores d' = stores d @ (control_of d prunum, 1) #
           map (\<lambda>k. (iram_of d prunum + 4 * of_nat k, cg_CodeWord (ProgramImage (core s) ! k))) [0..<?n] @
           [(control_of d prunum, push_bit 16 (addr div 4) OR 2)]
       else q = -1 \<and> stores d' = stores d)" if f: "os_file os (os_k d) f = Some (length ?bytes, ?bytes)" for os f d addr
  proof -
    have n: "0 < ?n" "(4 * ?n + 3) div 4 = ?n" using assms(3) by auto
    have w: "le_words (fill_buffer buf (take (4 * ?n) ?bytes)) ! k = cg_CodeWord (ProgramImage (core s) ! k)" if "k < ?n" for k
    proof -
      have "take (4 * ?n) ?bytes = ?bytes" using len by simp
      then show ?thesis using that len(1) im by (simp add: fill_buffer_def le_words_le32 nth_append del: map_map)
    qed
    then have m: "map (\<lambda>k. (iram_of d prunum + 4 * of_nat k, le_words (fill_buffer buf (take (4 * ?n) ?bytes)) ! k)) [0..<?n] =
        map (\<lambda>k. (iram_of d prunum + 4 * of_nat k, cg_CodeWord (ProgramImage (core s) ! k))) [0..<?n]"
      by (intro map_cong) auto
    have c: "0 < 4 * ?n \<and> 4 * ?n \<le> 8192 \<and> 4 * ?n \<le> length ?bytes \<longleftrightarrow> CodeOffset (core s) \<le> 2048"
      using n(1) unfolding len(2) by auto
    show ?thesis
      using exec_program_cases[OF assms(6,7), of os f addr d] unfolding f len(2) option.case prod.case c[unfolded len(2)] n(2) m .
  qed
  ultimately show ?thesis by blast
qed

theorem binary_loads_witness:
  "\<exists>r out bytes d'. write_outputs no_files (\<lambda>_. True) cmdline_init ''main'' final_state = Ret (r, out) \<and>
    (''main'' @ ''.bin'', bytes) \<in> set out \<and>
    prussdrv_exec_program_at (am33_os\<lparr>os_file := \<lambda>_ _. Some (length bytes, bytes)\<rparr>) (replicate 8192 0) 1 ''main.bin'' 0 am33_idle = Some (d', 0)"
proof -
  obtain r out where o': "write_outputs no_files (\<lambda>_. True) cmdline_init ''main'' final_state = Ret (r, out)" using final_returns by blast
  have b: "(1 :: u32) = 0 \<or> (1 :: u32) = 1" "length (replicate 8192 (0 :: u8)) = 8192" by simp_all
  obtain bytes where bytes: "(''main'' @ ''.bin'', bytes) \<in> set out"
    and run: "\<And>os f d addr. os_file os (os_k d) f = Some (length bytes, bytes) \<Longrightarrow>
      \<exists>d' q. prussdrv_exec_program_at os (replicate 8192 0) 1 f addr d = Some (d', q) \<and> q = 0"
    using binary_loads[OF o' _ _ _ _ b] by (simp add: final_core del: replicate.simps) blast
  show ?thesis using o' bytes run[of "am33_os\<lparr>os_file := \<lambda>_ _. Some (length bytes, bytes)\<rparr>" am33_idle "''main.bin''" 0]
    by (simp del: replicate.simps) blast
qed

end
