(* ===== verification/Pasm_Total.thy ===== *)
theory Pasm_Total
  imports Pasm_Frame Pasm_Main_Props
begin

text \<open>
  The assembler ends. Three bounds make it so: at most 15 files are open at once, which bounds the depth of includes; a macro in
  use can not be expanded again, which bounds the depth of expansions; and reading a macro or a line takes text from the source. They
  are the three parts of an ordering that every nested call descends. What is needed of the input is that comments are
  closed: the preprocessor reads on forever in one that is not.
\<close>

section \<open>The state between calls\<close>

definition good :: "nat \<Rightarrow> pasm \<Rightarrow> bool" where
  "good k s \<longleftrightarrow> pasm_ok 0 s \<and> OpenFiles s = k \<and> calm s"

text \<open>The names of the macros that can be expanded.\<close>

definition free_macros :: "pasm \<Rightarrow> string set" where
  "free_macros s = mc_Name ` {m \<in> set (pMacroList s). \<not> mc_InUse m}"

abbreviation "frees s \<equiv> card (free_macros s)"

lemma finite_free [simp]: "finite (free_macros s)"
  by (simp add: free_macros_def)

lemma frees_same: "pMacroList s' = pMacroList s \<Longrightarrow> frees s' = frees s"
  by (simp add: free_macros_def)

lemma free_macros_rep [simp]: "free_macros (rep l s) = free_macros s"
  by (simp add: free_macros_def)

text \<open>After a call: less of the text is left, or the text is as before and no more macros can be expanded.\<close>

definition inside :: "nat \<Rightarrow> string \<Rightarrow> nat \<Rightarrow> 'a \<times> SOURCEFILE \<times> pasm \<Rightarrow> bool" where
  "inside k u f = (\<lambda>(r, ps', s'). good k s' \<and> suffix (unread ps') u \<and>
     (length (unread ps') < length u \<or> unread ps' = u \<and> frees s' \<le> f))"

lemma inside_trans: "inside k u f (r, ps, s) \<Longrightarrow> inside k (unread ps) (frees s) (r', ps', s') \<Longrightarrow> inside k u f (r', ps', s')"
  by (auto simp: inside_def dest: suffix_order.trans suffix_length_le)

lemma inside_result: "inside k u f (r, ps, s) = inside k u f (r', ps, s)"
  by (simp add: inside_def)

lemma inside_here: "good k s \<Longrightarrow> frees s \<le> f \<Longrightarrow> inside k (unread ps) f (r, ps, s)"
  by (simp add: inside_def)

lemma ends_inside_trans:
  "inside k u f (r, ps, s) \<Longrightarrow> ends m (inside k (unread ps) (frees s)) \<Longrightarrow> ends m (inside k u f)"
  by (erule ends_mono) (auto dest: inside_trans)

lemma plain_good:
  "plain s m \<Longrightarrow> keeps (pasm_ok 0) m \<Longrightarrow> good k s \<Longrightarrow> m = Ret (r, s') \<Longrightarrow> good k s' \<and> pMacroList s' = pMacroList s"
  by (auto simp: good_def dest: plainD keepsD)

lemma ends_plain:
  assumes "plain s m" "keeps (pasm_ok 0) m" "good k s"
    and "\<And>r s'. m = Ret (r, s') \<Longrightarrow> good k s' \<Longrightarrow> pMacroList s' = pMacroList s \<Longrightarrow> frees s' = frees s \<Longrightarrow> ends (\<lambda>n. h n (r, s')) Q"
  shows "ends (\<lambda>n. case m of Stuck \<Rightarrow> Stuck | Fuel \<Rightarrow> Fuel | Ret x \<Rightarrow> h n x) Q"
proof (rule ends_step)
  show "m \<noteq> Fuel" using assms(1) by (simp add: plain_def)
  show "ends (\<lambda>n. h n x) Q" if "m = Ret x" for x
    using assms(4)[of "fst x" "snd x"] plain_good[OF assms(1,2,3), of "fst x" "snd x"] frees_same[of "snd x" s] that by simp
qed

lemma good_rep [simp]: "good k s \<Longrightarrow> good k (rep l s)"
  by (simp add: good_def whole.report)

lemma good_ok: "good k s \<Longrightarrow> pasm_ok 0 s"
  by (simp add: good_def)

section \<open>Directives and included files\<close>

definition source_closed :: "string \<Rightarrow> bool" where
  "source_closed body \<longleftrightarrow> comments_close (filter (\<lambda>c. c \<noteq> CHR 0x0D) body)"

definition sources_closed :: "files \<Rightarrow> bool" where
  "sources_closed fs \<longleftrightarrow> (\<forall>name body. readable fs name = Some body \<longrightarrow> source_closed body)"

abbreviation closed_at :: "SOURCEFILE \<Rightarrow> bool" where "closed_at ps \<equiv> comments_close (unread ps)"

lemma open_source_good:
  assumes "sources_closed fs" "good k s" "open_source fs name s = Ret (r, s')"
  shows "case r of None \<Rightarrow> OpenFiles s' = k \<and> calm s' | Some ps \<Rightarrow> OpenFiles s' = k + 1 \<and> calm s' \<and> closed_at ps"
  using assms by (auto simp: open_source_def Let_def good_def sources_closed_def source_closed_def unread_def source_file_def
    split: option.splits if_split_asm)

lemma get_absolute_not_Fuel: "get_absolute fs name z ds \<noteq> Fuel"
  by (induction ds) simp_all

lemma InitSourceFile_ends:
  assumes "sources_closed fs" "good k s" "\<And>s'. good k s' \<Longrightarrow> ends (\<lambda>n. h n (None, s')) Q"
    and "\<And>ps s'. k \<noteq> 15 \<Longrightarrow> good (k + 1) s' \<Longrightarrow> closed_at ps \<Longrightarrow> ends (\<lambda>n. h n (Some ps, s')) Q"
  shows "ends (\<lambda>n. case InitSourceFile fs name inc s of Stuck \<Rightarrow> Stuck | Fuel \<Rightarrow> Fuel | Ret x \<Rightarrow> h n x) Q"
proof (rule ends_step)
  have o': "open_source fs f s \<noteq> Fuel" for f by (simp add: open_source_def Let_def split: option.split)
  have g: "get_absolute fs f z ds \<noteq> Fuel" for f z ds by (rule get_absolute_not_Fuel)
  show "InitSourceFile fs name inc s \<noteq> Fuel"
    using o' g by (auto simp: InitSourceFile_def andThen_def split: exec.split prod.split option.split)
  fix x assume x: "InitSourceFile fs name inc s = Ret x"
  obtain r s' where rs: "x = (r, s')" by (cases x)
  have i: "pasm_ok 0 s'" using keepsD[OF whole.open_file[OF good_ok[OF assms(2)]] x[unfolded rs]] .
  have k: "OpenFiles s = k" "calm s" using assms(2) by (simp_all add: good_def)
  have "case r of None \<Rightarrow> OpenFiles s' = k \<and> calm s' | Some ps \<Rightarrow> k \<noteq> 15 \<and> OpenFiles s' = k + 1 \<and> calm s' \<and> closed_at ps"
    using x k open_source_good[OF assms(1,2)] unfolding rs
    by (fastforce simp: InitSourceFile_def andThen_Ret split: exec.splits prod.splits if_split_asm)
  then show "ends (\<lambda>n. h n x) Q"
    using assms(3)[of s'] assms(4)[of s'] i unfolding rs by (cases r) (simp_all add: good_def)
qed

lemma CloseSourceFile_good: "good (Suc k) s \<Longrightarrow> good k (CloseSourceFile ps s)"
  using whole.close_file[of 0 s ps] by (simp add: good_def) (simp add: CloseSourceFile_def Let_def)

lemma LoadInclude_ends:
  assumes "sources_closed fs" "good k s"
    and "\<And>ps s. k \<noteq> 15 \<Longrightarrow> good (k + 1) s \<Longrightarrow> closed_at ps \<Longrightarrow> ends (\<lambda>n. sfile n ps s) (\<lambda>(r, ps', s'). good (k + 1) s')"
  shows "ends (\<lambda>n. LoadInclude fs (sfile n) src ps s) (\<lambda>(r, s'). good k s')"
proof -
  have "ends (\<lambda>n. case InitSourceFile fs name inc s of
      Ret (None, s) \<Rightarrow> Ret (False, s)
    | Ret (Some ps', s) \<Rightarrow> (case sfile n ps' s of Ret (r, ps', s) \<Rightarrow> Ret (r \<or> Pass (core s) \<noteq> 2, CloseSourceFile ps' s) | Stuck \<Rightarrow> Stuck | Fuel \<Rightarrow> Fuel)
    | Stuck \<Rightarrow> Stuck | Fuel \<Rightarrow> Fuel) (\<lambda>(r, s'). good k s')" for name inc
    by (rule InitSourceFile_ends[OF assms(1,2)])
      (auto intro!: ends_bind[OF assms(3)] simp: CloseSourceFile_good)
  then show ?thesis
    unfolding LoadInclude_def Let_def using assms(2) by (auto split: option.split)
qed

lemma directive_ends:
  assumes "\<And>src ps s. good k s \<Longrightarrow> ends (\<lambda>n. load n src ps s) (\<lambda>(r, s'). good k s')" "good k s"
  shows "ends (\<lambda>n. directive (load n) src ps s) (\<lambda>(r, s'). good k s')"
proof -
  note c = whole.conditionals[OF good_ok[OF assms(2)]] whole.equate_define[OF good_ok[OF assms(2)]] whole.equate_undefine[OF good_ok[OF assms(2)]]
  have r: "plain s m \<Longrightarrow> keeps (pasm_ok 0) m \<Longrightarrow>
      ends (\<lambda>_. case m of Stuck \<Rightarrow> Stuck | Fuel \<Rightarrow> Fuel | Ret x \<Rightarrow> Ret (g (fst x), snd x)) (\<lambda>(r, s'). good k s')"
    for m :: "('b \<times> pasm) exec" and g :: "'b \<Rightarrow> bool"
    by (rule ends_plain[OF _ _ assms(2)]) simp_all
  have choice: "(b \<Longrightarrow> ends m P) \<Longrightarrow> (\<not> b \<Longrightarrow> ends m' P) \<Longrightarrow> ends (\<lambda>n. if b then m n else m' n) P"
    for b m m' and P :: "bool \<times> pasm \<Rightarrow> bool" by simp
  show ?thesis
    unfolding directive_def Let_def case_prod_unfold
    by (intro choice r[unfolded case_prod_unfold] names_plain c assms(1)[unfolded case_prod_unfold] ends_Ret) (simp_all add: assms(2))
qed

section \<open>Source lines\<close>

text \<open>The next line: text was taken, or it is the end of the file and nothing has changed.\<close>

definition gets :: "nat \<Rightarrow> string \<Rightarrow> MACRO list \<Rightarrow> got \<times> SOURCEFILE \<times> pasm \<Rightarrow> bool" where
  "gets k u ms = (\<lambda>(r, ps', s'). good k s' \<and> suffix (unread ps') u \<and>
     (length (unread ps') < length u \<or> unread ps' = u \<and> r = EndFile \<and> pMacroList s' = ms))"

lemma gets_less: "suffix u' u \<Longrightarrow> length u' < length u \<Longrightarrow> gets k u' ms' x \<Longrightarrow> gets k u ms x"
  by (auto simp: gets_def dest: suffix_order.trans suffix_length_le)

lemma gets_now: "suffix (unread ps) u \<Longrightarrow> length (unread ps) < length u \<Longrightarrow> good k s \<Longrightarrow> gets k u ms (r, ps, s)"
  by (simp add: gets_def)

lemma GetSourceLine_ends:
  assumes load: "\<And>src ps s. good k s \<Longrightarrow> ends (\<lambda>n. load n src ps s) (\<lambda>(r, s'). good k s')"
  shows "grows f \<Longrightarrow> good k s \<Longrightarrow> closed_at ps \<Longrightarrow> ends (\<lambda>n. GetSourceLine (load n) M (f n) ps s) (gets k (unread ps) (pMacroList s))"
proof (induction "length (unread ps)" arbitrary: ps s f rule: less_induct)
  case less
  let ?u = "unread ps" and ?post = "gets k (unread ps) (pMacroList s)"
  show ?case
  proof (rule ends_fuel[where m = "\<lambda>n k. GetSourceLine (load n) M k ps s", OF less.prems(1)])
    fix g assume f: "grows g"
    let ?rest = "\<lambda>n x. case x of
          (None, ps, s) \<Rightarrow> Ret (BadLine, ps, s)
        | (Some (src, eof), ps, s) \<Rightarrow>
            if src = [] \<and> eof then
              Ret (EndFile, ps, if sf_ccDepthIn ps \<noteq> length (ccStateFlags s) then rep REP_ERROR s else s)
            else if src = [] then GetSourceLine (load n) M (g n) ps s
            else if hd src = CHR ''#'' then
              (case directive (load n) (tl src) ps s of
                 Ret (True, s) \<Rightarrow> GetSourceLine (load n) M (g n) ps s
               | Ret (False, s) \<Rightarrow> Ret (BadLine, ps, s)
               | Stuck \<Rightarrow> Stuck | Fuel \<Rightarrow> Fuel)
            else if skipping s then GetSourceLine (load n) M (g n) ps s
            else (case ParseSource src M s of
                Ret (None, s) \<Rightarrow> Ret (EndFile, ps, s)
              | Ret (Some dst, s) \<Rightarrow> Ret (if dst = [] then EndFile else Line dst, ps, s)
              | Stuck \<Rightarrow> Stuck | Fuel \<Rightarrow> Fuel)"
    have rest: "ends (\<lambda>n. ?rest n (r, ps', s')) ?post"
      if s: "s' = s \<or> s' = rep REP_ERROR s" and suf: "suffix (unread ps') ?u"
        and l: "length (unread ps') < length ?u \<or> ?u = [] \<and> r = Some ([], True)" for r ps' s'
    proof (cases "length (unread ps') < length ?u")
      case False
      then have r: "?u = []" "r = Some ([], True)" "unread ps' = []" using l suf by auto
      then show ?thesis using s less.prems(2) by (auto simp: gets_def)
    next
      case True
      have gd: "good k s'" using s less.prems(2) by auto
      have again: "ends (\<lambda>n. GetSourceLine (load n) M (g n) ps' s2) ?post" if "good k s2" for s2
        using less.hyps[OF True f that comments_close_suffix[OF less.prems(3) suf]] gets_less[OF suf True] by (rule ends_mono)
      have now: "good k s2 \<Longrightarrow> ?post (r', ps', s2)" for r' s2 by (rule gets_now[OF suf True])
      have dir: "ends (\<lambda>n. case directive (load n) t ps' s' of
                 Ret (True, s) \<Rightarrow> GetSourceLine (load n) M (g n) ps' s
               | Ret (False, s) \<Rightarrow> Ret (BadLine, ps', s)
               | Stuck \<Rightarrow> Stuck | Fuel \<Rightarrow> Fuel) ?post" for t
        by (rule ends_bind[OF directive_ends[OF load gd]]) (auto simp: again now split: bool.split)
      have par: "ends (\<lambda>n. case ParseSource t M s' of
                Ret (None, s) \<Rightarrow> Ret (EndFile, ps', s)
              | Ret (Some dst, s) \<Rightarrow> Ret (if dst = [] then EndFile else Line dst, ps', s)
              | Stuck \<Rightarrow> Stuck | Fuel \<Rightarrow> Fuel) ?post" for t
        by (rule ends_plain[OF names_plain(9) whole.parse_source[OF good_ok[OF gd]] gd]) (auto simp: now split: option.split)
      show ?thesis using again[OF gd] dir par gd by (auto simp: now split: option.split)
    qed
    have "ends (\<lambda>n. case GetTextLine (g n) RAW_SOURCE_MAX ps s of Stuck \<Rightarrow> Stuck | Fuel \<Rightarrow> Fuel | Ret x \<Rightarrow> ?rest n x) ?post"
      by (rule ends_bind[OF GetTextLine_ends[OF f less.prems(3)]]) (use rest in blast)
    then show "ends (\<lambda>n. GetSourceLine (load n) M (Suc (g n)) ps s) ?post" by simp
  qed
qed

section \<open>Reading a macro\<close>

lemma macro_step_good:
  assumes "good k s" "keeps (pasm_ok 0) m" "m = Ret (r, s')" "OpenFiles s' = OpenFiles s" "pScopeList s' = pScopeList s"
  shows "good k s'"
  using assms keepsD[OF assms(2,3)] by (simp add: good_def calm_def)

definition apart :: "pasm \<Rightarrow> ('a \<times> pasm) exec \<Rightarrow> bool" where
  "apart s m \<longleftrightarrow> m \<noteq> Fuel \<and> (\<forall>r s'. m = Ret (r, s') \<longrightarrow> OpenFiles s' = OpenFiles s \<and> pScopeList s' = pScopeList s)"

lemma apart_simps [simp]: "apart s Stuck" "apart s (Ret (r, s')) \<longleftrightarrow> OpenFiles s' = OpenFiles s \<and> pScopeList s' = pScopeList s"
  by (auto simp: apart_def)

lemma apart_andThen:
  assumes "apart s m" "\<And>a s'. OpenFiles s' = OpenFiles s \<Longrightarrow> pScopeList s' = pScopeList s \<Longrightarrow> apart s (k a s')"
  shows "apart s (andThen m k)"
proof (cases m)
  case (Ret x)
  obtain r s' where x: "x = (r, s')" by (cases x)
  show ?thesis using assms(1) assms(2)[of s'] Ret x by (cases r) simp_all
next
  case Fuel
  then show ?thesis using assms(1) by (simp add: apart_def)
qed simp

lemma macro_update_files [simp]: "OpenFiles (macro_update n f s) = OpenFiles s" "pScopeList (macro_update n f s) = pScopeList s"
  by (simp_all add: macro_update_def)

lemma macro_args_apart: "OpenFiles s' = OpenFiles s \<Longrightarrow> pScopeList s' = pScopeList s \<Longrightarrow> apart s (macro_args name ts s')"
proof (induction ts arbitrary: s')
  case (Cons t ts)
  have a: "MacroAddArg t m \<noteq> Fuel" for m by (simp add: MacroAddArg_def Let_def)
  show ?case using a Cons by (auto simp: Let_def split: option.split exec.split)
qed simp

lemma macro_line_apart: "apart s (macro_line name src sl s)"
proof -
  have l: "apart s (macro_label name x s)" for x by (simp add: macro_label_def split: option.split)
  have c: "OpenFiles s' = OpenFiles s \<Longrightarrow> pScopeList s' = pScopeList s \<Longrightarrow> apart s (macro_code name src s')" for s'
    by (simp add: macro_code_def split: option.split)
  have label: "apart s (case sl_Label sl of None \<Rightarrow> ok s | Some l \<Rightarrow> macro_label name l s)" using l by (simp split: option.split)
  show ?thesis
    unfolding macro_line_def by (rule apart_andThen[OF label]) (auto intro!: apart_andThen[OF macro_args_apart] apart_andThen[OF c])
qed

lemma macro_lines_ends:
  assumes get: "\<And>ps s. good k s \<Longrightarrow> closed_at ps \<Longrightarrow> ends (\<lambda>n. get n ps s) (gets k (unread ps) (pMacroList s))"
  shows "grows f \<Longrightarrow> good k s \<Longrightarrow> closed_at ps \<Longrightarrow> ends (\<lambda>n. macro_lines (get n) (f n) name ps s) (inside k (unread ps) (frees s))"
proof (induction "length (unread ps)" arbitrary: ps s f rule: less_induct)
  case less
  show ?case
  proof (rule ends_fuel[where m = "\<lambda>n j. macro_lines (get n) j name ps s", OF less.prems(1)])
    fix h assume f: "grows h"
    have again: "ends (\<lambda>n. macro_lines (get n) (h n) name ps' s2) (inside k (unread ps) (frees s))"
      if "good k s2" "suffix (unread ps') (unread ps)" "length (unread ps') < length (unread ps)" for ps' s2
      using less.hyps[OF that(3) f that(1) comments_close_suffix[OF less.prems(3) that(2)]] that(2,3)
      by (elim ends_mono) (auto simp: inside_def dest: suffix_order.trans suffix_length_le)
    have body: "ends (\<lambda>n. case ParseSourceLine src s1 of
                 Ret (None, s) \<Rightarrow> macro_lines (get n) (h n) name ps' s
               | Ret (Some sl, s) \<Rightarrow>
                   (case macro_line name src sl s of
                      Ret (Some True, s) \<Rightarrow> Ret (Some (), ps', s)
                    | Ret (_, s) \<Rightarrow> macro_lines (get n) (h n) name ps' s
                    | Stuck \<Rightarrow> Stuck | Fuel \<Rightarrow> Fuel)
               | Stuck \<Rightarrow> Stuck | Fuel \<Rightarrow> Fuel) (inside k (unread ps) (frees s))"
      if g: "good k s1" and suf: "suffix (unread ps') (unread ps)" "length (unread ps') < length (unread ps)" for src ps' s1
    proof (rule ends_plain[OF names_plain(10) whole.parse_line[OF good_ok[OF g]] g])
      fix r s2 assume g2: "good k s2"
      have m: "ends (\<lambda>n. case macro_line name src sl s2 of
                      Ret (Some True, s) \<Rightarrow> Ret (Some (), ps', s)
                    | Ret (_, s) \<Rightarrow> macro_lines (get n) (h n) name ps' s
                    | Stuck \<Rightarrow> Stuck | Fuel \<Rightarrow> Fuel) (inside k (unread ps) (frees s))" for sl
      proof (rule ends_step)
        fix x assume x: "macro_line name src sl s2 = Ret x"
        have "good k (snd x)"
          using macro_step_good[OF g2 whole.macro_line_keeps[OF good_ok[OF g2]], of name src sl "fst x" "snd x"]
            macro_line_apart[of s2 name src sl] x by (cases x) (simp add: apart_def)
        then show "ends (\<lambda>n. case x of (Some True, s) \<Rightarrow> Ret (Some (), ps', s) | (_, s) \<Rightarrow> macro_lines (get n) (h n) name ps' s)
            (inside k (unread ps) (frees s))"
          using again[OF _ suf] suf by (auto simp: inside_def split: option.split bool.split)
      qed (use macro_line_apart in \<open>auto simp: apart_def\<close>)
      show "ends (\<lambda>n. case (r, s2) of (None, s) \<Rightarrow> macro_lines (get n) (h n) name ps' s
             | (Some sl, s) \<Rightarrow> (case macro_line name src sl s of Ret (Some True, s) \<Rightarrow> Ret (Some (), ps', s)
                    | Ret (_, s) \<Rightarrow> macro_lines (get n) (h n) name ps' s | Stuck \<Rightarrow> Stuck | Fuel \<Rightarrow> Fuel))
          (inside k (unread ps) (frees s))"
        using m again[OF g2 suf] by (auto split: option.split)
    qed
    have "ends (\<lambda>n. case get n ps s of
            Ret (EndFile, ps, s) \<Rightarrow> Ret (None, ps, rep REP_ERROR s)
          | Ret (BadLine, ps, s) \<Rightarrow> macro_lines (get n) (h n) name ps s
          | Ret (Line src, ps, s) \<Rightarrow>
              (case ParseSourceLine src s of
                 Ret (None, s) \<Rightarrow> macro_lines (get n) (h n) name ps s
               | Ret (Some sl, s) \<Rightarrow>
                   (case macro_line name src sl s of
                      Ret (Some True, s) \<Rightarrow> Ret (Some (), ps, s)
                    | Ret (_, s) \<Rightarrow> macro_lines (get n) (h n) name ps s
                    | Stuck \<Rightarrow> Stuck | Fuel \<Rightarrow> Fuel)
               | Stuck \<Rightarrow> Stuck | Fuel \<Rightarrow> Fuel)
          | Stuck \<Rightarrow> Stuck | Fuel \<Rightarrow> Fuel) (inside k (unread ps) (frees s))"
    proof (rule ends_bind[OF get[OF less.prems(2,3)]])
      fix x assume x: "gets k (unread ps) (pMacroList s) x"
      obtain r ps' s' where rs: "x = (r, ps', s')" by (cases x)
      have g: "good k s'" "suffix (unread ps') (unread ps)"
          "length (unread ps') < length (unread ps) \<or> unread ps' = unread ps \<and> r = EndFile \<and> pMacroList s' = pMacroList s"
        using x unfolding rs gets_def by auto
      show "ends (\<lambda>n. case x of
            (EndFile, ps, s) \<Rightarrow> Ret (None, ps, rep REP_ERROR s)
          | (BadLine, ps, s) \<Rightarrow> macro_lines (get n) (h n) name ps s
          | (Line src, ps, s) \<Rightarrow>
              (case ParseSourceLine src s of
                 Ret (None, s) \<Rightarrow> macro_lines (get n) (h n) name ps s
               | Ret (Some sl, s) \<Rightarrow>
                   (case macro_line name src sl s of
                      Ret (Some True, s) \<Rightarrow> Ret (Some (), ps, s)
                    | Ret (_, s) \<Rightarrow> macro_lines (get n) (h n) name ps s
                    | Stuck \<Rightarrow> Stuck | Fuel \<Rightarrow> Fuel)
               | Stuck \<Rightarrow> Stuck | Fuel \<Rightarrow> Fuel)) (inside k (unread ps) (frees s))"
      proof (cases r)
        case (Line src)
        then show ?thesis using body[OF g(1,2), of src] g(3) unfolding rs by simp
      next
        case EndFile
        then show ?thesis using g frees_same[of "rep REP_ERROR s'" s] unfolding rs by (auto simp: inside_def)
      next
        case BadLine
        then show ?thesis using again[OF g(1,2)] g(3) unfolding rs by simp
      qed
    qed
    moreover have "inside k (unread ps) (frees s) (None :: unit option, ps, s)" using less.prems(2) by (simp add: inside_def)
    ultimately show "ends (\<lambda>n. macro_lines (get n) (Suc (h n)) name ps s) (inside k (unread ps) (frees s))" by simp
  qed
qed

lemma MacroEnter_ends:
  assumes get: "\<And>ps s. good k s \<Longrightarrow> closed_at ps \<Longrightarrow> ends (\<lambda>n. get n ps s) (gets k (unread ps) (pMacroList s))"
    and "grows f" "good k s" "closed_at ps"
  shows "ends (\<lambda>n. MacroEnter (get n) (f n) name ps s) (inside k (unread ps) (frees s))"
proof -
  have m: "apart s (MacroCreate name s)"
    unfolding MacroCreate_def by (rule apart_andThen) (simp_all add: CheckName_def apart_def)
  have "ends (\<lambda>n. case MacroCreate name s of
          Ret (Some _, s) \<Rightarrow> macro_lines (get n) (f n) name ps s
        | Ret (None, s) \<Rightarrow> Ret (None, ps, s)
        | Stuck \<Rightarrow> Stuck | Fuel \<Rightarrow> Fuel) (inside k (unread ps) (frees s))"
  proof (rule ends_step)
    show "MacroCreate name s \<noteq> Fuel" using m by (simp add: apart_def)
    fix x assume x: "MacroCreate name s = Ret x"
    obtain r s' where rs: "x = (r, s')" by (cases x)
    have g: "good k s'"
      using macro_step_good[OF assms(3) whole.macro_create[OF good_ok[OF assms(3)]] x[unfolded rs]] m x unfolding rs by (simp add: apart_def)
    have "free_macros s' = free_macros s"
      using x unfolding rs by (auto simp: MacroCreate_def CheckName_def free_macros_def split: if_split_asm)
    then have f: "frees s' = frees s" by simp
    show "ends (\<lambda>n. case x of (Some _, s) \<Rightarrow> macro_lines (get n) (f n) name ps s | (None, s) \<Rightarrow> Ret (None, ps, s))
        (inside k (unread ps) (frees s))"
      using macro_lines_ends[OF get assms(2) g assms(4), of name] g f unfolding rs by (auto simp: inside_def split: option.split)
  qed
  then show ?thesis using assms(3) by (simp add: MacroEnter_def inside_def)
qed

section \<open>Expanding a macro\<close>

text \<open>What a line may start from: a place in the text \<open>u\<close>, or its start with fewer than \<open>f\<close> macros to expand.\<close>

definition below :: "string \<Rightarrow> nat \<Rightarrow> SOURCEFILE \<Rightarrow> pasm \<Rightarrow> bool" where
  "below u f ps s \<longleftrightarrow> suffix (unread ps) u \<and> (length (unread ps) < length u \<or> unread ps = u \<and> frees s < f)"

lemma macro_text_not_Fuel: "macro_text m terms name src out \<noteq> Fuel"
  by (induction src arbitrary: name out) (simp_all add: Let_def)

lemma macro_expand_ends:
  assumes line: "\<And>src ps s. good k s \<Longrightarrow> below u f ps s \<Longrightarrow> ends (\<lambda>n. line n src ps s) (inside k (unread ps) (frees s))"
  shows "good k s \<Longrightarrow> below u f ps s \<Longrightarrow>
    ends (\<lambda>n. macro_expand (line n) m terms codes ps s) (\<lambda>(r, ps', s'). good k s' \<and> below u f ps' s')"
proof (induction codes arbitrary: ps s)
  case (Cons c codes)
  let ?post = "\<lambda>(r :: bool, ps', s'). good k s' \<and> below u f ps' s'"
  have l: "ends (\<lambda>n. case line n src ps s of
           Ret (True, ps, s) \<Rightarrow> macro_expand (line n) m terms codes ps s
         | Ret (False, ps, s) \<Rightarrow> Ret (False, ps, rep REP_ERROR s)
         | Stuck \<Rightarrow> Stuck | Fuel \<Rightarrow> Fuel) ?post" for src
  proof (rule ends_bind[OF line[OF Cons.prems]])
    fix x :: "bool \<times> SOURCEFILE \<times> pasm" assume x: "inside k (unread ps) (frees s) x"
    obtain r ps' s' where rs: "x = (r, ps', s')" by (cases x)
    have g: "good k s'" "below u f ps' s'"
      using x Cons.prems(2) unfolding rs by (auto simp: inside_def below_def dest: suffix_order.trans suffix_length_le)
    then have "below u f ps' (rep REP_ERROR s')" using frees_same[of "rep REP_ERROR s'" s'] by (simp add: below_def)
    then show "ends (\<lambda>n. case x of (True, ps, s) \<Rightarrow> macro_expand (line n) m terms codes ps s
         | (False, ps, s) \<Rightarrow> Ret (False, ps, rep REP_ERROR s)) ?post"
      using Cons.IH[OF g] g unfolding rs by (cases r) simp_all
  qed
  show ?case
  proof (cases "macro_text m terms [] c []")
    case (Ret t)
    show ?thesis
    proof (cases t)
      case None
      then show ?thesis using Ret Cons.prems frees_same[of "rep REP_ERROR s" s] by (simp add: below_def)
    next
      case (Some src)
      then show ?thesis using Ret Cons.IH[OF Cons.prems] l by (cases src) simp_all
    qed
  qed (use macro_text_not_Fuel in auto)
qed simp

lemma ProcessMacro_ends:
  assumes line: "\<And>src ps' s'. good k s' \<Longrightarrow> below (unread ps) (frees s) ps' s' \<Longrightarrow>
      ends (\<lambda>n. line n src ps' s') (inside k (unread ps') (frees s'))"
    and g: "good k s"
  shows "ends (\<lambda>n. ProcessMacro (line n) terms ps s) (inside k (unread ps) (frees s))"
proof (cases "MacroFind (terms ! 0) s")
  case (Some m)
  have here: "inside k (unread ps) (frees s) (False, ps, rep REP_ERROR s)"
    using g frees_same[of "rep REP_ERROR s" s] by (simp add: inside_def)
  show ?thesis
  proof (cases "mc_InUse m")
    case True
    then show ?thesis using Some here by (simp add: ProcessMacro_def)
  next
    case False
    let ?m = "m\<lparr>mc_Expands := Suc (mc_Expands m), mc_InUse := True\<rparr>" and ?n = "mc_Name m"
    let ?s = "macro_update ?n (\<lambda>_. ?m) s"
    have m: "m \<in> set (pMacroList s)" using Some by (auto simp: MacroFind_def dest: find_name_SomeD)
    have "free_macros ?s = free_macros s - {?n}"
      by (auto simp: free_macros_def macro_update_def)
    moreover have "?n \<in> free_macros s" using m False by (auto simp: free_macros_def)
    ultimately have less: "frees ?s < frees s" by (simp add: card_Diff1_less del: card_Diff_insert)
    have upd: "good k (macro_update n h s)" if "good k s" "\<And>m. mc_Name m = n \<Longrightarrow> mc_Name (h m) = n" for n h s
      using whole.macro_change[OF good_ok[OF that(1)] that(2)] that(1) by (simp add: good_def calm_def)
    have start: "good k ?s" "below (unread ps) (frees s) ps ?s" using upd[OF g, of ?n] less by (simp_all add: below_def)
    have stop: "inside k (unread ps) (frees s) (r, ps', macro_update ?n (\<lambda>m. m\<lparr>mc_InUse := False\<rparr>) s')"
      if "good k s'" "below (unread ps) (frees s) ps' s'" for r :: bool and ps' s'
    proof -
      have "free_macros (macro_update ?n (\<lambda>m. m\<lparr>mc_InUse := False\<rparr>) s') \<subseteq> insert ?n (free_macros s')"
        by (auto simp: free_macros_def macro_update_def)
      then have "frees (macro_update ?n (\<lambda>m. m\<lparr>mc_InUse := False\<rparr>) s') \<le> card (insert ?n (free_macros s'))"
        by (intro card_mono) simp_all
      also have "\<dots> \<le> Suc (frees s')" by (simp add: card_insert_if)
      finally show ?thesis using that upd[OF that(1), of ?n] by (auto simp: inside_def below_def)
    qed
    have "ends (\<lambda>n. case macro_expand (line n) ?m terms (mc_Code ?m) ps ?s of
               Ret (r, ps, s) \<Rightarrow> Ret (r, ps, macro_update (mc_Name ?m) (\<lambda>m. m\<lparr>mc_InUse := False\<rparr>) s)
             | Stuck \<Rightarrow> Stuck | Fuel \<Rightarrow> Fuel) (inside k (unread ps) (frees s))"
      by (rule ends_bind[OF macro_expand_ends[OF line start]]) (use stop in auto)
    then show ?thesis using Some False here by (simp add: ProcessMacro_def Let_def)
  qed
qed (use g in \<open>simp add: ProcessMacro_def inside_def\<close>)

section \<open>Lines\<close>

lemma line_label_plain: "plain s (line_label ps l s)"
proof -
  have v: "ValidateOffset ps (core s) \<noteq> Fuel" by (rule ValidateOffset_not_Fuel)
  have p: "plain s (case LabelCreate x i s' of Ret (_, s) \<Rightarrow> ok s | Stuck \<Rightarrow> Stuck | Fuel \<Rightarrow> Fuel)"
    if "OpenFiles s' = OpenFiles s" "pMacroList s' = pMacroList s" "calm s' = calm s" for x i s'
  proof -
    have "plain s (LabelCreate x i s')" using names_plain(3)[of s' x i] that by (simp add: plain_def)
    then show ?thesis by (rule plain_case) simp
  qed
  show ?thesis
  proof (cases l)
    case (Some x)
    show ?thesis
    proof (cases "ValidateOffset ps (core s)")
      case (Ret y)
      obtain b st where y: "y = (b, st)" by (cases y)
      show ?thesis using p[of "s\<lparr>core := st\<rparr>" x "CodeOffset st"] by (cases b) (simp_all add: line_label_def Some Ret y Let_def)
    qed (use v in \<open>simp_all add: line_label_def Some\<close>)
  qed (simp add: line_label_def)
qed

lemma line_op_plain: "good k s \<Longrightarrow> plain s (line_op ps terms s)"
proof -
  assume "good k s"
  then have "image_ok (core s)" by (simp add: good_def pasm_ok_def asm_ok_def)
  then have o': "plain s (on_core (ProcessOp ps terms) s)"
    using image.ProcessOp_emits[of "core s" ps terms] by (intro on_core_plain) (simp add: emits_def)
  have g: "plain s (on_core (gen_ok ps w) s)" for w s by (rule on_core_plain[OF gen_not_Fuel])
  show ?thesis
    unfolding line_op_def by (rule plain_case[OF o']) (auto split: option.split intro!: plain_case[OF g])
qed

text \<open>What a dot command returns: a line that it generates follows no change of the files, the macros or the text.\<close>

lemma DotCommand_ends:
  assumes enter: "\<And>name. ends (\<lambda>n. enter n name ps s) (inside k (unread ps) (frees s))" and g: "good k s"
  shows "ends (\<lambda>n. DotCommand (enter n) terms ps s) (\<lambda>(r, ps', s'). inside k (unread ps) (frees s) (r, ps', s') \<and>
    (\<forall>src. r = Some (Some src) \<longrightarrow> ps' = ps \<and> frees s' = frees s \<and> length terms = dot_terms (find_word 1 (terms ! 0) DotCmds) \<and>
      plain_dot ps (find_word 1 (terms ! 0) DotCmds) terms s = Ret (r, s')))"
proof -
  let ?i = "find_word 1 (terms ! 0) DotCmds"
  let ?post = "\<lambda>(r, ps', s'). inside k (unread ps) (frees s) (r, ps', s') \<and>
    (\<forall>src. r = Some (Some src) \<longrightarrow> ps' = ps \<and> frees s' = frees s \<and> length terms = dot_terms ?i \<and> plain_dot ps ?i terms s = Ret (r, s'))"
  have e: "ends (\<lambda>n. case enter n (terms ! 1) ps s of
           Ret (r, ps, s) \<Rightarrow> Ret (map_option (\<lambda>_. None) r, ps, s) | Stuck \<Rightarrow> Stuck | Fuel \<Rightarrow> Fuel) ?post"
    by (rule ends_bind[OF enter]) (auto simp: inside_def)
  have d: "ends (\<lambda>n. keep_file ps (plain_dot ps ?i terms s)) ?post" if "length terms = dot_terms ?i"
    unfolding keep_file_def
    by (rule ends_plain[OF plain_dot_plain whole.dot[OF good_ok[OF g]] g]) (use that in \<open>simp add: inside_def\<close>)
  show ?thesis
  proof (cases "?i = 0 \<or> ?i = DOTCMD_MPARAM \<or> ?i = DOTCMD_ENDM \<or> length terms \<noteq> dot_terms ?i")
    case True
    then have "DotCommand en terms ps s = Ret (None, ps, rep REP_ERROR s)" for en
      by (simp add: DotCommand_def Let_def keep_file_def)
    then show ?thesis using g by (simp add: inside_def)
  next
    case False
    show ?thesis
    proof (cases "?i = DOTCMD_MACRO")
      case True
      then have "DotCommand en terms ps s = (case en (terms ! 1) ps s of
           Ret (r, ps, s) \<Rightarrow> Ret (map_option (\<lambda>_. None) r, ps, s) | Stuck \<Rightarrow> Stuck | Fuel \<Rightarrow> Fuel)" for en
        using False unfolding DotCommand_def Let_def by presburger
      then show ?thesis using e by simp
    next
      case no_macro: False
      then have "DotCommand en terms ps s = keep_file ps (plain_dot ps ?i terms s)" for en
        using False unfolding DotCommand_def Let_def by presburger
      then show ?thesis using d False by simp
    qed
  qed
qed

lemma line_command_ends:
  assumes below: "\<And>src ps' s'. good k s' \<Longrightarrow> below (unread ps) (frees s) ps' s' \<Longrightarrow> ends (\<lambda>n. line n src ps' s') (inside k (unread ps') (frees s'))"
    and next': "\<And>src s'. good k s' \<Longrightarrow> frees s' = frees s \<Longrightarrow> dot \<Longrightarrow> length terms = dot_terms (find_word 1 (terms ! 0) DotCmds) \<Longrightarrow>
        plain_dot ps (find_word 1 (terms ! 0) DotCmds) terms s = Ret (Some (Some src), s') \<Longrightarrow>
        ends (\<lambda>n. line n src ps s') (inside k (unread ps) (frees s))"
    and enter: "\<And>name. ends (\<lambda>n. enter n name ps s) (inside k (unread ps) (frees s))" and g: "good k s"
  shows "ends (\<lambda>n. line_command (line n) (enter n) dot terms ps s) (inside k (unread ps) (frees s))"
proof -
  have d: "ends (\<lambda>n. case DotCommand (enter n) terms ps s of
           Ret (None, ps, s) \<Rightarrow> Ret (False, ps, s)
         | Ret (Some None, ps, s) \<Rightarrow> Ret (True, ps, s)
         | Ret (Some (Some src), ps, s) \<Rightarrow> line n src ps s
         | Stuck \<Rightarrow> Stuck | Fuel \<Rightarrow> Fuel) (inside k (unread ps) (frees s))" if "dot"
  proof (rule ends_bind[OF DotCommand_ends[where enter = enter and ps = ps and s = s and k = k, OF enter g]])
    fix x :: "string option option \<times> SOURCEFILE \<times> pasm"
    assume x: "case x of (r, ps', s') \<Rightarrow> inside k (unread ps) (frees s) (r, ps', s') \<and>
      (\<forall>src. r = Some (Some src) \<longrightarrow> ps' = ps \<and> frees s' = frees s \<and> length terms = dot_terms (find_word 1 (terms ! 0) DotCmds) \<and>
        plain_dot ps (find_word 1 (terms ! 0) DotCmds) terms s = Ret (r, s'))"
    obtain r ps' s' where rs: "x = (r, ps', s')" by (cases x)
    have i: "inside k (unread ps) (frees s) (b, ps', s')" for b :: bool using x unfolding rs by (simp add: inside_def)
    show "ends (\<lambda>n. case x of (None, ps, s) \<Rightarrow> Ret (False, ps, s) | (Some None, ps, s) \<Rightarrow> Ret (True, ps, s)
         | (Some (Some src), ps, s) \<Rightarrow> line n src ps s) (inside k (unread ps) (frees s))"
    proof (cases "\<exists>src. r = Some (Some src)")
      case True
      then obtain src where r: "r = Some (Some src)" by blast
      have "good k s'" using i[of True] by (simp add: inside_def)
      then show ?thesis using next'[of s' src] that x unfolding rs r by simp
    next
      case False
      then show ?thesis using i unfolding rs by (cases r) (auto split: option.split)
    qed
  qed
  have o': "ends (\<lambda>n. case line_op ps terms s of Ret (r, s) \<Rightarrow> Ret (r, ps, s) | Stuck \<Rightarrow> Stuck | Fuel \<Rightarrow> Fuel) (inside k (unread ps) (frees s))"
    by (rule ends_plain[OF line_op_plain[OF g] whole.line_op_keeps[OF good_ok[OF g]] g]) (simp add: inside_def)
  show ?thesis using d o' ProcessMacro_ends[OF below g] by (simp add: line_command_def)
qed

text \<open>One round, given what the nested lines do.\<close>

lemma line_step_ends:
  assumes below: "\<And>src ps' s'. good k s' \<Longrightarrow> below (unread ps) (frees s) ps' s' \<Longrightarrow> ends (\<lambda>n. line n src ps' s') (inside k (unread ps') (frees s'))"
    and again: "\<And>src' s'. good k s' \<Longrightarrow> frees s' = frees s \<Longrightarrow> dots src' < dots src \<Longrightarrow>
        ends (\<lambda>n. line n src' ps s') (inside k (unread ps) (frees s'))"
    and enter: "\<And>name s'. good k s' \<Longrightarrow> ends (\<lambda>n. enter n name ps s') (inside k (unread ps) (frees s'))" and g: "good k s"
  shows "ends (\<lambda>n. line_step (line n) (enter n) src ps s) (inside k (unread ps) (frees s))"
  unfolding line_step_def
proof (rule ends_plain[OF names_plain(10) whole.parse_line[OF good_ok[OF g]] g])
  fix r s1 assume r: "ParseSourceLine src s = Ret (r, s1)" and g1: "good k s1" and m1: "pMacroList s1 = pMacroList s"
  have f1: "frees s1 = frees s" by (rule frees_same[OF m1])
  have out: "inside k (unread ps) (frees s) (b, ps, s')" if "good k s'" "pMacroList s' = pMacroList s" for b :: bool and s'
    using that frees_same[OF that(2)] by (simp add: inside_def)
  have rest: "ends (\<lambda>n. line_rest (line n) (enter n) sl ps s2) (inside k (unread ps) (frees s))"
    if p: "parse_line src = Some sl" and g2: "good k s2" and m2: "pMacroList s2 = pMacroList s" for sl s2
  proof -
    have "ends (\<lambda>n. case line_terms (sl_Term sl) s2 of
          Ret (None, s) \<Rightarrow> Ret (False, ps, s)
        | Ret (Some terms, s) \<Rightarrow> line_command (line n) (enter n) (sl_Dot1 sl) terms ps s
        | Stuck \<Rightarrow> Stuck | Fuel \<Rightarrow> Fuel) (inside k (unread ps) (frees s))"
    proof (rule ends_plain[OF line_terms_plain whole.line_terms_keep[OF good_ok[OF g2]] g2])
      fix t s3 assume t: "line_terms (sl_Term sl) s2 = Ret (t, s3)" and g3: "good k s3" and m3: "pMacroList s3 = pMacroList s2"
      have f3: "frees s3 = frees s" using frees_same[of s3 s] m2 m3 by simp
      have c: "ends (\<lambda>n. line_command (line n) (enter n) (sl_Dot1 sl) terms ps s3) (inside k (unread ps) (frees s3))"
        if "t = Some terms" for terms
      proof (rule line_command_ends[where line = line and enter = enter and k = k and ps = ps and s = s3, OF _ _ enter[OF g3] g3])
        show "ends (\<lambda>n. line n src ps' s') (inside k (unread ps') (frees s'))"
          if "good k s'" "below (unread ps) (frees s3) ps' s'" for src ps' s' using below that unfolding f3 .
        fix src' s' assume n: "good k s'" "frees s' = frees s3" "sl_Dot1 sl" "length terms = dot_terms (find_word 1 (terms ! 0) DotCmds)"
          "plain_dot ps (find_word 1 (terms ! 0) DotCmds) terms s3 = Ret (Some (Some src'), s')"
        have "calm s2" using g2 by (simp add: good_def)
        from dots_less[OF p n(3) line_terms_calm[OF this t[unfolded \<open>t = Some terms\<close>]] n(4) refl n(5)]
        show "ends (\<lambda>n. line n src' ps s') (inside k (unread ps) (frees s3))"
          using again[OF n(1), of src'] n(2) f3 by simp
      qed
      show "ends (\<lambda>n. case (t, s3) of (None, s) \<Rightarrow> Ret (False, ps, s)
          | (Some terms, s) \<Rightarrow> line_command (line n) (enter n) (sl_Dot1 sl) terms ps s) (inside k (unread ps) (frees s))"
        using c out[OF g3] m2 m3 f3 by (auto split: option.split)
    qed
    then show ?thesis using out[OF g2 m2] by (simp add: line_rest_def)
  qed
  show "ends (\<lambda>n. case (r, s1) of (None, s) \<Rightarrow> Ret (False, ps, s)
      | (Some sl, s) \<Rightarrow> (case line_label ps (sl_Label sl) s of
             Ret (None, s) \<Rightarrow> Ret (False, ps, s)
           | Ret (Some _, s) \<Rightarrow> line_rest (line n) (enter n) sl ps s
           | Stuck \<Rightarrow> Stuck | Fuel \<Rightarrow> Fuel)) (inside k (unread ps) (frees s))"
  proof (cases r)
    case (Some sl)
    have p: "parse_line src = Some sl" using r Some by (auto simp: ParseSourceLine_def split: option.splits)
    have "ends (\<lambda>n. case line_label ps (sl_Label sl) s1 of
             Ret (None, s) \<Rightarrow> Ret (False, ps, s)
           | Ret (Some _, s) \<Rightarrow> line_rest (line n) (enter n) sl ps s
           | Stuck \<Rightarrow> Stuck | Fuel \<Rightarrow> Fuel) (inside k (unread ps) (frees s))"
      by (rule ends_plain[OF line_label_plain whole.line_label_keeps[OF good_ok[OF g1]] g1])
        (use out rest[OF p] m1 in \<open>auto split: option.split\<close>)
    then show ?thesis using Some by simp
  qed (use out[OF g1 m1] in simp)
qed

section \<open>The ordering of nested calls\<close>

text \<open>The files one include deeper are done.\<close>

definition deeper_ends :: "files \<Rightarrow> nat \<Rightarrow> bool" where
  "deeper_ends fs k \<longleftrightarrow> (k \<noteq> 15 \<longrightarrow> (\<forall>ps s. good (k + 1) s \<longrightarrow> closed_at ps \<longrightarrow>
     ends (\<lambda>n. ProcessSourceFile fs n ps s) (\<lambda>(r, ps', s'). good (k + 1) s')))"

lemma get_ends: "sources_closed fs \<Longrightarrow> deeper_ends fs k \<Longrightarrow> good k s \<Longrightarrow> closed_at ps \<Longrightarrow>
    ends (\<lambda>n. GetSourceLine (LoadInclude fs (ProcessSourceFile fs n)) M n ps s) (gets k (unread ps) (pMacroList s))"
  by (rule GetSourceLine_ends[OF LoadInclude_ends grows_id]) (simp_all add: deeper_ends_def)

lemma line_ends:
  assumes "sources_closed fs" "deeper_ends fs k"
  shows "good k s \<Longrightarrow> closed_at ps \<Longrightarrow> ends (\<lambda>n. ProcessSourceLine fs n src ps s) (inside k (unread ps) (frees s))"
proof (induction "(length (unread ps), frees s, dots src)" arbitrary: src ps s
    rule: wf_induct_rule[OF wf_lex_prod[OF wf_less_than wf_lex_prod[OF wf_less_than wf_less_than]]])
  case (1 src ps s)
  have "ends (\<lambda>n. line_step (ProcessSourceLine fs n)
      (MacroEnter (GetSourceLine (LoadInclude fs (ProcessSourceFile fs n)) MACRO_SOURCE_LINE n) n) src ps s) (inside k (unread ps) (frees s))"
  proof (rule line_step_ends[where line = "ProcessSourceLine fs"])
    show "ends (\<lambda>n. ProcessSourceLine fs n src' ps' s') (inside k (unread ps') (frees s'))"
      if "good k s'" "below (unread ps) (frees s) ps' s'" for src' ps' s'
    proof (rule "1.hyps"[OF _ that(1) comments_close_suffix[OF "1.prems"(2)]])
      show "suffix (unread ps') (unread ps)" using that(2) by (simp add: below_def)
    qed (use that(2) in \<open>auto simp: below_def\<close>)
    show "ends (\<lambda>n. ProcessSourceLine fs n src' ps s') (inside k (unread ps) (frees s'))"
      if "good k s'" "frees s' = frees s" "dots src' < dots src" for src' s'
      using "1.hyps"[OF _ that(1) "1.prems"(2)] that(2,3) by simp
    show "ends (\<lambda>n. MacroEnter (GetSourceLine (LoadInclude fs (ProcessSourceFile fs n)) MACRO_SOURCE_LINE n) n name ps s')
        (inside k (unread ps) (frees s'))" if "good k s'" for name s'
      by (rule MacroEnter_ends[where get = "\<lambda>n. GetSourceLine (LoadInclude fs (ProcessSourceFile fs n)) MACRO_SOURCE_LINE n",
          OF get_ends[OF assms] grows_id that "1.prems"(2)])
  qed (rule "1.prems")
  then show ?case by (intro ends_Suc[where m = "\<lambda>n. ProcessSourceLine fs n src ps s"]) simp
qed

lemma file_loop_ends:
  assumes "sources_closed fs" "deeper_ends fs k"
  shows "grows f \<Longrightarrow> good k s \<Longrightarrow> closed_at ps \<Longrightarrow>
    ends (\<lambda>n. file_loop (GetSourceLine (LoadInclude fs (ProcessSourceFile fs n)) MAX_SOURCE_LINE n) (ProcessSourceLine fs n) (f n) ps s)
      (\<lambda>(r, ps', s'). good k s')"
proof (induction "length (unread ps)" arbitrary: ps s f rule: less_induct)
  case less
  let ?get = "\<lambda>n. GetSourceLine (LoadInclude fs (ProcessSourceFile fs n)) MAX_SOURCE_LINE n"
  show ?case
  proof (rule ends_fuel[where m = "\<lambda>n j. file_loop (?get n) (ProcessSourceLine fs n) j ps s", OF less.prems(1)])
    fix g assume f: "grows g"
    have again: "ends (\<lambda>n. file_loop (?get n) (ProcessSourceLine fs n) (g n) ps' s') (\<lambda>(r, ps', s'). good k s')"
      if "good k s'" "suffix (unread ps') (unread ps)" "length (unread ps') < length (unread ps)" for ps' s'
      by (rule less.hyps[OF that(3) f that(1) comments_close_suffix[OF less.prems(3) that(2)]])
    have line: "ends (\<lambda>n. case ProcessSourceLine fs n src ps' s' of
               Ret (r, ps, s) \<Rightarrow> if \<not> r \<and> Pass (core s) = 2 then Ret (False, ps, s) else file_loop (?get n) (ProcessSourceLine fs n) (g n) ps s
             | Stuck \<Rightarrow> Stuck | Fuel \<Rightarrow> Fuel) (\<lambda>(r, ps', s'). good k s')"
      if g: "good k s'" and s: "suffix (unread ps') (unread ps)" "length (unread ps') < length (unread ps)" for src ps' s'
    proof (rule ends_bind[OF line_ends[OF assms g comments_close_suffix[OF less.prems(3) s(1)]]])
      fix x :: "bool \<times> SOURCEFILE \<times> pasm" assume x: "inside k (unread ps') (frees s') x"
      obtain r ps2 s2 where rs: "x = (r, ps2, s2)" by (cases x)
      have g2: "good k s2" "suffix (unread ps2) (unread ps')" using x unfolding rs inside_def by auto
      show "ends (\<lambda>n. case x of (r, ps, s) \<Rightarrow> if \<not> r \<and> Pass (core s) = 2 then Ret (False, ps, s)
          else file_loop (?get n) (ProcessSourceLine fs n) (g n) ps s) (\<lambda>(r, ps', s'). good k s')"
        using again[OF g2(1) suffix_order.trans[OF g2(2) s(1)]] suffix_length_le[OF g2(2)] s(2) g2(1) unfolding rs by simp
    qed
    have "ends (\<lambda>n. case ?get n ps s of
          Ret (EndFile, ps, s) \<Rightarrow> Ret (True, ps, s)
        | Ret (BadLine, ps, s) \<Rightarrow> file_loop (?get n) (ProcessSourceLine fs n) (g n) ps s
        | Ret (Line src, ps, s) \<Rightarrow>
            (case ProcessSourceLine fs n src ps s of
               Ret (r, ps, s) \<Rightarrow> if \<not> r \<and> Pass (core s) = 2 then Ret (False, ps, s) else file_loop (?get n) (ProcessSourceLine fs n) (g n) ps s
             | Stuck \<Rightarrow> Stuck | Fuel \<Rightarrow> Fuel)
        | Stuck \<Rightarrow> Stuck | Fuel \<Rightarrow> Fuel) (\<lambda>(r, ps', s'). good k s')"
    proof (rule ends_bind[OF get_ends[OF assms less.prems(2,3)]])
      fix x assume x: "gets k (unread ps) (pMacroList s) x"
      obtain r ps' s' where rs: "x = (r, ps', s')" by (cases x)
      have g': "good k s'" "suffix (unread ps') (unread ps)" "length (unread ps') < length (unread ps) \<or> r = EndFile"
        using x unfolding rs gets_def by auto
      show "ends (\<lambda>n. case x of
          (EndFile, ps, s) \<Rightarrow> Ret (True, ps, s)
        | (BadLine, ps, s) \<Rightarrow> file_loop (?get n) (ProcessSourceLine fs n) (g n) ps s
        | (Line src, ps, s) \<Rightarrow>
            (case ProcessSourceLine fs n src ps s of
               Ret (r, ps, s) \<Rightarrow> if \<not> r \<and> Pass (core s) = 2 then Ret (False, ps, s) else file_loop (?get n) (ProcessSourceLine fs n) (g n) ps s
             | Stuck \<Rightarrow> Stuck | Fuel \<Rightarrow> Fuel)) (\<lambda>(r, ps', s'). good k s')"
      proof (cases r)
        case (Line src)
        then show ?thesis using line[OF g'(1,2), of src] g'(3) unfolding rs by simp
      next
        case EndFile
        then show ?thesis using g'(1) unfolding rs by simp
      next
        case BadLine
        then show ?thesis using again[OF g'(1,2)] g'(3) unfolding rs by simp
      qed
    qed
    then show "ends (\<lambda>n. file_loop (?get n) (ProcessSourceLine fs n) (Suc (g n)) ps s) (\<lambda>(r, ps', s'). good k s')"
      using less.prems(2) by simp
  qed
qed

lemma ProcessSourceFile_ends:
  assumes "sources_closed fs" "k \<le> 15"
  shows "good k s \<Longrightarrow> closed_at ps \<Longrightarrow> ends (\<lambda>n. ProcessSourceFile fs n ps s) (\<lambda>(r, ps', s'). good k s')"
  using assms(2)
proof (induction "15 - k" arbitrary: k ps s)
  case 0
  then have "k = 15" by simp
  have "ends (\<lambda>n. file_loop (GetSourceLine (LoadInclude fs (ProcessSourceFile fs n)) MAX_SOURCE_LINE n) (ProcessSourceLine fs n) n ps s)
      (\<lambda>(r, ps', s'). good k s')"
    by (rule file_loop_ends[OF assms(1) _ grows_id "0.prems"(1,2)]) (simp add: deeper_ends_def \<open>k = 15\<close>)
  then show ?case by (intro ends_Suc[where m = "\<lambda>n. ProcessSourceFile fs n ps s"]) simp
next
  case (Suc j)
  have "ends (\<lambda>n. file_loop (GetSourceLine (LoadInclude fs (ProcessSourceFile fs n)) MAX_SOURCE_LINE n) (ProcessSourceLine fs n) n ps s)
      (\<lambda>(r, ps', s'). good k s')"
    by (rule file_loop_ends[OF assms(1) _ grows_id Suc.prems(1,2)])
      (use Suc.hyps(1)[of "k + 1"] Suc.hyps(2) in \<open>simp add: deeper_ends_def\<close>)
  then show ?case by (intro ends_Suc[where m = "\<lambda>n. ProcessSourceFile fs n ps s"]) simp
qed

section \<open>The passes and the program\<close>

lemma create_equates_ends: "good k s \<Longrightarrow> create_equates eqs s \<noteq> Fuel \<and> (\<forall>s'. create_equates eqs s = Ret s' \<longrightarrow> good k s')"
proof (induction eqs arbitrary: s)
  case (Cons e eqs)
  obtain name val where e: "e = (name, val)" by (cases e)
  show ?case
  proof (cases "EquateCreate name val s")
    case (Ret x)
    then have "good k (snd x)"
      using plain_good[OF names_plain(2) whole.equate_create[OF good_ok[OF Cons.prems]] Cons.prems, of name val "fst x" "snd x"] by simp
    from Cons.IH[OF this] show ?thesis using Ret by (cases x) (simp add: e)
  qed (use names_plain(2)[of s name val] in \<open>simp_all add: e\<close>)
qed simp

lemma StructInit_plain: "plain s (StructInit s)"
  unfolding StructInit_def by (rule plain_case[OF scopes_plain(2)]) simp

lemma destroy_scopes_plain: "plain s (destroy_scopes n s)"
proof (induction n arbitrary: s)
  case (Suc n)
  have t: "calm s \<Longrightarrow> calm (s\<lparr>pScopeList := tl (pScopeList s)\<rparr>)" for s by (cases "pScopeList s") (auto simp: calm_def)
  have "plain s (ScopeDestroy s)"
    using scopes_plain(1) t by (auto simp: ScopeDestroy_def intro!: plain_andThen split: list.split)
  then show ?case using Suc.IH by (auto intro: plain_andThen)
qed simp

lemma end_pass_ends: "good k s \<Longrightarrow> end_pass s \<noteq> Fuel \<and> (\<forall>s'. end_pass s = Ret s' \<longrightarrow> good k s')"
proof -
  assume g: "good k s"
  have p: "plain s (StructCleanup (ppCleanup s))"
  proof -
    have "plain (ppCleanup s) (StructCleanup (ppCleanup s))"
      unfolding StructCleanup_def by (rule plain_andThen[OF destroy_scopes_plain]) simp
    then show ?thesis by (simp add: plain_def ppCleanup_def)
  qed
  have c: "OpenFiles (MacroCleanup s') = OpenFiles s'" "calm (MacroCleanup s') = calm s'" for s'
    by (simp_all add: MacroCleanup_def calm_def)
  show ?thesis
  proof (cases "StructCleanup (ppCleanup s)")
    case (Ret x)
    then have e: "end_pass s = Ret (MacroCleanup (snd x))" by (cases x) (simp add: end_pass_def)
    show ?thesis
      using plainD[OF p, of "fst x" "snd x"] whole.end_pass_keeps[OF good_ok[OF g] e] g Ret unfolding e by (simp add: good_def c)
  qed (use p in \<open>simp_all add: end_pass_def\<close>)
qed

lemma run_pass_ends:
  assumes "sources_closed fs" "good 0 s"
  shows "ends (\<lambda>n. run_pass fs n eqs infile s) (\<lambda>(r, s'). good 0 s')"
proof -
  have b: "good 0 (begin_pass s)"
    using assms(2) whole.pass_begin[of 0 s] by (simp add: good_def) (simp add: begin_pass_def)
  have e: "ends (\<lambda>n. case end_pass s1 of Ret s \<Rightarrow> Ret (True, s) | Stuck \<Rightarrow> Stuck | Fuel \<Rightarrow> Fuel) (\<lambda>(r, s'). good 0 s')"
    if "good 0 s1" for s1
    using end_pass_ends[OF that] by (intro ends_step) simp_all
  have f: "ends (\<lambda>n. case ProcessSourceFile fs n ps s1 of
           Ret (_, ps, s) \<Rightarrow> (case end_pass (CloseSourceFile ps s) of Ret s \<Rightarrow> Ret (True, s) | Stuck \<Rightarrow> Stuck | Fuel \<Rightarrow> Fuel)
         | Stuck \<Rightarrow> Stuck | Fuel \<Rightarrow> Fuel) (\<lambda>(r, s'). good 0 s')" if "good (0 + 1) s1" "closed_at ps" for ps s1
    by (rule ends_bind[OF ProcessSourceFile_ends[OF assms(1) _ that]]) (auto intro!: e CloseSourceFile_good)
  have i: "ends (\<lambda>n. case InitSourceFile fs infile False s1 of
                  Ret (None, s) \<Rightarrow> Ret (False, s)
                | Ret (Some ps, s) \<Rightarrow>
                    (case ProcessSourceFile fs n ps s of
                       Ret (_, ps, s) \<Rightarrow>
                         (case end_pass (CloseSourceFile ps s) of Ret s \<Rightarrow> Ret (True, s) | Stuck \<Rightarrow> Stuck | Fuel \<Rightarrow> Fuel)
                     | Stuck \<Rightarrow> Stuck | Fuel \<Rightarrow> Fuel)
                | Stuck \<Rightarrow> Stuck | Fuel \<Rightarrow> Fuel) (\<lambda>(r, s'). good 0 s')" if "good 0 s1" for s1
    by (rule InitSourceFile_ends[OF assms(1) that]) (simp_all add: f)
  show ?thesis
    unfolding run_pass_def
  proof (rule ends_step)
    fix s1 assume "create_equates eqs (begin_pass s) = Ret s1"
    then have g: "good 0 s1" using create_equates_ends[OF b] by blast
    show "ends (\<lambda>n. case StructInit s1 of
             Ret (_, s) \<Rightarrow>
               (case InitSourceFile fs infile False s of
                  Ret (None, s) \<Rightarrow> Ret (False, s)
                | Ret (Some ps, s) \<Rightarrow>
                    (case ProcessSourceFile fs n ps s of
                       Ret (_, ps, s) \<Rightarrow>
                         (case end_pass (CloseSourceFile ps s) of Ret s \<Rightarrow> Ret (True, s) | Stuck \<Rightarrow> Stuck | Fuel \<Rightarrow> Fuel)
                     | Stuck \<Rightarrow> Stuck | Fuel \<Rightarrow> Fuel)
                | Stuck \<Rightarrow> Stuck | Fuel \<Rightarrow> Fuel)
           | Stuck \<Rightarrow> Stuck | Fuel \<Rightarrow> Fuel) (\<lambda>(r, s'). good 0 s')"
      by (rule ends_plain[OF StructInit_plain whole.struct_init[OF good_ok[OF g]] g]) (simp add: i)
  qed (use create_equates_ends[OF b] in blast)
qed

lemma two_passes_ends:
  assumes "sources_closed fs" "good 0 s"
  shows "ends (\<lambda>n. two_passes fs n eqs infile s) (\<lambda>_. True)"
proof -
  have second: "ends (\<lambda>n. case (if b then run_pass fs n eqs infile s1 else Ret (d, s1)) of
             Ret (_, s2) \<Rightarrow> Ret (h s2) | Stuck \<Rightarrow> Stuck | Fuel \<Rightarrow> Fuel) (\<lambda>_. True)" if "good 0 s1" for b d s1 and h :: "pasm \<Rightarrow> pasm"
    by (rule ends_bind[where P = "\<lambda>_. True"]) (auto intro: ends_mono[OF run_pass_ends[OF assms(1) that]])
  show ?thesis
    unfolding two_passes_def Let_def by (rule ends_bind[OF run_pass_ends[OF assms]]) (auto intro!: second)
qed

lemma write_outputs_not_Fuel: "write_outputs fs wr c base s \<noteq> Fuel"
  by (simp add: write_outputs_def Let_def split: option.split)

lemma pasm_init_good: "good 0 (pasm_init c opts)"
  using pasm_init_ok[of c opts] by (simp add: good_def) (simp add: pasm_init_def calm_def)

lemma assemble_file_ends:
  assumes "sources_closed fs"
  shows "ends (\<lambda>n. assemble_file fs wr n c infile outfile) (\<lambda>(r, out). r = 0 \<or> r = 1)"
  unfolding assemble_file_def
proof (rule InitSourceFile_ends[OF assms pasm_init_good])
  fix ps s' assume g: "good (0 + 1) s'"
  let ?s = "(CloseSourceFile ps s')\<lparr>core := asm_init (cl_Core c) (default_output (cl_Options c)) 0 []\<rparr>"
  have "good 0 (CloseSourceFile ps s')" using g by (intro CloseSourceFile_good) simp
  then have g0: "good 0 ?s"
    using pasm_init_ok[of "cl_Core c" "default_output (cl_Options c)"]
    by (auto simp: good_def pasm_ok_def table_names_def pasm_init_def)
  have "ends (\<lambda>n. case two_passes fs n (cl_Equates c) infile ?s of
                   Ret s \<Rightarrow> write_outputs fs wr c (out_base outfile (sf_SourceName ps)) s
                 | Stuck \<Rightarrow> Stuck | Fuel \<Rightarrow> Fuel) (\<lambda>(r, out). r = 0 \<or> r = 1)"
    by (rule ends_bind[OF two_passes_ends[OF assms g0]]) (rule ends_const[OF write_outputs_not_Fuel], auto simp: write_outputs_def Let_def split: option.splits if_splits)
  then show "ends (\<lambda>n. case (Some ps, s') of
        (None, s) \<Rightarrow> Ret (1, [])
      | (Some ps, s) \<Rightarrow>
          (let outbase = out_base outfile (sf_SourceName ps); opts = default_output (cl_Options c);
               s = CloseSourceFile ps s;
               s = s\<lparr>core := asm_init (cl_Core c) opts 0 []\<rparr>;
               listing = (if opts AND OPTION_LISTING = 0 then Some ''-'' else out_name outbase ''.lst'') in
           case listing of
             None \<Rightarrow> Stuck
           | Some name \<Rightarrow>
               if opts AND OPTION_LISTING \<noteq> 0 \<and> \<not> wr name then Ret (1, [])
               else (case two_passes fs n (cl_Equates c) infile s of
                   Ret s \<Rightarrow> write_outputs fs wr c outbase s
                 | Stuck \<Rightarrow> Stuck | Fuel \<Rightarrow> Fuel))) (\<lambda>(r, out). r = 0 \<or> r = 1)"
    by (simp add: Let_def split: option.split)
qed simp

text \<open>
  C4. The assembler terminates. On every command line and every set of files whose comments are closed, with includes, macros and
  generated lines nested in any way, there is one result that every amount of fuel from some on gives: the
  exit code 0 or 1 with the files written, or undefined behaviour. The program never runs forever.
\<close>

theorem assembler_terminates:
  assumes "\<And>name body. readable fs name = Some body \<Longrightarrow> source_closed body"
  shows "\<exists>v N. (v = Stuck \<or> (\<exists>out. v = Ret (0, out) \<or> v = Ret (1, out))) \<and> (\<forall>n\<ge>N. pasm_main fs wr n args = v)"
proof -
  have c: "sources_closed (fs\<lparr>include_dirs := ds\<rparr>)" for ds using assms by (simp add: sources_closed_def)
  have "ends (\<lambda>n. pasm_main fs wr n args) (\<lambda>(r, out). r = 0 \<or> r = 1)"
  proof (cases "positional args")
    case (Some p)
    obtain infile outfile where p: "p = (infile, outfile)" by (cases p)
    have "ends (\<lambda>n. case parse_args args cmdline_init of
             Ret None \<Rightarrow> Ret (1, [])
           | Ret (Some c) \<Rightarrow>
               (let c = (if cl_Core c = CORE_NONE then c\<lparr>cl_Core := CORE_V1\<rparr> else c) in
                case infile of
                  None \<Rightarrow> Ret (1, [])
                | Some infile \<Rightarrow>
                    if (case outfile of None \<Rightarrow> False | Some out \<Rightarrow> MAXFILE - 5 < length out \<or> \<not> no_dots out) then Ret (1, [])
                    else assemble_file (fs\<lparr>include_dirs := cl_Dirs c\<rparr>) wr n c infile outfile)
           | Stuck \<Rightarrow> Stuck | Fuel \<Rightarrow> Fuel) (\<lambda>(r, out). r = 0 \<or> r = 1)"
      using parse_args_returns[of args cmdline_init]
      by (intro ends_step) (auto simp: Let_def assemble_file_ends[OF c] split: option.split)
    then show ?thesis by (simp add: pasm_main_def Some p)
  qed (simp add: pasm_main_def)
  then obtain v N where v: "v \<noteq> Fuel" "\<forall>r out. v = Ret (r, out) \<longrightarrow> r = 0 \<or> r = 1" "\<forall>n\<ge>N. pasm_main fs wr n args = v"
    unfolding ends_def by auto
  have "v = Stuck \<or> (\<exists>out. v = Ret (0, out) \<or> v = Ret (1, out))" using v(1,2) by (cases v) auto
  with v(3) show ?thesis by blast
qed

definition one_source :: "string \<Rightarrow> files" where
  "one_source body = \<lparr>readable = (\<lambda>name. if name = ''a.p'' then Some body else None), include_dirs = []\<rparr>"

lemma comment_source: "source_closed ''/* stop */ HALT''"
  unfolding source_closed_def comments_close_def by (auto simp: Cons_eq_append_conv sublist_Cons_right)

theorem assembler_terminates_witness:
  "\<exists>v N. v \<noteq> Fuel \<and> (\<forall>n\<ge>N. pasm_main (one_source ''/* stop */ HALT'') (\<lambda>_. True) n [''-b'', ''a.p''] = v)"
proof -
  have "\<exists>v N. (v = Stuck \<or> (\<exists>out. v = Ret (0, out) \<or> v = Ret (1, out))) \<and>
      (\<forall>n\<ge>N. pasm_main (one_source ''/* stop */ HALT'') (\<lambda>_. True) n [''-b'', ''a.p''] = v)"
  proof (rule assembler_terminates)
    fix name body assume "readable (one_source ''/* stop */ HALT'') name = Some body"
    then show "source_closed body" using comment_source by (auto simp: one_source_def split: if_split_asm)
  qed
  then show ?thesis by blast
qed

text \<open>Without the end mark the preprocessor reads on, whatever the fuel.\<close>

lemma open_comment_runs_on: "unread ps = [] \<Longrightarrow> c = None \<or> c = Some CHR ''*'' \<Longrightarrow> skip_comment n c ps = Fuel"
proof (induction n arbitrary: c ps)
  case (Suc n)
  obtain c' ps' where r: "ReadCharacter ps = (c', ps')" by (cases "ReadCharacter ps")
  show ?case using Suc.IH[of ps' c'] Suc.prems ReadCharacter_unread(1,2)[OF r] by (auto simp: r)
qed simp

end
