(* ===== verification/Meter.thy ===== *)
theory Meter
  imports Metrology CPT_Props
begin

text \<open>
  The application (\<open>main.cpp\<close>): start-up and its failures, and one second of the loop, which chains
  the acquisition, the scaling, the power theory engine sample by sample, the averages of every cycle, the raw
  values of the log and the text sent to the server.

  The operating system beyond the driver's is the parameter \<open>main_env\<close>. The loop has no exit: \<open>stop_daq\<close> stays 1.
\<close>

section \<open>The attributes of a phase\<close>

datatype e_attributes = ATTR_VOLTAGE_RMS | ATTR_CURRENT_RMS | ATTR_POWER_APPARENT | ATTR_POWER_ACTIVE | ATTR_ENERGY_REACTIVE
  | ATTR_CURRENT_ACTIVE | ATTR_CURRENT_REACTIVE | ATTR_CURRENT_VOID | ATTR_PF | ATTR_QF | ATTR_VF

primrec attr_num :: "e_attributes \<Rightarrow> nat" where
  "attr_num ATTR_VOLTAGE_RMS = 0"
| "attr_num ATTR_CURRENT_RMS = 1"
| "attr_num ATTR_POWER_APPARENT = 2"
| "attr_num ATTR_POWER_ACTIVE = 3"
| "attr_num ATTR_ENERGY_REACTIVE = 4"
| "attr_num ATTR_CURRENT_ACTIVE = 5"
| "attr_num ATTR_CURRENT_REACTIVE = 6"
| "attr_num ATTR_CURRENT_VOID = 7"
| "attr_num ATTR_PF = 8"
| "attr_num ATTR_QF = 9"
| "attr_num ATTR_VF = 10"

definition attributes :: "e_attributes list" where
  "attributes = [ATTR_VOLTAGE_RMS, ATTR_CURRENT_RMS, ATTR_POWER_APPARENT, ATTR_POWER_ACTIVE, ATTR_ENERGY_REACTIVE,
     ATTR_CURRENT_ACTIVE, ATTR_CURRENT_REACTIVE, ATTR_CURRENT_VOID, ATTR_PF, ATTR_QF, ATTR_VF]"

primrec attr_value :: "e_attributes \<Rightarrow> tPhase \<Rightarrow> fp" where
  "attr_value ATTR_VOLTAGE_RMS p = ph_V_rms p"
| "attr_value ATTR_CURRENT_RMS p = ph_I_rms p"
| "attr_value ATTR_POWER_APPARENT p = ph_A p"
| "attr_value ATTR_POWER_ACTIVE p = ph_P_avg p"
| "attr_value ATTR_ENERGY_REACTIVE p = ph_Q p"
| "attr_value ATTR_CURRENT_ACTIVE p = ph_Iba_rms p"
| "attr_value ATTR_CURRENT_REACTIVE p = ph_Ibr_rms p"
| "attr_value ATTR_CURRENT_VOID p = ph_Iv_rms p"
| "attr_value ATTR_PF p = ph_PF p"
| "attr_value ATTR_QF p = ph_QF p"
| "attr_value ATTR_VF p = ph_VF p"

definition ATTR_MAX :: nat where "ATTR_MAX = 11"
definition APP_PHASES :: nat where "APP_PHASES = 3"
definition NUMBER_OF_MAF_BUFFERS :: nat where "NUMBER_OF_MAF_BUFFERS = ATTR_MAX * APP_PHASES"
definition RAW_PARAM :: nat where "RAW_PARAM = ATTR_MAX + 1"
definition RAW_PARAM_FREQ :: nat where "RAW_PARAM_FREQ = 40"
definition RAW_PARAM_FREQ_COUNT :: nat where "RAW_PARAM_FREQ_COUNT = ENERGY_METER_SAMPLE_RATE div RAW_PARAM_FREQ"
definition PARAMS_LEN :: nat where "PARAMS_LEN = RAW_PARAM * APP_PHASES"
definition ENERGY_METER_SAMPLES_PER_CYCLE :: nat where
  "ENERGY_METER_SAMPLES_PER_CYCLE = ENERGY_METER_SAMPLE_RATE div ENERGY_METER_FREQ"

definition phase_order :: "int list" where "phase_order = [0, 1, 2]"

definition phase_letter :: "string" where "phase_letter = ''ABC''"

section \<open>Averages and raw values\<close>

definition the_phase :: "tCPT \<Rightarrow> nat \<Rightarrow> tPhase option" where
  "the_phase cpt i = do { j \<leftarrow> rd_at phase_order (int i); p \<leftarrow> rd_at (Phase cpt) j; p }"

fun mean_attrs :: "rnd \<Rightarrow> tPhase \<Rightarrow> nat \<Rightarrow> e_attributes list \<Rightarrow> tMAF list \<Rightarrow> tMAF list option" where
  "mean_attrs rd p k [] ms = Some ms"
| "mean_attrs rd p k (a # as) ms =
     do { m \<leftarrow> rd_at ms (int (k + attr_num a));
          m' \<leftarrow> maf_update rd m (attr_value a p);
          mean_attrs rd p k as (ms[k + attr_num a := m']) }"

fun mean_phases :: "rnd \<Rightarrow> tCPT \<Rightarrow> nat \<Rightarrow> nat \<Rightarrow> tMAF list \<Rightarrow> tMAF list option" where
  "mean_phases rd cpt i 0 ms = Some ms"
| "mean_phases rd cpt i (Suc n) ms =
     do { p \<leftarrow> the_phase cpt i;
          ms \<leftarrow> mean_attrs rd p (i * ATTR_MAX) attributes ms;
          mean_phases rd cpt (i + 1) n ms }"

definition update_mean_values :: "rnd \<Rightarrow> tCPT \<Rightarrow> tMAF list \<Rightarrow> tMAF list option" where
  "update_mean_values rd cpt ms = mean_phases rd cpt 0 APP_PHASES ms"

fun raw_attrs :: "rnd \<Rightarrow> tPhase \<Rightarrow> nat \<Rightarrow> e_attributes list \<Rightarrow> fp list \<Rightarrow> fp list option" where
  "raw_attrs rd p k [] ps = Some ps"
| "raw_attrs rd p k (a # as) ps =
     do { ps \<leftarrow> wr_at ps (int (k + attr_num a)) (fcvt rd SGL (attr_value a p));
          raw_attrs rd p k as ps }"

fun raw_phases :: "rnd \<Rightarrow> tCPT \<Rightarrow> nat \<Rightarrow> nat \<Rightarrow> nat \<Rightarrow> fp list \<Rightarrow> fp list option" where
  "raw_phases rd cpt offset i 0 ps = Some ps"
| "raw_phases rd cpt offset i (Suc n) ps =
     do { p \<leftarrow> the_phase cpt i;
          ps \<leftarrow> raw_attrs rd p (offset + i * RAW_PARAM) attributes ps;
          raw_phases rd cpt offset (i + 1) n ps }"

definition update_raw_values :: "rnd \<Rightarrow> tCPT \<Rightarrow> nat \<Rightarrow> fp list \<Rightarrow> fp list option" where
  "update_raw_values rd cpt offset ps = raw_phases rd cpt offset 0 APP_PHASES ps"

section \<open>The samples of a second\<close>

text \<open>The loop's variables: the engine, the averages, the raw values, the two counters and the place in the raw values.\<close>

record sec =
  sc_cpt :: tCPT
  sc_maf :: "tMAF list"
  sc_params :: "fp list"
  sc_m :: nat
  sc_n :: nat
  sc_offset :: nat

fun channel_values :: "rnd \<Rightarrow> fp list list \<Rightarrow> tMetrologyCoreChannel list \<Rightarrow> nat \<Rightarrow> nat \<Rightarrow> nat \<Rightarrow> fp list option" where
  "channel_values rd ch cs idx j 0 = Some []"
| "channel_values rd ch cs idx j (Suc n) =
     do { c \<leftarrow> rd_at cs (int j);
          row \<leftarrow> rd_at ch (int (fsamples c));
          x \<leftarrow> rd_at row (int idx);
          xs \<leftarrow> channel_values rd ch cs idx (j + 1) n;
          Some (fcvt rd DBL x # xs) }"

definition read_pac :: "rnd \<Rightarrow> fp list list \<Rightarrow> tMetrologyCoreSetup \<Rightarrow> nat \<Rightarrow> tPAC option" where
  "read_pac rd ch mc idx =
     do { v \<leftarrow> channel_values rd ch (VChannels mc) idx 0 3;
          c \<leftarrow> channel_values rd ch (IChannels mc) idx 0 3;
          Some \<lparr>V = v, I = c\<rparr> }"

definition sample_step :: "rnd \<Rightarrow> fp list list \<Rightarrow> tMetrologyCoreSetup \<Rightarrow> sec \<Rightarrow> nat \<Rightarrow> sec option" where
  "sample_step rd ch mc s idx =
     do { pac \<leftarrow> read_pac rd ch mc idx;
          cpt \<leftarrow> CPT_Update rd (sc_cpt s) pac;
          let m = sc_m s + 1;
          (m, ms) \<leftarrow> (if ENERGY_METER_SAMPLES_PER_CYCLE \<le> m
            then do { ms \<leftarrow> update_mean_values rd cpt (sc_maf s); Some (0, ms) } else Some (m, sc_maf s));
          let n = sc_n s + 1;
          (n, ps, off) \<leftarrow> (if RAW_PARAM_FREQ_COUNT \<le> n
            then do { ps \<leftarrow> update_raw_values rd cpt (sc_offset s) (sc_params s); Some (0, ps, sc_offset s + PARAMS_LEN) }
            else Some (n, sc_params s, sc_offset s));
          Some \<lparr>sc_cpt = cpt, sc_maf = ms, sc_params = ps, sc_m = m, sc_n = n, sc_offset = off\<rparr> }"

section \<open>The message\<close>

text \<open>\<open>%.2f\<close> of the C library: the exact value rounded to hundredths, ties to even. The sign of a NaN is not modelled; \<open>nan\<close> is its text.\<close>

fun dec :: "nat \<Rightarrow> string" where
  "dec n = (if n < 10 then [char_of (48 + n)] else dec (n div 10) @ [char_of (48 + n mod 10)])"

declare dec.simps [simp del]

definition fmt2 :: "string \<Rightarrow> fp \<Rightarrow> string" where
  "fmt2 nan x =
     (case x of
        FNaN \<Rightarrow> nan
      | FInf s \<Rightarrow> (if s then ''-inf'' else ''inf'')
      | _ \<Rightarrow> (let k = nat (rhe (\<bar>valof x\<bar> * 100)) in
          (if fsign x then ''-'' else []) @ dec (k div 100) @ ''.'' @ [char_of (48 + k div 10 mod 10), char_of (48 + k mod 10)]))"

primrec param_name_format :: "e_attributes \<Rightarrow> string" where
  "param_name_format ATTR_VOLTAGE_RMS = ''V_rms_''"
| "param_name_format ATTR_CURRENT_RMS = ''I_rms_''"
| "param_name_format ATTR_POWER_APPARENT = ''A_''"
| "param_name_format ATTR_POWER_ACTIVE = ''P_''"
| "param_name_format ATTR_ENERGY_REACTIVE = ''Q_''"
| "param_name_format ATTR_CURRENT_ACTIVE = ''Iba_rms_''"
| "param_name_format ATTR_CURRENT_REACTIVE = ''Ibr_rms_''"
| "param_name_format ATTR_CURRENT_VOID = ''Iv_rms_''"
| "param_name_format ATTR_PF = ''PF_''"
| "param_name_format ATTR_QF = ''QF_''"
| "param_name_format ATTR_VF = ''VF_''"

definition MESSAGE_SIZE :: nat where "MESSAGE_SIZE = 1000"

text \<open>\<open>sprintf\<close> at the end of the text: it writes one character more, its terminator.\<close>

definition put :: "string \<Rightarrow> string \<Rightarrow> string option" where
  "put msg t = (if MESSAGE_SIZE < length msg + length t + 1 then None else Some (msg @ t))"

fun send_fields :: "string \<Rightarrow> tMAF list \<Rightarrow> (nat \<times> e_attributes) list \<Rightarrow> string \<Rightarrow> string option" where
  "send_fields nan ms [] msg = Some msg"
| "send_fields nan ms ((i, a) # rest) msg =
     do { k \<leftarrow> rd_at phase_order (int i);
          m \<leftarrow> rd_at ms (int (attr_num a + i * ATTR_MAX));
          c \<leftarrow> rd_at phase_letter k;
          msg \<leftarrow> put msg (param_name_format a @ [c] @ '':'' @ fmt2 nan (MeanValue m));
          send_fields nan ms rest (msg @ '','') }"

definition send_data :: "string \<Rightarrow> tMAF list \<Rightarrow> string option" where
  "send_data nan ms =
     do { msg \<leftarrow> put [] ''$bbb:1,'';
          msg \<leftarrow> send_fields nan ms (List.product [0..<APP_PHASES] attributes) msg;
          Some (butlast msg) }"

section \<open>One second\<close>

record main_env =
  acq_of :: acq_env
  heap_of :: heap_env
  is_root :: bool
  sched_ok :: bool
  mlock_ok :: bool
  unmap_ok :: bool
  dft_block :: "nat \<Rightarrow> fp list option"
  maf_block :: "nat \<Rightarrow> (nat \<Rightarrow> fp) option"
  socket_ok :: bool
  connect_ok :: bool
  log_open :: "nat \<Rightarrow> bool"
  nan_text :: string
  cosine :: "fp \<Rightarrow> fp"
  map_junk :: u32

record meter =
  mt_acq :: acq
  mt_channels :: "nat list"
  mt_core :: tMetrologyCoreSetup
  mt_cpt :: tCPT
  mt_maf :: "tMAF list"
  mt_params :: "fp list"
  mt_log :: "fp list"
  mt_sent :: "string list"
  mt_lost :: nat
  mt_lastEventN :: u32

text \<open>\<open>WriteLog\<close>: the chunks one after the other; \<open>None\<close> when they reach past the array.\<close>

fun write_chunks :: "fp list \<Rightarrow> nat \<Rightarrow> nat \<Rightarrow> nat \<Rightarrow> fp list \<Rightarrow> fp list option" where
  "write_chunks ps cnt i 0 file = Some file"
| "write_chunks ps cnt i (Suc n) file =
     (if length ps < cnt * i + cnt then None
      else write_chunks ps cnt (i + 1) n (file @ take cnt (drop (cnt * i) ps)))"

definition WriteLog :: "bool \<Rightarrow> fp list \<Rightarrow> nat \<Rightarrow> nat \<Rightarrow> fp list \<Rightarrow> (fp list \<times> int) option" where
  "WriteLog opened ps cnt chunks file =
     (if \<not> opened then Some (file, -1)
      else do { file \<leftarrow> write_chunks ps cnt 0 chunks file; Some (file, 0) })"

text \<open>The measurements of a second: everything but the sending and the log.\<close>

definition meter_measure :: "rnd \<Rightarrow> main_env \<Rightarrow> meter \<Rightarrow> meter option" where
  "meter_measure rd env st =
     do { (a, EventN) \<leftarrow> AnalogCore_GetSamples rd (acq_of env) (mt_acq st);
          let lost = (if 1 < EventN - mt_lastEventN st \<and> mt_lastEventN st \<noteq> 0 then mt_lost st + 1 else mt_lost st);
          ch \<leftarrow> MetrologyCore_Scale rd (mt_core st) (ch_data a);
          s \<leftarrow> run_opt (sample_step rd ch (mt_core st))
            \<lparr>sc_cpt = mt_cpt st, sc_maf = mt_maf st, sc_params = mt_params st, sc_m = 0, sc_n = 0, sc_offset = 0\<rparr>
            [0..<ENERGY_METER_SAMPLE_RATE];
          Some (st\<lparr>mt_acq := a\<lparr>ch_data := ch\<rparr>, mt_cpt := sc_cpt s, mt_maf := sc_maf s, mt_params := sc_params s, mt_lost := lost\<rparr>) }"

definition meter_second :: "rnd \<Rightarrow> main_env \<Rightarrow> meter \<Rightarrow> meter option" where
  "meter_second rd env st =
     do { st \<leftarrow> meter_measure rd env st;
          msg \<leftarrow> send_data (nan_text env) (mt_maf st);
          (file, r) \<leftarrow> WriteLog (log_open env (length (mt_sent st))) (mt_params st) PARAMS_LEN RAW_PARAM_FREQ (mt_log st);
          Some (st\<lparr>mt_sent := mt_sent st @ [msg], mt_log := file\<rparr>) }"

section \<open>Start-up\<close>

fun start_mafs :: "(nat \<Rightarrow> (nat \<Rightarrow> fp) option) \<Rightarrow> nat \<Rightarrow> nat \<Rightarrow> tMAF list option option" where
  "start_mafs blk i 0 = Some (Some [])"
| "start_mafs blk i (Suc n) =
     (case blk i of
        None \<Rightarrow> Some None
      | Some f \<Rightarrow>
          do { m \<leftarrow> maf_init \<lparr>Data = map f [0..<ENERGY_METER_FREQ], Length = int ENERGY_METER_FREQ\<rparr> 0 fzero fzero;
               ms \<leftarrow> start_mafs blk (i + 1) n;
               Some (map_option (Cons m) ms) })"

text \<open>\<open>MetrologyCore.VChannels[j].fsamples = AnalogCore.channel[...]\<close>.\<close>

definition wire :: "nat list \<Rightarrow> nat list \<Rightarrow> tMetrologyCoreChannel list \<Rightarrow> tMetrologyCoreChannel list option" where
  "wire channel rows cs =
     (if length channel < 8 \<or> length cs \<noteq> length rows then None
      else Some (map (\<lambda>(c, r). c\<lparr>fsamples := channel ! r\<rparr>) (zip cs rows)))"

text \<open>The failures' targets: the code and what is cleaned up.\<close>

definition exit_failure :: "int \<Rightarrow> acq \<Rightarrow> (int \<times> acq) + meter" where
  "exit_failure code a = Inl (code, a)"

definition exit_failure_ram :: "main_env \<Rightarrow> int \<Rightarrow> acq \<Rightarrow> (int \<times> acq) + meter" where
  "exit_failure_ram env code a = exit_failure code (AnalogCore_Deinit (unmap_ok env) a)"

definition exit_failure_pru :: "main_env \<Rightarrow> int \<Rightarrow> acq \<Rightarrow> (int \<times> acq) + meter" where
  "exit_failure_pru env code a = exit_failure_ram env code (a\<lparr>sys := DAQ_Stop (sys a)\<rparr>)"

text \<open>The uninitialised locals of \<open>main\<close>, the engine and the metrology mc, are arguments.\<close>

definition meter_start :: "rnd \<Rightarrow> main_env \<Rightarrow> tCPT \<Rightarrow> tMetrologyCoreSetup \<Rightarrow> acq \<Rightarrow> ((int \<times> acq) + meter) option" where
  "meter_start rd env cpt0 core0 a =
     (if \<not> is_root env then Some (exit_failure (-1) a)
      else if \<not> sched_ok env then Some (exit_failure (-1) a)
      else if \<not> mlock_ok env then Some (exit_failure (-1) a)
      else do {
        (a, status) \<leftarrow> AnalogCore_Init (acq_of env) a;
        if status \<noteq> 0 then Some (exit_failure_ram env (-1) a) else do {
        (mc, status) \<leftarrow> MetrologyCore_Init rd (cosine env) (dft_block env) (Some core0)
          (int ENERGY_METER_SAMPLES_PER_CYCLE) (int ENERGY_METER_SAMPLE_RATE) (int ENERGY_METER_FREQ);
        if status = -1 then Some (exit_failure (-1) a) else do {
        (a, channel, status) \<leftarrow> AnalogCore_Setup (acq_of env) (map_junk env) (Some []) a;
        if status \<noteq> 0 then Some (exit_failure_pru env (-1) a) else do {
        mc \<leftarrow> mc; channel \<leftarrow> channel;
        vs \<leftarrow> wire channel [2, 1, 0] (VChannels mc);
        is \<leftarrow> wire channel [3, 6, 7] (IChannels mc);
        (cpt, status) \<leftarrow> CPT_Config rd (heap_of env) cpt0 (of_nat ENERGY_METER_SAMPLE_RATE) (of_nat ENERGY_METER_SAMPLES_PER_CYCLE) 3;
        if status \<noteq> 0 then Some (exit_failure_pru env (-1) a) else do {
        mafs \<leftarrow> start_mafs (maf_block env) 0 NUMBER_OF_MAF_BUFFERS;
        case mafs of
          None \<Rightarrow> Some (exit_failure_pru env 1 a)
        | Some ms \<Rightarrow>
            if \<not> socket_ok env then Some (exit_failure_pru env 1 a)
            else if \<not> connect_ok env then Some (exit_failure_pru env 1 a)
            else Some (Inr \<lparr>mt_acq = a, mt_channels = channel, mt_core = mc\<lparr>VChannels := vs, IChannels := is\<rparr>,
              mt_cpt = cpt, mt_maf = ms, mt_params = replicate (RAW_PARAM_FREQ * PARAMS_LEN) fzero, mt_log = [], mt_sent = [],
              mt_lost = 0, mt_lastEventN = 0\<rparr>) }}}}})"

text \<open>The program: start-up, then the loop for \<open>n\<close> seconds.\<close>

definition meter_main :: "rnd \<Rightarrow> main_env \<Rightarrow> tCPT \<Rightarrow> tMetrologyCoreSetup \<Rightarrow> acq \<Rightarrow> nat \<Rightarrow> ((int \<times> acq) + meter) option" where
  "meter_main rd env cpt0 core0 a n =
     do { r \<leftarrow> meter_start rd env cpt0 core0 a;
          case r of
            Inl e \<Rightarrow> Some (Inl e)
          | Inr st \<Rightarrow> do { st \<leftarrow> run_opt (\<lambda>st _. meter_second rd env st) st (replicate n ()); Some (Inr st) } }"

end
