(* ===== verification/Meter_Props.thy ===== *)
theory Meter_Props
  imports Meter
begin

text \<open>
  The application's properties: what one second leaves in the filters and in the raw values, and the message's
  bound.
\<close>

section \<open>Attributes\<close>

lemma attributes_length [simp]: "length attributes = 11"
  by (simp add: attributes_def)

lemma attr_num_lt: "attr_num a < 11"
  by (cases a) simp_all

lemma attributes_nth [simp]: "attributes ! attr_num a = a"
  by (cases a) (simp_all add: attributes_def)

lemma attr_num_nth: "j < 11 \<Longrightarrow> attr_num (attributes ! j) = j"
proof -
  have "map attr_num attributes = [0..<11]" by (simp add: attributes_def upt_rec)
  then have "map attr_num attributes ! j = [0..<11] ! j" for j by simp
  then show "j < 11 \<Longrightarrow> attr_num (attributes ! j) = j" by (metis attributes_length nth_map nth_upt add_0 diff_zero length_map)
qed

lemma attr_num_inj: "attr_num a = attr_num b \<longleftrightarrow> a = b"
  by (metis attributes_nth)

lemma all_attributes: "a \<in> set attributes"
  by (cases a) (simp_all add: attributes_def)

lemma distinct_attributes: "distinct attributes"
  by (simp add: attributes_def)

lemmas sizes = ATTR_MAX_def APP_PHASES_def RAW_PARAM_def PARAMS_LEN_def RAW_PARAM_FREQ_def RAW_PARAM_FREQ_COUNT_def
  ENERGY_METER_SAMPLES_PER_CYCLE_def ENERGY_METER_SAMPLE_RATE_def ENERGY_METER_FREQ_def NUMBER_OF_MAF_BUFFERS_def

text \<open>The value of attribute \<open>j\<close> of phase \<open>i\<close>.\<close>

definition field_of :: "tCPT \<Rightarrow> nat \<Rightarrow> nat \<Rightarrow> fp" where
  "field_of cpt i j = attr_value (attributes ! j) (the (Phase cpt ! i))"

definition has_phases :: "tCPT \<Rightarrow> bool" where
  "has_phases cpt \<longleftrightarrow> length (Phase cpt) = 3 \<and> (\<forall>i<3. Phase cpt ! i \<noteq> None)"

lemma the_phase_Some: "has_phases cpt \<Longrightarrow> i < 3 \<Longrightarrow> the_phase cpt i = Some (the (Phase cpt ! i))"
proof -
  assume a: "has_phases cpt" "i < 3"
  have "rd_at phase_order (int i) = Some (int i)"
    using a(2) by (auto simp: phase_order_def rd_at_def less_Suc_eq numeral_3_eq_3)
  with a show ?thesis by (auto simp: the_phase_def has_phases_def)
qed

section \<open>The filters\<close>

text \<open>Filter \<open>m'\<close> is \<open>m\<close> after one sample.\<close>

definition slid :: "fp \<Rightarrow> tMAF \<Rightarrow> tMAF \<Rightarrow> bool" where
  "slid v m m' \<longleftrightarrow> maf_ok m' \<and> maf_window m' = tl (maf_window m) @ [v]"

lemma mean_attrs_ok:
  "distinct as \<Longrightarrow> list_all maf_ok ms \<Longrightarrow> k + 11 \<le> length ms \<Longrightarrow>
    \<exists>ms'. mean_attrs rd p k as ms = Some ms' \<and> list_all maf_ok ms' \<and> length ms' = length ms \<and>
      (\<forall>a \<in> set as. slid (attr_value a p) (ms ! (k + attr_num a)) (ms' ! (k + attr_num a))) \<and>
      (\<forall>q. q \<notin> (\<lambda>a. k + attr_num a) ` set as \<longrightarrow> ms' ! q = ms ! q)"
proof (induction "as" arbitrary: ms)
  case (Cons a "as")
  let ?q = "k + attr_num a"
  have q: "?q < length ms" using Cons.prems(3) attr_num_lt[of a] by simp
  then have "maf_ok (ms ! ?q)" using Cons.prems(2) by (simp add: list_all_length)
  then obtain m' where m': "maf_update rd (ms ! ?q) (attr_value a p) = Some m'" "maf_ok m'"
      "maf_window m' = tl (maf_window (ms ! ?q)) @ [attr_value a p]"
    using maf_update_ok by metis
  have "list_all maf_ok (ms[?q := m'])" using Cons.prems(2) m'(2)
    by (auto simp: list_all_iff dest!: set_update_subset_insert[THEN subsetD])
  with Cons.IH[of "ms[?q := m']"] Cons.prems obtain ms' where ms': "mean_attrs rd p k as (ms[?q := m']) = Some ms'"
      "list_all maf_ok ms'" "length ms' = length ms"
      "\<forall>b \<in> set as. slid (attr_value b p) (ms[?q := m'] ! (k + attr_num b)) (ms' ! (k + attr_num b))"
      "\<forall>r. r \<notin> (\<lambda>b. k + attr_num b) ` set as \<longrightarrow> ms' ! r = ms[?q := m'] ! r"
    by auto
  have ne: "attr_num b \<noteq> attr_num a" if "b \<in> set as" for b using that Cons.prems(1) by (auto simp: attr_num_inj)
  have fresh: "?q \<notin> (\<lambda>b. k + attr_num b) ` set as" by (metis (no_types, lifting) imageE add_left_cancel ne)
  then have "ms' ! ?q = m'" using ms'(5)[rule_format, OF fresh] q by simp
  then have "slid (attr_value a p) (ms ! ?q) (ms' ! ?q)" using m' by (simp add: slid_def)
  moreover have "slid (attr_value b p) (ms ! (k + attr_num b)) (ms' ! (k + attr_num b))" if "b \<in> set as" for b
    using ms'(4) that ne[OF that] by force
  moreover have "ms' ! r = ms ! r" if "r \<notin> (\<lambda>b. k + attr_num b) ` set (a # as)" for r
    using ms'(5) that by (simp add: image_iff)
  moreover have "mean_attrs rd p k (a # as) ms = Some ms'" using q m'(1) ms'(1) by (simp del: of_nat_add)
  ultimately show ?case using ms'(2,3) by auto
qed auto

lemma mean_phases_ok:
  assumes "has_phases cpt"
  shows "i + n \<le> 3 \<Longrightarrow> list_all maf_ok ms \<Longrightarrow> length ms = 33 \<Longrightarrow>
    \<exists>ms'. mean_phases rd cpt i n ms = Some ms' \<and> list_all maf_ok ms' \<and> length ms' = 33 \<and>
      (\<forall>q<33. if i \<le> q div 11 \<and> q div 11 < i + n then slid (field_of cpt (q div 11) (q mod 11)) (ms ! q) (ms' ! q)
         else ms' ! q = ms ! q)"
proof (induction n arbitrary: i ms)
  case (Suc n)
  let ?p = "the (Phase cpt ! i)"
  obtain ms1 where ms1: "mean_attrs rd ?p (i * 11) attributes ms = Some ms1" "list_all maf_ok ms1" "length ms1 = 33"
      "\<forall>a \<in> set attributes. slid (attr_value a ?p) (ms ! (i * 11 + attr_num a)) (ms1 ! (i * 11 + attr_num a))"
      "\<forall>q. q \<notin> (\<lambda>a. i * 11 + attr_num a) ` set attributes \<longrightarrow> ms1 ! q = ms ! q"
    using mean_attrs_ok[OF distinct_attributes Suc.prems(2), of "i * 11" rd ?p] Suc.prems by auto
  obtain ms' where ms': "mean_phases rd cpt (i + 1) n ms1 = Some ms'" "list_all maf_ok ms'" "length ms' = 33"
      "\<forall>q<33. if i + 1 \<le> q div 11 \<and> q div 11 < i + 1 + n then slid (field_of cpt (q div 11) (q mod 11)) (ms1 ! q) (ms' ! q)
         else ms' ! q = ms1 ! q"
    using Suc.IH[of "i + 1" ms1] Suc.prems(1) ms1(2,3) by auto
  have in_row: "slid (field_of cpt i (q mod 11)) (ms ! q) (ms1 ! q)" if "q div 11 = i" for q
  proof -
    have "i * 11 + attr_num (attributes ! (q mod 11)) = q" using that div_mult_mod_eq[of q 11] by (simp add: attr_num_nth)
    with ms1(4) all_attributes[of "attributes ! (q mod 11)"] show ?thesis by (metis field_of_def)
  qed
  have out_row: "ms1 ! q = ms ! q" if "q div 11 \<noteq> i" for q
  proof -
    have "q \<noteq> i * 11 + attr_num a" for a using that attr_num_lt[of a] by auto
    with ms1(5) show ?thesis by auto
  qed
  have "if i \<le> q div 11 \<and> q div 11 < i + Suc n then slid (field_of cpt (q div 11) (q mod 11)) (ms ! q) (ms' ! q)
      else ms' ! q = ms ! q" if "q < 33" for q
    using ms'(4)[rule_format, OF that] in_row[of q] out_row[of q] by (cases "q div 11 = i") (auto split: if_splits)
  moreover have "the_phase cpt i = Some ?p" using the_phase_Some[OF assms] Suc.prems(1) by simp
  ultimately show ?case using ms1(1) ms'(1-3) by (auto simp: ATTR_MAX_def mult.commute)
qed auto

lemma update_mean_values_ok:
  assumes "has_phases cpt" "list_all maf_ok ms" "length ms = 33"
  shows "\<exists>ms'. update_mean_values rd cpt ms = Some ms' \<and> list_all maf_ok ms' \<and> length ms' = 33 \<and>
    (\<forall>q<33. slid (field_of cpt (q div 11) (q mod 11)) (ms ! q) (ms' ! q))"
proof -
  have "q div 11 < 3" if "q < 33" for q :: nat using that by simp
  then show ?thesis
    using mean_phases_ok[OF assms(1), of 0 3 ms rd] assms(2,3) by (auto simp: update_mean_values_def APP_PHASES_def)
qed

section \<open>The raw values\<close>

lemma raw_attrs_ok:
  "distinct as \<Longrightarrow> k + 11 \<le> length ps \<Longrightarrow>
    \<exists>ps'. raw_attrs rd p k as ps = Some ps' \<and> length ps' = length ps \<and>
      (\<forall>a \<in> set as. ps' ! (k + attr_num a) = fcvt rd SGL (attr_value a p)) \<and>
      (\<forall>q. q \<notin> (\<lambda>a. k + attr_num a) ` set as \<longrightarrow> ps' ! q = ps ! q)"
proof (induction "as" arbitrary: ps)
  case (Cons a "as")
  let ?q = "k + attr_num a" and ?v = "fcvt rd SGL (attr_value a p)"
  have q: "?q < length ps" using Cons.prems(2) attr_num_lt[of a] by simp
  with Cons.IH[of "ps[?q := ?v]"] Cons.prems obtain ps' where ps': "raw_attrs rd p k as (ps[?q := ?v]) = Some ps'"
      "length ps' = length ps" "\<forall>b \<in> set as. ps' ! (k + attr_num b) = fcvt rd SGL (attr_value b p)"
      "\<forall>r. r \<notin> (\<lambda>b. k + attr_num b) ` set as \<longrightarrow> ps' ! r = ps[?q := ?v] ! r"
    by auto
  have ne: "attr_num b \<noteq> attr_num a" if "b \<in> set as" for b using that Cons.prems(1) by (auto simp: attr_num_inj)
  have fresh: "?q \<notin> (\<lambda>b. k + attr_num b) ` set as" by (metis (no_types, lifting) imageE add_left_cancel ne)
  then have "ps' ! ?q = ?v" using ps'(4)[rule_format, OF fresh] q by simp
  moreover have "ps' ! r = ps ! r" if "r \<notin> (\<lambda>b. k + attr_num b) ` set (a # as)" for r
    using ps'(4) that by (simp add: image_iff)
  moreover have "raw_attrs rd p k (a # as) ps = Some ps'" using q ps'(1) by (simp del: of_nat_add)
  ultimately show ?case using ps'(2,3) by auto
qed auto

lemma raw_phases_ok:
  assumes "has_phases cpt"
  shows "i + n \<le> 3 \<Longrightarrow> offset + 36 \<le> length ps \<Longrightarrow>
    \<exists>ps'. raw_phases rd cpt offset i n ps = Some ps' \<and> length ps' = length ps \<and>
      (\<forall>q. ps' ! q = (if offset + 12 * i \<le> q \<and> q < offset + 12 * (i + n) \<and> (q - offset) mod 12 < 11
         then fcvt rd SGL (field_of cpt ((q - offset) div 12) ((q - offset) mod 12)) else ps ! q))"
proof (induction n arbitrary: i ps)
  case (Suc n)
  let ?p = "the (Phase cpt ! i)" and ?k = "offset + i * 12"
  obtain ps1 where ps1: "raw_attrs rd ?p ?k attributes ps = Some ps1" "length ps1 = length ps"
      "\<forall>a \<in> set attributes. ps1 ! (?k + attr_num a) = fcvt rd SGL (attr_value a ?p)"
      "\<forall>q. q \<notin> (\<lambda>a. ?k + attr_num a) ` set attributes \<longrightarrow> ps1 ! q = ps ! q"
    using raw_attrs_ok[OF distinct_attributes, of ?k ps rd ?p] Suc.prems by auto
  obtain ps' where ps': "raw_phases rd cpt offset (i + 1) n ps1 = Some ps'" "length ps' = length ps"
      "\<forall>q. ps' ! q = (if offset + 12 * (i + 1) \<le> q \<and> q < offset + 12 * (i + 1 + n) \<and> (q - offset) mod 12 < 11
         then fcvt rd SGL (field_of cpt ((q - offset) div 12) ((q - offset) mod 12)) else ps1 ! q)"
    using Suc.IH[of "i + 1" ps1] Suc.prems ps1(2) by auto
  have in_row: "ps1 ! q = fcvt rd SGL (field_of cpt ((q - offset) div 12) ((q - offset) mod 12))"
    if "?k \<le> q" "q < ?k + 11" for q
  proof -
    from le_Suc_ex[OF that(1)] obtain d where d: "q = ?k + d" by blast
    then have q: "(q - offset) div 12 = i" "(q - offset) mod 12 = q - ?k" using that by simp_all
    have "?k + attr_num (attributes ! (q - ?k)) = q" using that by (simp add: attr_num_nth)
    moreover have "ps1 ! (?k + attr_num (attributes ! (q - ?k))) = fcvt rd SGL (attr_value (attributes ! (q - ?k)) ?p)"
      using ps1(3) all_attributes by blast
    ultimately show ?thesis unfolding q field_of_def by simp
  qed
  have out_row: "ps1 ! q = ps ! q" if "\<not> (?k \<le> q \<and> q < ?k + 11)" for q
  proof -
    have "q \<noteq> ?k + attr_num a" for a using that attr_num_lt[of a] by auto
    with ps1(4) show ?thesis by auto
  qed
  have "ps' ! q = (if offset + 12 * i \<le> q \<and> q < offset + 12 * (i + Suc n) \<and> (q - offset) mod 12 < 11
      then fcvt rd SGL (field_of cpt ((q - offset) div 12) ((q - offset) mod 12)) else ps ! q)" for q
  proof (cases "?k \<le> q \<and> q < ?k + 11")
    case True
    then obtain d where d: "q = ?k + d" using le_Suc_ex by blast
    then have "(q - offset) mod 12 < 11" using True by simp
    with True in_row[of q] ps'(3) show ?thesis by auto
  next
    case False
    have "\<not> (q - offset) mod 12 < 11" if "q = ?k + 11" using that by simp
    with False out_row[OF False] ps'(3) show ?thesis by (cases "q = ?k + 11") auto
  qed
  moreover have "the_phase cpt i = Some ?p" using the_phase_Some[OF assms] Suc.prems(1) by simp
  ultimately show ?case using ps1(1) ps'(1,2) by (auto simp: RAW_PARAM_def ATTR_MAX_def mult.commute)
qed auto

lemma update_raw_values_ok:
  assumes "has_phases cpt" "offset + 36 \<le> length ps"
  shows "\<exists>ps'. update_raw_values rd cpt offset ps = Some ps' \<and> length ps' = length ps \<and>
    (\<forall>q. ps' ! q = (if offset \<le> q \<and> q < offset + 36 \<and> (q - offset) mod 12 < 11
       then fcvt rd SGL (field_of cpt ((q - offset) div 12) ((q - offset) mod 12)) else ps ! q))"
  using raw_phases_ok[OF assms(1), of 0 3 offset ps rd] assms(2) by (auto simp: update_raw_values_def APP_PHASES_def)

section \<open>One second of samples\<close>

definition pac_of :: "rnd \<Rightarrow> fp list list \<Rightarrow> tMetrologyCoreSetup \<Rightarrow> nat \<Rightarrow> tPAC" where
  "pac_of rd ch mc idx = \<lparr>V = map (\<lambda>c. fcvt rd DBL (ch ! fsamples c ! idx)) (VChannels mc),
     I = map (\<lambda>c. fcvt rd DBL (ch ! fsamples c ! idx)) (IChannels mc)\<rparr>"

definition wired :: "tMetrologyCoreSetup \<Rightarrow> bool" where
  "wired mc \<longleftrightarrow> length (VChannels mc) = 3 \<and> length (IChannels mc) = 3 \<and>
     distinct (map fsamples (VChannels mc @ IChannels mc)) \<and> (\<forall>c\<in>set (VChannels mc @ IChannels mc). fsamples c < 8)"

lemma channel_values_ok:
  assumes "shape 8 15360 ch" "idx < 15360" "\<forall>c\<in>set cs. fsamples c < 8"
  shows "j + n = length cs \<Longrightarrow> channel_values rd ch cs idx j n = Some (map (\<lambda>c. fcvt rd DBL (ch ! fsamples c ! idx)) (drop j cs))"
proof (induction n arbitrary: j)
  case (Suc n)
  then have j: "j < length cs" by simp
  then have f: "fsamples (cs ! j) < 8" using assms(3) by simp
  then have "fsamples (cs ! j) < length ch" "idx < length (ch ! fsamples (cs ! j))" using assms(1,2) by (auto simp: shape_def)
  with Suc.IH[of "j + 1"] Suc.prems j show ?case by (simp add: Cons_nth_drop_Suc[symmetric])
qed simp

lemma read_pac_ok: "shape 8 15360 ch \<Longrightarrow> wired mc \<Longrightarrow> idx < 15360 \<Longrightarrow> read_pac rd ch mc idx = Some (pac_of rd ch mc idx)"
  by (simp add: read_pac_def wired_def pac_of_def channel_values_ok)

definition cpt_after :: "rnd \<Rightarrow> fp list list \<Rightarrow> tMetrologyCoreSetup \<Rightarrow> tCPT \<Rightarrow> nat \<Rightarrow> tCPT" where
  "cpt_after rd ch mc cpt k = the (run_opt (CPT_Update rd) cpt (map (pac_of rd ch mc) [0..<k]))"

text \<open>The state of the loop after \<open>k\<close> samples, in terms of the engine's states.\<close>

definition sec_at :: "(nat \<Rightarrow> tCPT) \<Rightarrow> rnd \<Rightarrow> tMAF list \<Rightarrow> fp list \<Rightarrow> nat \<Rightarrow> sec \<Rightarrow> bool" where
  "sec_at cpts rd ms ps k s \<longleftrightarrow> sc_cpt s = cpts k \<and> sc_m s = k mod 256 \<and> sc_n s = k mod 384 \<and> sc_offset s = 36 * (k div 384) \<and>
     length (sc_maf s) = 33 \<and> list_all maf_ok (sc_maf s) \<and>
     (\<forall>q<33. maf_window (sc_maf s ! q) = drop (k div 256) (maf_window (ms ! q) @
        map (\<lambda>c. field_of (cpts (256 * Suc c)) (q div 11) (q mod 11)) [0..<k div 256])) \<and>
     length (sc_params s) = 1440 \<and>
     (\<forall>q<1440. sc_params s ! q = (if q div 36 < k div 384 \<and> q mod 12 < 11
        then fcvt rd SGL (field_of (cpts (384 * Suc (q div 36))) (q mod 36 div 12) (q mod 12)) else ps ! q))"

lemma slide_window:
  "w \<noteq> [] \<Longrightarrow> tl (drop c (w @ map f [0..<c])) @ [f c] = drop (Suc c) (w @ map f [0..<Suc c])"
proof -
  assume "w \<noteq> []"
  then have "Suc c \<le> length (w @ map f [0..<c])" by (cases w) simp_all
  then have "drop (Suc c) ((w @ map f [0..<c]) @ [f c]) = drop (Suc c) (w @ map f [0..<c]) @ [f c]" by simp
  moreover have "tl (drop c (w @ map f [0..<c])) = drop (Suc c) (w @ map f [0..<c])" by (simp only: drop_Suc tl_drop)
  moreover have "w @ map f [0..<Suc c] = (w @ map f [0..<c]) @ [f c]" by simp
  ultimately show ?thesis by (simp only:)
qed

lemma filters_step:
  assumes cpt: "has_phases (cpts (Suc k))" and ms: "\<forall>q<33. maf_window (ms ! q) \<noteq> []"
    and s: "sec_at cpts rd ms ps k s"
  shows "\<exists>ms'. (if 256 \<le> k mod 256 + 1 then do { ms \<leftarrow> update_mean_values rd (cpts (Suc k)) (sc_maf s); Some (0, ms) }
      else Some (k mod 256 + 1, sc_maf s)) = Some (Suc k mod 256, ms') \<and> length ms' = 33 \<and> list_all maf_ok ms' \<and>
    (\<forall>q<33. maf_window (ms' ! q) = drop (Suc k div 256) (maf_window (ms ! q) @
        map (\<lambda>c. field_of (cpts (256 * Suc c)) (q div 11) (q mod 11)) [0..<Suc k div 256]))"
proof (cases "256 \<le> k mod 256 + 1")
  case True
  have c: "Suc k mod 256 = 0" "Suc k div 256 = Suc (k div 256)" "Suc k = 256 * Suc (k div 256)"
    using counter_reset[OF _ True] by simp_all
  obtain ms' where ms': "update_mean_values rd (cpts (Suc k)) (sc_maf s) = Some ms'" "list_all maf_ok ms'" "length ms' = 33"
      "\<forall>q<33. slid (field_of (cpts (Suc k)) (q div 11) (q mod 11)) (sc_maf s ! q) (ms' ! q)"
    using update_mean_values_ok[OF cpt, of "sc_maf s" rd] s by (auto simp: sec_at_def)
  have "maf_window (ms' ! q) = drop (Suc k div 256) (maf_window (ms ! q) @
        map (\<lambda>c. field_of (cpts (256 * Suc c)) (q div 11) (q mod 11)) [0..<Suc k div 256])" if q: "q < 33" for q
    using ms'(4) q s slide_window[of "maf_window (ms ! q)" "k div 256" "\<lambda>c. field_of (cpts (256 * Suc c)) (q div 11) (q mod 11)"] ms
    unfolding slid_def sec_at_def c(2) c(3)[symmetric] by metis
  with True ms' c(1) show ?thesis by auto
next
  case False
  then show ?thesis using s counter_runs[OF False] by (auto simp: sec_at_def)
qed

lemma raws_step:
  assumes cpt: "has_phases (cpts (Suc k))" and k: "k < 15360" and s: "sec_at cpts rd ms ps k s"
  shows "\<exists>ps'. (if 384 \<le> k mod 384 + 1
      then do { ps \<leftarrow> update_raw_values rd (cpts (Suc k)) (36 * (k div 384)) (sc_params s); Some (0, ps, 36 * (k div 384) + 36) }
      else Some (k mod 384 + 1, sc_params s, 36 * (k div 384))) = Some (Suc k mod 384, ps', 36 * (Suc k div 384)) \<and> length ps' = 1440 \<and>
    (\<forall>q<1440. ps' ! q = (if q div 36 < Suc k div 384 \<and> q mod 12 < 11
        then fcvt rd SGL (field_of (cpts (384 * Suc (q div 36))) (q mod 36 div 12) (q mod 12)) else ps ! q))"
proof (cases "384 \<le> k mod 384 + 1")
  case True
  let ?r = "k div 384"
  have c: "Suc k mod 384 = 0" "Suc k div 384 = Suc ?r" "Suc k = 384 * Suc ?r"
    using counter_reset[OF _ True] by simp_all
  have "36 * ?r + 36 \<le> length (sc_params s)" using c(3) k s by (simp add: sec_at_def)
  from update_raw_values_ok[OF cpt this, of rd] obtain ps' where ps': "update_raw_values rd (cpts (Suc k)) (36 * ?r) (sc_params s) = Some ps'"
      "length ps' = 1440" "\<forall>q. ps' ! q = (if 36 * ?r \<le> q \<and> q < 36 * ?r + 36 \<and> (q - 36 * ?r) mod 12 < 11
         then fcvt rd SGL (field_of (cpts (Suc k)) ((q - 36 * ?r) div 12) ((q - 36 * ?r) mod 12)) else sc_params s ! q)"
    using s by (auto simp: sec_at_def)
  have "ps' ! q = (if q div 36 < Suc ?r \<and> q mod 12 < 11
      then fcvt rd SGL (field_of (cpts (384 * Suc (q div 36))) (q mod 36 div 12) (q mod 12)) else ps ! q)" if q: "q < 1440" for q
  proof (cases "q div 36 = ?r")
    case True
    then have e: "q - 36 * ?r = q mod 36" "36 * ?r \<le> q" "q < 36 * ?r + 36" "(q mod 36) mod 12 = q mod 12"
      using mult_div_mod_eq[of 36 q] by (auto simp: mod_mod_cancel)
    have g: "ps' ! q = (if q mod 12 < 11 then fcvt rd SGL (field_of (cpts (Suc k)) (q mod 36 div 12) (q mod 12)) else sc_params s ! q)"
      using ps'(3)[rule_format, of q] e by simp
    have "Suc k = 384 * Suc (q div 36)" unfolding True by (rule c(3))
    note g[unfolded this]
    moreover have "sc_params s ! q = ps ! q" using s q True by (simp add: sec_at_def)
    ultimately show ?thesis using True by simp
  next
    case False
    then have "\<not> (36 * ?r \<le> q \<and> q < 36 * ?r + 36)" by auto
    then have "ps' ! q = sc_params s ! q" using ps'(3)[rule_format, of q] by auto
    moreover have "q div 36 < Suc ?r \<longleftrightarrow> q div 36 < ?r" using False by linarith
    ultimately show ?thesis using s q by (simp add: sec_at_def)
  qed
  with True ps' c(1,2) show ?thesis by auto
next
  case False
  then show ?thesis using s counter_runs[OF False] by (auto simp: sec_at_def)
qed

context closed_arith
begin

lemma ready_phases: "ready me \<Longrightarrow> has_phases me"
  by (auto simp: ready_def phases_def has_phases_def)

lemma cpt_after_step:
  assumes "ready cpt" "\<forall>idx<15360. pac_G (pac_of rd ch mc idx)" "k \<le> 15360"
  shows "run_opt (CPT_Update rd) cpt (map (pac_of rd ch mc) [0..<k]) = Some (cpt_after rd ch mc cpt k) \<and> ready (cpt_after rd ch mc cpt k)"
proof -
  have "list_all pac_G (map (pac_of rd ch mc) [0..<k])" using assms(2,3) by (simp add: list_all_iff)
  from updates_ok[OF assms(1) this] show ?thesis by (auto simp: cpt_after_def)
qed

lemma sample_step_ok:
  assumes cpt: "ready cpt" and pacs: "\<forall>idx<15360. pac_G (pac_of rd ch mc idx)"
    and ch: "shape 8 15360 ch" "wired mc" and ms: "\<forall>q<33. maf_window (ms ! q) \<noteq> []"
    and k: "k < 15360" and s: "sec_at (cpt_after rd ch mc cpt) rd ms ps k s"
  shows "\<exists>s'. sample_step rd ch mc s k = Some s' \<and> sec_at (cpt_after rd ch mc cpt) rd ms ps (Suc k) s'"
proof -
  let ?c = "cpt_after rd ch mc cpt"
  have c: "CPT_Update rd (sc_cpt s) (pac_of rd ch mc k) = Some (?c (Suc k))" "has_phases (?c (Suc k))"
    using cpt_after_step[OF cpt pacs, of k] cpt_after_step[OF cpt pacs, of "Suc k"] k s ready_phases
    by (auto simp: sec_at_def run_opt_append split: option.splits)
  note f = filters_step[OF c(2) ms s] and r = raws_step[OF c(2) k s]
  have st: "sc_m s = k mod 256" "sc_n s = k mod 384" "sc_offset s = 36 * (k div 384)" using s by (simp_all add: sec_at_def)
  from f obtain ms' where ms': "(if 256 \<le> k mod 256 + 1 then do { ms \<leftarrow> update_mean_values rd (?c (Suc k)) (sc_maf s); Some (0, ms) }
      else Some (k mod 256 + 1, sc_maf s)) = Some (Suc k mod 256, ms')" "length ms' = 33" "list_all maf_ok ms'"
    "\<forall>q<33. maf_window (ms' ! q) = drop (Suc k div 256) (maf_window (ms ! q) @
        map (\<lambda>c. field_of (?c (256 * Suc c)) (q div 11) (q mod 11)) [0..<Suc k div 256])" by blast
  from r obtain ps' where ps': "(if 384 \<le> k mod 384 + 1
      then do { ps \<leftarrow> update_raw_values rd (?c (Suc k)) (36 * (k div 384)) (sc_params s); Some (0, ps, 36 * (k div 384) + 36) }
      else Some (k mod 384 + 1, sc_params s, 36 * (k div 384))) = Some (Suc k mod 384, ps', 36 * (Suc k div 384))" "length ps' = 1440"
    "\<forall>q<1440. ps' ! q = (if q div 36 < Suc k div 384 \<and> q mod 12 < 11
        then fcvt rd SGL (field_of (?c (384 * Suc (q div 36))) (q mod 36 div 12) (q mod 12)) else ps ! q)" by blast
  have n: "ENERGY_METER_SAMPLES_PER_CYCLE = 256" "RAW_PARAM_FREQ_COUNT = 384" "PARAMS_LEN = 36" by (simp_all add: sizes)
  have "sample_step rd ch mc s k = Some \<lparr>sc_cpt = ?c (Suc k), sc_maf = ms', sc_params = ps', sc_m = Suc k mod 256,
      sc_n = Suc k mod 384, sc_offset = 36 * (Suc k div 384)\<rparr>"
    unfolding sample_step_def st n Let_def by (simp only: read_pac_ok[OF ch k] c(1) ms'(1) ps'(1) bind.bind_lunit prod.case)
  then show ?thesis using ms'(2-4) ps'(2,3) by (simp add: sec_at_def)
qed

theorem second_ok:
  assumes cpt: "ready cpt" and pacs: "\<forall>idx<15360. pac_G (pac_of rd ch mc idx)"
    and ch: "shape 8 15360 ch" "wired mc" and ms: "length ms = 33" "list_all maf_ok ms" and ps: "length ps = 1440"
  shows "\<exists>s'. run_opt (sample_step rd ch mc) \<lparr>sc_cpt = cpt, sc_maf = ms, sc_params = ps, sc_m = 0, sc_n = 0, sc_offset = 0\<rparr>
      [0..<15360] = Some s' \<and> sec_at (cpt_after rd ch mc cpt) rd ms ps 15360 s'"
proof (rule run_opt_upt)
  have "cpt_after rd ch mc cpt 0 = cpt" by (simp add: cpt_after_def)
  then show "sec_at (cpt_after rd ch mc cpt) rd ms ps 0
      \<lparr>sc_cpt = cpt, sc_maf = ms, sc_params = ps, sc_m = 0, sc_n = 0, sc_offset = 0\<rparr>"
    using ms ps by (simp add: sec_at_def)
  have "\<forall>q<33. maf_window (ms ! q) \<noteq> []" using ms maf_window_nonempty by (simp add: list_all_length)
  from sample_step_ok[OF cpt pacs ch this] show "\<exists>s'. sample_step rd ch mc s k = Some s' \<and> sec_at (cpt_after rd ch mc cpt) rd ms ps (Suc k) s'"
    if "k < 15360" "sec_at (cpt_after rd ch mc cpt) rd ms ps k s" for k s
    using that by blast
qed

end

section \<open>The application's invariant\<close>

definition meter_ok :: "meter \<Rightarrow> bool" where
  "meter_ok st \<longleftrightarrow> acq_ready (mt_acq st) \<and> unat (ram_addr (mt_acq st) - mem_map (mt_acq st)) \<le> 2048 \<and>
     unat (mem_map (mt_acq st)) + 770048 < 2 ^ 32 \<and> wired (mt_core st) \<and> mc_fs (mt_core st) = 15360 \<and>
     ieee_all.ready (mt_cpt st) \<and> length (mt_maf st) = 33 \<and>
     list_all (\<lambda>m. maf_ok m \<and> length (maf_window m) = 60) (mt_maf st) \<and> length (mt_params st) = 1440"

lemma pacs_ieee: "wired mc \<Longrightarrow> \<forall>idx<15360. ieee_all.pac_G (pac_of rd ch mc idx)"
  by (simp add: ieee_all.pac_G_def pac_of_def wired_def list_all_iff)

lemma meter_second_core:
  assumes "meter_ok st"
  shows "\<exists>st' cpts. meter_measure ieee env st = Some st' \<and> meter_ok st' \<and> mt_cpt st' = cpts 15360 \<and>
    (\<forall>k\<le>15360. run_opt (CPT_Update ieee) (mt_cpt st) (map (pac_of ieee (ch_data (mt_acq st')) (mt_core st)) [0..<k]) = Some (cpts k)) \<and>
    (\<forall>i<3. \<forall>j<11. maf_window (mt_maf st' ! (11 * i + j)) = map (\<lambda>c. field_of (cpts (256 * (c + 1))) i j) [0..<60]) \<and>
    (\<forall>r<40. \<forall>i<3. \<forall>j<11. mt_params st' ! (36 * r + 12 * i + j) = fcvt ieee SGL (field_of (cpts (384 * (r + 1))) i j))"
proof -
  let ?mc = "mt_core st"
  have st: "acq_ready (mt_acq st)" "unat (ram_addr (mt_acq st) - mem_map (mt_acq st)) \<le> 2048"
      "unat (mem_map (mt_acq st)) + 770048 < 2 ^ 32" "wired ?mc" "mc_fs ?mc = 15360" "ieee_all.ready (mt_cpt st)"
      "length (mt_maf st) = 33" "list_all maf_ok (mt_maf st)" "\<forall>q<33. length (maf_window (mt_maf st ! q)) = 60"
      "length (mt_params st) = 1440"
    using assms by (auto simp: meter_ok_def list_all_length)
  obtain a n where a: "AnalogCore_GetSamples ieee (acq_of env) (mt_acq st) = Some (a, n)" "acq_ready a"
      "mem_map a = mem_map (mt_acq st)" "ram_addr a = ram_addr (mt_acq st)"
    using get_samples_ok[OF st(1-3), of ieee "acq_of env"] get_samples_frame by blast
  obtain ch where ch: "MetrologyCore_Scale ieee ?mc (ch_data a) = Some ch" "shape 8 15360 ch"
    using scale_shape[of "ch_data a" ?mc ieee] a(2) st(4,5) by (auto simp: acq_ready_def wired_def)
  let ?c = "cpt_after ieee ch ?mc (mt_cpt st)"
  note pacs = pacs_ieee[OF st(4), of ieee ch]
  obtain s where s: "run_opt (sample_step ieee ch ?mc) \<lparr>sc_cpt = mt_cpt st, sc_maf = mt_maf st, sc_params = mt_params st,
      sc_m = 0, sc_n = 0, sc_offset = 0\<rparr> [0..<15360] = Some s" "sec_at ?c ieee (mt_maf st) (mt_params st) 15360 s"
    using ieee_all.second_ok[OF st(6) pacs ch(2) st(4,7,8,10)] by blast
  have run: "run_opt (CPT_Update ieee) (mt_cpt st) (map (pac_of ieee ch ?mc) [0..<k]) = Some (?c k) \<and> ieee_all.ready (?c k)"
    if "k \<le> 15360" for k using ieee_all.cpt_after_step[OF st(6) pacs that] .
  have win: "maf_window (sc_maf s ! q) = map (\<lambda>c. field_of (?c (256 * Suc c)) (q div 11) (q mod 11)) [0..<60]" if "q < 33" for q
    using s(2) st(9) that by (simp add: sec_at_def del: upt_rec_numeral)
  have raw: "sc_params s ! (36 * r + 12 * i + j) = fcvt ieee SGL (field_of (?c (384 * Suc r)) i j)"
    if "r < 40" "i < 3" "j < 11" for r i j
  proof -
    let ?q = "36 * r + 12 * i + j"
    have m36: "(36 * r + (12 * i + j)) mod 36 = 12 * i + j" and m12: "(12 * (3 * r + i) + j) mod 12 = j"
      unfolding mod_mult_self4 using that by simp_all
    have q: "?q = 36 * r + (12 * i + j)" "?q = 12 * (3 * r + i) + j" by simp_all
    have "?q mod 12 = j" unfolding q(2) by (rule m12)
    moreover have "?q mod 36 = 12 * i + j" unfolding q(1) by (rule m36)
    moreover have "?q div 36 = r" "(12 * i + j) div 12 = i" "?q < 1440" using that by simp_all
    ultimately show ?thesis using s(2) that by (simp add: sec_at_def)
  qed
  let ?st = "st\<lparr>mt_acq := a\<lparr>ch_data := ch\<rparr>, mt_cpt := sc_cpt s, mt_maf := sc_maf s, mt_params := sc_params s,
      mt_lost := (if 1 < n - mt_lastEventN st \<and> mt_lastEventN st \<noteq> 0 then mt_lost st + 1 else mt_lost st)\<rparr>"
  have "meter_measure ieee env st = Some ?st"
    using a(1) ch(1) s(1) by (simp add: meter_measure_def ENERGY_METER_SAMPLE_RATE_def Let_def del: upt_rec_numeral)
  moreover have "meter_ok ?st"
    using st(2-5) a(2-4) ch(2) s(2) run[of 15360] win
    by (auto simp: meter_ok_def acq_ready_def sec_at_def list_all_length simp del: upt_rec_numeral)
  ultimately show ?thesis
    using run raw win s(2) by (intro exI[of _ ?st] exI[of _ ?c]) (auto simp: sec_at_def simp del: upt_rec_numeral)
qed

text \<open>
  C8. One second of the meter, end to end. In a sound state the measurements of a second (fetching the packets, scaling,
  15360 updates of the power theory engine, 60 updates of each of the 33 averages and 40 rows of raw values) make no
  access outside an array, and leave a sound state in which the filter of attribute j of phase i holds exactly that
  attribute's values after each of the 60 cycles of this second, and the row r of the raw values holds, in single precision, the
  attributes after 384 (r + 1) samples.
\<close>

theorem meter_second_values:
  assumes "meter_ok st"
  shows "\<exists>st' cpts. meter_measure ieee env st = Some st' \<and> meter_ok st' \<and> mt_cpt st' = cpts 15360 \<and>
    (\<forall>k\<le>15360. run_opt (CPT_Update ieee) (mt_cpt st) (map (pac_of ieee (ch_data (mt_acq st')) (mt_core st)) [0..<k]) = Some (cpts k)) \<and>
    (\<forall>i<3. \<forall>j<11. maf_window (mt_maf st' ! (11 * i + j)) = map (\<lambda>c. field_of (cpts (256 * (c + 1))) i j) [0..<60]) \<and>
    (\<forall>r<40. \<forall>i<3. \<forall>j<11. mt_params st' ! (36 * r + 12 * i + j) = fcvt ieee SGL (field_of (cpts (384 * (r + 1))) i j))"
  using assms by (rule meter_second_core)

definition quiet_meter :: meter where
  "quiet_meter = \<lparr>mt_acq = idle_acq, mt_channels = [0..<8], mt_core = meter_setup,
     mt_cpt = fst (the (CPT_Config ieee whole_env blank_cpt 15360 256 3)),
     mt_maf = replicate 33 (the (maf_init \<lparr>Data = replicate 60 FNaN, Length = 60\<rparr> 0 fzero fzero)),
     mt_params = replicate 1440 fzero, mt_log = [], mt_sent = [], mt_lost = 0, mt_lastEventN = 0\<rparr>"

lemma quiet_meter_ok: "meter_ok quiet_meter"
proof -
  obtain me' where me': "CPT_Config ieee whole_env blank_cpt 15360 256 3 = Some (me', 0)" "ieee_all.ready me'"
    using ieee_all.config_ready[of whole_env blank_cpt 256 15360] by auto
  obtain m where m: "maf_init \<lparr>Data = replicate 60 FNaN, Length = 60\<rparr> 0 fzero fzero = Some m" "maf_ok m"
      "maf_window m = replicate 60 fzero"
    using maf_init_ok[of "\<lparr>Data = replicate 60 FNaN, Length = 60\<rparr>" 0 fzero fzero] by auto
  have r: "list_all P (replicate k x)" if "P x" for P k and x :: tMAF using that by (induction k) simp_all
  have "wired meter_setup" "mc_fs meter_setup = 15360" by (simp_all add: wired_def meter_setup_def meter_channel_def)
  then show ?thesis
    using me' m idle_acq_ready by (simp add: meter_ok_def quiet_meter_def r del: replicate.simps) (simp add: idle_acq_def)
qed

definition quiet_env :: main_env where
  "quiet_env = \<lparr>acq_of = still_env, heap_of = whole_env, is_root = True, sched_ok = True, mlock_ok = True, unmap_ok = True,
     dft_block = (\<lambda>_. None), maf_block = (\<lambda>_. None), socket_ok = True, connect_ok = True, log_open = (\<lambda>_. True),
     nan_text = ''nan'', cosine = (\<lambda>x. x), map_junk = 0\<rparr>"

theorem meter_second_values_witness:
  "\<exists>st' cpts. meter_measure ieee quiet_env quiet_meter = Some st' \<and> meter_ok st' \<and> mt_cpt st' = cpts 15360 \<and>
    (\<forall>k\<le>15360. run_opt (CPT_Update ieee) (mt_cpt quiet_meter) (map (pac_of ieee (ch_data (mt_acq st')) (mt_core quiet_meter)) [0..<k]) = Some (cpts k)) \<and>
    (\<forall>i<3. \<forall>j<11. maf_window (mt_maf st' ! (11 * i + j)) = map (\<lambda>c. field_of (cpts (256 * (c + 1))) i j) [0..<60]) \<and>
    (\<forall>r<40. \<forall>i<3. \<forall>j<11. mt_params st' ! (36 * r + 12 * i + j) = fcvt ieee SGL (field_of (cpts (384 * (r + 1))) i j))"
  by (rule meter_second_values[OF quiet_meter_ok])

section \<open>The message\<close>

lemma dec_length: "0 < d \<Longrightarrow> n < 10 ^ d \<Longrightarrow> length (dec n) \<le> d"
proof (induction n arbitrary: d rule: dec.induct)
  case (1 n)
  show ?case
  proof (cases "n < 10")
    case True
    then show ?thesis using 1(2) by (simp add: dec.simps)
  next
    case False
    obtain e where d: "d = Suc e" using 1(2) by (cases d) auto
    with False 1(3) have e: "d = Suc e" "0 < e" by (cases e; simp)+
    then have "n div 10 < 10 ^ e" using 1(3) by (simp add: less_mult_imp_div_less mult.commute)
    from 1(1)[OF False e(2) this] False e show ?thesis by (simp add: dec.simps[of n])
  qed
qed

lemma fmt2_length:
  assumes "is_fin x \<longrightarrow> \<bar>valof x\<bar> < 10 ^ 17" "length nan \<le> 22"
  shows "length (fmt2 nan x) \<le> 22"
proof (cases "is_fin x")
  case True
  then have "\<bar>valof x\<bar> * 100 \<le> of_int (10 ^ 19)" using assms(1) by simp
  then have "rhe (\<bar>valof x\<bar> * 100) \<le> 10 ^ 19" 
    using rhe_mono[of "\<bar>valof x\<bar> * 100" "of_int (10 ^ 19)"] unfolding rhe_of_int by blast
  then have "nat (rhe (\<bar>valof x\<bar> * 100)) \<le> 10 ^ 19" by simp
  then have "length (dec (nat (rhe (\<bar>valof x\<bar> * 100)) div 100)) \<le> 18" by (intro dec_length) simp_all
  with True show ?thesis by (cases x) (auto simp: fmt2_def Let_def)
next
  case False
  then show ?thesis using assms(2) by (cases x) (auto simp: fmt2_def)
qed

definition field_text :: "string \<Rightarrow> tMAF list \<Rightarrow> nat \<times> e_attributes \<Rightarrow> string" where
  "field_text nan ms = (\<lambda>(i, a). param_name_format a @ [phase_letter ! i] @ '':'' @ fmt2 nan (MeanValue (ms ! (11 * i + attr_num a))))"

lemma phase_lookup: "i < 3 \<Longrightarrow> rd_at phase_order (int i) = Some (int i) \<and> rd_at phase_letter (int i) = Some (phase_letter ! i)"
  by (auto simp: phase_order_def phase_letter_def rd_at_def less_Suc_eq numeral_3_eq_3)

lemma send_fields_ok:
  assumes ms: "length ms = 33"
  shows "\<forall>f \<in> set fs. fst f < 3 \<Longrightarrow> length msg + sum_list (map (\<lambda>f. length (field_text nan ms f) + 1) fs) \<le> 1000 \<Longrightarrow>
    send_fields nan ms fs msg = Some (msg @ concat (map (\<lambda>f. field_text nan ms f @ '','') fs))"
proof (induction fs arbitrary: msg)
  case (Cons f fs)
  obtain i a where f: "f = (i, a)" by (cases f)
  then have i: "i < 3" using Cons.prems(1) by simp
  have "attr_num a + i * 11 < 33" using i attr_num_lt[of a] by linarith
  then have m: "rd_at ms (int (attr_num a + i * 11)) = Some (ms ! (11 * i + attr_num a))"
    using ms by (simp add: add.commute mult.commute del: of_nat_add of_nat_mult)
  have "put msg (field_text nan ms (i, a)) = Some (msg @ field_text nan ms (i, a))"
    using Cons.prems(2) f by (simp add: put_def MESSAGE_SIZE_def)
  moreover have "send_fields nan ms fs ((msg @ field_text nan ms (i, a)) @ '','') =
      Some (((msg @ field_text nan ms (i, a)) @ '','') @ concat (map (\<lambda>f. field_text nan ms f @ '','') fs))"
    using Cons.prems f by (intro Cons.IH) simp_all
  ultimately show ?case
    using phase_lookup[OF i] m by (simp add: f ATTR_MAX_def field_text_def del: of_nat_add of_nat_mult)
qed simp

text \<open>
  C34. The message. When the text of a NaN has at most 22 characters and every finite average is below 10^17 in magnitude, the 33 fields
  fit the static buffer of 1000 characters whatever the averages are: \<open>send_data\<close> writes nothing outside it, and the text is the
  header followed by every attribute of every phase with its name, the phase's letter and the average in hundredths, separated by commas.
\<close>

theorem send_data_fits:
  assumes "length ms = 33" and "\<forall>m \<in> set ms. is_fin (MeanValue m) \<longrightarrow> \<bar>valof (MeanValue m)\<bar> < 10 ^ 17" and "length nan \<le> 22"
  shows "\<exists>msg. send_data nan ms = Some msg \<and> length msg < 1000 \<and>
    msg @ '','' = ''$bbb:1,'' @ concat (map (\<lambda>f. field_text nan ms f @ '','') (List.product [0..<3] attributes))"
proof -
  let ?fs = "List.product [0..<3] attributes"
  let ?body = "concat (map (\<lambda>f. field_text nan ms f @ '','') ?fs)"
  have b: "length (fmt2 nan (MeanValue (ms ! q))) \<le> 22" if "q < 33" for q
    using assms that by (intro fmt2_length) auto
  have "sum_list (map (\<lambda>f. length (field_text nan ms f) + 1) ?fs) \<le>
      sum_list (map (\<lambda>f. length (param_name_format (snd f)) + 25) ?fs)"
  proof (rule sum_list_mono)
    fix f assume f: "f \<in> set ?fs"
    obtain i a where ia: "f = (i, a)" by (cases f)
    then have "11 * i + attr_num a < 33" using f attr_num_lt[of a] by auto
    from b[OF this] ia show "length (field_text nan ms f) + 1 \<le> length (param_name_format (snd f)) + 25"
      by (simp add: field_text_def)
  qed
  also have "\<dots> = 975" by (simp add: attributes_def upt_rec)
  finally have len: "sum_list (map (\<lambda>f. length (field_text nan ms f) + 1) ?fs) \<le> 975" .
  have sf: "send_fields nan ms ?fs ''$bbb:1,'' = Some (''$bbb:1,'' @ ?body)"
    using len by (intro send_fields_ok[OF assms(1)]) auto
  have "length ?body = sum_list (map (\<lambda>f. length (field_text nan ms f) + 1) ?fs)"
    by (simp add: length_concat comp_def)
  moreover have "?fs \<noteq> []" by (simp add: attributes_def upt_rec)
  then obtain x where x: "''$bbb:1,'' @ ?body = x @ '',''" by (cases ?fs rule: rev_cases) auto
  moreover have "7 + length ?body = length x + 1" using arg_cong[OF x, of length] by (simp del: length_concat)
  ultimately have "length x < 1000" using len by linarith
  moreover have "send_data nan ms = Some x"
    using sf x by (simp add: send_data_def put_def MESSAGE_SIZE_def APP_PHASES_def)
  ultimately show ?thesis using x by auto
qed

theorem send_data_fits_witness:
  "\<exists>msg. send_data ''-nan'' (mt_maf quiet_meter) = Some msg \<and> length msg < 1000 \<and>
    msg @ '','' = ''$bbb:1,'' @ concat (map (\<lambda>f. field_text ''-nan'' (mt_maf quiet_meter) f @ '','') (List.product [0..<3] attributes))"
  by (rule send_data_fits) (simp_all add: quiet_meter_def maf_init_zero)

lemma bind_Some: "Option.bind x f = Some y \<longleftrightarrow> (\<exists>z. x = Some z \<and> f z = Some y)"
  by (cases x) auto

end
