(* ===== verification/Meter_Start.thy ===== *)
theory Meter_Start
  imports Meter_Props
begin

text \<open>
  Start-up of the application establishes its invariant: what the driver, the shared RAM, the metrology core, the power theory
  engine and the averages are set up to, composed along \<open>main\<close>.
\<close>

section \<open>The driver keeps its table of descriptors\<close>

abbreviation fds :: "pru_sys \<Rightarrow> nat" where "fds s \<equiv> length (fd (drv s))"

lemma store_drv [simp]: "drv (store a v s) = drv s"
  by (simp add: store_def)

lemma set_phys_bases_fd [simp]: "fd (set_phys_bases d) = fd d"
  by (simp add: set_phys_bases_def)

lemma set_virt_bases_fd [simp]: "fd (set_virt_bases d) = fd d"
  by (simp add: set_virt_bases_def Let_def)

lemma memmap_init_fds: "memmap_init os s = Some (s', r) \<Longrightarrow> fds s' = fds s"
  unfolding memmap_init_def Let_def
  by (simp split: option.split_asm if_split_asm) auto

lemma open_fds: "prussdrv_open os h s = Some (s', r) \<Longrightarrow> fds s' = fds s"
  by (auto simp: prussdrv_open_def Let_def bind_Some dest: memmap_init_fds split: if_splits)

lemma map_channels_drv: "map_channels m s = Some s' \<Longrightarrow> drv s' = drv s"
  by (induction m s rule: map_channels.induct) (auto simp: set_cmr_def Let_def split: if_splits)

lemma map_hosts_drv: "map_hosts m s = Some s' \<Longrightarrow> drv s' = drv s"
  by (induction m s rule: map_hosts.induct) (auto simp: set_hmr_def Let_def split: if_splits)

lemma enable_hosts_drv [simp]: "drv (enable_hosts m i n s) = drv s"
  by (induction n arbitrary: i s) auto

lemma pruintc_init_fds: "prussdrv_pruintc_init d s = Some (s', r) \<Longrightarrow> fds s' = fds s"
  by (auto simp: prussdrv_pruintc_init_def Let_def bind_Some dest!: map_channels_drv map_hosts_drv split: option.splits prod.splits)

lemma copy_words_drv: "copy_words b ws i n s = Some s' \<Longrightarrow> drv s' = drv s"
  by (induction n arbitrary: i s) (auto simp: bind_Some)

lemma exec_program_fds: "prussdrv_exec_program os buf n f s = Some (s', r) \<Longrightarrow> fds s' = fds s"
  by (auto simp: prussdrv_exec_program_def prussdrv_exec_program_at_def prussdrv_exec_code_at_def prussdrv_pru_disable_def
      prussdrv_pru_enable_at_def prussdrv_pru_write_memory_def control_base_def Let_def bind_Some dest!: copy_words_drv
      split: option.splits if_splits prod.splits)

lemma pru_setup_fds: "pru_setup os s = Some (s', 0) \<Longrightarrow> fds s' = 8"
  by (auto simp: pru_setup_def Let_def bind_Some prussdrv_init_def prussdrv_zero_def NUM_PRU_HOSTIRQS_def
      dest!: open_fds pruintc_init_fds split: if_splits)

lemma daq_setup_fds: "DAQ_Setup env junk a s = Some (s', 0) \<Longrightarrow> fds s' = 8"
  by (auto simp: DAQ_Setup_def pru_start_def Let_def bind_Some dest!: pru_setup_fds exec_program_fds split: if_splits)

lemma analog_setup_ready:
  "AnalogCore_Setup env junk (Some []) a = Some (a', ch, 0) \<Longrightarrow> shape 8 15360 (ch_data a) \<Longrightarrow>
    acq_ready a' \<and> mem_map a' = mem_map a \<and> ram_addr a' = ram_addr a \<and> ch = Some [0..<8]"
  by (auto simp: AnalogCore_Setup_def acq_ready_def bind_Some AN_CHANNELS_def dest!: daq_setup_fds)

section \<open>The averages\<close>

lemma start_maf:
  assumes "length d = 60" and "maf_init \<lparr>Data = d, Length = 60\<rparr> 0 fzero fzero = Some m"
  shows "maf_ok m \<and> length (maf_window m) = 60"
proof -
  have "m = \<lparr>MeanValue = fzero, Accumulator = fzero, Head = 0, Threshold_Enabled = 0, Threshold_Value = fzero, Min = fzero,
      Buffer = \<lparr>Data = replicate 60 fzero, Length = 60\<rparr>\<rparr>"
    using maf_init_zero[of "\<lparr>Data = d, Length = 60\<rparr>" 0 fzero fzero] assms by simp
  then show ?thesis by (simp add: maf_ok_def maf_window_def)
qed

lemma start_mafs_ok:
  "start_mafs blk i n = Some (Some ms) \<Longrightarrow> length ms = n \<and> list_all (\<lambda>m. maf_ok m \<and> length (maf_window m) = 60) ms"
proof (induction n arbitrary: i ms)
  case (Suc n)
  from Suc.prems obtain f where b: "blk i = Some f" by (simp split: option.splits)
  let ?d = "map f [0..<60]"
  from Suc.prems b obtain m ms' where f: "start_mafs blk (i + 1) n = Some (Some ms')" "ms = m # ms'"
      "maf_init \<lparr>Data = ?d, Length = 60\<rparr> 0 fzero fzero = Some m"
    by (auto simp: bind_Some ENERGY_METER_FREQ_def simp del: upt_rec_numeral)
  have "length ?d = 60" by simp
  from start_maf[OF this f(3)] have "maf_ok m \<and> length (maf_window m) = 60" .
  with Suc.IH[OF f(1)] f(2) show ?case by simp
qed simp

section \<open>Start-up\<close>

lemma start_sound:
  assumes start: "meter_start ieee env cpt0 core0 a = Some (Inr st)"
    and mem: "\<And>k. mal (heap_of env) k" "length (Phase cpt0) = 3" "shape 8 15360 (ch_data a)"
    and pool: "\<And>k p. sysfs (hostos (acq_of env)) k ''/sys/class/uio/uio0/maps/map1/addr'' = Some p \<Longrightarrow> unat (p AND 0xFFF) \<le> 2048"
    and room: "\<And>k n f o'. unat (os_mmap (hostos (acq_of env)) k n f o') + 770048 < 2 ^ 32"
  shows "meter_ok st \<and> map fsamples (VChannels (mt_core st)) = [2, 1, 0] \<and> map fsamples (IChannels (mt_core st)) = [3, 6, 7]"
proof -
  obtain a1 m a2 ch vs is' cpt ms where s: "AnalogCore_Init (acq_of env) a = Some (a1, 0)"
      "MetrologyCore_Init ieee (cosine env) (dft_block env) (Some core0) 256 15360 60 = Some (Some m, 0)"
      "AnalogCore_Setup (acq_of env) (map_junk env) (Some []) a1 = Some (a2, Some ch, 0)"
      "wire ch [2, 1, 0] (VChannels m) = Some vs" "wire ch [3, 6, 7] (IChannels m) = Some is'"
      "CPT_Config ieee (heap_of env) cpt0 15360 256 3 = Some (cpt, 0)" "start_mafs (maf_block env) 0 33 = Some (Some ms)"
      "mt_acq st = a2" "mt_core st = m\<lparr>VChannels := vs, IChannels := is'\<rparr>" "mt_cpt st = cpt" "mt_maf st = ms"
      "mt_params st = replicate 1440 fzero"
    using start
    by (auto simp: meter_start_def bind_Some exit_failure_def exit_failure_ram_def exit_failure_pru_def sizes
      MetrologyCore_Init_def Let_def split: if_splits prod.splits option.splits)
  have a1: "shape 8 15360 (ch_data a1)" "unat (ram_addr a1 - mem_map a1) \<le> 2048" "unat (mem_map a1) + 770048 < 2 ^ 32"
    using s(1) mem(3) pool room
    by (auto simp: AnalogCore_Init_def Allocate_RAM_def getMemInfo_def bind_Some Let_def PAGE_MASK_def split: if_splits)
  have a2: "acq_ready a2" "mem_map a2 = mem_map a1" "ram_addr a2 = ram_addr a1" "ch = [0..<8]"
    using analog_setup_ready[OF s(3) a1(1)] by auto
  have fs: "mc_fs m = 15360" using s(2) by (auto simp: MetrologyCore_Init_def Let_def bind_Some split: if_splits prod.splits)
  have v: "map fsamples vs = [2, 1, 0]" "map fsamples is' = [3, 6, 7]"
    using s(4,5) a2(4) by (auto simp: wire_def length_Suc_conv split: if_splits)
  have "length vs = 3" "length is' = 3" using v[THEN arg_cong, of length] by simp_all
  moreover have "\<forall>c\<in>set (vs @ is'). fsamples c < 8"
  proof -
    have "\<forall>r\<in>set (map fsamples vs @ map fsamples is'). r < 8" unfolding v by simp
    then show ?thesis by (auto simp: ball_Un)
  qed
  moreover have "distinct (map fsamples (vs @ is'))" unfolding map_append v by simp
  ultimately have "wired (mt_core st)" by (simp add: wired_def s(9))
  moreover have "ieee_all.ready cpt"
    using ieee_all.config_ready[of "heap_of env" cpt0 256 15360] mem s(6) by auto
  ultimately show ?thesis
    using a1 a2 fs v start_mafs_ok[OF s(7)] by (simp add: meter_ok_def s(8-12))
qed

section \<open>Start-up succeeds\<close>

text \<open>The platform the application is written for: the driver's system, the memory pool and the two firmware files.\<close>

definition firmware :: "os_env \<Rightarrow> string \<Rightarrow> bool" where
  "firmware os f \<longleftrightarrow> (\<forall>k. \<exists>n bytes. os_file os k f = Some (n, bytes) \<and> 0 < n \<and> n \<le> 8192 \<and> n \<le> length bytes)"

definition memory_pool :: "os_env \<Rightarrow> bool" where
  "memory_pool os \<longleftrightarrow>
     (\<forall>k. \<exists>p. sysfs os k ''/sys/class/uio/uio0/maps/map1/addr'' = Some p \<and> unat (p AND 0xFFF) \<le> 2048) \<and>
     (\<forall>k. \<exists>z. sysfs os k ''/sys/class/uio/uio0/maps/map1/size'' = Some z \<and> 768000 \<le> unat z) \<and>
     (\<forall>k n f q. unat (os_mmap os k n f q) + 770048 < 2 ^ 32)"

definition platform :: "main_env \<Rightarrow> u32 \<Rightarrow> pru_sys \<Rightarrow> bool" where
  "platform env b s \<longleftrightarrow>
     (let os = hostos (acq_of env) in
      is_root env \<and> sched_ok env \<and> mlock_ok env \<and> socket_ok env \<and> connect_ok env \<and>
      (\<forall>k. mal (heap_of env) k) \<and> (\<exists>blk. dft_block env 256 = Some blk \<and> length blk = 256) \<and> (\<forall>i. maf_block env i \<noteq> None) \<and>
      am33_system os b s \<and> memory_pool os \<and> (\<forall>k. devmem_open (acq_of env) k \<noteq> -1) \<and> length (stack_buf (acq_of env)) = 8192 \<and>
      firmware os ''pru/ads131e08s_pru0.bin'' \<and> firmware os ''pru/ads131e08s_pru1.bin'')"

lemma exec_firmware:
  assumes "firmware os f" "length buf = 8192" "n = 0 \<or> n = 1"
  shows "\<exists>s'. prussdrv_exec_program os buf n f s = Some (s', 0)"
proof -
  obtain k bytes where f: "os_file os (os_k s) f = Some (k, bytes)" "0 < k" "k \<le> 8192" "k \<le> length bytes"
    using assms(1) unfolding firmware_def by blast
  let ?ws = "le_words (fill_buffer buf (take k bytes))"
  have "length ?ws = 2048" using f assms(2) by (simp add: le_words_length fill_buffer_def)
  moreover have "(k + 3) div 4 \<le> 2048" using f by linarith
  ultimately have "unat (drop_bit 2 (of_nat k + 3 :: u32)) \<le> length ?ws" using program_words[OF f(2,3)] by simp
  from exec_code_stores'[OF assms(3) this, of 0 "tick s"] show ?thesis
    using f assms(2) by (auto simp: prussdrv_exec_program_def prussdrv_exec_program_at_def Let_def PRUSS_MAX_IRAM_SIZE_def)
qed

lemma daq_setup_runs:
  assumes "am33_system os b s" "firmware os ''pru/ads131e08s_pru0.bin''" "firmware os ''pru/ads131e08s_pru1.bin''"
    and "hostos env = os" "length (stack_buf env) = 8192"
  shows "\<exists>s'. DAQ_Setup env junk p s = Some (s', 0)"
proof -
  obtain s1 where s1: "pru_setup os s = Some (s1, 0)" using pru_setup_runs[OF assms(1)] by blast
  let ?s = "store (fst (pru_mmap junk 0 s1)) p s1"
  obtain s2 where s2: "prussdrv_exec_program os (stack_buf env) 0 ''pru/ads131e08s_pru0.bin'' ?s = Some (s2, 0)"
    using exec_firmware[OF assms(2,5)] by blast
  obtain s3 where s3: "prussdrv_exec_program os (stack_buf env) 1 ''pru/ads131e08s_pru1.bin'' s2 = Some (s3, 0)"
    using exec_firmware[OF assms(3,5)] by blast
  from s1 s2 s3 assms(4) show ?thesis by (simp add: DAQ_Setup_def pru_start_def Let_def)
qed

lemma gz_coeffs_runs:
  "0 \<le> j \<Longrightarrow> nat j + n \<le> length (coeff g) \<Longrightarrow> \<exists>g'. gz_coeffs rd cs g j n = Some g'"
proof (induction n arbitrary: j g)
  case (Suc n)
  let ?g = "g\<lparr>coeff := (coeff g)[nat j := gz_coeff rd cs g j]\<rparr>"
  obtain g' where "gz_coeffs rd cs ?g (j + 1) n = Some g'" using Suc.IH[of "j + 1" ?g] Suc.prems by (auto simp: nat_add_distrib)
  then show ?case using Suc.prems by (simp add: wr_at_def)
qed simp

lemma start_mafs_runs: "(\<And>i. blk i \<noteq> None) \<Longrightarrow> \<exists>ms. start_mafs blk i n = Some (Some ms)"
proof (induction n arbitrary: i)
  case (Suc n)
  obtain f where f: "blk i = Some f" using Suc.prems[of i] by blast
  obtain ms where ms: "start_mafs blk (i + 1) n = Some (Some ms)" using Suc by blast
  have "maf_init \<lparr>Data = map f [0..<60], Length = 60\<rparr> 0 fzero fzero = Some m \<Longrightarrow> ?case" for m
    using f ms by (simp add: ENERGY_METER_FREQ_def del: upt_rec_numeral)
  then show ?case using maf_init_zero[of "\<lparr>Data = map f [0..<60], Length = 60\<rparr>" 0 fzero fzero] by (simp del: upt_rec_numeral)
qed simp

lemma core_init_runs:
  assumes "alloc 256 = Some blk" "length blk = 256"
  shows "\<exists>g. MetrologyCore_Init ieee cs alloc (Some m) 256 15360 60 =
    Some (Some (m\<lparr>mc_goertzel := g, mc_Points := 256, mc_fs := 15360, mc_F := 60\<rparr>), 0)"
proof -
  let ?g = "(mc_goertzel m)\<lparr>Points := 256, Fsample := f_of_int ieee SGL 15360, Fdtm := f_of_int ieee SGL 60, coeff := blk\<rparr>"
  obtain g where "gz_coeffs ieee cs ?g 0 256 = Some g" using gz_coeffs_runs[of 0 256 ?g] assms(2) by auto
  then show ?thesis
    using assms(1) by (simp add: MetrologyCore_Init_def Goertzel_Init_def gz_floats_def Goertzel_EvaluateCoefficients_def Let_def)
      (rule exI[of _ g], rule refl)
qed

lemma analog_init_runs:
  assumes "memory_pool (hostos e)" "\<forall>k. devmem_open e k \<noteq> -1"
  shows "\<exists>a1. AnalogCore_Init e a = Some (a1, 0) \<and> ch_data a1 = ch_data a \<and> drv (sys a1) = drv (sys a) \<and> pmem (sys a1) = pmem (sys a)"
proof -
  obtain p where p: "sysfs (hostos e) (os_k (sys a)) ''/sys/class/uio/uio0/maps/map1/addr'' = Some p"
    using assms(1) unfolding memory_pool_def by blast
  obtain z where z: "sysfs (hostos e) (Suc (os_k (sys a))) ''/sys/class/uio/uio0/maps/map1/size'' = Some z" "768000 \<le> unat z"
    using assms(1) unfolding memory_pool_def by blast
  have "\<not> z < 768000" using z(2) by (simp add: word_less_nat_alt)
  moreover have "os_mmap (hostos e) k n f q \<noteq> -1" for k n f q
  proof
    assume m: "os_mmap (hostos e) k n f q = -1"
    have "unat (os_mmap (hostos e) k n f q) + 770048 < 2 ^ 32" using assms(1) by (simp add: memory_pool_def)
    then show False unfolding m by (simp add: unsigned_minus_1_eq_mask mask_eq_exp_minus_1)
  qed
  ultimately show ?thesis
    using p z(1) assms(2) by (simp add: AnalogCore_Init_def Allocate_RAM_def getMemInfo_def buffer_sizes PRU_BUFFER_SIZE_def Let_def)
qed

lemma measure_seconds:
  "meter_ok st \<Longrightarrow> \<exists>st'. run_opt (\<lambda>st _. meter_measure ieee env st) st (replicate n ()) = Some st' \<and> meter_ok st'"
proof (induction n arbitrary: st)
  case (Suc n)
  then obtain st1 where "meter_measure ieee env st = Some st1" "meter_ok st1" using meter_second_core by blast
  with Suc.IH show ?case by simp
qed simp

text \<open>The steps of a start-up on the platform, up to the socket.\<close>

lemma start_steps:
  assumes "platform env b (sys a)" "length (Phase cpt0) = 3"
  obtains a1 a2 g cpt ms where "AnalogCore_Init (acq_of env) a = Some (a1, 0)"
    "MetrologyCore_Init ieee (cosine env) (dft_block env) (Some core0) 256 15360 60 =
      Some (Some (core0\<lparr>mc_goertzel := g, mc_Points := 256, mc_fs := 15360, mc_F := 60\<rparr>), 0)"
    "AnalogCore_Setup (acq_of env) (map_junk env) (Some []) a1 = Some (a2, Some [0..<8], 0)"
    "CPT_Config ieee (heap_of env) cpt0 15360 256 3 = Some (cpt, 0)" "start_mafs (maf_block env) 0 33 = Some (Some ms)"
proof -
  let ?e = "acq_of env"
  have env: "\<And>k. mal (heap_of env) k"
      "\<And>i. maf_block env i \<noteq> None" "am33_system (hostos ?e) b (sys a)" "memory_pool (hostos ?e)" "\<forall>k. devmem_open ?e k \<noteq> -1"
      "length (stack_buf ?e) = 8192" "firmware (hostos ?e) ''pru/ads131e08s_pru0.bin''" "firmware (hostos ?e) ''pru/ads131e08s_pru1.bin''"
    using assms(1) by (simp_all add: platform_def Let_def)
  obtain blk where blk: "dft_block env 256 = Some blk" "length blk = 256" using assms(1) by (auto simp: platform_def Let_def)
  obtain a1 where a1: "AnalogCore_Init ?e a = Some (a1, 0)" "pmem (sys a1) = pmem (sys a)"
    using analog_init_runs[OF env(4,5)] by blast
  have "am33_system (hostos ?e) b (sys a1)" using env(3) a1(2) by (simp add: am33_system_def)
  from daq_setup_runs[OF this env(7,8) refl env(6), of "map_junk env" "addr a1"]
  obtain a2 where a2: "AnalogCore_Setup ?e (map_junk env) (Some []) a1 = Some (a2, Some [0..<8], 0)"
    by (auto simp: AnalogCore_Setup_def AN_CHANNELS_def simp del: upt_rec_numeral)
  obtain g where m: "MetrologyCore_Init ieee (cosine env) (dft_block env) (Some core0) 256 15360 60 =
      Some (Some (core0\<lparr>mc_goertzel := g, mc_Points := 256, mc_fs := 15360, mc_F := 60\<rparr>), 0)"
    using core_init_runs[of "dft_block env", OF blk] by blast
  obtain cpt where cpt: "CPT_Config ieee (heap_of env) cpt0 15360 256 3 = Some (cpt, 0)"
    using ieee_all.config_ready[of "heap_of env" cpt0 256 15360] env(1) assms(2) by auto
  obtain ms where ms: "start_mafs (maf_block env) 0 33 = Some (Some ms)" using start_mafs_runs[of "maf_block env"] env(2) by blast
  from that[OF a1(1) m a2 cpt ms] show thesis .
qed

lemma meter_starts_core:
  assumes "platform env b (sys a)" "length (Phase cpt0) = 3" "shape 8 15360 (ch_data a)"
    and "length (VChannels core0) = 3" "length (IChannels core0) = 3"
  shows "\<exists>st. meter_start ieee env cpt0 core0 a = Some (Inr st) \<and> meter_ok st \<and>
    map fsamples (VChannels (mt_core st)) = [2, 1, 0] \<and> map fsamples (IChannels (mt_core st)) = [3, 6, 7] \<and>
    (\<forall>n. \<exists>st'. run_opt (\<lambda>st _. meter_measure ieee env st) st (replicate n ()) = Some st' \<and> meter_ok st')"
proof -
  let ?e = "acq_of env"
  have env: "is_root env" "sched_ok env" "mlock_ok env" "socket_ok env" "connect_ok env" "\<And>k. mal (heap_of env) k"
      "memory_pool (hostos ?e)"
    using assms(1) by (simp_all add: platform_def Let_def)
  obtain a1 a2 g cpt ms where s: "AnalogCore_Init (acq_of env) a = Some (a1, 0)"
    "MetrologyCore_Init ieee (cosine env) (dft_block env) (Some core0) 256 15360 60 =
      Some (Some (core0\<lparr>mc_goertzel := g, mc_Points := 256, mc_fs := 15360, mc_F := 60\<rparr>), 0)"
    "AnalogCore_Setup (acq_of env) (map_junk env) (Some []) a1 = Some (a2, Some [0..<8], 0)"
    "CPT_Config ieee (heap_of env) cpt0 15360 256 3 = Some (cpt, 0)" "start_mafs (maf_block env) 0 33 = Some (Some ms)"
    using start_steps[OF assms(1,2)] by metis
  have "\<exists>st. meter_start ieee env cpt0 core0 a = Some (Inr st)"
    using env(1-5) s assms(4,5) by (simp add: meter_start_def sizes wire_def del: upt_rec_numeral)
  then obtain st where st: "meter_start ieee env cpt0 core0 a = Some (Inr st)" by blast
  have "meter_ok st \<and> map fsamples (VChannels (mt_core st)) = [2, 1, 0] \<and> map fsamples (IChannels (mt_core st)) = [3, 6, 7]"
    using start_sound[OF st env(6) assms(2,3)] env(7) unfolding memory_pool_def by (metis option.inject)
  with st show ?thesis using measure_seconds[of st env] by (intro exI[of _ st]) blast
qed

text \<open>
  C9. The meter starts and keeps measuring. On the platform it is written for (root, a mapped PRU subsystem, a memory pool
  of the buffer's size, both firmware files, memory for the filters), with an engine and a metrology core that have three phases,
  start-up succeeds; the voltage channels are wired to rows 2, 1, 0 and the currents to rows 3, 6, 7 of the acquired
  table, and from there the measurements of any number of seconds run without a fault, whatever the PRUs deliver.
\<close>

theorem meter_starts:
  assumes "platform env b (sys a)" "length (Phase cpt0) = 3" "shape 8 15360 (ch_data a)"
    and "length (VChannels core0) = 3" "length (IChannels core0) = 3"
  shows "\<exists>st. meter_start ieee env cpt0 core0 a = Some (Inr st) \<and> meter_ok st \<and>
    map fsamples (VChannels (mt_core st)) = [2, 1, 0] \<and> map fsamples (IChannels (mt_core st)) = [3, 6, 7] \<and>
    (\<forall>n. \<exists>st'. run_opt (\<lambda>st _. meter_measure ieee env st) st (replicate n ()) = Some st' \<and> meter_ok st')"
  using assms by (rule meter_starts_core)

definition start_env :: main_env where
  "start_env = quiet_env\<lparr>acq_of := still_env\<lparr>hostos := am33_os\<lparr>os_file := \<lambda>_ _. Some (4, [1, 2, 3, 4]),
     sysfs := \<lambda>_ f. Some (if f = ''/sys/class/uio/uio0/maps/map1/size'' then 0x100000 else 0x40000)\<rparr>\<rparr>,
     dft_block := \<lambda>_. Some (replicate 256 FNaN), maf_block := \<lambda>_. Some (\<lambda>_. FNaN)\<rparr>"

lemma start_env_platform: "platform start_env 0x10000000 am33_idle"
proof -
  have "am33_system (hostos (acq_of start_env)) 0x10000000 am33_idle"
    by (simp add: start_env_def am33_system_def am33_os_def am33_idle_def idle_pru_def)
  moreover have "memory_pool (hostos (acq_of start_env))"
    by (simp add: start_env_def memory_pool_def am33_os_def)
  moreover have "firmware (hostos (acq_of start_env)) f" for f by (simp add: start_env_def firmware_def)
  ultimately show ?thesis
    by (simp add: platform_def Let_def) (simp add: start_env_def quiet_env_def still_env_def whole_env_def)
qed

theorem meter_starts_witness:
  "\<exists>st. meter_start ieee start_env blank_cpt meter_setup (idle_acq\<lparr>sys := am33_idle\<rparr>) = Some (Inr st) \<and> meter_ok st \<and>
    map fsamples (VChannels (mt_core st)) = [2, 1, 0] \<and> map fsamples (IChannels (mt_core st)) = [3, 6, 7] \<and>
    (\<forall>n. \<exists>st'. run_opt (\<lambda>st _. meter_measure ieee start_env st) st (replicate n ()) = Some st' \<and> meter_ok st')"
proof (rule meter_starts)
  show "platform start_env 0x10000000 (sys (idle_acq\<lparr>sys := am33_idle\<rparr>))" using start_env_platform by simp
  show "shape 8 15360 (ch_data (idle_acq\<lparr>sys := am33_idle\<rparr>))" by (simp add: idle_acq_def shape_replicate del: replicate.simps)
qed (simp_all add: blank_cpt_def meter_setup_def)

end
