(* ===== verification/Meter_Loop.thy ===== *)
theory Meter_Loop
  imports Meter_Start
begin

text \<open>
  The application's endless loop as a transition system: the states that start-up and any number of whole seconds reach, and what holds
  in all of them: the state is sound, the messages fit, the log holds a block for every second it could be opened in, and the
  counter of lost packets never counts, because \<open>lastEventN\<close> is not updated.
\<close>

section \<open>Reachable states\<close>

inductive meter_reach :: "rnd \<Rightarrow> main_env \<Rightarrow> meter \<Rightarrow> meter \<Rightarrow> bool" for rd env st0 where
  loop_start: "meter_reach rd env st0 st0"
| loop_second: "meter_reach rd env st0 st \<Longrightarrow> meter_second rd env st = Some st' \<Longrightarrow> meter_reach rd env st0 st'"

lemma reach_seconds:
  "run_opt (\<lambda>st _. meter_second rd env st) st (replicate n ()) = Some st' \<Longrightarrow> meter_reach rd env st0 st \<Longrightarrow> meter_reach rd env st0 st'"
  by (induction n arbitrary: st) (auto intro: loop_second split: option.splits)

lemma main_reaches:
  assumes "meter_main rd env cpt0 core0 a n = Some (Inr st)"
  obtains st0 where "meter_start rd env cpt0 core0 a = Some (Inr st0)" "meter_reach rd env st0 st"
proof -
  obtain r where r: "meter_start rd env cpt0 core0 a = Some r" using assms by (auto simp: meter_main_def bind_Some)
  with assms obtain st0 where "r = Inr st0" "run_opt (\<lambda>st _. meter_second rd env st) st0 (replicate n ()) = Some st"
    by (cases r) (auto simp: meter_main_def bind_Some)
  with r that show thesis using reach_seconds[OF _ loop_start] by blast
qed

section \<open>A second's message and log\<close>

lemma send_fields_bound:
  "send_fields nan ms fs msg = Some m \<Longrightarrow> length msg \<le> 1000 \<Longrightarrow> length m \<le> 1000 \<and> (\<exists>x. m = msg @ x \<and> (fs \<noteq> [] \<longrightarrow> x \<noteq> []))"
proof (induction fs arbitrary: msg)
  case (Cons f fs)
  obtain i a where f: "f = (i, a)" by (cases f)
  have "\<exists>t. length msg + length t + 1 \<le> 1000 \<and> send_fields nan ms fs (msg @ t @ '','') = Some m"
  proof -
    obtain t m' where "put msg t = Some m'" "send_fields nan ms fs (m' @ '','') = Some m" using Cons.prems(1) by (auto simp: f bind_Some)
    then show ?thesis by (intro exI[of _ t]) (auto simp: put_def MESSAGE_SIZE_def split: if_split_asm)
  qed
  then obtain t where t: "length msg + length t + 1 \<le> 1000" "send_fields nan ms fs (msg @ t @ '','') = Some m" by blast
  then show ?case using Cons.IH[OF t(2)] by auto
qed simp

lemma send_data_bound:
  assumes "send_data nan ms = Some msg"
  shows "length msg < 1000 \<and> take 7 msg = ''$bbb:1,''"
proof -
  let ?fs = "List.product [0..<APP_PHASES] attributes"
  obtain m where m: "send_fields nan ms ?fs ''$bbb:1,'' = Some m" "msg = butlast m"
    using assms by (auto simp: send_data_def put_def MESSAGE_SIZE_def bind_Some)
  have "?fs \<noteq> []" by (simp add: attributes_def APP_PHASES_def upt_rec)
  with send_fields_bound[OF m(1)] obtain x where x: "m = ''$bbb:1,'' @ x" "x \<noteq> []" "length m \<le> 1000" by auto
  then show ?thesis by (simp add: m(2) butlast_append)
qed

lemma write_chunks_all:
  "cnt * (i + n) \<le> length ps \<Longrightarrow> write_chunks ps cnt i n out = Some (out @ take (cnt * n) (drop (cnt * i) ps))"
proof (induction n arbitrary: i out)
  case (Suc n)
  have "cnt * (Suc i + n) \<le> length ps" "\<not> length ps < cnt * i + cnt" using Suc.prems by (simp_all add: distrib_left)
  with Suc.IH[of "Suc i" "out @ take cnt (drop (cnt * i) ps)"] show ?case
    by (simp add: take_add add.commute)
qed simp

lemma write_log_all:
  "length ps = 1440 \<Longrightarrow> WriteLog op ps PARAMS_LEN RAW_PARAM_FREQ out = Some (if op then (out @ ps, 0) else (out, -1))"
  using write_chunks_all[of 36 0 40 ps out] by (simp add: WriteLog_def sizes)

section \<open>What holds in every state of the loop\<close>

text \<open>The blocks of the log: one for every second in which the file could be opened.\<close>

definition logged :: "main_env \<Rightarrow> meter \<Rightarrow> nat" where
  "logged env st = length (filter (log_open env) [0..<length (mt_sent st)])"

definition loop_ok :: "main_env \<Rightarrow> meter \<Rightarrow> meter \<Rightarrow> bool" where
  "loop_ok env st0 st \<longleftrightarrow> meter_ok st \<and> mt_core st = mt_core st0 \<and> mt_channels st = mt_channels st0 \<and>
     mt_lastEventN st = 0 \<and> mt_lost st = 0 \<and> length (mt_log st) = 1440 * logged env st \<and>
     (\<forall>msg \<in> set (mt_sent st). length msg < 1000 \<and> take 7 msg = ''$bbb:1,'')"

lemma measure_frame:
  "meter_measure rd env st = Some st' \<Longrightarrow> mt_core st' = mt_core st \<and> mt_channels st' = mt_channels st \<and>
    mt_lastEventN st' = mt_lastEventN st \<and> (mt_lastEventN st = 0 \<longrightarrow> mt_lost st' = mt_lost st) \<and> mt_sent st' = mt_sent st \<and> mt_log st' = mt_log st"
  by (auto simp: meter_measure_def bind_Some Let_def)

text \<open>A second from a sound state: it stops only at a message that does not fit.\<close>

lemma second_cases:
  assumes "meter_ok st"
  obtains st1 where "meter_measure ieee env st = Some st1" "meter_ok st1"
    "meter_second ieee env st = (case send_data (nan_text env) (mt_maf st1) of None \<Rightarrow> None
      | Some msg \<Rightarrow> Some (st1\<lparr>mt_sent := mt_sent st1 @ [msg],
          mt_log := (if log_open env (length (mt_sent st)) then mt_log st1 @ mt_params st1 else mt_log st1)\<rparr>))"
proof -
  obtain st1 where m: "meter_measure ieee env st = Some st1" "meter_ok st1" using meter_second_core[OF assms] by blast
  have "length (mt_params st1) = 1440" using m(2) by (simp add: meter_ok_def)
  then have "meter_second ieee env st = (case send_data (nan_text env) (mt_maf st1) of None \<Rightarrow> None
      | Some msg \<Rightarrow> Some (st1\<lparr>mt_sent := mt_sent st1 @ [msg],
          mt_log := (if log_open env (length (mt_sent st)) then mt_log st1 @ mt_params st1 else mt_log st1)\<rparr>))"
    using m(1) measure_frame[OF m(1)]
    by (simp add: meter_second_def write_log_all split: option.split)
  with m that show thesis by blast
qed

lemma meter_ok_sent [simp]: "meter_ok (st\<lparr>mt_sent := xs, mt_log := l\<rparr>) = meter_ok st"
  by (simp add: meter_ok_def)

lemma second_loop_ok:
  assumes "loop_ok env st0 st" "meter_second ieee env st = Some st'"
  shows "loop_ok env st0 st'"
proof -
  have "meter_ok st" using assms(1) by (simp add: loop_ok_def)
  then obtain st1 where s: "meter_measure ieee env st = Some st1" "meter_ok st1"
    "meter_second ieee env st = (case send_data (nan_text env) (mt_maf st1) of None \<Rightarrow> None
      | Some msg \<Rightarrow> Some (st1\<lparr>mt_sent := mt_sent st1 @ [msg],
          mt_log := (if log_open env (length (mt_sent st)) then mt_log st1 @ mt_params st1 else mt_log st1)\<rparr>))"
    using second_cases by blast
  then obtain msg where msg: "send_data (nan_text env) (mt_maf st1) = Some msg"
    "st' = st1\<lparr>mt_sent := mt_sent st1 @ [msg],
          mt_log := (if log_open env (length (mt_sent st)) then mt_log st1 @ mt_params st1 else mt_log st1)\<rparr>"
    using assms(2) by (auto split: option.splits)
  have "length (mt_params st1) = 1440" using s(2) by (simp add: meter_ok_def)
  then show ?thesis
    using assms(1) measure_frame[OF s(1)] send_data_bound[OF msg(1)] s(2) unfolding msg(2) by (auto simp: loop_ok_def logged_def)
qed

lemma start_fresh: "meter_start rd env cpt0 core0 a = Some (Inr st) \<Longrightarrow> mt_sent st = [] \<and> mt_log st = [] \<and> mt_lost st = 0 \<and> mt_lastEventN st = 0"
  by (auto simp: meter_start_def bind_Some exit_failure_def exit_failure_ram_def exit_failure_pru_def split: if_splits prod.splits option.splits)

text \<open>
  C10. The loop's states. On the platform the meter is written for, in every state that start-up and whole seconds of the loop
  reach the engine, the filters and the arrays are sound and wired as at the start, every message sent fits its buffer and begins with the
  header, and the log has exactly one block of 1440 values for each second in which the file could be opened; lost packets are
  never counted, whatever the PRUs deliver. The next second runs unless its message does not fit the buffer.
\<close>

theorem loop_states:
  assumes "platform env b (sys a)" "length (Phase cpt0) = 3" "shape 8 15360 (ch_data a)"
    and "meter_start ieee env cpt0 core0 a = Some (Inr st0)" "meter_reach ieee env st0 st"
  shows "loop_ok env st0 st \<and> (\<exists>st1. meter_measure ieee env st = Some st1 \<and>
    (meter_second ieee env st = None \<longleftrightarrow> send_data (nan_text env) (mt_maf st1) = None))"
proof -
  have pl: "\<And>k. mal (heap_of env) k" "memory_pool (hostos (acq_of env))" using assms(1) by (simp_all add: platform_def Let_def)
  have "meter_ok st0"
    using start_sound[OF assms(4) pl(1) assms(2,3)] pl(2) unfolding memory_pool_def by (metis option.inject)
  then have start: "loop_ok env st0 st0" using start_fresh[OF assms(4)] by (simp add: loop_ok_def logged_def)
  have ok: "loop_ok env st0 st" using assms(5) by induction (auto simp: start intro: second_loop_ok)
  then have "meter_ok st" by (simp add: loop_ok_def)
  from second_cases[OF this, of env] obtain st1 where m: "meter_measure ieee env st = Some st1"
    "meter_second ieee env st = (case send_data (nan_text env) (mt_maf st1) of None \<Rightarrow> None
      | Some msg \<Rightarrow> Some (st1\<lparr>mt_sent := mt_sent st1 @ [msg],
          mt_log := (if log_open env (length (mt_sent st)) then mt_log st1 @ mt_params st1 else mt_log st1)\<rparr>))" .
  then have "meter_second ieee env st = None \<longleftrightarrow> send_data (nan_text env) (mt_maf st1) = None"
    by (cases "send_data (nan_text env) (mt_maf st1)") simp_all
  with m(1) ok show ?thesis by (intro conjI exI[of _ st1])
qed

theorem loop_states_witness:
  "\<exists>st0 st. meter_start ieee start_env blank_cpt meter_setup (idle_acq\<lparr>sys := am33_idle\<rparr>) = Some (Inr st0) \<and> meter_reach ieee start_env st0 st \<and>
    loop_ok start_env st0 st"
proof -
  let ?a = "idle_acq\<lparr>sys := am33_idle\<rparr>"
  have a: "platform start_env 0x10000000 (sys ?a)" "length (Phase blank_cpt) = 3" "shape 8 15360 (ch_data ?a)"
      "length (VChannels meter_setup) = 3" "length (IChannels meter_setup) = 3"
    using start_env_platform by (simp_all add: blank_cpt_def meter_setup_def) (simp add: idle_acq_def shape_replicate del: replicate.simps)
  obtain st where st: "meter_start ieee start_env blank_cpt meter_setup ?a = Some (Inr st)" using meter_starts_core[OF a] by blast
  from loop_states[OF a(1-3) st loop_start] st loop_start[of ieee start_env st] show ?thesis by blast
qed

end
