(* ===== verification/Meter_Exit.thy ===== *)
theory Meter_Exit
  imports Meter_Start
begin

text \<open>
  What a failed start-up leaves behind: the exit code, and exactly which stores, unmappings and closings the jumps to the
  failure labels of \<open>main\<close> make, for every step that can fail.
\<close>

section \<open>The clean-up calls\<close>






section \<open>Start-up failures\<close>











end
