(* ===== verification/Spec2Isabelle.thy ===== *)
theory Spec2Isabelle
  imports CPT_Power Goertzel_Filter Prussdrv_Props Acquisition_Props Metrology Waveforms Pasm_Exec Pasm_Branch Pasm_Struct_Props
    Pasm_Total Meter_Loop Meter_Exit
begin

text \<open>
  A verification development for the energy meter of the BeagleBone: the application under
  \<open>EnergyMeter/CognitiveEnergyMeter\<close>, the user-space driver of the PRUs that it is linked with
  (\<open>system/am335x/am335x_pru_package/pru_sw/app_loader\<close>) and the assembler that makes the PRUs' programs
  (\<open>pru_sw/utils/pasm_source\<close>).

  \<^bold>\<open>The program.\<close> Every second the PRUs leave 3840 packets of 8 channels with 4 samples each in a shared RAM and raise an
  event. The application (\<open>main.cpp\<close>) waits for it through the driver (\<open>prussdrv.c\<close>), copies the half of the buffer that is
  full (\<open>DAQ.c\<close>, \<open>Mem.c\<close>, \<open>pru.c\<close>), decodes it (\<open>AnalogCore.c\<close>), scales three voltages and three currents
  (\<open>MetrologyCore.c\<close>) and runs the conservative power theory engine (\<open>CPT.c\<close>) on each of the 15360 samples. The engine's running means and
  the averages over 60 cycles are moving average filters (\<open>MAF.c\<close>). The averages are sent to a server, the raw values
  logged. Harmonics come from a Goertzel filter bank (\<open>Goertzel.c\<close>). The firmware files that start-up loads into the
  PRUs are the assembler's output.

  \<^bold>\<open>The theories.\<close> \<open>Prelude\<close> has array access with bounds (\<open>rd_at\<close>, \<open>wr_at\<close>), loops that may fault (\<open>run_opt\<close>) and their
  rules. The C is translated function by function under its own names; a struct is a record, a pointer that may be NULL an option, a C
  integer a word of its width (or an integer where the range is checked), and undefined behaviour the outer
  \<open>None\<close>, in the assembler \<open>Stuck\<close>. Parts of a long function that the model names have a definition of their own.

  \<^item> \<open>Fp\<close>: the floating-point numbers of the C sources. Arithmetic takes the rounding as a parameter; the locale \<open>rounding\<close> is interpreted on
    IEEE rounding (\<open>ieee\<close>) and on exact arithmetic (\<open>exact\<close>), the specification the numeric code is read against.
  \<^item> \<open>MAF\<close>: \<open>MAF.c\<close>. The contracts \<open>sliding_window\<close> and \<open>summing\<close>; the window of the last samples, the exact mean, and a
    bound on the drift of the running sum in double precision.
  \<^item> \<open>CPT\<close>, \<open>CPT_Safety\<close>, \<open>CPT_Props\<close>, \<open>CPT_Power\<close>: \<open>CPT.c\<close>. The loops over the phases are instances of one contract;
    the same argument gives memory safety under IEEE arithmetic and, in exact arithmetic, that every field ends up finite.
    Then the decomposition of the currents, and why the power factor is at most one (Cauchy-Schwarz over the windows).
  \<^item> \<open>Goertzel_Filter\<close>, \<open>Metrology\<close>, \<open>Waveforms\<close>: \<open>Goertzel.c\<close>, \<open>MetrologyCore.c\<close>, \<open>Waveform.c\<close>. The recurrence against the discrete
    Fourier sum, scaling and harmonics per cycle, and the search for the zero crossing.
  \<^item> \<open>Prussdrv\<close>, \<open>Prussdrv_Props\<close>: \<open>prussdrv.c\<close> over an abstract device (its memory and the sequence of stores made to it) and an
    abstract operating system: the interrupt controller's set-up store by store, loading of programs, the mapping of the memories.
  \<^item> \<open>Acquisition\<close>, \<open>Acquisition_Props\<close>: \<open>pru.c\<close>, \<open>Mem.c\<close>, \<open>DAQ.c\<close>, \<open>AnalogCore.c\<close>. Routing of the events, the pool's
    place in its page, the half of the buffer that is read, and the value of each decoded sample.
  \<^item> \<open>Meter\<close>, \<open>Meter_Props\<close>, \<open>Meter_Start\<close>, \<open>Meter_Exit\<close>, \<open>Meter_Loop\<close>: \<open>main.cpp\<close>, which composes the parts above. What a second leaves in the
    filters and in the raw values; the message's bound; start-up, its success on the platform it is written for and what each of its
    failures leaves behind; the loop as a transition system and what holds in its reachable states.
  \<^item> \<open>Pasm_State\<close>, \<open>Pasm_Tables\<close>: the assembler's globals, code image (\<open>GenOp\<close>), reserved words and tables of names.
  \<^item> \<open>Pasm_Exp\<close>, \<open>Pasm_Exp_Props\<close>, \<open>Pasm_Exp_Print\<close>: \<open>pasmexp.c\<close>. The evaluator terminates and computes, from a printed expression, the
    value of its tree.
  \<^item> \<open>Pasm_Arg\<close>, \<open>Pasm_Op\<close>, \<open>Pasm_Op_Frame\<close>, \<open>Pasm_Text\<close>, \<open>Pasm_Encode\<close>, \<open>Pasm_Exec\<close>, \<open>Pasm_Branch\<close>: \<open>pasmop.c\<close>. Operands and every case of
    \<open>ProcessOp\<close>; what an operand reader and an instruction may change (locales \<open>operand_reader\<close> and \<open>encoder_invariant\<close>);
    the words read back as the operands; and the effect of the sequences that replace MOV of an immediate and ZERO.
  \<^item> \<open>Pasm_Struct\<close>, \<open>Pasm_Struct_Props\<close>, \<open>Pasm_Line\<close>, \<open>Pasm_PP\<close>, \<open>Pasm_Macro\<close>, \<open>Pasm_Driver\<close>: \<open>pasmstruct.c\<close>, \<open>pasmdot.c\<close>, \<open>pasmpp.c\<close>,
    \<open>pasmmacro.c\<close>, \<open>path_utils.c\<close> and the passes of \<open>pasm.c\<close>. Layout of structures and the registers an assignment names.
  \<^item> \<open>Pasm_Main\<close>, \<open>Pasm_Main_Props\<close>: \<open>pasm.c\<close>, the command line, the writers and the listing. Limits, exit code and files, the writers'
    buffers, and a program's way through the binary file and the driver into the instruction memory.
  \<^item> \<open>Pasm_Inv\<close>, \<open>Pasm_Inv_Props\<close>: the contract \<open>assembler_invariant\<close> (what a predicate has to survive, operation by operation, to hold
    throughout the driver) and its interpretation on the soundness of image, error counts and tables.
  \<^item> \<open>Pasm_Ends\<close>, \<open>Pasm_Frame\<close>, \<open>Pasm_Total\<close>: the assembler terminates, on every input whose comments are closed.

  \<^bold>\<open>Interfaces.\<close> A locale states each contract between parts: \<open>rounding\<close> (arithmetic for the numeric code), \<open>sliding_window\<close> and \<open>summing\<close>
  (a filter for its clients), \<open>phase_loop\<close>, \<open>phase_rel\<close>, \<open>core_loop\<close> and \<open>closed_arith\<close> (loops over the phases, and the arithmetic they are safe in),
  \<open>operand_reader\<close>, \<open>encoder_invariant\<close> and \<open>assembler_invariant\<close>. Each is interpreted on the definitions of the model, and the properties
  rest on these interpretations.

  \<^bold>\<open>Fuel.\<close> A loop of the C that is bounded by its data is a recursion on it. The evaluator of expressions gets fuel
  from the length of the text, and never runs out of it. The preprocessor and the driver, whose loops follow the
  source and nest through includes and macros, take the amount as an argument; \<open>assembler_terminates\<close> shows that every input with
  closed comments has an amount from which on the result is one and the same. Its ordering is by open files (at most
  15), text left to read, macros that can be expanded, and the letters p of a generated line. An unclosed comment is read on
  forever (\<open>open_comment_runs_on\<close>).

  \<^bold>\<open>Parameters.\<close> What is not under \<open>src\<close> is an argument: the operating system's answers (\<open>os_env\<close>, \<open>acq_env\<close>, \<open>heap_env\<close>,
  \<open>main_env\<close>), where the k-th call may answer differently from the one before; what the PRUs put into the shared RAM;
  the cosine of the C library; the files the assembler reads and whether an output file can be opened.

  \<^bold>\<open>Not modelled.\<close> The texts of messages, the debug output and the raw listing of the second pass; what a write to an open file or a
  closing of one returns; a fault of a store to the device through an address that is not mapped (it is recorded like any other); the failure of small allocations in the assembler. \<open>Board.c\<close> prints one line. The vendor's C examples
  only call the driver. The PRU firmware is assembly for a processor that is not described in the sources, beyond the LDI
  instruction that the expansions of MOV and ZERO use. The Python bindings and logger, the MySQL headers (no source includes them),
  the kernel image, boards, documents and the stand-alone experiments are not part of the meter's C code.
\<close>

end
